(* ===== verification/Prelude.thy ===== *)
theory Prelude
  imports Complex_Main
begin

text \<open>
  Shared vocabulary of the development: Python numbers and timestamps, bounded deques,
  rounding, and the generic lemmas and fact collections the components use.

  Prices, volumes and every other finite Python \<open>float\<close> are exact rationals
  (\<open>flt\<close>); a raw market value may also be NaN or infinite (\<open>pyfloat\<close>). Rounding of
  single float operations and overflow to infinity are not modelled; the explicit
  \<open>round(x, n)\<close> calls and epsilon guards of the code are.
\<close>

section \<open>Fact collections\<close>

named_theorems inv_intros \<open>an operation keeps its component's invariant\<close>
named_theorems frame_simps \<open>fields an operation leaves unchanged\<close>

section \<open>Numbers\<close>

type_synonym flt = rat

datatype pyfloat = Fin flt | NaN | PosInf | NegInf

text \<open>\<open>math.isfinite\<close>.\<close>

fun isfinite :: "pyfloat \<Rightarrow> bool" where
  "isfinite (Fin _) = True"
| "isfinite _ = False"

fun fin_val :: "pyfloat \<Rightarrow> flt" where
  "fin_val (Fin x) = x"
| "fin_val _ = 0"

text \<open>Python's \<open>round(x)\<close>: to the nearest integer, ties to even; \<open>round(x, n)\<close> likewise
  on the scaled value.\<close>

definition round_even :: "flt \<Rightarrow> int" where
  "round_even x =
     (let f = \<lfloor>x\<rfloor>; d = x - of_int f
      in if d < 1 / 2 then f else if 1 / 2 < d then f + 1
         else if even f then f else f + 1)"

definition round_dp :: "nat \<Rightarrow> flt \<Rightarrow> flt" where
  "round_dp n x = of_int (round_even (x * 10 ^ n)) / 10 ^ n"

lemma round_even_near: "\<bar>of_int (round_even x) - x\<bar> \<le> 1 / 2"
proof -
  define f where "f = \<lfloor>x\<rfloor>"
  have "of_int f \<le> x" "x < of_int f + 1" using floor_correct [of x] by (simp_all add: f_def)
  then show ?thesis
    by (auto simp: round_even_def Let_def f_def [symmetric] abs_le_iff)
qed

lemma round_even_of_int [simp]: "round_even (of_int n) = n"
  by (simp add: round_even_def)

lemma round_even_zero [simp]: "round_even 0 = 0"
  using round_even_of_int [of 0] by simp

lemma round_even_mono: "x \<le> y \<Longrightarrow> round_even x \<le> round_even y"
proof -
  assume le: "x \<le> y"
  define f g where "f = \<lfloor>x\<rfloor>" and "g = \<lfloor>y\<rfloor>"
  have fg: "f \<le> g" using le by (simp add: f_def g_def floor_mono)
  have x: "of_int f \<le> x" "x < of_int f + 1" using floor_correct [of x] by (simp_all add: f_def)
  have y: "of_int g \<le> y" "y < of_int g + 1" using floor_correct [of y] by (simp_all add: g_def)
  show ?thesis
  proof (cases "f = g")
    case True
    then show ?thesis using le
      by (auto simp: round_even_def Let_def f_def [symmetric] g_def [symmetric])
  next
    case False
    then have "f + 1 \<le> g" using fg by simp
    then show ?thesis
      by (auto simp: round_even_def Let_def f_def [symmetric] g_def [symmetric])
  qed
qed

lemma round_even_nonneg: "0 \<le> x \<Longrightarrow> 0 \<le> round_even x"
  using round_even_mono [of 0 x] by simp

lemma round_dp_zero [simp]: "round_dp n 0 = 0"
  by (simp add: round_dp_def)

lemma round_dp_nonneg: "0 \<le> x \<Longrightarrow> 0 \<le> round_dp n x"
  by (simp add: round_dp_def round_even_nonneg)

lemma round_dp_mono: "x \<le> y \<Longrightarrow> round_dp n x \<le> round_dp n y"
  by (simp add: round_dp_def divide_right_mono round_even_mono mult_right_mono)

lemma round_dp_near: "\<bar>round_dp n x - x\<bar> \<le> 1 / (2 * 10 ^ n)"
proof -
  have p: "(0::flt) < 10 ^ n" by simp
  have "\<bar>of_int (round_even (x * 10 ^ n)) - x * 10 ^ n\<bar> \<le> 1 / 2" by (rule round_even_near)
  then have "\<bar>of_int (round_even (x * 10 ^ n)) - x * 10 ^ n\<bar> / 10 ^ n \<le> (1 / 2) / 10 ^ n"
    using p by (intro divide_right_mono) simp_all
  then have "\<bar>(of_int (round_even (x * 10 ^ n)) - x * 10 ^ n) / 10 ^ n\<bar> \<le> (1 / 2) / 10 ^ n"
    by (simp add: abs_divide)
  then show ?thesis using p by (simp add: round_dp_def diff_divide_distrib)
qed

section \<open>Bounded deques and lists\<close>

text \<open>\<open>collections.deque(maxlen=n)\<close>: appending to a full deque drops the oldest element.\<close>

definition push :: "nat \<Rightarrow> 'a list \<Rightarrow> 'a \<Rightarrow> 'a list" where
  "push n xs x = (let ys = xs @ [x] in drop (length ys - n) ys)"

lemma length_push: "length (push n xs x) = min n (Suc (length xs))"
proof -
  have "length (push n xs x) = length (xs @ [x]) - (length (xs @ [x]) - n)"
    unfolding push_def Let_def by (rule length_drop)
  then show ?thesis by simp
qed

lemma length_push_le: "length (push n xs x) \<le> n"
  by (simp add: length_push)

lemma push_not_full: "length xs < n \<Longrightarrow> push n xs x = xs @ [x]"
  by (simp add: push_def)

lemma push_full: "length xs = n \<Longrightarrow> 0 < n \<Longrightarrow> push n xs x = tl xs @ [x]"
  by (cases xs) (simp_all add: push_def)

lemma set_push_subset: "set (push n xs x) \<subseteq> insert x (set xs)"
  unfolding push_def Let_def by (rule order_trans [OF set_drop_subset]) auto

lemma last_push: "0 < n \<Longrightarrow> push n xs x \<noteq> [] \<and> last (push n xs x) = x"
  by (auto simp: push_def Let_def last_drop)

lemma push_eq_Nil [simp]: "push n xs x = [] \<longleftrightarrow> n = 0"
  by (auto simp: push_def Let_def)

text \<open>The window a deque shows after a whole stream is the stream's last \<open>n\<close> elements.\<close>

lemma push_drop: "push n (drop (length ys - n) ys) x = drop (length (ys @ [x]) - n) (ys @ [x])"
proof (cases "length ys \<le> n")
  case True
  then show ?thesis by (simp add: push_def)
next
  case False
  then have "push n (drop (length ys - n) ys) x
      = drop (Suc n - n) (drop (length ys - n) ys @ [x])"
    by (simp add: push_def)
  also have "\<dots> = drop 1 (drop (length ys - n) (ys @ [x]))"
    using False by simp
  also have "\<dots> = drop (length (ys @ [x]) - n) (ys @ [x])"
    using False by (simp add: Suc_diff_le)
  finally show ?thesis .
qed

lemma foldl_push: "foldl (push n) [] xs = drop (length xs - n) xs"
proof (induction xs rule: rev_induct)
  case Nil
  then show ?case by simp
next
  case (snoc x xs)
  then show ?case by (simp add: push_drop del: length_append)
qed

section \<open>Timestamps\<close>

text \<open>
  A tz-aware \<open>datetime\<close>: microseconds of local wall-clock time since the epoch, and the
  UTC offset (a fixed offset; the engines' contract is tz-aware UTC, offset 0).
  \<open>utc\<close> is the instant; \<open>date_of\<close> the calendar date as a day number;
  \<open>minute_of_day\<close> is \<open>hour * 60 + minute\<close>.
\<close>

record timestamp =
  local_us :: int
  tz_off :: int

definition utc :: "timestamp \<Rightarrow> int" where
  "utc t = local_us t - tz_off t"

definition us_min :: int where "us_min = 60000000"
definition us_day :: int where "us_day = 86400000000"

definition date_of :: "timestamp \<Rightarrow> int" where
  "date_of t = local_us t div us_day"

definition minute_of_day :: "timestamp \<Rightarrow> int" where
  "minute_of_day t = (local_us t mod us_day) div us_min"

definition utc_ts :: "int \<Rightarrow> timestamp" where
  "utc_ts us = \<lparr>local_us = us, tz_off = 0\<rparr>"

lemma utc_utc_ts [simp]: "utc (utc_ts u) = u"
  by (simp add: utc_def utc_ts_def)

lemma minute_of_day_bounds: "0 \<le> minute_of_day t \<and> minute_of_day t < 1440"
proof -
  define m where "m = local_us t mod us_day"
  have m: "0 \<le> m" "m \<le> 86399999999"
    using pos_mod_bound [of us_day "local_us t"] by (simp_all add: m_def us_day_def)
  have "m div us_min \<le> 86399999999 div us_min" by (rule zdiv_mono1) (use m in \<open>simp_all add: us_min_def\<close>)
  moreover have "0 \<le> m div us_min" using m by (simp add: us_min_def pos_imp_zdiv_nonneg_iff)
  ultimately show ?thesis by (simp add: minute_of_day_def us_min_def m_def)
qed

text \<open>\<open>(a - b).total_seconds()\<close> on aware timestamps.\<close>

definition secs_between :: "timestamp \<Rightarrow> timestamp \<Rightarrow> flt" where
  "secs_between a b = of_int (utc a - utc b) / 1000000"

section \<open>Options\<close>

text \<open>Python's truth test on an optional number: \<open>None\<close> and zero are false.\<close>

definition truthy :: "flt option \<Rightarrow> bool" where
  "truthy x = (case x of None \<Rightarrow> False | Some v \<Rightarrow> v \<noteq> 0)"

lemma truthy_simps [simp]: "truthy None = False" "truthy (Some v) = (v \<noteq> 0)"
  by (simp_all add: truthy_def)

end
