(* ===== verification/Models.thy ===== *)
theory Models
  imports Prelude
begin

text \<open>
  The data model of \<open>orb/models.py\<close>: errors, enums, candles and their validation, the
  engine configuration with its constructor checks, and the output records (signals,
  transitions, positions) every engine emits.

  Exceptions are values of \<open>error\<close>. A transition's \<open>detail\<close> text is kept as structured
  data (the numbers the f-string prints), not as formatted text.
\<close>

section \<open>Errors\<close>

datatype candle_fault =
    NaiveTimestamp | NonFiniteOhlc | NonFiniteVolume | NegativeVolume
  | HighBelowLow | HighBelowBody | LowAboveBody

datatype error =
    CandleError candle_fault
  | OutOfOrderError
  | ConfigError string
  | IndicatorError string
  | ValueError string
  | AttributeError
  | BrokerError string
  | AssertionError
  | TypeError
  | KeyError
  | OverflowError

section \<open>Enums\<close>

datatype state = IDLE | RANGE_DEFINED | BREAKOUT | EXIT
datatype direction = LONG | SHORT
datatype exit_reason =
    TAKE_PROFIT | TRAIL_STOP | BROKER_CLOSED | RANGE_REENTRY | SESSION_END | GAP_INVALIDATE
datatype signal_kind = ENTRY | EXIT_SIG | REJECT

text \<open>\<open>reason.value.lower()\<close> and \<open>direction.value.lower()\<close>.\<close>

fun exit_reason_str :: "exit_reason \<Rightarrow> string" where
  "exit_reason_str TAKE_PROFIT = ''take_profit''"
| "exit_reason_str TRAIL_STOP = ''trail_stop''"
| "exit_reason_str BROKER_CLOSED = ''broker_closed''"
| "exit_reason_str RANGE_REENTRY = ''range_reentry''"
| "exit_reason_str SESSION_END = ''session_end''"
| "exit_reason_str GAP_INVALIDATE = ''gap_invalidate''"

fun direction_str :: "direction \<Rightarrow> string" where
  "direction_str LONG = ''long''"
| "direction_str SHORT = ''short''"

section \<open>Candles\<close>

text \<open>
  A candle as it arrives (\<open>raw_candle\<close>: the timestamp may be naive, a price may be
  NaN or infinite) and as the engine uses it after \<open>validate\<close>. The tz offset of the raw
  timestamp is \<open>None\<close> for a naive one.
\<close>

record raw_candle =
  r_local :: int
  r_tz :: "int option"
  r_open :: pyfloat
  r_high :: pyfloat
  r_low :: pyfloat
  r_close :: pyfloat
  r_volume :: pyfloat

record candle =
  c_ts :: timestamp
  c_open :: flt
  c_high :: flt
  c_low :: flt
  c_close :: flt
  c_volume :: flt

definition validate :: "raw_candle \<Rightarrow> error + candle" where
  "validate r =
     (case r_tz r of
        None \<Rightarrow> Inl (CandleError NaiveTimestamp)
      | Some tz \<Rightarrow>
        if \<not> (isfinite (r_open r) \<and> isfinite (r_high r) \<and> isfinite (r_low r)
              \<and> isfinite (r_close r)) then Inl (CandleError NonFiniteOhlc)
        else if \<not> isfinite (r_volume r) then Inl (CandleError NonFiniteVolume)
        else
          let o' = fin_val (r_open r); h = fin_val (r_high r); l = fin_val (r_low r);
              c = fin_val (r_close r); v = fin_val (r_volume r)
          in if v < 0 then Inl (CandleError NegativeVolume)
             else if h < l then Inl (CandleError HighBelowLow)
             else if h < max o' c then Inl (CandleError HighBelowBody)
             else if min o' c < l then Inl (CandleError LowAboveBody)
             else Inr \<lparr>c_ts = \<lparr>local_us = r_local r, tz_off = tz\<rparr>, c_open = o',
                       c_high = h, c_low = l, c_close = c, c_volume = v\<rparr>)"

text \<open>The geometry a validated candle has.\<close>

definition candle_ok :: "candle \<Rightarrow> bool" where
  "candle_ok c \<longleftrightarrow> c_low c \<le> c_open c \<and> c_open c \<le> c_high c
     \<and> c_low c \<le> c_close c \<and> c_close c \<le> c_high c \<and> 0 \<le> c_volume c"

lemma candle_ok_high_low: "candle_ok c \<Longrightarrow> c_low c \<le> c_high c"
  by (auto simp: candle_ok_def)

text \<open>The raw form of a validated candle.\<close>

definition raw_of :: "candle \<Rightarrow> raw_candle" where
  "raw_of c = \<lparr>r_local = local_us (c_ts c), r_tz = Some (tz_off (c_ts c)),
     r_open = Fin (c_open c), r_high = Fin (c_high c), r_low = Fin (c_low c),
     r_close = Fin (c_close c), r_volume = Fin (c_volume c)\<rparr>"

lemma isfinite_Fin: "isfinite x \<Longrightarrow> Fin (fin_val x) = x"
  by (cases x) simp_all

lemma validate_InrD:
  assumes "validate r = Inr c"
  shows "raw_of c = r" and "candle_ok c"
proof -
  from assms obtain tz where tz: "r_tz r = Some tz"
    by (auto simp: validate_def split: option.splits)
  show "candle_ok c" using assms tz
    by (auto simp: validate_def Let_def candle_ok_def split: if_splits)
  show "raw_of c = r" using assms tz
    by (auto simp: validate_def Let_def raw_of_def isfinite_Fin split: if_splits
        intro!: raw_candle.equality)
qed

lemma validate_raw_of: "candle_ok c \<Longrightarrow> validate (raw_of c) = Inr c"
  by (auto simp: validate_def raw_of_def candle_ok_def Let_def max_def min_def)

section \<open>Engine configuration\<close>

text \<open>\<open>OrbConfig\<close>. \<open>session_open_utc\<close> is microseconds since midnight; the enumerated
  options stay strings, checked by the constructor as in the code (the inner quotes of three
  messages are left out).\<close>

record orb_config =
  oc_session_open :: int
  oc_session_len :: int
  oc_range_minutes :: int
  oc_use_roc :: bool
  oc_roc_period :: int
  oc_roc_min :: flt
  oc_use_rvol :: bool
  oc_rvol_period :: int
  oc_rvol_min :: flt
  oc_atr_period :: int
  oc_atr_mult :: flt
  oc_stop_max :: "flt option"
  oc_stop_min :: "flt option"
  oc_reentry_on :: string
  oc_qty :: flt
  oc_tp_rrr :: "flt option"
  oc_tp_frac :: flt
  oc_allow_long :: bool
  oc_allow_short :: bool
  oc_one_trade :: bool
  oc_rearm :: bool
  oc_rearm_range :: string
  oc_bar_sec :: int
  oc_max_gap :: int
  oc_on_gap :: string
  oc_strict :: bool

definition orb_defaults :: orb_config where
  "orb_defaults = \<lparr>oc_session_open = 0, oc_session_len = 480, oc_range_minutes = 5,
     oc_use_roc = True, oc_roc_period = 5, oc_roc_min = 5 / 100,
     oc_use_rvol = False, oc_rvol_period = 20, oc_rvol_min = 3 / 2,
     oc_atr_period = 14, oc_atr_mult = 3 / 2, oc_stop_max = None, oc_stop_min = None,
     oc_reentry_on = ''close'', oc_qty = 0, oc_tp_rrr = None, oc_tp_frac = 1,
     oc_allow_long = True, oc_allow_short = True, oc_one_trade = True, oc_rearm = False,
     oc_rearm_range = ''rebuild'', oc_bar_sec = 60, oc_max_gap = 3, oc_on_gap = ''hold'',
     oc_strict = True\<rparr>"

text \<open>\<open>x is not None and x <= 0\<close>.\<close>

definition opt_nonpos :: "flt option \<Rightarrow> bool" where
  "opt_nonpos x = (case x of None \<Rightarrow> False | Some v \<Rightarrow> v \<le> 0)"

definition opt_gt :: "flt option \<Rightarrow> flt option \<Rightarrow> bool" where
  "opt_gt x y = (case x of None \<Rightarrow> False
     | Some a \<Rightarrow> (case y of None \<Rightarrow> False | Some b \<Rightarrow> a > b))"

definition orb_config_init :: "orb_config \<Rightarrow> error + orb_config" where
  "orb_config_init g =
    (if oc_range_minutes g < 1 then Inl (ConfigError ''range_minutes must be >= 1'')
     else if oc_roc_period g < 1 then Inl (ConfigError ''roc_period must be >= 1'')
     else if oc_rvol_period g < 1 then Inl (ConfigError ''rvol_period must be >= 1'')
     else if oc_atr_period g < 1 then Inl (ConfigError ''atr_period must be >= 1'')
     else if oc_atr_mult g \<le> 0 then Inl (ConfigError ''atr_mult must be > 0'')
     else if opt_nonpos (oc_stop_max g) then Inl (ConfigError ''stop_max_dist must be > 0'')
     else if opt_nonpos (oc_stop_min g) then Inl (ConfigError ''stop_min_dist must be > 0'')
     else if opt_gt (oc_stop_min g) (oc_stop_max g)
       then Inl (ConfigError ''stop_min_dist must be <= stop_max_dist'')
     else if oc_qty g < 0 then Inl (ConfigError ''qty must be >= 0'')
     else if opt_nonpos (oc_tp_rrr g) then Inl (ConfigError ''tp_rrr must be > 0'')
     else if \<not> (0 < oc_tp_frac g \<and> oc_tp_frac g \<le> 1)
       then Inl (ConfigError ''tp_close_frac must be in (0, 1]'')
     else if oc_rearm_range g \<notin> {''rebuild'', ''keep''}
       then Inl (ConfigError ''rearm_range must be rebuild or keep'')
     else if oc_reentry_on g \<notin> {''close'', ''intrabar''}
       then Inl (ConfigError ''reentry_on must be close or intrabar'')
     else if oc_on_gap g \<notin> {''hold'', ''reset''}
       then Inl (ConfigError ''on_gap must be hold or reset'')
     else if \<not> (oc_allow_long g \<or> oc_allow_short g)
       then Inl (ConfigError ''at least one of allow_long/allow_short must be True'')
     else if oc_session_len g \<le> oc_range_minutes g
       then Inl (ConfigError ''session_len_min must exceed range_minutes'')
     else if oc_bar_sec g < 1 then Inl (ConfigError ''expected_bar_sec must be >= 1'')
     else if oc_max_gap g < 0 then Inl (ConfigError ''max_gap_bars must be >= 0'')
     else Inr g)"

text \<open>What a constructed configuration satisfies; \<open>oc_session_open\<close> is a time of day by type.\<close>

definition orb_config_ok :: "orb_config \<Rightarrow> bool" where
  "orb_config_ok g \<longleftrightarrow> orb_config_init g = Inr g \<and> 0 \<le> oc_session_open g
     \<and> oc_session_open g < us_day"

definition warmup_bars :: "orb_config \<Rightarrow> int" where
  "warmup_bars g = Max (set ([oc_range_minutes g]
     @ (if oc_use_roc g then [oc_roc_period g + 1] else [])
     @ (if oc_use_rvol g then [oc_rvol_period g] else [])
     @ [oc_atr_period g + 1]))"

lemma orb_config_init_cases: "orb_config_init g = Inr g' \<Longrightarrow> g' = g"
  by (simp add: orb_config_init_def split: if_splits)

lemma orb_config_okD:
  assumes "orb_config_ok g"
  shows "1 \<le> oc_range_minutes g" "1 \<le> oc_atr_period g" "1 \<le> oc_roc_period g"
    "1 \<le> oc_rvol_period g" "0 < oc_atr_mult g" "1 \<le> oc_bar_sec g"
    "oc_range_minutes g < oc_session_len g" "0 < oc_tp_frac g" "oc_tp_frac g \<le> 1"
    "0 \<le> oc_qty g" "\<not> opt_nonpos (oc_stop_max g)" "\<not> opt_nonpos (oc_stop_min g)"
    "\<not> opt_gt (oc_stop_min g) (oc_stop_max g)" "\<not> opt_nonpos (oc_tp_rrr g)"
    "0 \<le> oc_session_open g" "oc_session_open g < us_day"
  using assms by (simp_all add: orb_config_ok_def orb_config_init_def not_le not_less
      split: if_splits)

section \<open>Output records\<close>

record signal =
  s_ts :: timestamp
  s_kind :: signal_kind
  s_dir :: direction
  s_price :: flt
  s_from :: state
  s_to :: state
  s_reason :: string
  s_range_high :: "flt option"
  s_range_low :: "flt option"
  s_roc :: "flt option"
  s_rvol :: "flt option"
  s_atr :: "flt option"
  s_stop :: "flt option"
  s_tp :: "flt option"
  s_qty :: "flt option"
  s_bars_held :: "int option"

datatype detail =
    NoDetail
  | RangeOpen flt flt
  | BarsBuilt int
  | RangeLock "flt option" "flt option" int bool bool
  | EntryAt flt flt "flt option"
  | ExitAt flt int
  | PartialAt flt "flt option" int
  | BarsHeld int
  | SessionId int
  | GapOf int bool
  | Rebuild
  | EntryNote flt flt string
  | Note string
  | BiasNote direction

record transition =
  t_ts :: timestamp
  t_from :: state
  t_to :: state
  t_event :: string
  t_detail :: detail

record position =
  p_dir :: direction
  p_entry_ts :: timestamp
  p_entry :: flt
  p_stop :: flt
  p_atr :: flt
  p_tp :: "flt option"
  p_bars :: int
  p_mfe :: flt
  p_mae :: flt

text \<open>What an engine hands its two callbacks, in order.\<close>

datatype emission = Trans transition | Sig signal

end
