(* ===== verification/Session.thy ===== *)
theory Session
  imports Models
begin

text \<open>
  \<open>orb/session.py\<close>: the session clock. A session spans \<open>[open, open + len)\<close> and is keyed
  by the calendar date of its open; a session id is that date's day number (the ISO text
  of the code is a rendering of it). Zones are ordered as they follow each other in time.
\<close>

datatype zone = BEFORE | IN_RANGE_WINDOW | IN_SESSION | AFTER

instantiation zone :: linorder
begin

fun zone_index :: "zone \<Rightarrow> nat" where
  "zone_index BEFORE = 0"
| "zone_index IN_RANGE_WINDOW = 1"
| "zone_index IN_SESSION = 2"
| "zone_index AFTER = 3"

definition less_eq_zone :: "zone \<Rightarrow> zone \<Rightarrow> bool" where
  "less_eq_zone a b = (zone_index a \<le> zone_index b)"

definition less_zone :: "zone \<Rightarrow> zone \<Rightarrow> bool" where
  "less_zone a b = (zone_index a < zone_index b)"

instance
proof
  fix a b :: zone
  show "a \<le> b \<Longrightarrow> b \<le> a \<Longrightarrow> a = b"
    by (cases a; cases b) (simp_all add: less_eq_zone_def)
qed (auto simp: less_eq_zone_def less_zone_def)

end

record session_info =
  si_zone :: zone
  si_id :: int

definition zone_within :: "orb_config \<Rightarrow> int \<Rightarrow> int \<Rightarrow> session_info" where
  "zone_within g t open_us =
     (let sid = open_us div us_day;
          range_end = open_us + oc_range_minutes g * us_min
      in if t < range_end then \<lparr>si_zone = IN_RANGE_WINDOW, si_id = sid\<rparr>
         else \<lparr>si_zone = IN_SESSION, si_id = sid\<rparr>)"

definition classify :: "orb_config \<Rightarrow> timestamp \<Rightarrow> session_info" where
  "classify g ts =
     (let t = local_us ts;
          today_open = date_of ts * us_day + oc_session_open g;
          end_us = today_open + oc_session_len g * us_min
      in if t < today_open then
           let prev_open = today_open - us_day;
               prev_end = prev_open + oc_session_len g * us_min
           in if prev_open \<le> t \<and> t < prev_end then zone_within g t prev_open
              else \<lparr>si_zone = BEFORE, si_id = today_open div us_day\<rparr>
         else if end_us \<le> t then \<lparr>si_zone = AFTER, si_id = today_open div us_day\<rparr>
         else zone_within g t today_open)"

definition in_session :: "zone \<Rightarrow> bool" where
  "in_session z \<longleftrightarrow> z = IN_RANGE_WINDOW \<or> z = IN_SESSION"

text \<open>The open of the session with id \<open>d\<close>.\<close>

definition session_start :: "orb_config \<Rightarrow> int \<Rightarrow> int" where
  "session_start g d = d * us_day + oc_session_open g"

section \<open>Facts\<close>

lemma date_div:
  assumes "0 \<le> oc_session_open g" "oc_session_open g < us_day"
  shows "session_start g d div us_day = d"
    and "(session_start g d - us_day) div us_day = d - 1"
proof -
  have u: "us_day \<noteq> 0" by (simp add: us_day_def)
  have start: "session_start g e div us_day = e" for e
    using assms u by (simp add: session_start_def)
  show "session_start g d div us_day = d" by (rule start)
  have "session_start g d - us_day = session_start g (d - 1)"
    by (simp add: session_start_def algebra_simps)
  then show "(session_start g d - us_day) div us_day = d - 1" by (simp only: start)
qed

lemma classify_alt:
  assumes "0 \<le> oc_session_open g" "oc_session_open g < us_day"
  shows "classify g ts =
    (let t = local_us ts; d = date_of ts; o' = session_start g d;
         len = oc_session_len g * us_min
     in if t < o' then
          (if o' - us_day \<le> t \<and> t < o' - us_day + len
           then \<lparr>si_zone = (if t < o' - us_day + oc_range_minutes g * us_min
                           then IN_RANGE_WINDOW else IN_SESSION), si_id = d - 1\<rparr>
           else \<lparr>si_zone = BEFORE, si_id = d\<rparr>)
        else if o' + len \<le> t then \<lparr>si_zone = AFTER, si_id = d\<rparr>
        else \<lparr>si_zone = (if t < o' + oc_range_minutes g * us_min
                         then IN_RANGE_WINDOW else IN_SESSION), si_id = d\<rparr>)"
  using date_div [OF assms, of "date_of ts"]
  by (simp add: classify_def zone_within_def Let_def session_start_def)

lemma date_bounds: "date_of ts * us_day \<le> local_us ts" "local_us ts < (date_of ts + 1) * us_day"
proof -
  have "local_us ts = date_of ts * us_day + local_us ts mod us_day"
    by (simp add: date_of_def)
  moreover have "0 \<le> local_us ts mod us_day" "local_us ts mod us_day < us_day"
    by (simp_all add: us_day_def)
  ultimately show "date_of ts * us_day \<le> local_us ts"
    "local_us ts < (date_of ts + 1) * us_day"
    by (simp_all add: algebra_simps)
qed

text \<open>A bar inside a session lies in the window of the session it is assigned to, and the
  zone tells the opening range from the rest.\<close>

lemma classify_in_session:
  assumes ok: "orb_config_ok g" and z: "in_session (si_zone (classify g ts))"
  defines "d \<equiv> si_id (classify g ts)"
  shows "session_start g d \<le> local_us ts"
    and "local_us ts < session_start g d + oc_session_len g * us_min"
    and "si_zone (classify g ts) = IN_RANGE_WINDOW
         \<longleftrightarrow> local_us ts < session_start g d + oc_range_minutes g * us_min"
proof -
  have o': "0 \<le> oc_session_open g" "oc_session_open g < us_day"
    using orb_config_okD [OF ok] by simp_all
  have step: "session_start g (e - 1) = session_start g e - us_day" for e
    by (simp add: session_start_def algebra_simps)
  show "session_start g d \<le> local_us ts"
    "local_us ts < session_start g d + oc_session_len g * us_min"
    "si_zone (classify g ts) = IN_RANGE_WINDOW
         \<longleftrightarrow> local_us ts < session_start g d + oc_range_minutes g * us_min"
    using z unfolding d_def classify_alt [OF o'] Let_def in_session_def
    by (auto simp: step split: if_splits)
qed

text \<open>Bars one session apart keep their order: within one session id, zones never go back.\<close>

lemma classify_zone_mono:
  assumes ok: "orb_config_ok g"
    and id: "si_id (classify g a) = si_id (classify g b)"
    and le: "local_us a \<le> local_us b"
  shows "si_zone (classify g a) \<le> si_zone (classify g b)"
proof -
  have o': "0 \<le> oc_session_open g" "oc_session_open g < us_day"
    using orb_config_okD [OF ok] by simp_all
  have step: "session_start g (e - 1) = session_start g e - us_day"
    "session_start g (e + 1) = session_start g e + us_day" for e
    by (simp_all add: session_start_def algebra_simps)
  have mono: "date_of a \<le> date_of b" using le by (simp add: date_of_def zdiv_mono1 us_day_def)
  have days: "date_of a = date_of b \<or> date_of b = date_of a + 1 \<or> date_of a + 1 < date_of b"
    using mono by linarith
  have r: "oc_range_minutes g * us_min < oc_session_len g * us_min"
    using orb_config_okD(7) [OF ok] by (simp add: us_min_def)
  show ?thesis
    using id le mono days r unfolding classify_alt [OF o'] Let_def less_eq_zone_def
    by (auto simp: step split: if_splits)
qed

lemma classify_id_mono:
  assumes ok: "orb_config_ok g" and le: "local_us a \<le> local_us b"
  shows "si_id (classify g a) \<le> si_id (classify g b)"
proof -
  have o': "0 \<le> oc_session_open g" "oc_session_open g < us_day"
    using orb_config_okD [OF ok] by simp_all
  have step: "session_start g (e - 1) = session_start g e - us_day"
    "session_start g (e + 1) = session_start g e + us_day" for e
    by (simp_all add: session_start_def algebra_simps)
  have mono: "date_of a \<le> date_of b" using le by (simp add: date_of_def zdiv_mono1 us_day_def)
  then have days: "date_of a = date_of b \<or> date_of a + 1 \<le> date_of b" by linarith
  have early: "session_start g (date_of x) - us_day \<le> local_us x" for x
    using date_bounds(1) [of x] o' by (simp add: session_start_def)
  show ?thesis
    using le mono days early [of a] early [of b] unfolding classify_alt [OF o'] Let_def
    by (auto simp: step split: if_splits)
qed

text \<open>Time moves the session clock forward only. For a valid configuration and two
  timestamps in order, the later one has a later session id, or the same id and a zone that
  is not earlier (before, opening range, session, after).\<close>

theorem session_clock_monotone:
  assumes "orb_config_ok g" and "local_us a \<le> local_us b"
  shows "si_id (classify g a) < si_id (classify g b)
     \<or> si_id (classify g a) = si_id (classify g b)
        \<and> si_zone (classify g a) \<le> si_zone (classify g b)"
  using classify_id_mono [OF assms] classify_zone_mono [OF assms(1) _ assms(2)]
  by (auto simp: le_less)

lemma orb_defaults_ok: "orb_config_ok orb_defaults"
  by (simp add: orb_config_ok_def orb_config_init_def orb_defaults_def opt_nonpos_def
      opt_gt_def us_day_def)

theorem session_clock_monotone_witness:
  "si_id (classify orb_defaults (utc_ts 5)) < si_id (classify orb_defaults (utc_ts 90000000000))
   \<or> si_id (classify orb_defaults (utc_ts 5)) = si_id (classify orb_defaults (utc_ts 90000000000))
      \<and> si_zone (classify orb_defaults (utc_ts 5))
          \<le> si_zone (classify orb_defaults (utc_ts 90000000000))"
  by (rule session_clock_monotone [OF orb_defaults_ok]) (simp add: utc_ts_def)

end
