(* ===== verification/Indicators.thy ===== *)
theory Indicators
  imports Models
begin

text \<open>
  \<open>orb/indicators.py\<close>: Wilder ATR, rate of change and volume SMA as state records with an
  \<open>update\<close> each; inputs are finite by type (\<open>_check\<close> has nothing left to reject). The
  locale \<open>stream_indicator\<close> is the contract they share: not ready before a fixed number of
  updates, ready from then on.
\<close>

section \<open>The indicator contract\<close>

locale stream_indicator =
  fixes fresh :: "'s" and upd :: "'x \<Rightarrow> 's \<Rightarrow> 's" and ready :: "'s \<Rightarrow> bool"
    and warm :: nat
  assumes ready_fold: "ready (fold upd xs fresh) \<longleftrightarrow> warm \<le> length xs"
begin

lemma fresh_not_ready: "0 < warm \<Longrightarrow> \<not> ready fresh"
  using ready_fold [of "[]"] by simp

lemma ready_mono: "ready (fold upd xs fresh) \<Longrightarrow> ready (fold upd (xs @ ys) fresh)"
  using ready_fold [of xs] ready_fold [of "xs @ ys"] by simp

lemma ready_step: "ready (fold upd xs fresh) \<Longrightarrow> ready (upd y (fold upd xs fresh))"
  using ready_mono [of xs "[y]"] by simp

lemma first_ready: "length xs + 1 = warm \<Longrightarrow> \<not> ready (fold upd xs fresh)
    \<and> ready (upd y (fold upd xs fresh))"
  using ready_fold [of xs] ready_fold [of "xs @ [y]"] by simp

end

section \<open>Wilder ATR\<close>

record wilder =
  w_period :: nat
  w_prev_close :: "flt option"
  w_count :: nat
  w_seed_sum :: flt
  w_atr :: "flt option"

definition wilder_new :: "nat \<Rightarrow> wilder" where
  "wilder_new p = \<lparr>w_period = p, w_prev_close = None, w_count = 0, w_seed_sum = 0,
     w_atr = None\<rparr>"

definition wilder_init :: "int \<Rightarrow> error + wilder" where
  "wilder_init p = (if p < 1 then Inl (IndicatorError ''ATR period must be >= 1'')
     else Inr (wilder_new (nat p)))"

definition true_range :: "flt option \<Rightarrow> flt \<Rightarrow> flt \<Rightarrow> flt" where
  "true_range prev high low =
     (case prev of None \<Rightarrow> high - low
      | Some pc \<Rightarrow> max (max (high - low) \<bar>high - pc\<bar>) \<bar>low - pc\<bar>)"

definition wilder_update :: "flt \<times> flt \<times> flt \<Rightarrow> wilder \<Rightarrow> wilder" where
  "wilder_update = (\<lambda>(high, low, close) w.
     let tr = true_range (w_prev_close w) high low;
         w' = w\<lparr>w_prev_close := Some close, w_count := w_count w + 1\<rparr>
     in case w_atr w of
          Some a \<Rightarrow> w'\<lparr>w_atr := Some ((a * (of_nat (w_period w) - 1) + tr)
                                    / of_nat (w_period w))\<rparr>
        | None \<Rightarrow>
            if w_count w' \<le> w_period w then
              let s = w_seed_sum w + tr
              in w'\<lparr>w_seed_sum := s,
                   w_atr := (if w_count w' = w_period w
                             then Some (s / of_nat (w_period w)) else None)\<rparr>
            else w')"

definition wilder_ready :: "wilder \<Rightarrow> bool" where
  "wilder_ready w \<longleftrightarrow> w_atr w \<noteq> None"

section \<open>Rate of change\<close>

record roc =
  roc_period :: nat
  roc_closes :: "flt list"

definition roc_new :: "nat \<Rightarrow> roc" where
  "roc_new p = \<lparr>roc_period = p, roc_closes = []\<rparr>"

definition roc_init :: "int \<Rightarrow> error + roc" where
  "roc_init p = (if p < 1 then Inl (IndicatorError ''ROC period must be >= 1'')
     else Inr (roc_new (nat p)))"

definition roc_update :: "flt \<Rightarrow> roc \<Rightarrow> roc" where
  "roc_update close r = r\<lparr>roc_closes := push (roc_period r + 1) (roc_closes r) close\<rparr>"

definition roc_ready :: "roc \<Rightarrow> bool" where
  "roc_ready r \<longleftrightarrow> length (roc_closes r) = roc_period r + 1"

definition roc_value :: "roc \<Rightarrow> error + flt option" where
  "roc_value r =
     (if \<not> roc_ready r then Inr None
      else let ref = hd (roc_closes r)
           in if ref = 0 then Inl (IndicatorError ''ROC divisor is zero (corrupt price series)'')
              else Inr (Some ((last (roc_closes r) / ref - 1) * 100)))"

section \<open>Volume SMA\<close>

record vsma =
  v_period :: nat
  v_vols :: "flt list"
  v_sum :: flt

definition vsma_new :: "nat \<Rightarrow> vsma" where
  "vsma_new p = \<lparr>v_period = p, v_vols = [], v_sum = 0\<rparr>"

definition vsma_init :: "int \<Rightarrow> error + vsma" where
  "vsma_init p = (if p < 1 then Inl (IndicatorError ''Volume SMA period must be >= 1'')
     else Inr (vsma_new (nat p)))"

definition vsma_update :: "flt \<Rightarrow> vsma \<Rightarrow> vsma" where
  "vsma_update vol v =
     (let s = (if length (v_vols v) = v_period v then v_sum v - hd (v_vols v) else v_sum v)
      in v\<lparr>v_vols := push (v_period v) (v_vols v) vol, v_sum := s + vol\<rparr>)"

definition vsma_ready :: "vsma \<Rightarrow> bool" where
  "vsma_ready v \<longleftrightarrow> length (v_vols v) = v_period v"

definition vsma_value :: "vsma \<Rightarrow> flt option" where
  "vsma_value v = (if \<not> vsma_ready v then None else Some (v_sum v / of_nat (v_period v)))"

section \<open>Wilder ATR against its reference\<close>

text \<open>The reference: the list of true ranges, a mean of the first \<open>period\<close> of them, then
  Wilder's recurrence over the rest.\<close>

fun true_ranges :: "flt option \<Rightarrow> (flt \<times> flt \<times> flt) list \<Rightarrow> flt list" where
  "true_ranges prev [] = []"
| "true_ranges prev ((h, l, c) # bs) = true_range prev h l # true_ranges (Some c) bs"

definition wilder_smooth :: "nat \<Rightarrow> flt \<Rightarrow> flt list \<Rightarrow> flt" where
  "wilder_smooth p a trs = foldl (\<lambda>a t. (a * (of_nat p - 1) + t) / of_nat p) a trs"

definition wilder_reference :: "nat \<Rightarrow> flt list \<Rightarrow> flt option" where
  "wilder_reference p trs =
     (if length trs < p then None
      else Some (wilder_smooth p (sum_list (take p trs) / of_nat p) (drop p trs)))"

definition last_close :: "flt option \<Rightarrow> (flt \<times> flt \<times> flt) list \<Rightarrow> flt option" where
  "last_close prev bs = (if bs = [] then prev else Some (snd (snd (last bs))))"

lemma length_true_ranges [simp]: "length (true_ranges prev bs) = length bs"
  by (induction prev bs rule: true_ranges.induct) auto

lemma true_ranges_snoc:
  "true_ranges prev (bs @ [(h, l, c)])
     = true_ranges prev bs @ [true_range (last_close prev bs) h l]"
  by (induction prev bs rule: true_ranges.induct) (auto simp: last_close_def)

lemma true_range_nonneg: "l \<le> h \<Longrightarrow> 0 \<le> true_range prev h l"
  by (auto simp: true_range_def split: option.splits)

text \<open>The state after a stream of bars, field by field.\<close>

text \<open>What every running average keeps.\<close>

definition wilder_wf :: "nat \<Rightarrow> wilder \<Rightarrow> bool" where
  "wilder_wf p w \<longleftrightarrow> w_period w = p \<and> 0 \<le> w_seed_sum w
     \<and> (case w_atr w of None \<Rightarrow> True | Some a \<Rightarrow> 0 \<le> a)"

lemma wilder_wf_new: "wilder_wf p (wilder_new p)"
  by (simp add: wilder_wf_def wilder_new_def)

lemma wilder_wf_update:
  assumes "wilder_wf p w" "l \<le> h" "0 < p"
  shows "wilder_wf p (wilder_update (h, l, c) w)"
proof -
  have tr: "0 \<le> true_range (w_prev_close w) h l" by (rule true_range_nonneg) fact
  have "0 \<le> (of_nat p - 1 :: flt)" using assms(3) by simp
  then have "0 \<le> (a * (of_nat p - 1) + true_range (w_prev_close w) h l) / of_nat p"
    if "0 \<le> a" for a using that tr by simp
  then show ?thesis using assms tr
    by (auto simp: wilder_wf_def wilder_update_def Let_def split: option.splits)
qed

lemma wilder_ready_update: "wilder_ready w \<Longrightarrow> wilder_ready (wilder_update b w)"
  by (cases b) (auto simp: wilder_ready_def wilder_update_def Let_def)

definition wilder_state :: "nat \<Rightarrow> (flt \<times> flt \<times> flt) list \<Rightarrow> wilder" where
  "wilder_state p bs = \<lparr>w_period = p, w_prev_close = last_close None bs,
     w_count = length bs,
     w_seed_sum = sum_list (take p (true_ranges None bs)),
     w_atr = wilder_reference p (true_ranges None bs)\<rparr>"

lemma wilder_reference_snoc:
  assumes "0 < p"
  shows "wilder_reference p (trs @ [tr]) =
    (if Suc (length trs) < p then None
     else if Suc (length trs) = p then Some ((sum_list trs + tr) / of_nat p)
     else case wilder_reference p trs of None \<Rightarrow> None
          | Some a \<Rightarrow> Some ((a * (of_nat p - 1) + tr) / of_nat p))"
  using assms by (auto simp: wilder_reference_def wilder_smooth_def)

lemma wilder_state_step:
  assumes p: "0 < p"
  shows "wilder_update (h, l, c) (wilder_state p bs) = wilder_state p (bs @ [(h, l, c)])"
proof -
  define trs where "trs = true_ranges None bs"
  define tr where "tr = true_range (last_close None bs) h l"
  have len: "length trs = length bs" by (simp add: trs_def)
  have trs': "true_ranges None (bs @ [(h, l, c)]) = trs @ [tr]"
    by (simp add: trs_def tr_def true_ranges_snoc)
  have close: "last_close None (bs @ [(h, l, c)]) = Some c" by (simp add: last_close_def)
  have none: "wilder_reference p trs = None \<longleftrightarrow> length trs < p"
    by (simp add: wilder_reference_def)
  show ?thesis
    using len none p unfolding wilder_state_def trs' close trs_def [symmetric]
    by (auto simp: wilder_update_def Let_def wilder_reference_snoc tr_def [symmetric]
        split: option.splits)
qed

lemma wilder_fold:
  assumes p: "0 < p"
  shows "fold wilder_update bs (wilder_new p) = wilder_state p bs"
proof (induction bs rule: rev_induct)
  case Nil
  then show ?case using p
    by (simp add: wilder_new_def wilder_state_def last_close_def wilder_reference_def)
next
  case (snoc b bs)
  then show ?case using wilder_state_step [OF p] by (cases b) simp
qed

section \<open>Contracts of the three indicators\<close>

lemma vsma_fold:
  assumes "0 < p"
  shows "fold vsma_update xs (vsma_new p) =
    \<lparr>v_period = p, v_vols = drop (length xs - p) xs, v_sum = sum_list (drop (length xs - p) xs)\<rparr>"
proof (induction xs rule: rev_induct)
  case Nil
  then show ?case by (simp add: vsma_new_def)
next
  case (snoc x xs)
  define w where "w = drop (length xs - p) xs"
  have lw: "length w = min p (length xs)" by (simp add: w_def)
  have next_w: "push p w x = drop (length (xs @ [x]) - p) (xs @ [x])"
    unfolding w_def by (rule push_drop)
  have sum: "(if length w = p then sum_list w - hd w else sum_list w) + x = sum_list (push p w x)"
  proof (cases "length w = p")
    case True
    then obtain y ys where "w = y # ys" using assms by (cases w) auto
    then show ?thesis using True assms by (simp add: push_full)
  next
    case False
    then have "length w < p" using lw by simp
    then show ?thesis by (simp add: push_not_full False)
  qed
  have "fold vsma_update (xs @ [x]) (vsma_new p)
      = vsma_update x \<lparr>v_period = p, v_vols = w, v_sum = sum_list w\<rparr>"
    by (simp only: fold_append fold.simps comp_apply id_apply snoc.IH w_def)
  also have "\<dots> = \<lparr>v_period = p, v_vols = push p w x, v_sum = sum_list (push p w x)\<rparr>"
    using sum by (simp add: vsma_update_def Let_def split: if_splits)
  finally show ?case by (simp only: next_w)
qed

lemma roc_fold:
  "fold roc_update xs (roc_new p) =
    \<lparr>roc_period = p, roc_closes = drop (length xs - (p + 1)) xs\<rparr>"
proof (induction xs rule: rev_induct)
  case Nil
  then show ?case by (simp add: roc_new_def)
next
  case (snoc x xs)
  then show ?case using push_drop [of "p + 1" xs x]
    by (simp add: roc_update_def del: length_append)
qed

lemma wilder_contract:
  assumes "0 < p"
  shows "stream_indicator (wilder_new p) wilder_update wilder_ready p"
  by unfold_locales
    (simp add: wilder_fold [OF assms] wilder_state_def wilder_ready_def wilder_reference_def)

lemma vsma_contract:
  assumes "0 < p"
  shows "stream_indicator (vsma_new p) vsma_update vsma_ready p"
  by unfold_locales (auto simp: vsma_fold [OF assms] vsma_ready_def)

interpretation atr_ind: stream_indicator "wilder_new (Suc p)" wilder_update wilder_ready "Suc p"
  for p
  by (rule wilder_contract) simp

interpretation roc_ind: stream_indicator "roc_new p" roc_update roc_ready "p + 1" for p
  by unfold_locales (auto simp: roc_fold roc_ready_def)

interpretation vsma_ind: stream_indicator "vsma_new (Suc p)" vsma_update vsma_ready "Suc p"
  for p
  by (rule vsma_contract) simp

section \<open>Properties\<close>

text \<open>C9: after any stream of bars the incremental ATR holds exactly the reference value: no
  value before \<open>period\<close> bars, then the mean of the first \<open>period\<close> true ranges smoothed by
  Wilder's recurrence over the remaining ones.\<close>

theorem wilder_atr_reference:
  assumes "wilder_init n = Inr w"
  shows "w_atr (fold wilder_update bars w) = wilder_reference (nat n) (true_ranges None bars)"
proof -
  have "0 < nat n" "w = wilder_new (nat n)"
    using assms by (auto simp: wilder_init_def split: if_splits)
  then show ?thesis by (simp add: wilder_fold wilder_state_def)
qed

theorem wilder_atr_reference_witness:
  "w_atr (fold wilder_update [(3, 1, 2), (5, 2, 4), (6, 4, 5)] (wilder_new 2))
     = wilder_reference 2 (true_ranges None [(3, 1, 2), (5, 2, 4), (6, 4, 5)])
   \<and> wilder_reference 2 (true_ranges None [(3, 1, 2), (5, 2, 4), (6, 4, 5)]) = Some (9 / 4)"
proof
  show "w_atr (fold wilder_update [(3, 1, 2), (5, 2, 4), (6, 4, 5)] (wilder_new 2))
     = wilder_reference 2 (true_ranges None [(3, 1, 2), (5, 2, 4), (6, 4, 5)])"
    using wilder_atr_reference [of 2 "wilder_new 2" "[(3, 1, 2), (5, 2, 4), (6, 4, 5)]"]
    by (simp add: wilder_init_def del: fold.simps true_ranges.simps)
  show "wilder_reference 2 (true_ranges None [(3, 1, 2), (5, 2, 4), (6, 4, 5)]) = Some (9 / 4)"
    by (simp add: wilder_reference_def wilder_smooth_def true_range_def)
qed

lemma wilder_smooth_bounds:
  assumes "0 < p" "lo \<le> a" "a \<le> hi" "\<forall>t \<in> set trs. lo \<le> t \<and> t \<le> hi"
  shows "lo \<le> wilder_smooth p a trs \<and> wilder_smooth p a trs \<le> hi"
  using assms(2-)
proof (induction trs arbitrary: a)
  case Nil
  then show ?case by (simp add: wilder_smooth_def)
next
  case (Cons t trs)
  define q :: flt where "q = of_nat p"
  have q: "1 \<le> q" using assms(1) by (simp add: q_def)
  define a' where "a' = (a * (q - 1) + t) / q"
  have "lo * (q - 1) \<le> a * (q - 1)" "a * (q - 1) \<le> hi * (q - 1)"
    using Cons.prems q by (auto intro: mult_right_mono)
  then have "lo * q \<le> a * (q - 1) + t" "a * (q - 1) + t \<le> hi * q"
    using Cons.prems by (auto simp: algebra_simps)
  then have "lo \<le> a'" "a' \<le> hi"
    using q by (simp_all add: a'_def pos_le_divide_eq pos_divide_le_eq)
  then show ?case using Cons.IH [of a'] Cons.prems(3)
    by (simp add: wilder_smooth_def a'_def q_def)
qed

lemma sum_list_bounds:
  fixes lo hi :: flt
  shows "\<forall>t \<in> set trs. lo \<le> t \<and> t \<le> hi \<Longrightarrow>
   lo * of_nat (length trs) \<le> sum_list trs \<and> sum_list trs \<le> hi * of_nat (length trs)"
  by (induction trs) (auto simp: algebra_simps)

text \<open>The ATR never leaves the span of the true ranges it has seen: if every bar's true
  range lies in an interval, so does every ATR value.\<close>

theorem wilder_atr_bounds:
  assumes "wilder_init n = Inr w"
    and "\<forall>t \<in> set (true_ranges None bars). lo \<le> t \<and> t \<le> hi"
    and "w_atr (fold wilder_update bars w) = Some a"
  shows "lo \<le> a \<and> a \<le> hi"
proof -
  define trs p where "trs = true_ranges None bars" and "p = nat n"
  have p: "0 < p" "w = wilder_new p"
    using assms(1) by (auto simp: wilder_init_def p_def split: if_splits)
  have "wilder_reference p trs = Some a"
    using assms(3) p by (simp add: wilder_fold wilder_state_def trs_def)
  then have len: "p \<le> length trs"
    and a: "a = wilder_smooth p (sum_list (take p trs) / of_nat p) (drop p trs)"
    by (auto simp: wilder_reference_def split: if_splits)
  have all: "\<forall>t \<in> set (take p trs). lo \<le> t \<and> t \<le> hi" "\<forall>t \<in> set (drop p trs). lo \<le> t \<and> t \<le> hi"
    using assms(2) by (auto simp: trs_def dest: in_set_takeD in_set_dropD)
  have "lo \<le> sum_list (take p trs) / of_nat p" "sum_list (take p trs) / of_nat p \<le> hi"
    using sum_list_bounds [OF all(1)] len p(1)
    by (simp_all add: pos_le_divide_eq pos_divide_le_eq min_absorb2)
  then show ?thesis unfolding a using wilder_smooth_bounds [OF p(1) _ _ all(2)] by blast
qed

theorem wilder_atr_bounds_witness:
  "(2::flt) \<le> 9 / 4 \<and> (9 / 4 :: flt) \<le> 3"
proof (rule wilder_atr_bounds [of 2 "wilder_new 2" "[(3, 1, 2), (5, 2, 4), (6, 4, 5)]"])
  show "wilder_init 2 = Inr (wilder_new 2)" by (simp add: wilder_init_def)
  show "\<forall>t \<in> set (true_ranges None [(3, 1, 2), (5, 2, 4), (6, 4, 5)]). 2 \<le> t \<and> t \<le> 3"
    by (simp add: true_range_def)
  show "w_atr (fold wilder_update [(3, 1, 2), (5, 2, 4), (6, 4, 5)] (wilder_new 2)) = Some (9 / 4)"
    unfolding wilder_fold [OF zero_less_numeral]
    by (simp add: wilder_state_def wilder_reference_def wilder_smooth_def true_range_def)
qed

text \<open>The rolling-sum volume SMA equals the mean of the last \<open>period\<close> volumes, and there is
  no value before \<open>period\<close> bars.\<close>

theorem vsma_window_mean:
  assumes "vsma_init n = Inr v"
  shows "vsma_value (fold vsma_update vols v) =
    (if length vols < nat n then None
     else Some (sum_list (drop (length vols - nat n) vols) / of_nat (nat n)))"
proof -
  have "0 < nat n" "v = vsma_new (nat n)"
    using assms by (auto simp: vsma_init_def split: if_splits)
  then show ?thesis by (auto simp: vsma_fold vsma_value_def vsma_ready_def)
qed

theorem vsma_window_mean_witness:
  "vsma_value (fold vsma_update [5, 1, 3] (vsma_new 2)) = Some 2"
  using vsma_window_mean [of 2 "vsma_new 2" "[5, 1, 3]"] by (simp add: vsma_init_def)

lemma roc_value_fold:
  assumes "p + 1 \<le> length xs" "xs ! (length xs - (p + 1)) \<noteq> 0"
  shows "roc_value (fold roc_update xs (roc_new p)) =
    Inr (Some ((last xs / xs ! (length xs - (p + 1)) - 1) * 100))"
  using assms by (auto simp: roc_fold roc_value_def roc_ready_def Let_def hd_drop_conv_nth)

lemma roc_value_ready: "roc_ready r \<Longrightarrow> roc_value r \<noteq> Inr None"
  by (simp add: roc_value_def Let_def)

end
