(* ===== verification/Engine_Interface.thy ===== *)
theory Engine_Interface
  imports Models
begin

text \<open>
  The surface the three engines (\<open>OrbEngine\<close>, \<open>SvpEngine\<close>, \<open>SmcEngine\<close>) share, and its client
  \<open>CandleStream.run\<close> of \<open>orb/stream.py\<close>. The stream feeds candles to \<open>on_candle\<close>; a
  \<open>CandleError\<close> or \<open>OutOfOrderError\<close> skips the bar (or ends the run in strict mode), any other
  error ends it; after a processed bar the \<open>on_bar\<close> hook may call \<open>force_flat\<close>. What the hook
  decides depends on the broker, so it is an input: each bar comes with a flag.

  The locale \<open>candle_engine\<close> states the contract: an invariant, and that a signal's
  \<open>state_from\<close> and \<open>state_to\<close> tell truly whether a position was and is open. The facts about
  whole streams are proved once from it.
\<close>

section \<open>The stream\<close>

definition skippable :: "error \<Rightarrow> bool" where
  "skippable er \<longleftrightarrow> (case er of CandleError _ \<Rightarrow> True | OutOfOrderError \<Rightarrow> True | _ \<Rightarrow> False)"

record 's run_result =
  rr_signals :: "signal list"
  rr_error :: "error option"
  rr_state :: 's

text \<open>A \<open>force_flat\<close> call of the \<open>on_bar\<close> hook, when the flag asks for it.\<close>

definition hook_flat ::
  "(timestamp \<Rightarrow> 's \<Rightarrow> signal option \<times> 's) \<Rightarrow> bool \<Rightarrow> raw_candle \<Rightarrow> 's \<Rightarrow> signal list \<times> 's" where
  "hook_flat flat fl r s =
     (if fl then
        (case flat \<lparr>local_us = r_local r, tz_off = (case r_tz r of None \<Rightarrow> 0 | Some z \<Rightarrow> z)\<rparr> s of
           (None, s') \<Rightarrow> ([], s') | (Some sig, s') \<Rightarrow> ([sig], s'))
      else ([], s))"

fun stream_run ::
  "(raw_candle \<Rightarrow> 's \<Rightarrow> (error + signal option) \<times> 's)
   \<Rightarrow> (timestamp \<Rightarrow> 's \<Rightarrow> signal option \<times> 's)
   \<Rightarrow> bool \<Rightarrow> (raw_candle \<times> bool) list \<Rightarrow> 's \<Rightarrow> 's run_result" where
  "stream_run on_candle flat strict [] s =
     \<lparr>rr_signals = [], rr_error = None, rr_state = s\<rparr>"
| "stream_run on_candle flat strict ((r, fl) # bars) s =
     (case on_candle r s of
        (Inl er, s1) \<Rightarrow>
          if skippable er \<and> \<not> strict then stream_run on_candle flat strict bars s1
          else \<lparr>rr_signals = [], rr_error = Some er, rr_state = s1\<rparr>
      | (Inr sig, s1) \<Rightarrow>
          (case hook_flat flat fl r s1 of (flats, s2) \<Rightarrow>
             let rest = stream_run on_candle flat strict bars s2
             in rest\<lparr>rr_signals := (case sig of None \<Rightarrow> [] | Some x \<Rightarrow> [x]) @ flats
                      @ rr_signals rest\<rparr>))"

text \<open>\<open>engine.replay\<close>: no hook, the first error is raised.\<close>

definition replay ::
  "(raw_candle \<Rightarrow> 's \<Rightarrow> (error + signal option) \<times> 's) \<Rightarrow> raw_candle list \<Rightarrow> 's
   \<Rightarrow> (error + signal list) \<times> 's" where
  "replay on_candle rs s =
     (let res = stream_run on_candle (\<lambda>_ s. (None, s)) True (map (\<lambda>r. (r, False)) rs) s
      in (case rr_error res of None \<Rightarrow> Inr (rr_signals res) | Some er \<Rightarrow> Inl er,
          rr_state res))"

section \<open>Signal lists that fit an open/flat account\<close>

text \<open>\<open>linked o sigs\<close>: read in order, starting with a position open iff \<open>o\<close>, each signal starts in
  the position status the one before it left. \<open>kind_ok\<close>: entries open from flat, exits leave an
  open position, rejections happen while flat.\<close>

definition kind_ok :: "signal \<Rightarrow> bool" where
  "kind_ok sig = (case s_kind sig of
       ENTRY \<Rightarrow> s_from sig = RANGE_DEFINED \<and> s_to sig = BREAKOUT
     | EXIT_SIG \<Rightarrow> s_from sig = BREAKOUT
     | REJECT \<Rightarrow> s_from sig = RANGE_DEFINED \<and> s_to sig = RANGE_DEFINED)"

fun linked :: "bool \<Rightarrow> signal list \<Rightarrow> bool" where
  "linked o' [] = True"
| "linked o' (sig # sigs) \<longleftrightarrow> kind_ok sig \<and> (s_from sig = BREAKOUT \<longleftrightarrow> o')
     \<and> linked (s_to sig = BREAKOUT) sigs"

fun open_after :: "bool \<Rightarrow> signal list \<Rightarrow> bool" where
  "open_after o' [] = o'"
| "open_after o' (sig # sigs) = open_after (s_to sig = BREAKOUT) sigs"

definition entries :: "signal list \<Rightarrow> nat" where
  "entries sigs = length (filter (\<lambda>x. s_kind x = ENTRY) sigs)"

definition closings :: "signal list \<Rightarrow> nat" where
  "closings sigs = length (filter (\<lambda>x. s_kind x = EXIT_SIG \<and> s_to x \<noteq> BREAKOUT) sigs)"

lemma linked_append: "linked o' (xs @ ys) \<longleftrightarrow> linked o' xs \<and> linked (open_after o' xs) ys"
  by (induction xs arbitrary: o') auto

lemma open_after_append: "open_after o' (xs @ ys) = open_after (open_after o' xs) ys"
  by (induction xs arbitrary: o') auto

text \<open>In such a list entries and full exits alternate, so the books balance.\<close>

lemma linked_balance:
  "linked o' sigs \<Longrightarrow> (if o' then 1 else 0) + entries sigs
     = closings sigs + (if open_after o' sigs then 1 else 0)"
proof (induction sigs arbitrary: o')
  case Nil
  then show ?case by (simp add: entries_def closings_def)
next
  case (Cons sig sigs)
  from Cons.prems have l: "linked (s_to sig = BREAKOUT) sigs" and k: "kind_ok sig"
    and f: "s_from sig = BREAKOUT \<longleftrightarrow> o'" by simp_all
  show ?case using Cons.IH [OF l] k f
    by (cases "s_kind sig") (auto simp: kind_ok_def entries_def closings_def split: if_splits)
qed

section \<open>What the callbacks see\<close>

text \<open>The signals of a callback log, and the state its transitions lead to from a given one:
  each transition must start in the state the one before it ended in.\<close>

fun sigs_in :: "emission list \<Rightarrow> signal list" where
  "sigs_in [] = []"
| "sigs_in (Sig s # out) = s # sigs_in out"
| "sigs_in (Trans t # out) = sigs_in out"

fun path_end :: "state \<Rightarrow> emission list \<Rightarrow> state option" where
  "path_end s [] = Some s"
| "path_end s (Sig _ # out) = path_end s out"
| "path_end s (Trans t # out) = (if t_from t = s then path_end (t_to t) out else None)"

definition logged ::
  "emission list \<Rightarrow> state \<Rightarrow> signal list \<Rightarrow> emission list \<Rightarrow> state \<Rightarrow> bool" where
  "logged out st sigs out' st' \<longleftrightarrow>
     (\<exists>new. out' = out @ new \<and> sigs_in new = sigs \<and> path_end st new = Some st')"

lemma sigs_in_append [simp]: "sigs_in (xs @ ys) = sigs_in xs @ sigs_in ys"
  by (induction xs rule: sigs_in.induct) auto

lemma path_end_append:
  "path_end s (xs @ ys) = (case path_end s xs of None \<Rightarrow> None | Some t \<Rightarrow> path_end t ys)"
  by (induction s xs rule: path_end.induct) auto

lemma logged_refl: "logged out st [] out st"
  by (simp add: logged_def)

lemma loggedI:
  "out' = out @ new \<Longrightarrow> sigs_in new = sigs \<Longrightarrow> path_end st new = Some st'
   \<Longrightarrow> logged out st sigs out' st'"
  by (auto simp: logged_def)

lemma logged_trans:
  assumes "logged o1 st1 s1 o2 st2" and "logged o2 st2 s2 o3 st3"
  shows "logged o1 st1 (s1 @ s2) o3 st3"
proof -
  obtain n1 n2 where "o2 = o1 @ n1" "sigs_in n1 = s1" "path_end st1 n1 = Some st2"
    "o3 = o2 @ n2" "sigs_in n2 = s2" "path_end st2 n2 = Some st3"
    using assms by (auto simp: logged_def)
  then show ?thesis unfolding logged_def
    by (intro exI [of _ "n1 @ n2"]) (simp add: path_end_append)
qed

definition outcome_sigs :: "error + signal option \<Rightarrow> signal list" where
  "outcome_sigs res = (case res of Inr (Some sig) \<Rightarrow> [sig] | _ \<Rightarrow> [])"

section \<open>The contract\<close>

locale candle_engine =
  fixes on_candle :: "raw_candle \<Rightarrow> 's \<Rightarrow> (error + signal option) \<times> 's"
    and flat :: "timestamp \<Rightarrow> 's \<Rightarrow> signal option \<times> 's"
    and posn :: "'s \<Rightarrow> position option"
    and engine_state :: "'s \<Rightarrow> state"
    and inv :: "'s \<Rightarrow> bool"
  assumes inv_candle: "inv s \<Longrightarrow> on_candle r s = (res, s') \<Longrightarrow> inv s'"
    and inv_flat: "inv s \<Longrightarrow> flat ts s = (sig', s') \<Longrightarrow> inv s'"
    and inv_state: "inv s \<Longrightarrow> engine_state s = BREAKOUT \<longleftrightarrow> posn s \<noteq> None"
    and candle_signal: "inv s \<Longrightarrow> on_candle r s = (Inr (Some sig), s') \<Longrightarrow>
        kind_ok sig \<and> (s_from sig = BREAKOUT \<longleftrightarrow> posn s \<noteq> None)
        \<and> (s_to sig = BREAKOUT \<longleftrightarrow> posn s' \<noteq> None)"
    and candle_silent: "inv s \<Longrightarrow> on_candle r s = (Inr None, s') \<Longrightarrow>
        posn s' = None \<longleftrightarrow> posn s = None"
    and candle_error: "inv s \<Longrightarrow> on_candle r s = (Inl er, s') \<Longrightarrow>
        posn s' = None \<longleftrightarrow> posn s = None"
    and flat_signal: "inv s \<Longrightarrow> flat ts s = (Some sig, s') \<Longrightarrow>
        s_kind sig = EXIT_SIG \<and> s_from sig = BREAKOUT \<and> s_to sig \<noteq> BREAKOUT
        \<and> posn s \<noteq> None \<and> posn s' = None"
    and flat_silent: "inv s \<Longrightarrow> flat ts s = (None, s') \<Longrightarrow> s' = s \<and> posn s = None"
begin

lemma hook_linked:
  assumes "inv s" "hook_flat flat fl r s = (sigs, s')"
  shows "inv s' \<and> linked (posn s \<noteq> None) sigs
     \<and> open_after (posn s \<noteq> None) sigs = (posn s' \<noteq> None)"
  using assms
  by (auto simp: hook_flat_def kind_ok_def split: if_splits prod.splits option.splits
      dest: inv_flat flat_signal flat_silent)

lemma candle_linked:
  assumes "inv s" "on_candle r s = (Inr sig, s')"
  defines "sigs \<equiv> (case sig of None \<Rightarrow> [] | Some x \<Rightarrow> [x])"
  shows "linked (posn s \<noteq> None) sigs \<and> open_after (posn s \<noteq> None) sigs = (posn s' \<noteq> None)"
  using assms by (cases sig) (auto dest: candle_signal candle_silent)

lemma stream_linked:
  "inv s \<Longrightarrow> inv (rr_state (stream_run on_candle flat strict bars s))
     \<and> linked (posn s \<noteq> None) (rr_signals (stream_run on_candle flat strict bars s))
     \<and> open_after (posn s \<noteq> None) (rr_signals (stream_run on_candle flat strict bars s))
        = (posn (rr_state (stream_run on_candle flat strict bars s)) \<noteq> None)"
proof (induction bars arbitrary: s)
  case Nil
  then show ?case by simp
next
  case (Cons bar bars)
  obtain r fl where bar: "bar = (r, fl)" by (cases bar) auto
  obtain res s1 where step: "on_candle r s = (res, s1)" by (cases "on_candle r s") auto
  have i1: "inv s1" using inv_candle [OF Cons.prems step] .
  show ?case
  proof (cases res)
    case (Inl er)
    have "posn s1 = None \<longleftrightarrow> posn s = None"
      using candle_error [OF Cons.prems] step Inl by blast
    then show ?thesis using Cons.IH [OF i1] i1 by (cases strict) (auto simp: bar step Inl)
  next
    case (Inr sig)
    obtain fs s2 where h: "hook_flat flat fl r s1 = (fs, s2)" by (cases "hook_flat flat fl r s1") auto
    have c: "linked (posn s \<noteq> None) (case sig of None \<Rightarrow> [] | Some x \<Rightarrow> [x])
      \<and> open_after (posn s \<noteq> None) (case sig of None \<Rightarrow> [] | Some x \<Rightarrow> [x]) = (posn s1 \<noteq> None)"
      using candle_linked [OF Cons.prems] step Inr by blast
    have f: "inv s2 \<and> linked (posn s1 \<noteq> None) fs
      \<and> open_after (posn s1 \<noteq> None) fs = (posn s2 \<noteq> None)"
      by (rule hook_linked [OF i1 h])
    show ?thesis using Cons.IH [of s2] c f
      by (simp add: bar step Inr h Let_def linked_append open_after_append)
  qed
qed

lemma stream_inv: "inv s \<Longrightarrow> inv (rr_state (stream_run on_candle flat strict bars s))"
  using stream_linked by blast

lemma stream_balance:
  assumes "inv s" "posn s = None"
  shows "entries (rr_signals (stream_run on_candle flat strict bars s))
     = closings (rr_signals (stream_run on_candle flat strict bars s))
       + (if posn (rr_state (stream_run on_candle flat strict bars s)) = None then 0 else 1)"
  using linked_balance [OF conjunct1 [OF conjunct2 [OF stream_linked [OF assms(1)]]]]
    stream_linked [OF assms(1), of strict bars] assms(2) by (auto split: if_splits)

end

text \<open>An engine whose callbacks are observed: every returned signal reaches the callback once,
  and the transitions reported lead from the state before a call to the state after it.\<close>

locale observed_engine = candle_engine on_candle flat posn engine_state inv
  for on_candle :: "raw_candle \<Rightarrow> 's \<Rightarrow> (error + signal option) \<times> 's"
    and flat :: "timestamp \<Rightarrow> 's \<Rightarrow> signal option \<times> 's"
    and posn :: "'s \<Rightarrow> position option"
    and engine_state :: "'s \<Rightarrow> state"
    and inv :: "'s \<Rightarrow> bool" +
  fixes out :: "'s \<Rightarrow> emission list"
  assumes candle_logged: "inv s \<Longrightarrow> on_candle r s = (res, s') \<Longrightarrow>
      logged (out s) (engine_state s) (outcome_sigs res) (out s') (engine_state s')"
    and flat_logged: "inv s \<Longrightarrow> flat ts s = (Some sig, s') \<Longrightarrow>
      logged (out s) (engine_state s) [sig] (out s') (engine_state s')"
begin

lemma hook_logged:
  assumes "inv s" "hook_flat flat fl r s = (sigs, s')"
  shows "logged (out s) (engine_state s) sigs (out s') (engine_state s')"
  using assms
  by (auto simp: hook_flat_def logged_refl split: if_splits prod.splits option.splits
      dest: flat_logged flat_silent)

lemma stream_logged:
  "inv s \<Longrightarrow> logged (out s) (engine_state s)
      (rr_signals (stream_run on_candle flat strict bars s))
      (out (rr_state (stream_run on_candle flat strict bars s)))
      (engine_state (rr_state (stream_run on_candle flat strict bars s)))"
proof (induction bars arbitrary: s)
  case Nil
  then show ?case by (simp add: logged_refl)
next
  case (Cons bar bars)
  obtain r fl where bar: "bar = (r, fl)" by (cases bar) auto
  obtain res s1 where step: "on_candle r s = (res, s1)" by (cases "on_candle r s") auto
  have i1: "inv s1" using inv_candle [OF Cons.prems step] .
  note l1 = candle_logged [OF Cons.prems step]
  show ?case
  proof (cases res)
    case (Inl er)
    have l: "logged (out s) (engine_state s) [] (out s1) (engine_state s1)"
      using l1 Inl by (simp add: outcome_sigs_def)
    show ?thesis using logged_trans [OF l Cons.IH [OF i1]] l
      by (cases strict) (auto simp: bar step Inl)
  next
    case (Inr sig)
    obtain fs s2 where h: "hook_flat flat fl r s1 = (fs, s2)" by (cases "hook_flat flat fl r s1") auto
    have "(case sig of None \<Rightarrow> [] | Some x \<Rightarrow> [x]) = outcome_sigs res"
      by (cases sig) (simp_all add: outcome_sigs_def Inr)
    moreover have "inv s2" using hook_linked [OF i1 h] by blast
    ultimately show ?thesis
      using logged_trans [OF l1 logged_trans [OF hook_logged [OF i1 h] Cons.IH [of s2]]]
      by (simp add: bar step Inr h Let_def)
  qed
qed

end

section \<open>A contract per call\<close>

text \<open>What one call must do, from the position, state and log before it to those after it. An
  operation followed by another composes when the first returned no signal.\<close>

definition call_ok ::
  "position option \<times> state \<times> emission list \<Rightarrow> error + signal option
   \<Rightarrow> position option \<times> state \<times> emission list \<Rightarrow> bool" where
  "call_ok = (\<lambda>(p, st, out) res (p', st', out').
     logged out st (outcome_sigs res) out' st' \<and>
     (case res of
        Inr (Some sig) \<Rightarrow> kind_ok sig \<and> (s_from sig = BREAKOUT \<longleftrightarrow> p \<noteq> None)
          \<and> (s_to sig = BREAKOUT \<longleftrightarrow> p' \<noteq> None)
      | _ \<Rightarrow> p' = None \<longleftrightarrow> p = None))"

lemma call_ok_trans:
  assumes "call_ok (p1, st1, o1) (Inr None) (p2, st2, o2)"
    and "call_ok (p2, st2, o2) res (p3, st3, o3)"
  shows "call_ok (p1, st1, o1) res (p3, st3, o3)"
  using assms logged_trans [of o1 st1 "[]" o2 st2 "outcome_sigs res" o3 st3]
  by (auto simp: call_ok_def outcome_sigs_def split: sum.splits option.splits)

lemma call_ok_silent: "(p' = None \<longleftrightarrow> p = None) \<Longrightarrow> call_ok (p, st, out) (Inr None) (p', st, out)"
  by (simp add: call_ok_def outcome_sigs_def logged_refl)

lemma call_ok_error: "call_ok (p, st, out) (Inl er) (p, st, out)"
  by (simp add: call_ok_def outcome_sigs_def logged_refl)

lemma call_okI:
  assumes "out' = out @ new" "sigs_in new = outcome_sigs res" "path_end st new = Some st'"
    and "case res of
        Inr (Some sig) \<Rightarrow> kind_ok sig \<and> (s_from sig = BREAKOUT \<longleftrightarrow> p \<noteq> None)
          \<and> (s_to sig = BREAKOUT \<longleftrightarrow> p' \<noteq> None)
      | _ \<Rightarrow> p' = None \<longleftrightarrow> p = None"
  shows "call_ok (p, st, out) res (p', st', out')"
  using assms loggedI [OF assms(1-3)] by (simp add: call_ok_def)

lemma observed_engineI:
  assumes "\<And>s r res s'. ok s \<Longrightarrow> on_candle r s = (res, s') \<Longrightarrow>
      ok s' \<and> call_ok (posn s, st s, out s) res (posn s', st s', out s')"
    and "\<And>s ts sig s'. ok s \<Longrightarrow> flat ts s = (sig, s') \<Longrightarrow> case sig of
      None \<Rightarrow> s' = s \<and> posn s = None
    | Some x \<Rightarrow> ok s' \<and> posn s' = None \<and> s_kind x = EXIT_SIG
        \<and> call_ok (posn s, st s, out s) (Inr (Some x)) (posn s', st s', out s')"
    and "\<And>s. ok s \<Longrightarrow> st s = BREAKOUT \<longleftrightarrow> posn s \<noteq> None"
  shows "observed_engine on_candle flat posn st ok out"
proof unfold_locales
  show "ok s'" if "ok s" "flat ts s = (sig, s')" for s ts sig s'
    using assms(2) [OF that] that(1) by (cases sig) auto
  show "s_kind x = EXIT_SIG \<and> s_from x = BREAKOUT \<and> s_to x \<noteq> BREAKOUT
      \<and> posn s \<noteq> None \<and> posn s' = None"
    if "ok s" "flat ts s = (Some x, s')" for s ts x s'
    using assms(2) [OF that] by (auto simp: call_ok_def kind_ok_def)
  show "s' = s \<and> posn s = None" if "ok s" "flat ts s = (None, s')" for s ts s'
    using assms(2) [OF that] by simp
  show "logged (out s) (st s) [x] (out s') (st s')"
    if "ok s" "flat ts s = (Some x, s')" for s ts x s'
    using assms(2) [OF that] by (simp add: call_ok_def outcome_sigs_def)
qed (use assms(1,3) in \<open>fastforce simp: call_ok_def\<close>)+

end
