(* ===== verification/Orb_Engine.thy ===== *)
theory Orb_Engine
  imports Session Indicators Engine_Interface
begin

text \<open>
  \<open>orb/engine.py\<close>: the opening-range-breakout state machine. \<open>orb_engine\<close> holds the engine's
  attributes; the configuration is the argument \<open>g\<close>. What the engine passes to its callbacks
  is appended to \<open>e_out\<close>. A method that may raise returns \<open>error + result\<close> next to the
  state, so mutations made before a raise stay visible.
\<close>

section \<open>State\<close>

record orb_engine =
  e_atr :: wilder
  e_roc :: roc
  e_vsma :: vsma
  e_state :: state
  e_range_hi :: "flt option"
  e_range_lo :: "flt option"
  e_range_bars :: int
  e_range_locked :: bool
  e_pos :: "position option"
  e_rebuild :: bool
  e_traded :: bool
  e_last_ts :: "timestamp option"
  e_session_id :: "int option"
  e_gate_logged :: bool
  e_out :: "emission list"

definition build_indicators :: "orb_config \<Rightarrow> orb_engine \<Rightarrow> orb_engine" where
  "build_indicators g e = e\<lparr>e_atr := wilder_new (nat (oc_atr_period g)),
     e_roc := roc_new (nat (oc_roc_period g)), e_vsma := vsma_new (nat (oc_rvol_period g))\<rparr>"

definition orb_new :: "orb_config \<Rightarrow> orb_engine" where
  "orb_new g = \<lparr>e_atr = wilder_new (nat (oc_atr_period g)),
     e_roc = roc_new (nat (oc_roc_period g)), e_vsma = vsma_new (nat (oc_rvol_period g)),
     e_state = IDLE, e_range_hi = None, e_range_lo = None, e_range_bars = 0,
     e_range_locked = False, e_pos = None, e_rebuild = False, e_traded = False,
     e_last_ts = None, e_session_id = None, e_gate_logged = False, e_out = []\<rparr>"

section \<open>Emission\<close>

definition orb_transition ::
  "timestamp \<Rightarrow> state \<Rightarrow> state \<Rightarrow> string \<Rightarrow> detail \<Rightarrow> orb_engine \<Rightarrow> orb_engine" where
  "orb_transition ts from to ev d e = e\<lparr>e_out := e_out e
     @ [Trans \<lparr>t_ts = ts, t_from = from, t_to = to, t_event = ev, t_detail = d\<rparr>]\<rparr>"

definition default_qty :: "orb_config \<Rightarrow> flt option" where
  "default_qty g = (if oc_qty g > 0 then Some (oc_qty g) else None)"

definition orb_signal ::
  "orb_config \<Rightarrow> candle \<Rightarrow> signal_kind \<Rightarrow> direction \<Rightarrow> flt \<Rightarrow> state \<Rightarrow> state \<Rightarrow> string
   \<Rightarrow> flt option \<Rightarrow> flt option \<Rightarrow> flt option \<Rightarrow> flt option \<Rightarrow> flt option \<Rightarrow> int option
   \<Rightarrow> flt option \<Rightarrow> orb_engine \<Rightarrow> signal \<times> orb_engine" where
  "orb_signal g c kind dir price from to reason rocv rvol atr stop tp bars qty_override e =
     (let qty = (case qty_override of Some q \<Rightarrow> Some q | None \<Rightarrow> default_qty g);
          sig = \<lparr>s_ts = c_ts c, s_kind = kind, s_dir = dir, s_price = price, s_from = from,
                 s_to = to, s_reason = reason, s_range_high = e_range_hi e,
                 s_range_low = e_range_lo e, s_roc = rocv, s_rvol = rvol, s_atr = atr,
                 s_stop = stop, s_tp = tp, s_qty = qty, s_bars_held = bars\<rparr>
      in (sig, e\<lparr>e_out := e_out e @ [Sig sig]\<rparr>))"

section \<open>Range helpers\<close>

definition lock_range :: "candle \<Rightarrow> bool \<Rightarrow> orb_engine \<Rightarrow> orb_engine" where
  "lock_range c partial e =
     (let e1 = e\<lparr>e_range_locked := True, e_rebuild := False\<rparr>
      in orb_transition (c_ts c) RANGE_DEFINED RANGE_DEFINED ''RANGE_LOCK''
           (RangeLock (e_range_hi e1) (e_range_lo e1) (e_range_bars e1) partial
              (e_range_hi e1 = e_range_lo e1)) e1)"

definition maybe_lock :: "orb_config \<Rightarrow> candle \<Rightarrow> orb_engine \<Rightarrow> orb_engine" where
  "maybe_lock g c e =
     (if e_range_bars e \<ge> oc_range_minutes g then lock_range c False e else e)"

definition clear_range :: "orb_engine \<Rightarrow> orb_engine" where
  "clear_range e = e\<lparr>e_range_hi := None, e_range_lo := None, e_range_bars := 0,
     e_range_locked := False\<rparr>"

section \<open>Breakout and momentum\<close>

text \<open>ATR stop distance, clamped: the cap first, then the floor.\<close>

definition stop_dist :: "orb_config \<Rightarrow> flt \<Rightarrow> flt" where
  "stop_dist g atr =
     (let d = oc_atr_mult g * atr;
          d1 = (case oc_stop_max g of None \<Rightarrow> d | Some m \<Rightarrow> min d m)
      in case oc_stop_min g of None \<Rightarrow> d1 | Some m \<Rightarrow> max d1 m)"

text \<open>\<open>_momentum\<close>: (roc, rvol, passed, fail reason). A comparison with an absent ROC value is
  Python's \<open>TypeError\<close>.\<close>

definition momentum ::
  "orb_config \<Rightarrow> candle \<Rightarrow> direction \<Rightarrow> orb_engine
   \<Rightarrow> (error + flt option \<times> flt option \<times> bool \<times> string) \<times> orb_engine" where
  "momentum g c dir e =
    (case (if oc_use_roc g then roc_value (e_roc e) else Inr None) of
       Inl er \<Rightarrow> (Inl er, e)
     | Inr rocv \<Rightarrow>
       let rvol = (if oc_use_rvol g then
                     (case vsma_value (e_vsma e) of
                        None \<Rightarrow> Some 0
                      | Some sma \<Rightarrow> if sma > 0 then Some (c_volume c / sma) else Some 0)
                   else None)
       in if \<not> oc_use_roc g \<and> \<not> oc_use_rvol g then
            (Inr (rocv, rvol, True, ''''), e\<lparr>e_gate_logged := True\<rparr>)
          else
            let rest = (case rvol of
                  Some v \<Rightarrow> if \<not> v \<ge> oc_rvol_min g then Inr (rocv, rvol, False, ''rvol'')
                            else Inr (rocv, rvol, True, '''')
                | None \<Rightarrow> Inr (rocv, rvol, True, ''''))
            in if oc_use_roc g then
                 (case rocv of
                    None \<Rightarrow> (Inl TypeError, e)
                  | Some v \<Rightarrow>
                      if dir = LONG \<and> \<not> v \<ge> oc_roc_min g then (Inr (rocv, rvol, False, ''roc''), e)
                      else if dir = SHORT \<and> \<not> v \<le> - oc_roc_min g
                        then (Inr (rocv, rvol, False, ''roc''), e)
                      else (rest, e))
               else (rest, e))"

definition breakout_direction :: "flt \<Rightarrow> flt \<Rightarrow> candle \<Rightarrow> direction option" where
  "breakout_direction hi lo c =
     (if c_close c > hi then Some LONG else if c_close c < lo then Some SHORT else None)"

text \<open>Opening the simulated position: stop, take-profit, transition, entry signal.\<close>

definition open_position ::
  "orb_config \<Rightarrow> candle \<Rightarrow> direction \<Rightarrow> flt \<Rightarrow> flt option \<Rightarrow> flt option \<Rightarrow> orb_engine
   \<Rightarrow> signal \<times> orb_engine" where
  "open_position g c dir atr rocv rvol e =
     (let dist = stop_dist g atr;
          stop = (if dir = LONG then c_close c - dist else c_close c + dist);
          tp = (case oc_tp_rrr g of None \<Rightarrow> None
                | Some rrr \<Rightarrow> let risk = \<bar>stop - c_close c\<bar>
                             in Some (if dir = LONG then c_close c + rrr * risk
                                      else c_close c - rrr * risk));
          e1 = e\<lparr>e_pos := Some \<lparr>p_dir = dir, p_entry_ts = c_ts c, p_entry = c_close c,
                   p_stop = stop, p_atr = atr, p_tp = tp, p_bars = 0, p_mfe = 0, p_mae = 0\<rparr>,
                 e_traded := True\<rparr>;
          e2 = orb_transition (c_ts c) RANGE_DEFINED BREAKOUT
                 (if dir = LONG then ''BREAKOUT_LONG'' else ''BREAKOUT_SHORT'')
                 (EntryAt (c_close c) stop tp) e1;
          e3 = e2\<lparr>e_state := BREAKOUT\<rparr>
      in orb_signal g c ENTRY dir (c_close c) RANGE_DEFINED BREAKOUT
           (''breakout_'' @ direction_str dir) rocv rvol (Some atr) (Some stop) tp (Some 0)
           None e3)"

definition check_breakout ::
  "orb_config \<Rightarrow> candle \<Rightarrow> orb_engine \<Rightarrow> (error + signal option) \<times> orb_engine" where
  "check_breakout g c e =
    (case e_range_hi e of None \<Rightarrow> (Inl TypeError, e) | Some hi \<Rightarrow>
     case e_range_lo e of None \<Rightarrow> (Inl TypeError, e) | Some lo \<Rightarrow>
     case breakout_direction hi lo c of
       None \<Rightarrow> (Inr None, e)
     | Some dir \<Rightarrow>
        if dir = LONG \<and> \<not> oc_allow_long g then (Inr None, e)
        else if dir = SHORT \<and> \<not> oc_allow_short g then (Inr None, e)
        else case momentum g c dir e of
          (Inl er, e1) \<Rightarrow> (Inl er, e1)
        | (Inr (rocv, rvol, ok, why), e1) \<Rightarrow>
            if \<not> ok then
              (case orb_signal g c REJECT dir (c_close c) RANGE_DEFINED RANGE_DEFINED
                      (''momentum_fail:'' @ why) rocv rvol (w_atr (e_atr e1)) None None None
                      None e1 of (sig, e2) \<Rightarrow> (Inr (Some sig), e2))
            else case w_atr (e_atr e1) of
                None \<Rightarrow> (Inl TypeError, e1)
              | Some atr \<Rightarrow> (case open_position g c dir atr rocv rvol e1 of
                              (sig, e2) \<Rightarrow> (Inr (Some sig), e2)))"

section \<open>Exit logic\<close>

definition range_reentered :: "orb_config \<Rightarrow> position \<Rightarrow> flt \<Rightarrow> flt \<Rightarrow> candle \<Rightarrow> bool" where
  "range_reentered g pos hi lo c =
     (if oc_reentry_on g = ''close'' then
        (if p_dir pos = LONG then c_close c \<le> hi else c_close c \<ge> lo)
      else (if p_dir pos = LONG then c_low c \<le> hi else c_high c \<ge> lo))"

definition tp_hit :: "orb_config \<Rightarrow> position \<Rightarrow> candle \<Rightarrow> bool" where
  "tp_hit g pos c =
     (case p_tp pos of None \<Rightarrow> False
      | Some tp \<Rightarrow>
        if oc_reentry_on g = ''close'' then
          (if p_dir pos = LONG then c_close c \<ge> tp else c_close c \<le> tp)
        else (if p_dir pos = LONG then c_high c \<ge> tp else c_low c \<le> tp))"

definition trail_hit :: "orb_config \<Rightarrow> position \<Rightarrow> candle \<Rightarrow> bool" where
  "trail_hit g pos c =
     (if oc_reentry_on g = ''close'' then
        (if p_dir pos = LONG then c_close c \<le> p_stop pos else c_close c \<ge> p_stop pos)
      else (if p_dir pos = LONG then c_low c \<le> p_stop pos else c_high c \<ge> p_stop pos))"

definition post_exit_state :: "orb_config \<Rightarrow> orb_engine \<Rightarrow> state" where
  "post_exit_state g e =
     (if \<not> oc_one_trade g \<and> oc_rearm g \<and> (oc_rearm_range g = ''rebuild'' \<or> e_range_locked e)
      then RANGE_DEFINED else IDLE)"

fun exit_event :: "exit_reason \<Rightarrow> string option" where
  "exit_event TAKE_PROFIT = Some ''EXIT_TP''"
| "exit_event TRAIL_STOP = Some ''EXIT_TRAIL''"
| "exit_event RANGE_REENTRY = Some ''EXIT_REENTRY''"
| "exit_event SESSION_END = Some ''EXIT_SESSION''"
| "exit_event GAP_INVALIDATE = Some ''EXIT_GAP''"
| "exit_event BROKER_CLOSED = None"

text \<open>The rearm step shared by \<open>_exit\<close> and \<open>force_flat\<close>.\<close>

definition rearm :: "orb_config \<Rightarrow> timestamp \<Rightarrow> orb_engine \<Rightarrow> orb_engine" where
  "rearm g ts e =
     (if oc_rearm_range g = ''rebuild'' then
        orb_transition ts RANGE_DEFINED RANGE_DEFINED ''REARM'' Rebuild
          ((clear_range e)\<lparr>e_rebuild := True\<rparr>)
      else orb_transition ts RANGE_DEFINED RANGE_DEFINED ''REARM'' NoDetail e)"

definition exit_position ::
  "orb_config \<Rightarrow> candle \<Rightarrow> exit_reason \<Rightarrow> state \<Rightarrow> flt option \<Rightarrow> orb_engine
   \<Rightarrow> (error + signal) \<times> orb_engine" where
  "exit_position g c reason to price e =
    (case e_pos e of
       None \<Rightarrow> (Inl AssertionError, e)
     | Some pos \<Rightarrow>
       case exit_event reason of
         None \<Rightarrow> (Inl KeyError, e)
       | Some ev \<Rightarrow>
         let px = (case price of None \<Rightarrow> c_close c | Some p \<Rightarrow> p);
             e1 = orb_transition (c_ts c) BREAKOUT to ev (ExitAt px (p_bars pos)) e
         in case orb_signal g c EXIT_SIG (p_dir pos) px BREAKOUT to (exit_reason_str reason)
                   None None (w_atr (e_atr e1)) (Some (p_stop pos)) (p_tp pos)
                   (Some (p_bars pos)) None e1 of
              (sig, e2) \<Rightarrow>
                let e3 = e2\<lparr>e_pos := None, e_state := to\<rparr>
                in (Inr sig,
                    if to = IDLE then
                      orb_transition (c_ts c) IDLE IDLE
                        (if reason \<noteq> SESSION_END then ''TRADE_DONE'' else ''SESSION_DONE'')
                        NoDetail e3
                    else rearm g (c_ts c) e3))"

text \<open>\<open>_partial_tp\<close>: part of the position is closed, the target is consumed.\<close>

definition partial_tp ::
  "orb_config \<Rightarrow> candle \<Rightarrow> flt \<Rightarrow> position \<Rightarrow> orb_engine \<Rightarrow> signal \<times> orb_engine" where
  "partial_tp g c price pos e =
     (let closed = (if oc_qty g > 0 then Some (oc_qty g * oc_tp_frac g) else None);
          e1 = orb_transition (c_ts c) BREAKOUT BREAKOUT ''EXIT_TP_PARTIAL''
                 (PartialAt price closed (p_bars pos)) e
      in case orb_signal g c EXIT_SIG (p_dir pos) price BREAKOUT BREAKOUT
                ''take_profit_partial'' None None (w_atr (e_atr e1)) (Some (p_stop pos))
                (p_tp pos) (Some (p_bars pos)) closed e1 of
           (sig, e2) \<Rightarrow> (sig, e2\<lparr>e_pos := Some (pos\<lparr>p_tp := None\<rparr>)\<rparr>))"

section \<open>State handlers\<close>

definition on_idle ::
  "orb_config \<Rightarrow> candle \<Rightarrow> session_info \<Rightarrow> orb_engine \<Rightarrow> (error + signal option) \<times> orb_engine" where
  "on_idle g c info e =
     (if si_zone info = IN_RANGE_WINDOW then
        let e1 = e\<lparr>e_range_hi := Some (c_high c), e_range_lo := Some (c_low c),
                   e_range_bars := 1, e_range_locked := False\<rparr>;
            e2 = orb_transition (c_ts c) IDLE RANGE_DEFINED ''RANGE_OPEN''
                   (RangeOpen (c_high c) (c_low c)) e1
        in (Inr None, maybe_lock g c (e2\<lparr>e_state := RANGE_DEFINED\<rparr>))
      else (Inr None, e))"

text \<open>One bar folded into a range under construction.\<close>

definition build_range :: "candle \<Rightarrow> orb_engine \<Rightarrow> orb_engine" where
  "build_range c e =
     (case e_range_hi e of
        None \<Rightarrow> e\<lparr>e_range_hi := Some (c_high c), e_range_lo := Some (c_low c), e_range_bars := 1\<rparr>
      | Some hi \<Rightarrow>
          e\<lparr>e_range_hi := Some (max hi (c_high c)),
            e_range_lo := (case e_range_lo e of None \<Rightarrow> None | Some lo \<Rightarrow> Some (min lo (c_low c))),
            e_range_bars := e_range_bars e + 1\<rparr>)"

definition warm :: "orb_config \<Rightarrow> orb_engine \<Rightarrow> bool" where
  "warm g e \<longleftrightarrow> wilder_ready (e_atr e) \<and> (\<not> oc_use_roc g \<or> roc_ready (e_roc e))
     \<and> (\<not> oc_use_rvol g \<or> vsma_ready (e_vsma e))"

definition on_range_defined ::
  "orb_config \<Rightarrow> candle \<Rightarrow> session_info \<Rightarrow> orb_engine \<Rightarrow> (error + signal option) \<times> orb_engine" where
  "on_range_defined g c info e =
     (let building = (si_zone info = IN_RANGE_WINDOW \<or> e_rebuild e)
      in if building \<and> \<not> e_range_locked e then
           let e1 = build_range c e;
               e2 = orb_transition (c_ts c) RANGE_DEFINED RANGE_DEFINED ''RANGE_BUILD''
                      (BarsBuilt (e_range_bars e1)) e1
           in (Inr None, maybe_lock g c e2)
         else
           let e1 = (if si_zone info = IN_SESSION \<and> \<not> e_range_locked e
                     then lock_range c True e else e)
           in if \<not> warm g e1 then (Inr None, e1) else check_breakout g c e1)"

text \<open>Bars held and excursions, updated before any exit test.\<close>

definition track_position :: "candle \<Rightarrow> position \<Rightarrow> position" where
  "track_position c pos =
     (let p1 = pos\<lparr>p_bars := p_bars pos + 1\<rparr>
      in if p_dir pos = LONG then
           p1\<lparr>p_mfe := max (p_mfe pos) (c_high c - p_entry pos),
              p_mae := max (p_mae pos) (p_entry pos - c_low c)\<rparr>
         else
           p1\<lparr>p_mfe := max (p_mfe pos) (p_entry pos - c_low c),
              p_mae := max (p_mae pos) (c_high c - p_entry pos)\<rparr>)"

definition ratchet :: "orb_config \<Rightarrow> candle \<Rightarrow> flt \<Rightarrow> position \<Rightarrow> position" where
  "ratchet g c atr pos =
     (let dist = stop_dist g atr
      in pos\<lparr>p_stop := (if p_dir pos = LONG then max (p_stop pos) (c_close c - dist)
                        else min (p_stop pos) (c_close c + dist))\<rparr>)"

definition some_signal ::
  "(error + signal) \<times> orb_engine \<Rightarrow> (error + signal option) \<times> orb_engine" where
  "some_signal x = (case x of (Inl er, e) \<Rightarrow> (Inl er, e) | (Inr sig, e) \<Rightarrow> (Inr (Some sig), e))"

definition on_breakout ::
  "orb_config \<Rightarrow> candle \<Rightarrow> orb_engine \<Rightarrow> (error + signal option) \<times> orb_engine" where
  "on_breakout g c e =
    (case e_pos e of
       None \<Rightarrow> (Inl AssertionError, e)
     | Some pos0 \<Rightarrow>
       let pos = track_position c pos0;
           e1 = e\<lparr>e_pos := Some pos\<rparr>;
           at_close = (oc_reentry_on g = ''close'')
       in case (e_range_hi e1, e_range_lo e1) of
            (Some hi, Some lo) \<Rightarrow>
              if range_reentered g pos hi lo c then
                some_signal (exit_position g c RANGE_REENTRY (post_exit_state g e1)
                  (Some (if at_close then c_close c else if p_dir pos = LONG then hi else lo)) e1)
              else if tp_hit g pos c then
                let price = (if at_close then c_close c
                             else case p_tp pos of None \<Rightarrow> c_close c | Some tp \<Rightarrow> tp)
                in if oc_tp_frac g < 1 then
                     (case partial_tp g c price pos e1 of (sig, e2) \<Rightarrow> (Inr (Some sig), e2))
                   else some_signal (exit_position g c TAKE_PROFIT (post_exit_state g e1)
                          (Some price) e1)
              else if trail_hit g pos c then
                some_signal (exit_position g c TRAIL_STOP (post_exit_state g e1)
                  (Some (if at_close then c_close c else p_stop pos)) e1)
              else
                (case w_atr (e_atr e1) of
                   None \<Rightarrow> (Inl TypeError, e1)
                 | Some atr \<Rightarrow> (Inr None, e1\<lparr>e_pos := Some (ratchet g c atr pos)\<rparr>))
          | _ \<Rightarrow> (Inl TypeError, e1))"

section \<open>Resets\<close>

definition handle_gap_reset ::
  "orb_config \<Rightarrow> candle \<Rightarrow> int \<Rightarrow> orb_engine \<Rightarrow> (error + signal option) \<times> orb_engine" where
  "handle_gap_reset g c gap e =
    (case (if e_state e = BREAKOUT then some_signal (exit_position g c GAP_INVALIDATE IDLE None e)
           else (Inr None, e)) of
       (Inl er, e1) \<Rightarrow> (Inl er, e1)
     | (Inr sig, e1) \<Rightarrow>
       let e2 = build_indicators g e1;
           info = classify g (c_ts c)
       in if in_session (si_zone info) then
            let e3 = orb_transition (c_ts c) (e_state e2) RANGE_DEFINED ''GAP_RESET''
                       (GapOf gap True) e2
            in (Inr sig, (clear_range (e3\<lparr>e_state := RANGE_DEFINED\<rparr>))\<lparr>e_rebuild := True\<rparr>)
          else
            let e3 = (if e_state e2 \<noteq> IDLE
                      then orb_transition (c_ts c) (e_state e2) IDLE ''GAP_RESET''
                             (GapOf gap False) e2
                      else e2)
            in (Inr sig, (clear_range (e3\<lparr>e_state := IDLE\<rparr>))\<lparr>e_rebuild := False\<rparr>))"

definition reset_for_new_session ::
  "orb_config \<Rightarrow> int \<Rightarrow> timestamp \<Rightarrow> orb_engine \<Rightarrow> orb_engine" where
  "reset_for_new_session g new_id ts e =
     (let e1 = build_indicators g e;
          e2 = (if e_session_id e1 \<noteq> None
                then orb_transition ts (e_state e1) IDLE ''SESSION_RESET'' (SessionId new_id) e1
                else e1)
      in (clear_range (e2\<lparr>e_state := IDLE\<rparr>))\<lparr>e_pos := None, e_rebuild := False,
           e_traded := False, e_session_id := Some new_id\<rparr>)"

text \<open>\<open>reset()\<close>: a pristine engine; the callbacks (and what they saw) stay.\<close>

definition orb_reset :: "orb_config \<Rightarrow> orb_engine \<Rightarrow> orb_engine" where
  "orb_reset g e =
     (clear_range ((build_indicators g e)\<lparr>e_state := IDLE\<rparr>))\<lparr>e_pos := None, e_rebuild := False,
        e_traded := False, e_last_ts := None, e_session_id := None, e_gate_logged := False\<rparr>"

section \<open>Public operations\<close>

definition force_flat ::
  "orb_config \<Rightarrow> timestamp \<Rightarrow> orb_engine \<Rightarrow> signal option \<times> orb_engine" where
  "force_flat g ts e =
    (case e_pos e of
       None \<Rightarrow> (None, e)
     | Some pos \<Rightarrow>
       let to = post_exit_state g e;
           e1 = orb_transition ts BREAKOUT to ''EXIT_BROKER'' (BarsHeld (p_bars pos)) e;
           sig = \<lparr>s_ts = ts, s_kind = EXIT_SIG, s_dir = p_dir pos, s_price = p_stop pos,
                  s_from = BREAKOUT, s_to = to, s_reason = ''broker_closed'',
                  s_range_high = e_range_hi e1, s_range_low = e_range_lo e1, s_roc = None,
                  s_rvol = None, s_atr = w_atr (e_atr e1), s_stop = Some (p_stop pos),
                  s_tp = p_tp pos, s_qty = default_qty g, s_bars_held = Some (p_bars pos)\<rparr>;
           e2 = e1\<lparr>e_out := e_out e1 @ [Sig sig], e_pos := None, e_state := to\<rparr>
       in (Some sig, if to = RANGE_DEFINED then rearm g ts e2 else e2))"

text \<open>\<open>on_candle\<close> up to the indicator feed: \<open>Return\<close> is an early return (or raise),
  \<open>Continue\<close> falls through.\<close>

datatype flow = Return "error + signal option" | Continue

definition session_boundary ::
  "orb_config \<Rightarrow> session_info \<Rightarrow> candle \<Rightarrow> orb_engine \<Rightarrow> flow \<times> orb_engine" where
  "session_boundary g info c e =
    (case (if e_state e = BREAKOUT then some_signal (exit_position g c SESSION_END IDLE None e)
           else (Inr None, e)) of
       (Inl er, e1) \<Rightarrow> (Return (Inl er), e1)
     | (Inr sig, e1) \<Rightarrow>
       let e2 = (reset_for_new_session g (si_id info) (c_ts c) e1)\<lparr>e_last_ts := Some (c_ts c)\<rparr>
       in ((case sig of None \<Rightarrow> Continue | Some x \<Rightarrow> Return (Inr (Some x))), e2))"

definition after_session ::
  "orb_config \<Rightarrow> candle \<Rightarrow> orb_engine \<Rightarrow> (error + signal option) \<times> orb_engine" where
  "after_session g c e =
     (let e1 = e\<lparr>e_last_ts := Some (c_ts c)\<rparr>
      in if e_state e1 = BREAKOUT then some_signal (exit_position g c SESSION_END IDLE None e1)
         else if e_state e1 \<noteq> IDLE then
           (Inr None, clear_range ((orb_transition (c_ts c) (e_state e1) IDLE ''SESSION_DONE''
                         NoDetail e1)\<lparr>e_state := IDLE\<rparr>))
         else (Inr None, e1))"

definition bar_gap :: "orb_config \<Rightarrow> timestamp \<Rightarrow> timestamp \<Rightarrow> int" where
  "bar_gap g now prev = round_even (secs_between now prev / of_int (oc_bar_sec g)) - 1"

definition gap_check ::
  "orb_config \<Rightarrow> candle \<Rightarrow> orb_engine \<Rightarrow> flow \<times> orb_engine" where
  "gap_check g c e =
    (let set_ts = (\<lambda>x. x\<lparr>e_last_ts := Some (c_ts c)\<rparr>)
     in case e_last_ts e of
          None \<Rightarrow> (Continue, set_ts e)
        | Some prev \<Rightarrow>
          let gap = bar_gap g (c_ts c) prev
          in if gap > 0 \<and> (gap > oc_max_gap g \<or> oc_on_gap g = ''reset'') then
               (case handle_gap_reset g c gap e of
                  (Inl er, e1) \<Rightarrow> (Return (Inl er), e1)
                | (Inr (Some sig), e1) \<Rightarrow> (Return (Inr (Some sig)), set_ts e1)
                | (Inr None, e1) \<Rightarrow> (Continue, set_ts e1))
             else (Continue, set_ts e))"

definition feed_indicators :: "orb_config \<Rightarrow> session_info \<Rightarrow> candle \<Rightarrow> orb_engine \<Rightarrow> orb_engine" where
  "feed_indicators g info c e =
     (if in_session (si_zone info) then
        e\<lparr>e_atr := wilder_update (c_high c, c_low c, c_close c) (e_atr e),
          e_roc := (if oc_use_roc g then roc_update (c_close c) (e_roc e) else e_roc e),
          e_vsma := (if oc_use_rvol g then vsma_update (c_volume c) (e_vsma e) else e_vsma e)\<rparr>
      else e)"

definition dispatch ::
  "orb_config \<Rightarrow> candle \<Rightarrow> session_info \<Rightarrow> orb_engine \<Rightarrow> (error + signal option) \<times> orb_engine" where
  "dispatch g c info e =
     (case e_state e of
        IDLE \<Rightarrow> on_idle g c info e
      | RANGE_DEFINED \<Rightarrow> on_range_defined g c info e
      | BREAKOUT \<Rightarrow> on_breakout g c e
      | EXIT \<Rightarrow> (Inr None, e))"

definition orb_step ::
  "orb_config \<Rightarrow> candle \<Rightarrow> orb_engine \<Rightarrow> (error + signal option) \<times> orb_engine" where
  "orb_step g c e =
    (if (case e_last_ts e of None \<Rightarrow> False | Some t \<Rightarrow> utc (c_ts c) \<le> utc t) then
       (if oc_strict g then (Inl OutOfOrderError, e) else (Inr None, e))
     else
       let info = classify g (c_ts c);
           front = (if Some (si_id info) \<noteq> e_session_id e then session_boundary g info c e
                    else if si_zone info = AFTER then
                      (case after_session g c e of (res, e1) \<Rightarrow> (Return res, e1))
                    else gap_check g c e)
       in case front of
            (Return res, e1) \<Rightarrow> (res, e1)
          | (Continue, e1) \<Rightarrow> dispatch g c info (feed_indicators g info c e1))"

definition on_candle ::
  "orb_config \<Rightarrow> raw_candle \<Rightarrow> orb_engine \<Rightarrow> (error + signal option) \<times> orb_engine" where
  "on_candle g r e = (case validate r of Inl er \<Rightarrow> (Inl er, e) | Inr c \<Rightarrow> orb_step g c e)"

end
