(* ===== verification/Orb_Correct.thy ===== *)
theory Orb_Correct
  imports Orb_Engine
begin

text \<open>
  Correctness of the ORB engine: the invariant, one lemma per operation that the operation
  keeps it, emits what it returns and leaves a gap-free path of transitions, the composition
  for \<open>on_candle\<close> and \<open>force_flat\<close>, and the interpretation of the shared engine contract.
\<close>

section \<open>Invariant\<close>

definition range_wf :: "orb_engine \<Rightarrow> bool" where
  "range_wf e \<longleftrightarrow> (case e_range_hi e of
       None \<Rightarrow> e_range_lo e = None \<and> \<not> e_range_locked e
     | Some hi \<Rightarrow> (case e_range_lo e of None \<Rightarrow> False | Some lo \<Rightarrow> lo \<le> hi))"

definition pos_session :: "orb_config \<Rightarrow> orb_engine \<Rightarrow> bool" where
  "pos_session g e \<longleftrightarrow> (case e_pos e of None \<Rightarrow> True
     | Some p \<Rightarrow> e_session_id e = Some (si_id (classify g (p_entry_ts p))))"

definition orb_inv :: "orb_config \<Rightarrow> orb_engine \<Rightarrow> bool" where
  "orb_inv g e \<longleftrightarrow> orb_config_ok g
     \<and> wilder_wf (nat (oc_atr_period g)) (e_atr e)
     \<and> range_wf e
     \<and> e_state e \<noteq> EXIT
     \<and> (e_state e = BREAKOUT \<longleftrightarrow> e_pos e \<noteq> None)
     \<and> (e_state e = BREAKOUT \<longrightarrow> e_range_hi e \<noteq> None \<and> wilder_ready (e_atr e))
     \<and> (e_state e = RANGE_DEFINED \<longrightarrow> e_range_hi e \<noteq> None \<or> e_rebuild e)
     \<and> (e_session_id e = None \<longrightarrow> e_state e = IDLE)
     \<and> pos_session g e"

text \<open>What the callbacks saw between two states.\<close>

definition emits :: "orb_engine \<Rightarrow> signal list \<Rightarrow> orb_engine \<Rightarrow> bool" where
  "emits e sigs e' \<longleftrightarrow> logged (e_out e) (e_state e) sigs (e_out e') (e_state e')"

lemma emits_refl: "e_out e' = e_out e \<Longrightarrow> e_state e' = e_state e \<Longrightarrow> emits e [] e'"
  by (simp add: emits_def logged_refl)

lemma emits_trans: "emits e1 s1 e2 \<Longrightarrow> emits e2 s2 e3 \<Longrightarrow> emits e1 (s1 @ s2) e3"
  unfolding emits_def by (rule logged_trans)

lemma emitsI:
  "e_out e' = e_out e @ new \<Longrightarrow> sigs_in new = sigs
   \<Longrightarrow> path_end (e_state e) new = Some (e_state e') \<Longrightarrow> emits e sigs e'"
  unfolding emits_def by (rule loggedI)

text \<open>The errors a candle can raise: the indicator's corrupt-price error is the only one past
  the input checks.\<close>

definition roc_error :: error where
  "roc_error = IndicatorError ''ROC divisor is zero (corrupt price series)''"

text \<open>The contract of an operation that takes \<open>e\<close> to \<open>e'\<close> with outcome \<open>res\<close>.\<close>

definition sig_fits :: "orb_engine \<Rightarrow> signal \<Rightarrow> orb_engine \<Rightarrow> bool" where
  "sig_fits e sig e' \<longleftrightarrow> kind_ok sig \<and> (s_from sig = BREAKOUT \<longleftrightarrow> e_pos e \<noteq> None)
     \<and> (s_to sig = BREAKOUT \<longleftrightarrow> e_pos e' \<noteq> None)"

definition step_ok ::
  "orb_config \<Rightarrow> orb_engine \<Rightarrow> error + signal option \<Rightarrow> orb_engine \<Rightarrow> bool" where
  "step_ok g e res e' \<longleftrightarrow> orb_inv g e' \<and>
     (case res of
        Inl er \<Rightarrow> er = roc_error \<and> (e_pos e' = None \<longleftrightarrow> e_pos e = None) \<and> emits e [] e'
      | Inr None \<Rightarrow> (e_pos e' = None \<longleftrightarrow> e_pos e = None) \<and> emits e [] e'
      | Inr (Some sig) \<Rightarrow> sig_fits e sig e' \<and> emits e [sig] e')"

lemma orb_inv_cfg: "orb_inv g e \<Longrightarrow> orb_config_ok g"
  by (simp add: orb_inv_def)

lemma orb_inv_pos: "orb_inv g e \<Longrightarrow> e_state e = BREAKOUT \<longleftrightarrow> e_pos e \<noteq> None"
  by (simp add: orb_inv_def)

lemmas orb_emission = orb_transition_def orb_signal_def
lemmas orb_inv_unfold = orb_inv_def range_wf_def pos_session_def

text \<open>Emission touches nothing but the callback log.\<close>

lemma orb_inv_out [simp]: "orb_inv g (e\<lparr>e_out := x\<rparr>) = orb_inv g e"
  by (simp add: orb_inv_unfold cong: option.case_cong)

lemma orb_signal_eq:
  assumes "orb_signal g c kind dir px from to reason a b d st tp bars q e = (sig, e')"
  shows "e' = e\<lparr>e_out := e_out e @ [Sig sig]\<rparr>" "s_kind sig = kind" "s_from sig = from"
    "s_to sig = to" "s_dir sig = dir" "s_price sig = px" "s_reason sig = reason"
    "s_stop sig = st" "s_tp sig = tp" "s_ts sig = c_ts c"
  using assms by (auto simp: orb_signal_def Let_def)

lemma new_inv: "orb_config_ok g \<Longrightarrow> orb_inv g (orb_new g)"
  by (simp add: orb_inv_unfold orb_new_def wilder_wf_new)

section \<open>Range construction\<close>

lemma lock_range_frame [frame_simps]:
  "e_state (lock_range c b e) = e_state e" "e_pos (lock_range c b e) = e_pos e"
  "e_range_hi (lock_range c b e) = e_range_hi e" "e_range_lo (lock_range c b e) = e_range_lo e"
  "e_atr (lock_range c b e) = e_atr e" "e_roc (lock_range c b e) = e_roc e"
  "e_vsma (lock_range c b e) = e_vsma e" "e_session_id (lock_range c b e) = e_session_id e"
  "e_rebuild (lock_range c b e) = False" "e_range_locked (lock_range c b e) = True"
  "e_range_bars (lock_range c b e) = e_range_bars e"
  "e_last_ts (lock_range c b e) = e_last_ts e" "e_traded (lock_range c b e) = e_traded e"
  by (simp_all add: lock_range_def Let_def orb_emission)

lemma lock_range_inv:
  assumes "orb_inv g e" "e_range_hi e \<noteq> None"
  shows "orb_inv g (lock_range c b e)"
  using assms by (auto simp: orb_inv_unfold frame_simps split: option.splits)

lemma lock_range_emits:
  "e_state e = RANGE_DEFINED \<Longrightarrow> emits e [] (lock_range c b e)"
  by (rule emitsI [where new = "[Trans \<lparr>t_ts = c_ts c, t_from = RANGE_DEFINED,
        t_to = RANGE_DEFINED, t_event = ''RANGE_LOCK'', t_detail = RangeLock (e_range_hi e)
        (e_range_lo e) (e_range_bars e) b (e_range_hi e = e_range_lo e)\<rparr>]"])
    (simp_all add: lock_range_def Let_def orb_emission)

lemma maybe_lock_ok:
  assumes "orb_inv g e" "e_range_hi e \<noteq> None" "e_state e = RANGE_DEFINED"
  shows "orb_inv g (maybe_lock g c e)" "emits e [] (maybe_lock g c e)"
    "e_pos (maybe_lock g c e) = e_pos e"
  using assms lock_range_inv [OF assms(1,2)] lock_range_emits [OF assms(3)]
  by (simp_all add: maybe_lock_def frame_simps emits_refl)

lemma on_idle_ok:
  assumes inv: "orb_inv g e" and st: "e_state e = IDLE" and c: "candle_ok c"
    and sid: "e_session_id e \<noteq> None"
    and run: "on_idle g c info e = (res, e')"
  shows "step_ok g e res e'"
proof (cases "si_zone info = IN_RANGE_WINDOW")
  case True
  define e2 where "e2 = (orb_transition (c_ts c) IDLE RANGE_DEFINED ''RANGE_OPEN''
     (RangeOpen (c_high c) (c_low c)) (e\<lparr>e_range_hi := Some (c_high c),
        e_range_lo := Some (c_low c), e_range_bars := 1, e_range_locked := False\<rparr>))
     \<lparr>e_state := RANGE_DEFINED\<rparr>"
  have run': "res = Inr None" "e' = maybe_lock g c e2"
    using run True by (auto simp: on_idle_def e2_def Let_def)
  have pos: "e_pos e = None" using orb_inv_pos [OF inv] st by auto
  have i2: "orb_inv g e2" "e_range_hi e2 \<noteq> None" "e_state e2 = RANGE_DEFINED" "e_pos e2 = None"
    using inv st c sid pos
    by (auto simp: e2_def orb_inv_unfold orb_emission candle_ok_high_low)
  have "emits e [] e2"
    by (rule emitsI [where new = "[Trans \<lparr>t_ts = c_ts c, t_from = IDLE, t_to = RANGE_DEFINED,
          t_event = ''RANGE_OPEN'', t_detail = RangeOpen (c_high c) (c_low c)\<rparr>]"])
      (simp_all add: e2_def orb_emission st)
  then have "emits e [] e'"
    using emits_trans [of e "[]" e2 "[]" e'] maybe_lock_ok(2) [OF i2(1-3), of c] run' by simp
  then show ?thesis using maybe_lock_ok(1,3) [OF i2(1-3), of c] run' i2(4) pos
    by (simp add: step_ok_def)
next
  case False
  then show ?thesis using run inv by (auto simp: on_idle_def step_ok_def emits_refl)
qed

lemma build_range_frame [frame_simps]:
  "e_state (build_range c e) = e_state e" "e_pos (build_range c e) = e_pos e"
  "e_atr (build_range c e) = e_atr e" "e_session_id (build_range c e) = e_session_id e"
  "e_out (build_range c e) = e_out e" "e_rebuild (build_range c e) = e_rebuild e"
  "e_range_locked (build_range c e) = e_range_locked e"
  by (simp_all add: build_range_def split: option.splits)

lemma build_range_inv:
  assumes "orb_inv g e" "candle_ok c"
  shows "orb_inv g (build_range c e)" "e_range_hi (build_range c e) \<noteq> None"
  using assms candle_ok_high_low [OF assms(2)]
  by (auto simp: orb_inv_unfold build_range_def split: option.splits)

section \<open>Breakout\<close>

lemma roc_value_cases:
  "roc_ready r \<Longrightarrow> roc_value r = Inl roc_error \<or> (\<exists>v. roc_value r = Inr (Some v))"
  by (simp add: roc_value_def Let_def roc_error_def)

lemma momentum_cases:
  assumes "momentum g c dir e = (r, e1)" and "warm g e"
  shows "(r = Inl roc_error \<or> (\<exists>a b ok why. r = Inr (a, b, ok, why)))
     \<and> (e1 = e \<or> e1 = e\<lparr>e_gate_logged := True\<rparr>)"
proof -
  consider (off) "\<not> oc_use_roc g" | (err) "oc_use_roc g" "roc_value (e_roc e) = Inl roc_error"
    | (val) v where "oc_use_roc g" "roc_value (e_roc e) = Inr (Some v)"
    using assms(2) roc_value_cases [of "e_roc e"] by (auto simp: warm_def)
  then show ?thesis
  proof cases
    case off
    then show ?thesis using assms(1)
      by (auto simp: momentum_def Let_def split: if_split_asm option.split_asm)
  next
    case err
    then show ?thesis using assms(1) by (simp add: momentum_def)
  next
    case val
    then show ?thesis using assms(1)
      by (auto simp: momentum_def Let_def split: if_split_asm option.split_asm)
  qed
qed

text \<open>What a passed momentum gate says of the indicators.\<close>

definition momentum_ok :: "orb_config \<Rightarrow> candle \<Rightarrow> direction \<Rightarrow> orb_engine \<Rightarrow> bool" where
  "momentum_ok g c dir e \<longleftrightarrow>
     (oc_use_roc g \<longrightarrow> (case roc_value (e_roc e) of
         Inr (Some v) \<Rightarrow> (if dir = LONG then oc_roc_min g \<le> v else v \<le> - oc_roc_min g)
       | _ \<Rightarrow> False))
   \<and> (oc_use_rvol g \<longrightarrow> oc_rvol_min g \<le> (case vsma_value (e_vsma e) of
         Some sma \<Rightarrow> (if sma > 0 then c_volume c / sma else 0) | None \<Rightarrow> 0))"

lemma momentum_pass:
  assumes "momentum g c dir e = (Inr (a, b, True, why), e1)"
  shows "momentum_ok g c dir e"
  using assms
  by (cases dir) (auto simp: momentum_def momentum_ok_def Let_def
      split: if_splits option.splits sum.splits)

lemma open_position_ok:
  assumes inv: "orb_inv g e" and st: "e_state e = RANGE_DEFINED"
    and hi: "e_range_hi e \<noteq> None" and atr: "w_atr (e_atr e) = Some atr"
    and sid: "e_session_id e = Some (si_id (classify g (c_ts c)))"
    and run: "open_position g c dir atr a b e = (sig, e')"
  shows "step_ok g e (Inr (Some sig)) e'"
proof -
  have pos: "e_pos e = None" using orb_inv_pos [OF inv] st by simp
  have "orb_inv g e'" using inv hi atr sid run
    by (auto simp: open_position_def Let_def orb_emission orb_inv_unfold wilder_ready_def)
  moreover have "sig_fits e sig e'" using run pos
    by (auto simp: open_position_def Let_def orb_emission sig_fits_def kind_ok_def)
  moreover have "emits e [sig] e'" using run st
    by (intro emitsI [where new = "drop (length (e_out e)) (e_out e')"])
      (auto simp: open_position_def Let_def orb_emission)
  ultimately show ?thesis by (simp add: step_ok_def)
qed

lemma gate_logged_ok:
  assumes "orb_inv g e"
  shows "orb_inv g (e\<lparr>e_gate_logged := True\<rparr>)" "emits e [] (e\<lparr>e_gate_logged := True\<rparr>)"
  using assms by (auto simp: orb_inv_unfold emits_refl split: option.splits)

text \<open>\<open>step_ok\<close> may start one silent step later.\<close>

lemma step_ok_shift:
  assumes "emits e [] e1" "e_pos e1 = None \<longleftrightarrow> e_pos e = None" "step_ok g e1 res e'"
  shows "step_ok g e res e'"
  using assms emits_trans [OF assms(1), of _ e']
  by (auto simp: step_ok_def sig_fits_def split: sum.splits option.splits)

lemma check_breakout_ok:
  assumes inv: "orb_inv g e" and st: "e_state e = RANGE_DEFINED"
    and hi: "e_range_hi e \<noteq> None" and wm: "warm g e"
    and sid: "e_session_id e = Some (si_id (classify g (c_ts c)))"
    and run: "check_breakout g c e = (res, e')"
  shows "step_ok g e res e'"
proof -
  have pos: "e_pos e = None" using orb_inv_pos [OF inv] st by simp
  obtain h where h: "e_range_hi e = Some h" using hi by auto
  obtain l where l: "e_range_lo e = Some l" using inv h
    by (auto simp: orb_inv_def range_wf_def split: option.splits)
  have quiet: "step_ok g e (Inr None) e" using inv by (simp add: step_ok_def emits_refl)
  show ?thesis
  proof (cases "breakout_direction h l c")
    case None
    then show ?thesis using run h l quiet by (simp add: check_breakout_def)
  next
    case (Some dir)
    show ?thesis
    proof (cases "dir = LONG \<and> \<not> oc_allow_long g \<or> dir = SHORT \<and> \<not> oc_allow_short g")
      case True
      then have "(res, e') = (Inr None, e)" using run h l Some by (auto simp: check_breakout_def)
      then show ?thesis using quiet by simp
    next
      case False
      obtain r e1 where m: "momentum g c dir e = (r, e1)" by (cases "momentum g c dir e") auto
      note mc = momentum_cases [OF m wm]
      have e1: "orb_inv g e1" "emits e [] e1" "e_pos e1 = e_pos e" "e_state e1 = e_state e"
        "e_range_hi e1 = e_range_hi e" "e_atr e1 = e_atr e" "e_session_id e1 = e_session_id e"
        using mc gate_logged_ok [OF inv] inv by (auto simp: emits_refl)
      obtain atr where atr: "w_atr (e_atr e) = Some atr"
        using wm by (auto simp: warm_def wilder_ready_def)
      have base: "check_breakout g c e = (case (r, e1) of
          (Inl er, e1) \<Rightarrow> (Inl er, e1)
        | (Inr (rocv, rvol, ok, why), e1) \<Rightarrow>
            if \<not> ok then
              (case orb_signal g c REJECT dir (c_close c) RANGE_DEFINED RANGE_DEFINED
                      (''momentum_fail:'' @ why) rocv rvol (w_atr (e_atr e1)) None None None
                      None e1 of (sig, e2) \<Rightarrow> (Inr (Some sig), e2))
            else (case open_position g c dir atr rocv rvol e1 of
                              (sig, e2) \<Rightarrow> (Inr (Some sig), e2)))"
        using False by (auto simp: check_breakout_def h l Some m e1 atr split: sum.splits prod.splits)
      consider (err) "r = Inl roc_error" | (rej) a b why where "r = Inr (a, b, False, why)"
        | (enter) a b why where "r = Inr (a, b, True, why)" using mc by blast
      then show ?thesis
      proof cases
        case err
        then have "res = Inl roc_error" "e' = e1" using run base by simp_all
        then show ?thesis using e1 by (simp add: step_ok_def)
      next
        case rej
        then obtain sig where res: "res = Inr (Some sig)"
          and sig: "orb_signal g c REJECT dir (c_close c) RANGE_DEFINED RANGE_DEFINED
             (''momentum_fail:'' @ why) a b (w_atr (e_atr e1)) None None None None e1 = (sig, e')"
          using run base by (auto split: prod.splits)
        note sig = orb_signal_eq [OF sig]
        have "orb_inv g e'" using e1(1) sig(1) by simp
        moreover have "sig_fits e1 sig e'" using sig e1(3) pos
          by (simp add: sig_fits_def kind_ok_def)
        moreover have "emits e1 [sig] e'" using sig(1)
          by (intro emitsI [where new = "[Sig sig]"]) simp_all
        ultimately have "step_ok g e1 res e'" by (simp add: step_ok_def res)
        then show ?thesis using step_ok_shift e1 by simp
      next
        case enter
        then obtain sig where res: "res = Inr (Some sig)"
          and sig: "open_position g c dir atr a b e1 = (sig, e')"
          using run base by (auto split: prod.splits)
        have "step_ok g e1 (Inr (Some sig)) e'"
          by (rule open_position_ok [OF e1(1) _ _ _ _ sig]) (use e1 st hi sid atr in simp_all)
        then show ?thesis using step_ok_shift e1 res by simp
      qed
    qed
  qed
qed

lemma on_range_defined_ok:
  assumes inv: "orb_inv g e" and st: "e_state e = RANGE_DEFINED" and c: "candle_ok c"
    and sid: "e_session_id e = Some (si_id (classify g (c_ts c)))"
    and run: "on_range_defined g c info e = (res, e')"
  shows "step_ok g e res e'"
proof (cases "(si_zone info = IN_RANGE_WINDOW \<or> e_rebuild e) \<and> \<not> e_range_locked e")
  case True
  define e1 where "e1 = build_range c e"
  define e2 where "e2 = orb_transition (c_ts c) RANGE_DEFINED RANGE_DEFINED ''RANGE_BUILD''
     (BarsBuilt (e_range_bars e1)) e1"
  have run': "res = Inr None" "e' = maybe_lock g c e2"
    using run True by (auto simp: on_range_defined_def Let_def e1_def e2_def)
  have i2: "orb_inv g e2" "e_range_hi e2 \<noteq> None" "e_state e2 = RANGE_DEFINED" "e_pos e2 = e_pos e"
    using build_range_inv [OF inv c] st
    by (auto simp: e2_def e1_def orb_inv_unfold orb_emission frame_simps)
  have "emits e [] e2" using st
    by (intro emitsI [where new = "[Trans \<lparr>t_ts = c_ts c, t_from = RANGE_DEFINED,
        t_to = RANGE_DEFINED, t_event = ''RANGE_BUILD'', t_detail = BarsBuilt (e_range_bars e1)\<rparr>]"])
      (simp_all add: e2_def e1_def orb_emission frame_simps)
  then have "emits e [] e'"
    using emits_trans [of e "[]" e2 "[]" e'] maybe_lock_ok(2) [OF i2(1-3), of c] run' by simp
  then show ?thesis using maybe_lock_ok(1,3) [OF i2(1-3), of c] run' i2(4)
    by (simp add: step_ok_def)
next
  case False
  define e1 where "e1 = (if si_zone info = IN_SESSION \<and> \<not> e_range_locked e
                     then lock_range c True e else e)"
  have hi: "e_range_hi e \<noteq> None"
    using False inv st by (auto simp: orb_inv_def range_wf_def split: option.splits)
  have e1: "orb_inv g e1" "emits e [] e1" "e_pos e1 = e_pos e" "e_state e1 = RANGE_DEFINED"
    "e_range_hi e1 \<noteq> None" "e_session_id e1 = e_session_id e"
    using inv st hi lock_range_inv [OF inv hi] lock_range_emits [OF st]
    by (auto simp: e1_def frame_simps emits_refl)
  have run': "(res, e') = (if \<not> warm g e1 then (Inr None, e1) else check_breakout g c e1)"
    using run False by (auto simp: on_range_defined_def Let_def e1_def)
  have "step_ok g e1 res e'"
  proof (cases "warm g e1")
    case True
    then show ?thesis using check_breakout_ok [OF e1(1,4,5), of c] run' e1(6) sid by simp
  next
    case False
    then show ?thesis using run' e1(1) by (simp add: step_ok_def emits_refl)
  qed
  then show ?thesis using step_ok_shift e1 by simp
qed

section \<open>Exits\<close>

lemma rearm_frame [frame_simps]:
  "e_state (rearm g ts e) = e_state e" "e_pos (rearm g ts e) = e_pos e"
  "e_atr (rearm g ts e) = e_atr e" "e_session_id (rearm g ts e) = e_session_id e"
  "e_last_ts (rearm g ts e) = e_last_ts e"
  by (simp_all add: rearm_def orb_emission clear_range_def)

lemma rearm_inv:
  assumes "orb_inv g e" "e_state e = RANGE_DEFINED" "e_range_hi e \<noteq> None"
  shows "orb_inv g (rearm g ts e)"
  using assms
  by (auto simp: orb_inv_unfold rearm_def orb_emission clear_range_def split: option.splits)

lemma rearm_emits:
  "e_state e = RANGE_DEFINED \<Longrightarrow> emits e [] (rearm g ts e)"
  by (rule emitsI [where new = "drop (length (e_out e)) (e_out (rearm g ts e))"])
    (auto simp: rearm_def orb_emission clear_range_def)

lemma post_exit_state_cases: "post_exit_state g e = IDLE \<or> post_exit_state g e = RANGE_DEFINED"
  by (simp add: post_exit_state_def)

text \<open>The state right after the position is dropped: flat, in state \<open>to\<close>.\<close>

lemma flat_inv:
  assumes "orb_inv g e" "e_state e = BREAKOUT" "to = IDLE \<or> to = RANGE_DEFINED"
  shows "orb_inv g (e\<lparr>e_pos := None, e_state := to\<rparr>)"
  using assms by (auto simp: orb_inv_unfold split: option.splits)

lemma exit_position_ok:
  assumes inv: "orb_inv g e" and st: "e_state e = BREAKOUT" and ev: "exit_event reason = Some ev"
    and to: "to = IDLE \<or> to = RANGE_DEFINED"
    and run: "some_signal (exit_position g c reason to price e) = (res, e')"
  shows "step_ok g e res e' \<and> e_pos e' = None \<and> e_state e' = to
     \<and> e_session_id e' = e_session_id e \<and> e_last_ts e' = e_last_ts e
     \<and> (\<exists>sig. res = Inr (Some sig) \<and> s_kind sig = EXIT_SIG)"
proof -
  obtain pos where pos: "e_pos e = Some pos" using orb_inv_pos [OF inv] st by auto
  have hi: "e_range_hi e \<noteq> None" using inv st by (auto simp: orb_inv_def)
  define px where "px = (case price of None \<Rightarrow> c_close c | Some p \<Rightarrow> p)"
  define e1 where "e1 = orb_transition (c_ts c) BREAKOUT to ev (ExitAt px (p_bars pos)) e"
  obtain sig e2 where sig: "orb_signal g c EXIT_SIG (p_dir pos) px BREAKOUT to
     (exit_reason_str reason) None None (w_atr (e_atr e1)) (Some (p_stop pos)) (p_tp pos)
     (Some (p_bars pos)) None e1 = (sig, e2)" by (meson surj_pair)
  note seq = orb_signal_eq [OF sig]
  define e3 where "e3 = e2\<lparr>e_pos := None, e_state := to\<rparr>"
  define tail where "tail = (if to = IDLE then orb_transition (c_ts c) IDLE IDLE
     (if reason \<noteq> SESSION_END then ''TRADE_DONE'' else ''SESSION_DONE'') NoDetail e3
     else rearm g (c_ts c) e3)"
  have run': "res = Inr (Some sig)" "e' = tail"
    using run sig
    by (auto simp: exit_position_def some_signal_def pos ev Let_def e1_def px_def e3_def tail_def)
  have i3: "orb_inv g e3" "e_state e3 = to" "e_pos e3 = None" "e_range_hi e3 \<noteq> None"
    "e_session_id e3 = e_session_id e" "e_last_ts e3 = e_last_ts e"
    using flat_inv [of g e2 to] inv st to hi
    by (auto simp: e3_def seq(1) e1_def orb_transition_def)
  have "emits e [sig] e3"
    by (rule emitsI [where new = "[Trans \<lparr>t_ts = c_ts c, t_from = BREAKOUT, t_to = to,
          t_event = ev, t_detail = ExitAt px (p_bars pos)\<rparr>, Sig sig]"])
      (simp_all add: e3_def seq(1) e1_def orb_transition_def st)
  moreover have "emits e3 [] tail"
  proof (cases "to = IDLE")
    case True
    show ?thesis
      by (rule emitsI [where new = "drop (length (e_out e3)) (e_out tail)"])
        (simp_all add: tail_def True orb_transition_def i3)
  next
    case False
    then show ?thesis using rearm_emits [of e3] to i3 by (simp add: tail_def)
  qed
  ultimately have em: "emits e [sig] tail" using emits_trans [of e "[sig]" e3 "[]"] by simp
  have it: "orb_inv g tail" "e_pos tail = None" "e_state tail = to"
    "e_session_id tail = e_session_id e" "e_last_ts tail = e_last_ts e"
    using i3 to rearm_inv [of g e3] by (auto simp: tail_def orb_transition_def frame_simps)
  have "sig_fits e sig tail"
    using seq pos it to by (auto simp: sig_fits_def kind_ok_def)
  then show ?thesis using run' em it seq(2) by (simp add: step_ok_def)
qed

lemma partial_tp_ok:
  assumes inv: "orb_inv g e" and pos: "e_pos e = Some pos" and st: "e_state e = BREAKOUT"
    and run: "partial_tp g c price pos e = (sig, e')"
  shows "step_ok g e (Inr (Some sig)) e'"
proof -
  define closed where "closed = (if oc_qty g > 0 then Some (oc_qty g * oc_tp_frac g) else None)"
  define e1 where "e1 = orb_transition (c_ts c) BREAKOUT BREAKOUT ''EXIT_TP_PARTIAL''
                 (PartialAt price closed (p_bars pos)) e"
  obtain sig' e2 where sig: "orb_signal g c EXIT_SIG (p_dir pos) price BREAKOUT BREAKOUT
                ''take_profit_partial'' None None (w_atr (e_atr e1)) (Some (p_stop pos))
                (p_tp pos) (Some (p_bars pos)) closed e1 = (sig', e2)" by (meson surj_pair)
  note seq = orb_signal_eq [OF sig]
  have run': "sig' = sig" "e' = e2\<lparr>e_pos := Some (pos\<lparr>p_tp := None\<rparr>)\<rparr>"
    using run sig by (auto simp: partial_tp_def Let_def e1_def closed_def)
  have e': "e' = e\<lparr>e_out := e_out e @ [Trans \<lparr>t_ts = c_ts c, t_from = BREAKOUT, t_to = BREAKOUT,
      t_event = ''EXIT_TP_PARTIAL'', t_detail = PartialAt price closed (p_bars pos)\<rparr>, Sig sig],
      e_pos := Some (pos\<lparr>p_tp := None\<rparr>)\<rparr>"
    by (simp add: run' seq(1) e1_def orb_transition_def)
  have "orb_inv g e'" using inv pos st by (simp add: e' orb_inv_unfold cong: option.case_cong)
  moreover have "sig_fits e sig e'" using seq run' pos by (simp add: sig_fits_def kind_ok_def e')
  moreover have "emits e [sig] e'" using st
    by (intro emitsI [where new = "drop (length (e_out e)) (e_out e')"]) (simp_all add: e')
  ultimately show ?thesis by (simp add: step_ok_def)
qed

lemma set_pos_ok:
  assumes "orb_inv g e" "e_pos e = Some pos" "p_entry_ts pos' = p_entry_ts pos"
  shows "orb_inv g (e\<lparr>e_pos := Some pos'\<rparr>)" "emits e [] (e\<lparr>e_pos := Some pos'\<rparr>)"
  using assms by (auto simp: orb_inv_unfold emits_refl cong: option.case_cong)

lemma track_frame [simp]:
  "p_entry_ts (track_position c pos) = p_entry_ts pos" "p_dir (track_position c pos) = p_dir pos"
  "p_entry (track_position c pos) = p_entry pos" "p_stop (track_position c pos) = p_stop pos"
  "p_tp (track_position c pos) = p_tp pos" "p_bars (track_position c pos) = p_bars pos + 1"
  by (simp_all add: track_position_def Let_def)

lemma ratchet_frame [simp]:
  "p_entry_ts (ratchet g c a pos) = p_entry_ts pos" "p_dir (ratchet g c a pos) = p_dir pos"
  "p_entry (ratchet g c a pos) = p_entry pos" "p_tp (ratchet g c a pos) = p_tp pos"
  by (simp_all add: ratchet_def Let_def)

lemma on_breakout_ok:
  assumes inv: "orb_inv g e" and st: "e_state e = BREAKOUT"
    and run: "on_breakout g c e = (res, e')"
  shows "step_ok g e res e'"
proof -
  obtain pos0 where pos0: "e_pos e = Some pos0" using orb_inv_pos [OF inv] st by auto
  define pos where "pos = track_position c pos0"
  define e1 where "e1 = e\<lparr>e_pos := Some pos\<rparr>"
  have e1: "orb_inv g e1" "emits e [] e1" "e_pos e1 = Some pos" "e_state e1 = BREAKOUT"
    "e_range_hi e1 = e_range_hi e" "e_range_lo e1 = e_range_lo e" "e_atr e1 = e_atr e"
    using set_pos_ok [OF inv pos0, of pos] st by (simp_all add: e1_def pos_def)
  obtain hi lo atr where rng: "e_range_hi e = Some hi" "e_range_lo e = Some lo"
    "w_atr (e_atr e) = Some atr"
    using inv st by (auto simp: orb_inv_def range_wf_def wilder_ready_def split: option.splits)
  note exit_ok = exit_position_ok [OF e1(1) e1(4) _ post_exit_state_cases]
  have "step_ok g e1 res e'"
  proof -
    consider (re) "range_reentered g pos hi lo c"
      | (tp1) "\<not> range_reentered g pos hi lo c" "tp_hit g pos c" "oc_tp_frac g < 1"
      | (tp) "\<not> range_reentered g pos hi lo c" "tp_hit g pos c" "\<not> oc_tp_frac g < 1"
      | (trail) "\<not> range_reentered g pos hi lo c" "\<not> tp_hit g pos c" "trail_hit g pos c"
      | (hold) "\<not> range_reentered g pos hi lo c" "\<not> tp_hit g pos c" "\<not> trail_hit g pos c"
      by blast
    then show ?thesis
    proof cases
      case re
      have "\<exists>px. some_signal (exit_position g c RANGE_REENTRY (post_exit_state g e1) (Some px) e1)
          = (res, e')"
        using run re by (simp add: on_breakout_def pos0 pos_def [symmetric] e1_def [symmetric]
            Let_def e1 rng) blast
      then show ?thesis using exit_ok [where reason = RANGE_REENTRY] by fastforce
    next
      case tp1
      have "\<exists>px sig. partial_tp g c px pos e1 = (sig, e') \<and> res = Inr (Some sig)"
        using run tp1 by (simp add: on_breakout_def pos0 pos_def [symmetric] e1_def [symmetric]
            Let_def e1 rng split: prod.splits) blast
      then show ?thesis using partial_tp_ok [OF e1(1,3,4)] by blast
    next
      case tp
      have "\<exists>px. some_signal (exit_position g c TAKE_PROFIT (post_exit_state g e1) (Some px) e1)
          = (res, e')"
        using run tp by (simp add: on_breakout_def pos0 pos_def [symmetric] e1_def [symmetric]
            Let_def e1 rng) blast
      then show ?thesis using exit_ok [where reason = TAKE_PROFIT] by fastforce
    next
      case trail
      have "\<exists>px. some_signal (exit_position g c TRAIL_STOP (post_exit_state g e1) (Some px) e1)
          = (res, e')"
        using run trail by (simp add: on_breakout_def pos0 pos_def [symmetric] e1_def [symmetric]
            Let_def e1 rng) blast
      then show ?thesis using exit_ok [where reason = TRAIL_STOP] by fastforce
    next
      case hold
      have "res = Inr None" "e' = e1\<lparr>e_pos := Some (ratchet g c atr pos)\<rparr>"
        using run hold by (simp_all add: on_breakout_def pos0 pos_def [symmetric]
            e1_def [symmetric] Let_def e1 rng)
      then show ?thesis using set_pos_ok [OF e1(1,3), of "ratchet g c atr pos"] e1(3)
        by (simp add: step_ok_def)
    qed
  qed
  then show ?thesis using step_ok_shift e1 pos0 by simp
qed

section \<open>Resets and the front of \<open>on_candle\<close>\<close>

lemma build_indicators_frame [frame_simps]:
  "e_state (build_indicators g e) = e_state e" "e_pos (build_indicators g e) = e_pos e"
  "e_out (build_indicators g e) = e_out e" "e_session_id (build_indicators g e) = e_session_id e"
  by (simp_all add: build_indicators_def)

lemma build_indicators_inv:
  "orb_inv g e \<Longrightarrow> e_state e \<noteq> BREAKOUT \<Longrightarrow> orb_inv g (build_indicators g e)"
  by (auto simp: orb_inv_unfold build_indicators_def wilder_wf_new split: option.splits)

lemma set_last_ts_ok [simp]:
  "orb_inv g (e\<lparr>e_last_ts := t\<rparr>) = orb_inv g e"
  "emits e s (e'\<lparr>e_last_ts := t\<rparr>) = emits e s e'"
  by (simp_all add: orb_inv_unfold emits_def cong: option.case_cong)

lemma emits_last_ts_left [simp]: "emits (e\<lparr>e_last_ts := t\<rparr>) s e' = emits e s e'"
  by (simp add: emits_def)

lemma maybe_exit_ok:
  assumes inv: "orb_inv g e" and ev: "exit_event reason = Some ev"
    and run: "(if e_state e = BREAKOUT then some_signal (exit_position g c reason IDLE None e)
           else (Inr None, e)) = (res, e1)"
  shows "\<exists>sig. res = Inr sig \<and> orb_inv g e1 \<and> e_pos e1 = None \<and> e_state e1 \<noteq> BREAKOUT
     \<and> e_session_id e1 = e_session_id e \<and> e_last_ts e1 = e_last_ts e
     \<and> (case sig of None \<Rightarrow> e1 = e
        | Some s \<Rightarrow> sig_fits e s e1 \<and> emits e [s] e1 \<and> s_kind s = EXIT_SIG \<and> e_state e1 = IDLE)"
proof (cases "e_state e = BREAKOUT")
  case True
  then have "some_signal (exit_position g c reason IDLE None e) = (res, e1)" using run by simp
  from exit_position_ok [OF inv True ev _ this] show ?thesis
    by (auto simp: step_ok_def)
next
  case False
  then show ?thesis using run inv orb_inv_pos [OF inv] by auto
qed

lemma clear_range_inv:
  assumes "orb_inv g e" "e_state e \<noteq> BREAKOUT" "e_session_id e \<noteq> None \<or> st = IDLE"
    "st = RANGE_DEFINED \<and> rb \<or> st = IDLE"
  shows "orb_inv g ((clear_range (e\<lparr>e_state := st\<rparr>))\<lparr>e_rebuild := rb\<rparr>)"
  using assms by (auto simp: orb_inv_unfold clear_range_def split: option.splits)

lemma handle_gap_reset_ok:
  assumes inv: "orb_inv g e" and sid: "e_session_id e \<noteq> None"
    and run: "handle_gap_reset g c gap e = (res, e')"
  shows "\<exists>sig. res = Inr sig \<and> step_ok g e res e' \<and> e_pos e' = None
     \<and> e_session_id e' = e_session_id e"
proof -
  obtain r e1 where x: "(if e_state e = BREAKOUT
      then some_signal (exit_position g c GAP_INVALIDATE IDLE None e)
      else (Inr None, e)) = (r, e1)" by (meson surj_pair)
  from maybe_exit_ok [OF inv _ x] obtain sig where sig: "r = Inr sig"
    and i1: "orb_inv g e1" "e_pos e1 = None" "e_state e1 \<noteq> BREAKOUT"
      "e_session_id e1 = e_session_id e"
    and fits: "case sig of None \<Rightarrow> e1 = e | Some s \<Rightarrow> sig_fits e s e1 \<and> emits e [s] e1" 
    by (auto split: option.splits)
  define e2 where "e2 = build_indicators g e1"
  have i2: "orb_inv g e2" "e_pos e2 = None" "e_state e2 \<noteq> BREAKOUT" "e_state e2 = e_state e1"
    "e_session_id e2 \<noteq> None" "e_out e2 = e_out e1" "e_session_id e2 = e_session_id e"
    using build_indicators_inv [OF i1(1,3)] i1 sid by (simp_all add: e2_def frame_simps)
  have mid: "e_pos e' = None \<and> orb_inv g e' \<and> emits e1 [] e' \<and> res = Inr sig
      \<and> e_session_id e' = e_session_id e"
  proof (cases "in_session (si_zone (classify g (c_ts c)))")
    case True
    define e3 where "e3 = orb_transition (c_ts c) (e_state e2) RANGE_DEFINED ''GAP_RESET''
                       (GapOf gap True) e2"
    have e': "e' = (clear_range (e3\<lparr>e_state := RANGE_DEFINED\<rparr>))\<lparr>e_rebuild := True\<rparr>"
      and res: "res = Inr sig"
      using run x sig True by (auto simp: handle_gap_reset_def Let_def e2_def e3_def)
    have "orb_inv g e3" "e_state e3 \<noteq> BREAKOUT" "e_session_id e3 \<noteq> None"
      using i2 by (simp_all add: e3_def orb_transition_def)
    then have "orb_inv g e'" unfolding e' by (intro clear_range_inv) simp_all
    moreover have "emits e1 [] e'"
      by (rule emitsI [where new = "drop (length (e_out e1)) (e_out e')"])
        (simp_all add: e' clear_range_def e3_def orb_transition_def i2)
    ultimately show ?thesis using i2 res
      by (simp add: e' clear_range_def e3_def orb_transition_def)
  next
    case False
    define e3 where "e3 = (if e_state e2 \<noteq> IDLE
        then orb_transition (c_ts c) (e_state e2) IDLE ''GAP_RESET'' (GapOf gap False) e2 else e2)"
    have e': "e' = (clear_range (e3\<lparr>e_state := IDLE\<rparr>))\<lparr>e_rebuild := False\<rparr>"
      and res: "res = Inr sig"
      using run x sig False by (auto simp: handle_gap_reset_def Let_def e2_def e3_def)
    have "orb_inv g e3" "e_state e3 \<noteq> BREAKOUT" "e_session_id e3 \<noteq> None"
      using i2 by (simp_all add: e3_def orb_transition_def)
    then have "orb_inv g e'" unfolding e' by (intro clear_range_inv) simp_all
    moreover have "emits e1 [] e'"
      by (rule emitsI [where new = "drop (length (e_out e1)) (e_out e')"])
        (simp_all add: e' clear_range_def e3_def orb_transition_def i2)
    ultimately show ?thesis using i2 res
      by (simp add: e' clear_range_def e3_def orb_transition_def)
  qed
  have "step_ok g e (Inr sig) e'"
  proof (cases sig)
    case None
    then have "e1 = e" using fits by simp
    then show ?thesis using mid i1(2) None by (simp add: step_ok_def)
  next
    case (Some s)
    then have "sig_fits e s e1" "emits e [s] e1" using fits by simp_all
    moreover from this have "emits e [s] e'" using emits_trans [of e "[s]" e1 "[]" e'] mid by simp
    ultimately show ?thesis using mid i1(2) Some by (simp add: step_ok_def sig_fits_def)
  qed
  then show ?thesis using mid by blast
qed

lemma reset_for_new_session_ok:
  assumes inv: "orb_inv g e" and st: "e_state e \<noteq> BREAKOUT"
  shows "orb_inv g (reset_for_new_session g sid ts e)"
    "emits e [] (reset_for_new_session g sid ts e)"
    "e_pos (reset_for_new_session g sid ts e) = None"
    "e_state (reset_for_new_session g sid ts e) = IDLE"
    "e_session_id (reset_for_new_session g sid ts e) = Some sid"
proof -
  define e' where "e' = reset_for_new_session g sid ts e"
  have e': "e_pos e' = None" "e_state e' = IDLE" "e_session_id e' = Some sid"
    "e_range_hi e' = None" "e_range_lo e' = None" "\<not> e_range_locked e'"
    "e_atr e' = wilder_new (nat (oc_atr_period g))"
    by (simp_all add: e'_def reset_for_new_session_def Let_def clear_range_def
        build_indicators_def orb_transition_def)
  show "orb_inv g (reset_for_new_session g sid ts e)"
    using orb_inv_cfg [OF inv] e' unfolding e'_def [symmetric]
    by (simp add: orb_inv_unfold wilder_wf_new)
  have idle: "e_session_id e = None \<Longrightarrow> e_state e = IDLE" using inv by (simp add: orb_inv_def)
  show "emits e [] (reset_for_new_session g sid ts e)"
    by (rule emitsI [where new = "if e_session_id e = None then [] else
        [Trans \<lparr>t_ts = ts, t_from = e_state e, t_to = IDLE, t_event = ''SESSION_RESET'',
          t_detail = SessionId sid\<rparr>]"])
      (auto simp: reset_for_new_session_def Let_def clear_range_def build_indicators_def
        orb_transition_def idle)
  show "e_pos (reset_for_new_session g sid ts e) = None"
    "e_state (reset_for_new_session g sid ts e) = IDLE"
    "e_session_id (reset_for_new_session g sid ts e) = Some sid"
    using e' by (simp_all add: e'_def)
qed

text \<open>Contract of the front part: an early return is a finished step; falling through, the
  engine has seen nothing that changes its position, and knows this bar's session.\<close>

definition front_ok ::
  "orb_config \<Rightarrow> session_info \<Rightarrow> candle \<Rightarrow> orb_engine \<Rightarrow> flow \<Rightarrow> orb_engine \<Rightarrow> bool" where
  "front_ok g info c e fl e1 \<longleftrightarrow>
     e_last_ts e1 = Some (c_ts c) \<and>
     (case fl of Return res \<Rightarrow> step_ok g e res e1 \<and> e_pos e1 = None \<and> (\<exists>sig. res = Inr sig)
      | Continue \<Rightarrow> step_ok g e (Inr None) e1 \<and> e_pos e1 = e_pos e
          \<and> e_session_id e1 = Some (si_id info))"

lemma session_boundary_ok:
  assumes inv: "orb_inv g e" and run: "session_boundary g info c e = (fl, e')"
  shows "front_ok g info c e fl e'"
proof -
  obtain r e1 where x: "(if e_state e = BREAKOUT
      then some_signal (exit_position g c SESSION_END IDLE None e)
      else (Inr None, e)) = (r, e1)" by (meson surj_pair)
  from maybe_exit_ok [OF inv _ x] obtain sig where sig: "r = Inr sig"
    and i1: "orb_inv g e1" "e_pos e1 = None" "e_state e1 \<noteq> BREAKOUT"
    and fits: "case sig of None \<Rightarrow> e1 = e | Some s \<Rightarrow> sig_fits e s e1 \<and> emits e [s] e1"
    by (auto split: option.splits)
  define e2 where "e2 = reset_for_new_session g (si_id info) (c_ts c) e1"
  note i2 = reset_for_new_session_ok [OF i1(1,3), of "si_id info" "c_ts c", folded e2_def]
  have run': "e' = e2\<lparr>e_last_ts := Some (c_ts c)\<rparr>"
    "fl = (case sig of None \<Rightarrow> Continue | Some x \<Rightarrow> Return (Inr (Some x)))"
    using run x sig by (auto simp: session_boundary_def Let_def e2_def)
  show ?thesis
  proof (cases sig)
    case None
    then show ?thesis using fits i1 i2 run' by (simp add: front_ok_def step_ok_def)
  next
    case (Some s)
    then have "sig_fits e s e1" "emits e [s] e2"
      using fits emits_trans [of e "[s]" e1 "[]" e2] i2(2) by simp_all
    then show ?thesis using Some i1(2) i2 run'
      by (simp add: front_ok_def step_ok_def sig_fits_def)
  qed
qed

lemma after_session_ok:
  assumes inv: "orb_inv g e" and run: "after_session g c e = (res, e')"
  shows "front_ok g info c e (Return res) e' \<and> e_pos e' = None"
proof -
  define e1 where "e1 = e\<lparr>e_last_ts := Some (c_ts c)\<rparr>"
  have i1: "orb_inv g e1" "e_state e1 = e_state e" "e_pos e1 = e_pos e" "emits e [] e1"
    using inv by (simp_all add: e1_def emits_refl)
  show ?thesis
  proof (cases "e_state e = BREAKOUT")
    case True
    then have "some_signal (exit_position g c SESSION_END IDLE None e1) = (res, e')"
      using run by (simp add: after_session_def Let_def e1_def [symmetric] i1)
    from exit_position_ok [OF i1(1) _ _ _ this] True i1 step_ok_shift [OF i1(4), of g res e']
    show ?thesis by (auto simp: front_ok_def e1_def)
  next
    case False
    then have pos: "e_pos e = None" using orb_inv_pos [OF inv] by simp
    show ?thesis
    proof (cases "e_state e = IDLE")
      case True
      then have "res = Inr None" "e' = e1"
        using run by (simp_all add: after_session_def Let_def e1_def)
      then show ?thesis using i1 pos by (simp add: front_ok_def step_ok_def e1_def)
    next
      case notidle: False
      define e2 where "e2 = orb_transition (c_ts c) (e_state e) IDLE ''SESSION_DONE'' NoDetail e1"
      have e': "res = Inr None" "e' = clear_range (e2\<lparr>e_state := IDLE\<rparr>)"
        using run False notidle
        by (simp_all add: after_session_def Let_def e1_def [symmetric] e2_def i1)
      have "orb_inv g ((clear_range (e2\<lparr>e_state := IDLE\<rparr>))\<lparr>e_rebuild := e_rebuild e2\<rparr>)"
        using i1 False by (intro clear_range_inv) (simp_all add: e2_def orb_transition_def)
      moreover have "(clear_range (e2\<lparr>e_state := IDLE\<rparr>))\<lparr>e_rebuild := e_rebuild e2\<rparr> = e'"
        unfolding e'(2) clear_range_def by (cases e2) simp
      ultimately have "orb_inv g e'" by simp
      moreover have "emits e [] e'"
        by (rule emitsI [where new = "drop (length (e_out e)) (e_out e')"])
          (simp_all add: e' clear_range_def e2_def e1_def orb_transition_def)
      ultimately show ?thesis using pos e'
        by (simp add: front_ok_def step_ok_def clear_range_def e2_def e1_def orb_transition_def)
    qed
  qed
qed

lemma gap_check_ok:
  assumes inv: "orb_inv g e" and sid: "e_session_id e = Some (si_id info)"
    and run: "gap_check g c e = (fl, e')"
  shows "front_ok g info c e fl e'"
proof -
  have quiet: "front_ok g info c e Continue (e\<lparr>e_last_ts := Some (c_ts c)\<rparr>)"
    using inv sid by (simp add: front_ok_def step_ok_def emits_refl)
  show ?thesis
  proof (cases "e_last_ts e")
    case None
    then show ?thesis using run quiet by (simp add: gap_check_def Let_def)
  next
    case (Some prev)
    define gap where "gap = bar_gap g (c_ts c) prev"
    show ?thesis
    proof (cases "gap > 0 \<and> (gap > oc_max_gap g \<or> oc_on_gap g = ''reset'')")
      case False
      then have "fl = Continue" "e' = e\<lparr>e_last_ts := Some (c_ts c)\<rparr>"
        using run Some by (auto simp: gap_check_def Let_def gap_def [symmetric] split: if_splits)
      then show ?thesis using quiet by simp
    next
      case True
      obtain r e1 where h: "handle_gap_reset g c gap e = (r, e1)" by (meson surj_pair)
      from handle_gap_reset_ok [OF inv _ h] sid obtain sig where sig: "r = Inr sig"
        "step_ok g e (Inr sig) e1" "e_pos e1 = None" "e_session_id e1 = Some (si_id info)"
        by auto
      have "gap_check g c e = (case (r, e1) of
                  (Inl er, e1) \<Rightarrow> (Return (Inl er), e1)
                | (Inr (Some sig), e1) \<Rightarrow> (Return (Inr (Some sig)), e1\<lparr>e_last_ts := Some (c_ts c)\<rparr>)
                | (Inr None, e1) \<Rightarrow> (Continue, e1\<lparr>e_last_ts := Some (c_ts c)\<rparr>))"
        using Some True by (simp add: gap_check_def Let_def gap_def [symmetric] h)
      then show ?thesis using run sig
        by (cases sig) (auto simp: front_ok_def step_ok_def sig_fits_def)
    qed
  qed
qed

section \<open>The whole step\<close>

lemma feed_frame [frame_simps]:
  "e_state (feed_indicators g info c e) = e_state e" "e_pos (feed_indicators g info c e) = e_pos e"
  "e_out (feed_indicators g info c e) = e_out e"
  "e_session_id (feed_indicators g info c e) = e_session_id e"
  "e_last_ts (feed_indicators g info c e) = e_last_ts e"
  by (simp_all add: feed_indicators_def)

lemma feed_inv:
  assumes "orb_inv g e" "candle_ok c"
  shows "orb_inv g (feed_indicators g info c e)"
proof -
  have "0 < nat (oc_atr_period g)" using orb_config_okD(2) [OF orb_inv_cfg [OF assms(1)]] by simp
  then have "wilder_wf (nat (oc_atr_period g)) (wilder_update (c_high c, c_low c, c_close c) (e_atr e))"
    using assms candle_ok_high_low [OF assms(2)] by (intro wilder_wf_update) (simp_all add: orb_inv_def)
  then show ?thesis using assms(1) wilder_ready_update [of "e_atr e"]
    by (auto simp: feed_indicators_def orb_inv_unfold cong: option.case_cong)
qed

lemma dispatch_ok:
  assumes inv: "orb_inv g e" and c: "candle_ok c"
    and sid: "e_session_id e = Some (si_id (classify g (c_ts c)))"
    and run: "dispatch g c info e = (res, e')"
  shows "step_ok g e res e'"
proof (cases "e_state e")
  case IDLE
  then show ?thesis using run on_idle_ok [OF inv IDLE c] sid by (simp add: dispatch_def)
next
  case RANGE_DEFINED
  then show ?thesis using run on_range_defined_ok [OF inv RANGE_DEFINED c sid]
    by (simp add: dispatch_def)
next
  case BREAKOUT
  then show ?thesis using run on_breakout_ok [OF inv BREAKOUT] by (simp add: dispatch_def)
next
  case EXIT
  then show ?thesis using inv by (simp add: orb_inv_def)
qed

definition stale :: "candle \<Rightarrow> orb_engine \<Rightarrow> bool" where
  "stale c e \<longleftrightarrow> (case e_last_ts e of None \<Rightarrow> False | Some t \<Rightarrow> utc (c_ts c) \<le> utc t)"

definition front ::
  "orb_config \<Rightarrow> session_info \<Rightarrow> candle \<Rightarrow> orb_engine \<Rightarrow> flow \<times> orb_engine" where
  "front g info c e =
     (if Some (si_id info) \<noteq> e_session_id e then session_boundary g info c e
      else if si_zone info = AFTER then
        (case after_session g c e of (res, e1) \<Rightarrow> (Return res, e1))
      else gap_check g c e)"

lemma orb_step_front:
  "\<not> stale c e \<Longrightarrow> orb_step g c e = (case front g (classify g (c_ts c)) c e of
       (Return res, e1) \<Rightarrow> (res, e1)
     | (Continue, e1) \<Rightarrow> dispatch g c (classify g (c_ts c))
                          (feed_indicators g (classify g (c_ts c)) c e1))"
  by (simp add: orb_step_def stale_def front_def Let_def)

lemma front_contract:
  assumes inv: "orb_inv g e" and run: "front g info c e = (fl, e1)"
  shows "front_ok g info c e fl e1"
proof -
  consider (new) "Some (si_id info) \<noteq> e_session_id e"
    | (after) "Some (si_id info) = e_session_id e" "si_zone info = AFTER"
    | (cont) "Some (si_id info) = e_session_id e" "si_zone info \<noteq> AFTER" by blast
  then show ?thesis
  proof cases
    case new
    then show ?thesis using session_boundary_ok [OF inv] run by (simp add: front_def)
  next
    case after
    obtain res e2 where "after_session g c e = (res, e2)" by (meson surj_pair)
    then show ?thesis using after after_session_ok [OF inv] run by (auto simp: front_def)
  next
    case cont
    then show ?thesis using gap_check_ok [OF inv] run by (simp add: front_def)
  qed
qed

lemma orb_step_ok:
  assumes inv: "orb_inv g e" and c: "candle_ok c" and fresh: "\<not> stale c e"
    and run: "orb_step g c e = (res, e')"
  shows "step_ok g e res e'"
proof -
  define info where "info = classify g (c_ts c)"
  obtain fl e1 where f: "front g info c e = (fl, e1)" by (meson surj_pair)
  note fr = front_contract [OF inv f]
  show ?thesis
  proof (cases fl)
    case (Return r)
    then show ?thesis using fr f run orb_step_front [OF fresh, of g]
      by (auto simp: front_ok_def info_def)
  next
    case Continue
    define e2 where "e2 = feed_indicators g info c e1"
    have e1: "step_ok g e (Inr None) e1" "e_session_id e1 = Some (si_id info)"
      using fr Continue by (simp_all add: front_ok_def)
    have e2: "orb_inv g e2" "emits e [] e2" "e_pos e2 = None \<longleftrightarrow> e_pos e = None"
      "e_session_id e2 = Some (si_id (classify g (c_ts c)))"
      using e1 feed_inv [OF _ c, of g e1 info] emits_trans [of e "[]" e1 "[]" e2]
        emits_refl [of e2 e1]
      by (simp_all add: e2_def step_ok_def frame_simps info_def)
    have "dispatch g c info e2 = (res, e')"
      using run f Continue orb_step_front [OF fresh, of g] by (simp add: info_def e2_def)
    then show ?thesis using dispatch_ok [OF e2(1) c e2(4)] step_ok_shift [OF e2(2,3)] by blast
  qed
qed

lemma orb_step_stale:
  "stale c e \<Longrightarrow> orb_step g c e = ((if oc_strict g then Inl OutOfOrderError else Inr None), e)"
  by (simp add: orb_step_def stale_def)

lemma on_candle_cases:
  assumes inv: "orb_inv g e" and run: "on_candle g r e = (res, e')"
  obtains (bad) f where "validate r = Inl (CandleError f)" "res = Inl (CandleError f)" "e' = e"
  | (late) c where "validate r = Inr c" "stale c e" "e' = e"
      "res = (if oc_strict g then Inl OutOfOrderError else Inr None)"
  | (step) c where "validate r = Inr c" "candle_ok c" "\<not> stale c e"
      "orb_step g c e = (res, e')" "step_ok g e res e'"
proof (cases "validate r")
  case (Inl er)
  then obtain f where "er = CandleError f"
    by (auto simp: validate_def Let_def split: option.splits if_splits)
  then show ?thesis using bad Inl run by (simp add: on_candle_def)
next
  case (Inr c)
  show ?thesis
  proof (cases "stale c e")
    case True
    then show ?thesis using late [OF Inr True] run Inr orb_step_stale [OF True, of g]
      by (simp add: on_candle_def)
  next
    case False
    have "orb_step g c e = (res, e')" using run Inr by (simp add: on_candle_def)
    then show ?thesis
      using step [OF Inr _ False] orb_step_ok [OF inv _ False] validate_InrD(2) [OF Inr] by blast
  qed
qed

lemma force_flat_ok:
  assumes inv: "orb_inv g e" and run: "force_flat g ts e = (sig, e')"
  shows "case sig of None \<Rightarrow> e' = e \<and> e_pos e = None
     | Some s \<Rightarrow> step_ok g e (Inr (Some s)) e' \<and> e_pos e \<noteq> None \<and> e_pos e' = None
          \<and> s_kind s = EXIT_SIG \<and> s_from s = BREAKOUT \<and> s_to s \<noteq> BREAKOUT"
proof (cases "e_pos e")
  case None
  then show ?thesis using run by (auto simp: force_flat_def)
next
  case (Some pos)
  have st: "e_state e = BREAKOUT" using orb_inv_pos [OF inv] Some by simp
  define to where "to = post_exit_state g e"
  have to: "to = IDLE \<or> to = RANGE_DEFINED" using post_exit_state_cases by (simp add: to_def)
  define e1 where "e1 = orb_transition ts BREAKOUT to ''EXIT_BROKER'' (BarsHeld (p_bars pos)) e"
  define s where "s = \<lparr>s_ts = ts, s_kind = EXIT_SIG, s_dir = p_dir pos, s_price = p_stop pos,
                  s_from = BREAKOUT, s_to = to, s_reason = ''broker_closed'',
                  s_range_high = e_range_hi e1, s_range_low = e_range_lo e1, s_roc = None,
                  s_rvol = None, s_atr = w_atr (e_atr e1), s_stop = Some (p_stop pos),
                  s_tp = p_tp pos, s_qty = default_qty g, s_bars_held = Some (p_bars pos)\<rparr>"
  define e2 where "e2 = e1\<lparr>e_out := e_out e1 @ [Sig s], e_pos := None, e_state := to\<rparr>"
  have run': "sig = Some s" "e' = (if to = RANGE_DEFINED then rearm g ts e2 else e2)"
    using run Some by (auto simp: force_flat_def Let_def to_def e1_def s_def e2_def)
  have "e2 = (e\<lparr>e_pos := None, e_state := to\<rparr>)\<lparr>e_out := e_out e1 @ [Sig s]\<rparr>"
    by (simp add: e2_def e1_def orb_transition_def)
  then have "orb_inv g e2" using flat_inv [OF inv st to] by simp
  moreover have "e_range_hi e \<noteq> None" using inv st by (simp add: orb_inv_def)
  ultimately have i2: "orb_inv g e2" "e_state e2 = to" "e_pos e2 = None" "e_range_hi e2 \<noteq> None"
    by (simp_all add: e2_def e1_def orb_transition_def)
  have "emits e [s] e2"
    by (rule emitsI [where new = "drop (length (e_out e)) (e_out e2)"])
      (simp_all add: e2_def e1_def orb_transition_def st)
  moreover have "to = RANGE_DEFINED \<Longrightarrow> emits e2 [] (rearm g ts e2)"
    using rearm_emits i2 by simp
  ultimately have "emits e [s] e'" using emits_trans [of e "[s]" e2 "[]" e'] run'(2)
    by (cases "to = RANGE_DEFINED") simp_all
  moreover have "orb_inv g e'" "e_pos e' = None"
    using i2 rearm_inv [of g e2] run'(2) by (auto simp: frame_simps)
  moreover have "sig_fits e s e'" using Some to calculation(3)
    by (auto simp: sig_fits_def s_def kind_ok_def)
  ultimately show ?thesis using run' Some to by (auto simp: step_ok_def s_def)
qed

section \<open>Frames of the handlers\<close>

lemma momentum_frame:
  "momentum g c dir e = (r, e1) \<Longrightarrow> e1 = e \<or> e1 = e\<lparr>e_gate_logged := True\<rparr>"
  by (simp add: momentum_def Let_def split: sum.split_asm if_split_asm option.split_asm)

definition same_clock :: "orb_engine \<Rightarrow> orb_engine \<Rightarrow> bool" where
  "same_clock e e' \<longleftrightarrow> e_session_id e' = e_session_id e \<and> e_last_ts e' = e_last_ts e"

lemma open_position_clock:
  "open_position g c dir atr a b e = (sig, e') \<Longrightarrow> same_clock e e'"
  by (auto simp: open_position_def Let_def orb_emission same_clock_def)

lemma check_breakout_clock:
  assumes "check_breakout g c e = (res, e')"
  shows "same_clock e e'"
proof -
  have os: "same_clock e1 e2"
    if "orb_signal g c k d px f t w a b v st tp bh q e1 = (sig, e2)"
    for k d px f t w a b v st tp bh q e1 sig e2
    using orb_signal_eq(1) [OF that] by (simp add: same_clock_def)
  show ?thesis using assms
    by (auto simp: check_breakout_def same_clock_def split: option.split_asm if_split_asm
        sum.split_asm prod.split_asm dest!: momentum_frame os open_position_clock)
qed

lemma lock_clock: "same_clock e (lock_range c b e)" "same_clock e (maybe_lock g c e)"
  by (simp_all add: same_clock_def maybe_lock_def frame_simps)

lemma same_clock_refl: "same_clock e e"
  by (simp add: same_clock_def)

lemma on_range_defined_clock:
  assumes "on_range_defined g c info e = (res, e')"
  shows "same_clock e e'"
proof (cases "(si_zone info = IN_RANGE_WINDOW \<or> e_rebuild e) \<and> \<not> e_range_locked e")
  case True
  then show ?thesis using assms
    by (auto simp: on_range_defined_def Let_def same_clock_def maybe_lock_def frame_simps
        orb_transition_def build_range_def split: option.splits)
next
  case False
  then obtain e1 where e1: "same_clock e e1"
    and r: "(if \<not> warm g e1 then (Inr None, e1) else check_breakout g c e1) = (res, e')"
    using assms lock_clock(1) [of e c True] same_clock_refl [of e]
    by (auto simp: on_range_defined_def Let_def split: if_splits)
  have "same_clock e1 e'"
    using r check_breakout_clock [of g c e1] same_clock_refl by (auto split: if_splits)
  then show ?thesis using e1 by (simp add: same_clock_def)
qed

lemma exit_position_clock:
  "some_signal (exit_position g c reason to price e) = (res, e') \<Longrightarrow> same_clock e e'"
  by (auto simp: exit_position_def some_signal_def same_clock_def orb_emission Let_def rearm_def
      clear_range_def split: option.split_asm if_split_asm)

lemma partial_tp_clock: "partial_tp g c px pos e = (sig, e') \<Longrightarrow> same_clock e e'"
  by (auto simp: partial_tp_def same_clock_def orb_emission Let_def)

lemma set_pos_clock: "same_clock (e\<lparr>e_pos := p\<rparr>) e' = same_clock e e'"
  "same_clock e (e'\<lparr>e_pos := p\<rparr>) = same_clock e e'"
  by (simp_all add: same_clock_def)

lemma on_breakout_clock:
  assumes "on_breakout g c e = (res, e')"
  shows "same_clock e e'"
  using assms
  by (auto simp: on_breakout_def Let_def split: option.split_asm if_split_asm prod.split_asm
      dest: exit_position_clock partial_tp_clock simp: set_pos_clock same_clock_refl)

lemma dispatch_clock:
  assumes "dispatch g c info e = (res, e')"
  shows "same_clock e e'"
proof (cases "e_state e")
  case IDLE
  then show ?thesis using assms
    by (auto simp: dispatch_def on_idle_def Let_def same_clock_def maybe_lock_def frame_simps
        orb_transition_def split: if_split_asm)
next
  case RANGE_DEFINED
  then show ?thesis using assms on_range_defined_clock by (simp add: dispatch_def)
next
  case BREAKOUT
  then show ?thesis using assms on_breakout_clock by (simp add: dispatch_def)
next
  case EXIT
  then show ?thesis using assms by (auto simp: dispatch_def same_clock_refl)
qed

text \<open>An accepted bar, split at the front: either it ended there with no position left, or the
  handlers ran on the same position, inside the bar's session.\<close>

lemma orb_step_split:
  assumes inv: "orb_inv g e" and c: "candle_ok c" and fresh: "\<not> stale c e"
    and run: "orb_step g c e = (res, e')"
  obtains (ended) sig where "res = Inr sig" "e_pos e' = None" "e_last_ts e' = Some (c_ts c)"
  | (handled) e2 where "orb_inv g e2" "e_pos e2 = e_pos e" "e_last_ts e' = Some (c_ts c)"
      "dispatch g c (classify g (c_ts c)) e2 = (res, e')"
      "e_session_id e2 = Some (si_id (classify g (c_ts c)))"
      "e_session_id e' = Some (si_id (classify g (c_ts c)))"
proof -
  define info where "info = classify g (c_ts c)"
  obtain fl e1 where f: "front g info c e = (fl, e1)" by (meson surj_pair)
  note fr = front_contract [OF inv f]
  show ?thesis
  proof (cases fl)
    case (Return r)
    then show ?thesis using ended fr f run orb_step_front [OF fresh, of g]
      by (auto simp: front_ok_def info_def)
  next
    case Continue
    define e2 where "e2 = feed_indicators g info c e1"
    have e2: "orb_inv g e2" "e_pos e2 = e_pos e" "e_session_id e2 = Some (si_id info)"
      "e_last_ts e2 = Some (c_ts c)"
      using fr Continue feed_inv [OF _ c, of g e1 info]
      by (simp_all add: front_ok_def step_ok_def e2_def frame_simps)
    have d: "dispatch g c info e2 = (res, e')"
      using run f Continue orb_step_front [OF fresh, of g] by (simp add: info_def e2_def)
    show ?thesis using handled [of e2] e2 d dispatch_clock [OF d]
      by (simp add: same_clock_def info_def)
  qed
qed

section \<open>The engine contract\<close>

interpretation orb: observed_engine "on_candle g" "force_flat g" e_pos e_state "orb_inv g" e_out
  for g
proof unfold_locales
  show "orb_inv g e'" if "orb_inv g e" "on_candle g r e = (res, e')" for e r res e'
    by (rule on_candle_cases [OF that]) (use that in \<open>auto simp: step_ok_def\<close>)
  show "orb_inv g e'" if "orb_inv g e" "force_flat g ts e = (sig, e')" for e ts sig e'
    using force_flat_ok [OF that] that(1) by (cases sig) (auto simp: step_ok_def)
  show "e_state e = BREAKOUT \<longleftrightarrow> e_pos e \<noteq> None" if "orb_inv g e" for e
    by (rule orb_inv_pos [OF that])
  show "kind_ok sig \<and> (s_from sig = BREAKOUT \<longleftrightarrow> e_pos e \<noteq> None)
      \<and> (s_to sig = BREAKOUT \<longleftrightarrow> e_pos e' \<noteq> None)"
    if "orb_inv g e" "on_candle g r e = (Inr (Some sig), e')" for e r sig e'
    by (rule on_candle_cases [OF that]) (auto simp: step_ok_def sig_fits_def split: if_splits)
  show "e_pos e' = None \<longleftrightarrow> e_pos e = None"
    if "orb_inv g e" "on_candle g r e = (Inr None, e')" for e r e'
    by (rule on_candle_cases [OF that]) (auto simp: step_ok_def split: if_splits)
  show "e_pos e' = None \<longleftrightarrow> e_pos e = None"
    if "orb_inv g e" "on_candle g r e = (Inl er, e')" for e r er e'
    by (rule on_candle_cases [OF that]) (auto simp: step_ok_def split: if_splits)
  show "s_kind sig = EXIT_SIG \<and> s_from sig = BREAKOUT \<and> s_to sig \<noteq> BREAKOUT
      \<and> e_pos e \<noteq> None \<and> e_pos e' = None"
    if "orb_inv g e" "force_flat g ts e = (Some sig, e')" for e ts sig e'
    using force_flat_ok [OF that] by auto
  show "e' = e \<and> e_pos e = None" if "orb_inv g e" "force_flat g ts e = (None, e')" for e ts e'
    using force_flat_ok [OF that] by auto
  show "logged (e_out e) (e_state e) (outcome_sigs res) (e_out e') (e_state e')"
    if "orb_inv g e" "on_candle g r e = (res, e')" for e r res e'
    by (rule on_candle_cases [OF that])
      (auto simp: step_ok_def emits_def logged_refl outcome_sigs_def
        split: if_splits sum.splits option.splits)
  show "logged (e_out e) (e_state e) [sig] (e_out e') (e_state e')"
    if "orb_inv g e" "force_flat g ts e = (Some sig, e')" for e ts sig e'
    using force_flat_ok [OF that] by (auto simp: step_ok_def emits_def)
qed

end
