(* ===== verification/Orb_Properties.thy ===== *)
theory Orb_Properties
  imports Orb_Correct
begin

text \<open>
  What the ORB engine promises: balanced books and complete callbacks over any stream, the
  errors a bar can raise, sound entries with clamped stops, a stop that only tightens, and no
  position carried across sessions; and what a gap reset does to the one-trade policy.
\<close>

section \<open>Streams\<close>

definition bar :: "int \<Rightarrow> flt \<Rightarrow> flt \<Rightarrow> flt \<Rightarrow> flt \<Rightarrow> raw_candle" where
  "bar m o' h l c = \<lparr>r_local = m * us_min, r_tz = Some 0, r_open = Fin o', r_high = Fin h,
     r_low = Fin l, r_close = Fin c, r_volume = Fin 1\<rparr>"

text \<open>A small valid configuration: one-bar range, ATR over one bar, no momentum gate.\<close>

definition demo_config :: orb_config where
  "demo_config = orb_defaults\<lparr>oc_range_minutes := 1, oc_atr_period := 1, oc_use_roc := False\<rparr>"

lemma demo_config_ok: "orb_config_ok demo_config"
  by (simp add: orb_config_ok_def orb_config_init_def orb_defaults_def opt_nonpos_def
      opt_gt_def us_day_def demo_config_def)

text \<open>Over any stream of bars and hook decisions, from a fresh engine with a valid
  configuration, entry signals and full exits balance: their difference is one when a position is
  open at the end and zero when not, so no second entry can come before the exit of the first.\<close>

theorem orb_books_balance:
  assumes "orb_config_ok g"
  shows "entries (rr_signals (stream_run (on_candle g) (force_flat g) strict bars (orb_new g)))
     = closings (rr_signals (stream_run (on_candle g) (force_flat g) strict bars (orb_new g)))
       + (if e_pos (rr_state (stream_run (on_candle g) (force_flat g) strict bars (orb_new g)))
            = None then 0 else 1)"
  by (rule orb.stream_balance [OF new_inv [OF assms]]) (simp add: orb_new_def)

theorem orb_books_balance_witness:
  "entries (rr_signals (stream_run (on_candle demo_config) (force_flat demo_config) True
       [(bar 0 10 12 9 11, False), (bar 1 11 14 11 13, False)] (orb_new demo_config)))
   = closings (rr_signals (stream_run (on_candle demo_config) (force_flat demo_config) True
       [(bar 0 10 12 9 11, False), (bar 1 11 14 11 13, False)] (orb_new demo_config)))
     + (if e_pos (rr_state (stream_run (on_candle demo_config) (force_flat demo_config) True
       [(bar 0 10 12 9 11, False), (bar 1 11 14 11 13, False)] (orb_new demo_config)))
          = None then 0 else 1)"
  by (rule orb_books_balance [OF demo_config_ok])

text \<open>The callbacks of a fresh engine see everything: over any stream, the signals handed to
  the signal callback are exactly the signals returned, in order, and the transitions form an
  unbroken path from the idle state to the engine's final state.\<close>

theorem orb_callbacks_complete:
  fixes strict :: bool and bars :: "(raw_candle \<times> bool) list"
  assumes "orb_config_ok g"
  defines "res \<equiv> stream_run (on_candle g) (force_flat g) strict bars (orb_new g)"
  shows "sigs_in (e_out (rr_state res)) = rr_signals res
     \<and> path_end IDLE (e_out (rr_state res)) = Some (e_state (rr_state res))"
  using orb.stream_logged [OF new_inv [OF assms(1)], of strict bars]
  unfolding res_def by (auto simp: logged_def orb_new_def)

theorem orb_callbacks_complete_witness:
  "sigs_in (e_out (rr_state (stream_run (on_candle demo_config) (force_flat demo_config) True
       [(bar 0 10 12 9 11, False)] (orb_new demo_config))))
     = rr_signals (stream_run (on_candle demo_config) (force_flat demo_config) True
       [(bar 0 10 12 9 11, False)] (orb_new demo_config))
   \<and> path_end IDLE (e_out (rr_state (stream_run (on_candle demo_config) (force_flat demo_config)
       True [(bar 0 10 12 9 11, False)] (orb_new demo_config))))
     = Some (e_state (rr_state (stream_run (on_candle demo_config) (force_flat demo_config) True
       [(bar 0 10 12 9 11, False)] (orb_new demo_config))))"
  by (rule orb_callbacks_complete [OF demo_config_ok])

section \<open>Errors\<close>

text \<open>C8: from any state the engine can be in, a bar raises nothing but a candle error (exactly
  what validation rejects it with), an out-of-order error (in strict mode, for a timestamp not
  after the last), or the indicator's zero-divisor error; the first two leave the engine
  untouched, and no assertion, type or key error is reachable.\<close>

theorem orb_error_sources:
  assumes "orb_inv g e" and "on_candle g r e = (Inl er, e')"
  shows "(\<exists>f. er = CandleError f \<and> validate r = Inl er \<and> e' = e)
     \<or> er = OutOfOrderError \<and> oc_strict g \<and> e' = e
         \<and> (\<exists>c t. validate r = Inr c \<and> e_last_ts e = Some t \<and> utc (c_ts c) \<le> utc t)
     \<or> er = IndicatorError ''ROC divisor is zero (corrupt price series)''"
  by (rule on_candle_cases [OF assms])
    (auto simp: step_ok_def roc_error_def stale_def split: if_splits option.splits)

theorem orb_error_sources_witness:
  defines "r \<equiv> (bar 0 10 12 9 11)\<lparr>r_high := NaN\<rparr>"
  shows "(\<exists>f. CandleError NonFiniteOhlc = CandleError f \<and> validate r = Inl (CandleError NonFiniteOhlc)
        \<and> orb_new demo_config = orb_new demo_config)
     \<or> CandleError NonFiniteOhlc = OutOfOrderError \<and> oc_strict demo_config
         \<and> orb_new demo_config = orb_new demo_config
         \<and> (\<exists>c t. validate r = Inr c \<and> e_last_ts (orb_new demo_config) = Some t
              \<and> utc (c_ts c) \<le> utc t)
     \<or> CandleError NonFiniteOhlc = IndicatorError ''ROC divisor is zero (corrupt price series)''"
  by (rule orb_error_sources [OF new_inv [OF demo_config_ok]])
    (simp add: on_candle_def validate_def r_def bar_def)

section \<open>Time and sessions\<close>

text \<open>An accepted bar moves the engine's clock strictly forward to its own timestamp, and a
  position held after it was opened in the very session the bar belongs to: no position crosses a
  session boundary or survives the session's end.\<close>

theorem orb_position_in_session:
  assumes "orb_inv g e" and "validate r = Inr c" and "on_candle g r e = (Inr sig, e')"
    and "\<forall>t. e_last_ts e = Some t \<longrightarrow> utc t < utc (c_ts c)"
  shows "e_last_ts e' = Some (c_ts c)
     \<and> (\<forall>p. e_pos e' = Some p \<longrightarrow>
          si_id (classify g (p_entry_ts p)) = si_id (classify g (c_ts c)))"
proof (rule on_candle_cases [OF assms(1,3)])
  fix f assume "validate r = Inl (CandleError f)"
  then show ?thesis using assms(2) by simp
next
  fix d assume d: "validate r = Inr d" "stale d e"
  then show ?thesis using assms(2,4) by (auto simp: stale_def split: option.splits)
next
  fix d assume d: "validate r = Inr d" "candle_ok d" "\<not> stale d e" "orb_step g d e = (Inr sig, e')"
    and ok: "step_ok g e (Inr sig) e'"
  have "c = d" using d(1) assms(2) by simp
  have inv: "orb_inv g e'" using ok by (simp add: step_ok_def)
  show ?thesis
    by (rule orb_step_split [OF assms(1) d(2,3,4)])
      (use inv \<open>c = d\<close> in \<open>auto simp: orb_inv_def pos_session_def\<close>)
qed

theorem orb_position_in_session_witness:
  "\<exists>e'. on_candle demo_config (bar 0 10 12 9 11) (orb_new demo_config) = (Inr None, e')
     \<and> e_last_ts e' = Some (utc_ts 0)
     \<and> (\<forall>p. e_pos e' = Some p \<longrightarrow> si_id (classify demo_config (p_entry_ts p))
          = si_id (classify demo_config (utc_ts 0)))"
proof -
  define c where "c = \<lparr>c_ts = utc_ts 0, c_open = 10, c_high = 12, c_low = 9, c_close = 11,
    c_volume = 1\<rparr>"
  define r where "r = bar 0 10 12 9 11"
  have v: "validate r = Inr c"
    by (simp add: r_def validate_def bar_def c_def utc_ts_def max_def min_def)
  obtain res e' where s: "on_candle demo_config r (orb_new demo_config) = (res, e')"
    by (meson surj_pair)
  have cl: "classify demo_config (utc_ts 0) = \<lparr>si_zone = IN_RANGE_WINDOW, si_id = 0\<rparr>"
    by (simp add: classify_def zone_within_def Let_def demo_config_def orb_defaults_def
        utc_ts_def date_of_def us_day_def us_min_def)
  have "res = Inr None" using s
    by (simp add: on_candle_def v orb_step_def c_def cl orb_new_def session_boundary_def Let_def
        reset_for_new_session_def dispatch_def feed_indicators_def in_session_def clear_range_def
        build_indicators_def on_idle_def)
  then show ?thesis
    using orb_position_in_session [OF new_inv [OF demo_config_ok] v] s
    by (auto simp: orb_new_def c_def r_def)
qed

section \<open>Entries\<close>

text \<open>What an entry signal must satisfy, against its candle: the close is beyond the range it
  reports, the direction is allowed, every enabled gate holds on the reported values, the stop is
  the clamped ATR distance away, the target is the configured multiple of that risk, and the
  engine's position is the one signalled.\<close>

definition gates_hold :: "orb_config \<Rightarrow> signal \<Rightarrow> bool" where
  "gates_hold g s \<longleftrightarrow>
     (oc_use_roc g \<longrightarrow> (\<exists>v. s_roc s = Some v
        \<and> (if s_dir s = LONG then oc_roc_min g \<le> v else v \<le> - oc_roc_min g)))
   \<and> (oc_use_rvol g \<longrightarrow> (\<exists>v. s_rvol s = Some v \<and> oc_rvol_min g \<le> v))"

definition entry_sound :: "orb_config \<Rightarrow> candle \<Rightarrow> signal \<Rightarrow> orb_engine \<Rightarrow> bool" where
  "entry_sound g c s e \<longleftrightarrow> (\<exists>hi lo atr. s_range_high s = Some hi \<and> s_range_low s = Some lo
     \<and> s_atr s = Some atr \<and> 0 \<le> atr \<and> s_ts s = c_ts c \<and> s_price s = c_close c
     \<and> (if s_dir s = LONG
        then oc_allow_long g \<and> hi < c_close c \<and> s_stop s = Some (c_close c - stop_dist g atr)
        else oc_allow_short g \<and> c_close c < lo \<and> s_stop s = Some (c_close c + stop_dist g atr))
     \<and> s_tp s = map_option (\<lambda>k. if s_dir s = LONG then c_close c + k * stop_dist g atr
                                else c_close c - k * stop_dist g atr) (oc_tp_rrr g)
     \<and> gates_hold g s
     \<and> (\<exists>p. e_pos e = Some p \<and> p_dir p = s_dir s \<and> p_entry p = s_price s
          \<and> Some (p_stop p) = s_stop s \<and> p_tp p = s_tp s \<and> p_bars p = 0))"

lemma stop_dist_clamp:
  assumes "orb_config_ok g" "0 \<le> atr"
  shows "0 \<le> stop_dist g atr" "oc_stop_min g = Some m \<Longrightarrow> m \<le> stop_dist g atr"
    "oc_stop_max g = Some m \<Longrightarrow> stop_dist g atr \<le> m"
  using orb_config_okD [OF assms(1)] assms(2)
  by (auto simp: stop_dist_def Let_def opt_nonpos_def opt_gt_def not_le not_less
      split: option.splits)

lemma momentum_pass_values:
  assumes "momentum g c dir e = (Inr (a, b, True, why), e1)"
  shows "oc_use_roc g \<Longrightarrow> \<exists>v. a = Some v
       \<and> (if dir = LONG then oc_roc_min g \<le> v else v \<le> - oc_roc_min g)"
    and "oc_use_rvol g \<Longrightarrow> \<exists>v. b = Some v \<and> oc_rvol_min g \<le> v"
  using assms
  by (cases dir; auto simp: momentum_def Let_def split: if_splits option.splits sum.splits)+

lemma open_position_fields:
  assumes "open_position g c dir atr a b e = (s, e')"
  shows "s_kind s = ENTRY" "s_dir s = dir" "s_price s = c_close c" "s_ts s = c_ts c"
    "s_range_high s = e_range_hi e" "s_range_low s = e_range_lo e" "s_roc s = a" "s_rvol s = b"
    "s_atr s = Some atr"
    "s_stop s = Some (if dir = LONG then c_close c - stop_dist g atr
                      else c_close c + stop_dist g atr)"
    "s_tp s = map_option (\<lambda>k. if dir = LONG then c_close c + k * \<bar>stop_dist g atr\<bar>
                              else c_close c - k * \<bar>stop_dist g atr\<bar>) (oc_tp_rrr g)"
    "\<exists>p. e_pos e' = Some p \<and> p_dir p = s_dir s \<and> p_entry p = s_price s
          \<and> Some (p_stop p) = s_stop s \<and> p_tp p = s_tp s \<and> p_bars p = 0"
  using assms
  by (auto simp: open_position_def Let_def orb_emission split: option.splits)

lemma check_breakout_entry:
  assumes "check_breakout g c e = (Inr (Some s), e')" and "s_kind s = ENTRY"
    and "orb_config_ok g" and "wilder_wf p (e_atr e)"
  shows "entry_sound g c s e'"
proof -
  obtain hi lo dir where hl: "e_range_hi e = Some hi" "e_range_lo e = Some lo"
    and d: "breakout_direction hi lo c = Some dir"
    and al: "dir = LONG \<longrightarrow> oc_allow_long g" "dir = SHORT \<longrightarrow> oc_allow_short g"
    using assms(1) by (auto simp: check_breakout_def split: option.splits if_splits)
  obtain m e1 where m: "momentum g c dir e = (m, e1)" by (meson surj_pair)
  obtain a b ok why where mv: "m = Inr (a, b, ok, why)"
    using assms(1) hl d al m by (cases m; cases dir) (auto simp: check_breakout_def)
  have ok: "ok"
    using assms(1,2) hl d al m mv
    by (cases dir) (auto simp: check_breakout_def split: if_splits prod.splits
        dest: orb_signal_eq(2))
  obtain atr where atr: "w_atr (e_atr e1) = Some atr"
    and op: "open_position g c dir atr a b e1 = (s, e')"
    using assms(1) hl d al m mv ok
    by (cases dir) (auto simp: check_breakout_def split: option.splits prod.splits)
  have fr: "e_range_hi e1 = Some hi" "e_range_lo e1 = Some lo" "e_atr e1 = e_atr e"
    using momentum_frame [OF m] hl by auto
  have atr0: "0 \<le> atr" using assms(4) atr fr by (simp add: wilder_wf_def)
  note f = open_position_fields [OF op]
  note mp = momentum_pass_values [OF m [unfolded mv, simplified ok]]
  have "gates_hold g s" using mp f(2,7,8) by (auto simp: gates_hold_def)
  moreover have "\<bar>stop_dist g atr\<bar> = stop_dist g atr"
    using stop_dist_clamp(1) [OF assms(3) atr0] by simp
  ultimately show ?thesis unfolding entry_sound_def
    using f atr0 d al fr(1,2)
    by (intro exI [of _ hi] exI [of _ lo] exI [of _ atr])
      (cases dir; auto simp: breakout_direction_def split: if_splits)
qed

lemma on_range_defined_entry:
  assumes "on_range_defined g c info e = (Inr (Some s), e')" and "s_kind s = ENTRY"
    and "orb_config_ok g" and "wilder_wf p (e_atr e)"
  shows "entry_sound g c s e'"
proof -
  define e1 where "e1 = (if si_zone info = IN_SESSION \<and> \<not> e_range_locked e
                     then lock_range c True e else e)"
  have "check_breakout g c e1 = (Inr (Some s), e')"
    using assms(1) by (auto simp: on_range_defined_def Let_def e1_def [symmetric] split: if_splits)
  moreover have "e_atr e1 = e_atr e" by (simp add: e1_def frame_simps)
  ultimately show ?thesis using check_breakout_entry assms(2-4) by metis
qed

text \<open>C10: every entry is sound. An entry signal comes only from a valid bar whose close is
  strictly beyond the range it reports, in an allowed direction, with every enabled momentum gate
  satisfied by the values it reports; its stop is the clamped ATR distance from the close, its
  target the configured multiple of that distance, and the engine then holds exactly the position
  it announced.\<close>

theorem orb_entry_sound:
  assumes "orb_inv g e" and "on_candle g r e = (Inr (Some s), e')" and "s_kind s = ENTRY"
  shows "\<exists>c. validate r = Inr c \<and> entry_sound g c s e'"
proof (rule on_candle_cases [OF assms(1,2)])
  fix c assume c: "validate r = Inr c" "candle_ok c" "\<not> stale c e"
    "orb_step g c e = (Inr (Some s), e')" and ok: "step_ok g e (Inr (Some s)) e'"
  have fits: "s_from s = RANGE_DEFINED" "e_pos e = None" "e_pos e' \<noteq> None"
    using ok assms(3) by (auto simp: step_ok_def sig_fits_def kind_ok_def)
  have "entry_sound g c s e'"
  proof (rule orb_step_split [OF assms(1) c(2,3,4)])
    fix e2 assume e2: "orb_inv g e2" "e_pos e2 = e_pos e"
      "dispatch g c (classify g (c_ts c)) e2 = (Inr (Some s), e')"
    have "e_state e2 = RANGE_DEFINED"
      using e2 fits(2) orb_inv_pos [OF e2(1)]
      by (cases "e_state e2") (auto simp: dispatch_def on_idle_def Let_def split: if_splits)
    then show ?thesis
      using on_range_defined_entry [OF _ assms(3)] e2(1,3)
      by (auto simp: dispatch_def orb_inv_def)
  qed (use fits in auto)
  then show ?thesis using c(1) by blast
qed (auto split: if_splits)

text \<open>A first bar opens and locks the range; a second one breaks out above it.\<close>

definition demo_armed :: orb_engine where
  "demo_armed = snd (on_candle demo_config (bar 0 10 12 9 11) (orb_new demo_config))"

definition demo_long :: "(error + signal option) \<times> orb_engine" where
  "demo_long = on_candle demo_config (bar 1 11 14 11 13) demo_armed"

lemma demo_armed_inv: "orb_inv demo_config demo_armed"
  using orb.inv_candle [OF new_inv [OF demo_config_ok] surjective_pairing [of "on_candle demo_config
    (bar 0 10 12 9 11) (orb_new demo_config)"]] by (simp add: demo_armed_def)

lemma demo_long_entry:
  obtains s e' where "on_candle demo_config (bar 1 11 14 11 13) demo_armed = (Inr (Some s), e')"
    "s_kind s = ENTRY"
proof -
  have "(case demo_long of (Inr (Some s), e') \<Rightarrow> s_kind s = ENTRY | _ \<Rightarrow> False)" by code_simp
  then show ?thesis using that
    by (auto simp: demo_long_def split: prod.splits sum.splits option.splits)
qed

theorem orb_entry_sound_witness:
  "\<exists>s e' c. on_candle demo_config (bar 1 11 14 11 13) demo_armed = (Inr (Some s), e')
     \<and> validate (bar 1 11 14 11 13) = Inr c \<and> entry_sound demo_config c s e'"
proof (rule demo_long_entry)
  fix s e' assume s: "on_candle demo_config (bar 1 11 14 11 13) demo_armed = (Inr (Some s), e')"
    "s_kind s = ENTRY"
  then show ?thesis using orb_entry_sound [OF demo_armed_inv s] by blast
qed

text \<open>The stop distance of a valid configuration is a clamp: never negative, never under the
  configured floor, never over the configured cap, and the plain ATR multiple when that lies
  between them.\<close>

theorem stop_dist_bounds:
  assumes "orb_config_ok g" and "0 \<le> atr"
  shows "0 \<le> stop_dist g atr
     \<and> (\<forall>m. oc_stop_min g = Some m \<longrightarrow> m \<le> stop_dist g atr)
     \<and> (\<forall>m. oc_stop_max g = Some m \<longrightarrow> stop_dist g atr \<le> m)
     \<and> ((\<forall>m. oc_stop_min g = Some m \<longrightarrow> m \<le> oc_atr_mult g * atr)
        \<and> (\<forall>m. oc_stop_max g = Some m \<longrightarrow> oc_atr_mult g * atr \<le> m)
        \<longrightarrow> stop_dist g atr = oc_atr_mult g * atr)"
  using stop_dist_clamp [OF assms]
  by (auto simp: stop_dist_def Let_def split: option.splits)

theorem stop_dist_bounds_witness:
  "stop_dist (orb_defaults\<lparr>oc_stop_max := Some 4, oc_stop_min := Some 2\<rparr>) 10 = 4
   \<and> 2 \<le> stop_dist (orb_defaults\<lparr>oc_stop_max := Some 4, oc_stop_min := Some 2\<rparr>) 10"
proof -
  define g where "g = orb_defaults\<lparr>oc_stop_max := Some 4, oc_stop_min := Some 2\<rparr>"
  have "orb_config_ok g"
    by (simp add: g_def orb_config_ok_def orb_config_init_def orb_defaults_def opt_nonpos_def
        opt_gt_def us_day_def)
  from stop_dist_bounds [OF this, of 10] have "2 \<le> stop_dist g 10" by (simp add: g_def)
  moreover have "stop_dist g 10 = 4" by (simp add: g_def stop_dist_def orb_defaults_def)
  ultimately show ?thesis by (simp add: g_def)
qed

section \<open>Managing the position\<close>

definition tightens :: "position \<Rightarrow> position \<Rightarrow> bool" where
  "tightens p p' \<longleftrightarrow> p_dir p' = p_dir p \<and> p_entry p' = p_entry p \<and> p_entry_ts p' = p_entry_ts p
     \<and> p_bars p' = p_bars p + 1 \<and> (p_tp p' = p_tp p \<or> p_tp p' = None)
     \<and> (if p_dir p = LONG then p_stop p \<le> p_stop p' else p_stop p' \<le> p_stop p)
     \<and> p_mfe p \<le> p_mfe p' \<and> p_mae p \<le> p_mae p'"

lemma track_tightens: "tightens p (track_position c p)"
  by (simp add: tightens_def track_position_def Let_def)

lemma ratchet_tightens: "tightens p q \<Longrightarrow> tightens p (ratchet g c atr q)"
  by (auto simp: tightens_def ratchet_def Let_def)

lemma consumed_tightens: "tightens p q \<Longrightarrow> tightens p (q\<lparr>p_tp := None\<rparr>)"
  by (simp add: tightens_def)

lemma exit_position_flat:
  "some_signal (exit_position g c reason to price e) = (Inr x, e')
   \<Longrightarrow> e_pos e' = None \<and> x \<noteq> None"
  by (auto simp: exit_position_def some_signal_def Let_def orb_emission rearm_def clear_range_def
      split: option.splits prod.splits if_splits)

lemma partial_tp_pos:
  "partial_tp g c px pos e = (s, e') \<Longrightarrow> e_pos e' = Some (pos\<lparr>p_tp := None\<rparr>)"
  by (auto simp: partial_tp_def Let_def split: prod.splits)

lemma on_breakout_tightens:
  assumes "on_breakout g c e = (Inr res, e')" and "e_pos e = Some p" and "e_pos e' = Some p'"
  shows "tightens p p'"
  using assms
  by (auto simp: on_breakout_def Let_def split: option.splits if_splits prod.splits
      dest!: exit_position_flat partial_tp_pos
      simp: track_tightens ratchet_tightens consumed_tightens)

text \<open>The silent case: no exit test fired.\<close>

definition survives :: "position \<Rightarrow> candle \<Rightarrow> bool" where
  "survives p c \<longleftrightarrow> (if p_dir p = LONG then p_stop p < c_close c else c_close c < p_stop p)"

lemma on_breakout_silent:
  assumes "on_breakout g c e = (Inr None, e')" and "e_pos e = Some p" and "candle_ok c"
  shows "survives p c"
proof -
  define q where "q = track_position c p"
  have q: "p_dir q = p_dir p" "p_stop q = p_stop p"
    by (simp_all add: q_def track_position_def Let_def)
  have "\<not> trail_hit g q c" using assms(1,2)
    by (auto simp: on_breakout_def Let_def q_def [symmetric] some_signal_def
        split: option.splits if_splits prod.splits sum.splits)
  then show ?thesis using q assms(3)
    by (cases "p_dir p") (auto simp: survives_def trail_hit_def candle_ok_def split: if_splits)
qed

text \<open>C11: a held position is never loosened. Whatever an accepted bar does, a position still open
  after it is the same trade with one more bar held, a stop at least as tight, a target unchanged
  or consumed, and excursions no smaller; and when the bar was silent its close is strictly on
  the right side of the stop the position came in with.\<close>

theorem orb_stop_only_tightens:
  assumes "orb_inv g e" and "validate r = Inr c" and "on_candle g r e = (Inr res, e')"
    and "e_pos e = Some p" and "e_pos e' = Some p'"
    and "\<forall>t. e_last_ts e = Some t \<longrightarrow> utc t < utc (c_ts c)"
  shows "tightens p p' \<and> (res = None \<longrightarrow> survives p c)"
proof (rule on_candle_cases [OF assms(1,3)])
  fix f assume "validate r = Inl (CandleError f)"
  then show ?thesis using assms(2) by simp
next
  fix d assume "validate r = Inr d" "stale d e"
  then show ?thesis using assms(2,6) by (auto simp: stale_def split: option.splits)
next
  fix d assume d: "validate r = Inr d" "candle_ok d" "\<not> stale d e" "orb_step g d e = (Inr res, e')"
  have cd: "c = d" using d(1) assms(2) by simp
  show ?thesis
  proof (rule orb_step_split [OF assms(1) d(2,3,4)])
    fix e2 assume e2: "orb_inv g e2" "e_pos e2 = e_pos e"
      "dispatch g d (classify g (c_ts d)) e2 = (Inr res, e')"
    have "e_state e2 = BREAKOUT" using orb_inv_pos [OF e2(1)] e2(2) assms(4) by simp
    then have ob: "on_breakout g d e2 = (Inr res, e')" using e2(3) by (simp add: dispatch_def)
    have p2: "e_pos e2 = Some p" using e2(2) assms(4) by simp
    show ?thesis
      using on_breakout_tightens [OF ob p2 assms(5)] on_breakout_silent [OF _ p2 d(2)] ob cd
      by auto
  qed (use assms(5) in auto)
qed

definition demo_held :: orb_engine where
  "demo_held = snd demo_long"

lemma demo_held_inv: "orb_inv demo_config demo_held"
  using orb.inv_candle [OF demo_armed_inv surjective_pairing [of "on_candle demo_config
    (bar 1 11 14 11 13) demo_armed"]] by (simp add: demo_held_def demo_long_def)

theorem orb_stop_only_tightens_witness:
  "\<exists>p e' p'. e_pos demo_held = Some p
     \<and> on_candle demo_config (bar 2 13 16 13 16) demo_held = (Inr None, e')
     \<and> e_pos e' = Some p' \<and> p_stop p = 17 / 2 \<and> p_stop p' = 23 / 2 \<and> tightens p p'"
proof -
  define r where "r = bar 2 13 16 13 16"
  define c where "c = \<lparr>c_ts = utc_ts (2 * us_min), c_open = 13, c_high = 16, c_low = 13,
    c_close = 16, c_volume = 1\<rparr>"
  have "(case on_candle demo_config (bar 2 13 16 13 16) demo_held of (res, e') \<Rightarrow>
     (case res of Inr x \<Rightarrow> x = None | _ \<Rightarrow> False)
     \<and> (case e_pos demo_held of Some p \<Rightarrow> p_stop p = 17 / 2 | None \<Rightarrow> False)
     \<and> (case e_pos e' of Some p' \<Rightarrow> p_stop p' = 23 / 2 | None \<Rightarrow> False)
     \<and> (case e_last_ts demo_held of Some t \<Rightarrow> utc t < 2 * us_min | None \<Rightarrow> False))"
    by code_simp
  then obtain p e' p' where x: "on_candle demo_config r demo_held = (Inr None, e')"
      "e_pos demo_held = Some p" "p_stop p = 17 / 2" "e_pos e' = Some p'" "p_stop p' = 23 / 2"
      "\<forall>t. e_last_ts demo_held = Some t \<longrightarrow> utc t < 2 * us_min"
    by (auto simp: r_def split: prod.splits sum.splits option.splits)
  have "validate r = Inr c"
    by (simp add: r_def validate_def bar_def c_def utc_ts_def max_def min_def)
  from orb_stop_only_tightens [OF demo_held_inv this x(1,2,4)] x(6)
  have "tightens p p'" by (simp add: c_def utc_ts_def utc_def)
  then show ?thesis using x by (auto simp: r_def)
qed

section \<open>Range and warmup\<close>

lemma build_range_extremes:
  "e_range_hi e = Some hi \<Longrightarrow> e_range_lo e = Some lo \<Longrightarrow>
   e_range_hi (fold build_range cs e) = Some (Max (set (hi # map c_high cs)))
   \<and> e_range_lo (fold build_range cs e) = Some (Min (set (lo # map c_low cs)))
   \<and> e_range_bars (fold build_range cs e) = e_range_bars e + int (length cs)"
proof (induction cs arbitrary: e hi lo)
  case Nil
  then show ?case by simp
next
  case (Cons c cs)
  have mx: "Max (insert (max hi x) S) = Max (insert hi (insert x S))"
    and mn: "Min (insert (min lo y) S) = Min (insert lo (insert y S))"
    if "finite S" for S :: "flt set" and x y
    using that by (cases "S = {}"; simp add: max.assoc min.assoc)+
  show ?case
    using Cons.IH [of "build_range c e" "max hi (c_high c)" "min lo (c_low c)"] Cons.prems
    by (simp add: build_range_def mx mn)
qed

text \<open>A range built from bars is their envelope: after folding one or more bars into a cleared
  range, its high is the greatest of their highs, its low the least of their lows, and the bar
  counter is their number.\<close>

theorem orb_range_is_envelope:
  "cs \<noteq> [] \<Longrightarrow>
   e_range_hi (fold build_range cs (clear_range e)) = Some (Max (set (map c_high cs)))
   \<and> e_range_lo (fold build_range cs (clear_range e)) = Some (Min (set (map c_low cs)))
   \<and> e_range_bars (fold build_range cs (clear_range e)) = int (length cs)"
  using build_range_extremes [of "build_range (hd cs) (clear_range e)" "c_high (hd cs)"
      "c_low (hd cs)" "tl cs"]
  by (cases cs) (simp_all add: build_range_def clear_range_def)

theorem orb_range_is_envelope_witness:
  defines "b1 \<equiv> \<lparr>c_ts = utc_ts 0, c_open = 10, c_high = 12, c_low = 9, c_close = 11, c_volume = 0\<rparr>"
    and "b2 \<equiv> \<lparr>c_ts = utc_ts 1, c_open = 10, c_high = 11, c_low = 8, c_close = 9, c_volume = 0\<rparr>"
  shows "e_range_hi (fold build_range [b1, b2] (clear_range (orb_new demo_config))) = Some 12
     \<and> e_range_lo (fold build_range [b1, b2] (clear_range (orb_new demo_config))) = Some 8"
  using orb_range_is_envelope [of "[b1, b2]" "orb_new demo_config"] by (simp add: b1_def b2_def)

text \<open>The bars the enabled indicators need before the engine may arm.\<close>

definition indicator_need :: "orb_config \<Rightarrow> int" where
  "indicator_need g = max (oc_atr_period g) (max (if oc_use_roc g then oc_roc_period g + 1 else 0)
     (if oc_use_rvol g then oc_rvol_period g else 0))"

lemma feed_fold:
  assumes "in_session (si_zone info)"
  shows "e_atr (fold (feed_indicators g info) cs e)
      = fold wilder_update (map (\<lambda>c. (c_high c, c_low c, c_close c)) cs) (e_atr e)"
    "oc_use_roc g \<Longrightarrow> e_roc (fold (feed_indicators g info) cs e)
      = fold roc_update (map c_close cs) (e_roc e)"
    "oc_use_rvol g \<Longrightarrow> e_vsma (fold (feed_indicators g info) cs e)
      = fold vsma_update (map c_volume cs) (e_vsma e)"
  by (induction cs arbitrary: e) (simp_all add: feed_indicators_def assms)

text \<open>The engine arms exactly on time: fed in-session bars from a fresh set of indicators, it is
  warm precisely when it has seen as many bars as the slowest enabled indicator needs, a number
  \<open>warmup_bars\<close> never underestimates.\<close>

theorem orb_warm_exactly:
  assumes "orb_config_ok g" and "in_session (si_zone info)"
  shows "(warm g (fold (feed_indicators g info) cs (build_indicators g e))
            \<longleftrightarrow> indicator_need g \<le> int (length cs))
     \<and> indicator_need g \<le> warmup_bars g"
proof -
  note ok = orb_config_okD [OF assms(1)]
  have p: "0 < nat (oc_atr_period g)" "0 < nat (oc_rvol_period g)" using ok by simp_all
  have "warm g (fold (feed_indicators g info) cs (build_indicators g e))
      \<longleftrightarrow> nat (oc_atr_period g) \<le> length cs
        \<and> (oc_use_roc g \<longrightarrow> nat (oc_roc_period g) + 1 \<le> length cs)
        \<and> (oc_use_rvol g \<longrightarrow> nat (oc_rvol_period g) \<le> length cs)"
    using stream_indicator.ready_fold [OF wilder_contract [OF p(1)]]
      stream_indicator.ready_fold [OF vsma_contract [OF p(2)]] roc_ind.ready_fold
    by (simp add: warm_def feed_fold [OF assms(2)] build_indicators_def)
  moreover have "indicator_need g \<le> warmup_bars g"
    using ok by (auto simp: indicator_need_def warmup_bars_def max_def)
  ultimately show ?thesis using ok by (auto simp: indicator_need_def)
qed

theorem orb_warm_exactly_witness:
  "indicator_need orb_defaults \<le> warmup_bars orb_defaults \<and> indicator_need orb_defaults = 14
   \<and> warmup_bars orb_defaults = 15"
  using orb_warm_exactly [OF orb_defaults_ok, of "\<lparr>si_zone = IN_SESSION, si_id = 0\<rparr>" "[]"
      "orb_new orb_defaults"]
  by (simp add: in_session_def indicator_need_def orb_defaults_def warmup_bars_def)

section \<open>The one-trade policy\<close>

text \<open>With one trade per session the engine stays flat after a trade as long as the feed has no
  resetting gap: idle in the session proper, a bar of the same session that leaves no such gap
  produces no signal and leaves it idle and flat.\<close>

theorem orb_idle_stays_idle:
  assumes "orb_inv g e" and "e_state e = IDLE" and "validate r = Inr c"
    and "e_session_id e = Some (si_id (classify g (c_ts c)))"
    and "si_zone (classify g (c_ts c)) = IN_SESSION"
    and "e_last_ts e = Some t" and "utc t < utc (c_ts c)"
    and "oc_on_gap g = ''hold''" and "bar_gap g (c_ts c) t \<le> oc_max_gap g"
  shows "\<exists>e'. on_candle g r e = (Inr None, e') \<and> e_state e' = IDLE \<and> e_pos e' = None
     \<and> e_out e' = e_out e"
  using assms orb_inv_pos [OF assms(1)]
  by (auto simp: on_candle_def orb_step_def Let_def gap_check_def dispatch_def on_idle_def
      frame_simps)

text \<open>After the demonstration trade: a close back inside the range ends it, the engine idles.\<close>

definition demo_flat :: orb_engine where
  "demo_flat = snd (on_candle demo_config (bar 2 13 13 10 11) demo_held)"

lemma demo_flat_inv: "orb_inv demo_config demo_flat"
  using orb.inv_candle [OF demo_held_inv surjective_pairing [of "on_candle demo_config
    (bar 2 13 13 10 11) demo_held"]] by (simp add: demo_flat_def)

theorem orb_idle_stays_idle_witness:
  "e_traded demo_flat \<and> (\<exists>e'. on_candle demo_config (bar 3 11 15 11 14) demo_flat = (Inr None, e')
     \<and> e_state e' = IDLE \<and> e_pos e' = None \<and> e_out e' = e_out demo_flat)"
proof -
  define c where "c = \<lparr>c_ts = utc_ts (3 * us_min), c_open = 11, c_high = 15, c_low = 11,
    c_close = 14, c_volume = 1\<rparr>"
  have v: "validate (bar 3 11 15 11 14) = Inr c"
    by (simp add: validate_def bar_def c_def utc_ts_def max_def min_def)
  have "e_traded demo_flat \<and> e_state demo_flat = IDLE \<and> e_session_id demo_flat = Some 0
     \<and> e_last_ts demo_flat = Some (utc_ts (2 * us_min))
     \<and> classify demo_config (utc_ts (3 * us_min)) = \<lparr>si_zone = IN_SESSION, si_id = 0\<rparr>
     \<and> bar_gap demo_config (utc_ts (3 * us_min)) (utc_ts (2 * us_min)) \<le> oc_max_gap demo_config
     \<and> oc_on_gap demo_config = ''hold''
     \<and> utc (utc_ts (2 * us_min)) < utc (utc_ts (3 * us_min))" by code_simp
  with orb_idle_stays_idle [OF demo_flat_inv _ v, of "utc_ts (2 * us_min)"]
  show ?thesis by (simp add: c_def)
qed

text \<open>A resetting gap lifts the one-trade policy. \<open>_traded_this_session\<close> is set on entry but
  never read, and a gap reset moves an idle engine that has already traded back to building a
  range, so under \<open>one_trade_per_session\<close> a second trade can open in the same session.\<close>

theorem orb_gap_second_trade:
  "oc_one_trade demo_config \<and> e_traded demo_flat \<and> e_state demo_flat = IDLE
   \<and> entries (rr_signals (stream_run (on_candle demo_config) (force_flat demo_config) True
        [(bar 8 11 12 10 11, False), (bar 9 11 15 11 14, False)] demo_flat)) = 1
   \<and> e_session_id (rr_state (stream_run (on_candle demo_config) (force_flat demo_config) True
        [(bar 8 11 12 10 11, False), (bar 9 11 15 11 14, False)] demo_flat))
     = e_session_id demo_flat"
  by code_simp

end
