(* ===== verification/Exits.thy ===== *)
theory Exits
  imports Models
begin

text \<open>
  The exit managers that run beside the engines: \<open>orb/babysitter.py\<close> (trailing stop and one
  partial close) and \<open>orb/smc/exits.py\<close> (ladder of partial closes, two-stage stop). Both look at
  the broker's open positions once per bar and answer with actions; they share the contract
  \<open>exit_sitter\<close>. A per-ticket dictionary is a map; broker positions are inputs.
\<close>

section \<open>Positions and actions\<close>

text \<open>\<open>b_type\<close> is 0 for a buy, anything else sells; \<open>b_sl\<close> is None or Some 0 when there is no stop.\<close>

record broker_pos =
  b_ticket :: int
  b_type :: int
  b_volume :: flt
  b_open :: flt
  b_sl :: "flt option"

definition is_long :: "broker_pos \<Rightarrow> bool" where
  "is_long p \<longleftrightarrow> b_type p = 0"

text \<open>\<open>p.sl or 0.0\<close>.\<close>

definition cur_sl :: "broker_pos \<Rightarrow> flt" where
  "cur_sl p = (case b_sl p of None \<Rightarrow> 0 | Some v \<Rightarrow> v)"

datatype action = PartialClose int flt | UpdateSl int flt

definition tighter :: "broker_pos \<Rightarrow> flt \<Rightarrow> bool" where
  "tighter p sl \<longleftrightarrow> cur_sl p = 0 \<or> (is_long p \<and> sl > cur_sl p) \<or> (\<not> is_long p \<and> sl < cur_sl p)"

text \<open>What is asked of one ticket: its stop updates, and the volume to close.\<close>

definition sls_for :: "int \<Rightarrow> action list \<Rightarrow> flt list" where
  "sls_for t acts = concat (map (\<lambda>a. case a of UpdateSl t' sl \<Rightarrow> if t' = t then [sl] else []
     | PartialClose _ _ \<Rightarrow> []) acts)"

definition closed_for :: "int \<Rightarrow> action list \<Rightarrow> flt" where
  "closed_for t acts = sum_list (map (\<lambda>a. case a of PartialClose t' v \<Rightarrow> if t' = t then v else 0
     | UpdateSl _ _ \<Rightarrow> 0) acts)"

lemma sls_for_simps [simp]:
  "sls_for t [] = []" "sls_for t (xs @ ys) = sls_for t xs @ sls_for t ys"
  "sls_for t (UpdateSl t' sl # xs) = (if t' = t then [sl] else []) @ sls_for t xs"
  "sls_for t (PartialClose t' v # xs) = sls_for t xs"
  by (simp_all add: sls_for_def)

lemma closed_for_simps [simp]:
  "closed_for t [] = 0" "closed_for t (xs @ ys) = closed_for t xs + closed_for t ys"
  "closed_for t (UpdateSl t' sl # xs) = closed_for t xs"
  "closed_for t (PartialClose t' v # xs) = (if t' = t then v else 0) + closed_for t xs"
  by (simp_all add: closed_for_def)

section \<open>The contract\<close>

text \<open>What the broker does with a position's stop updates.\<close>

definition apply_sl :: "action list \<Rightarrow> broker_pos \<Rightarrow> broker_pos" where
  "apply_sl acts p = (case sls_for (b_ticket p) acts of [] \<Rightarrow> p
     | sls \<Rightarrow> p\<lparr>b_sl := Some (last sls)\<rparr>)"

lemma apply_sl_ticket: "b_ticket (apply_sl acts p) = b_ticket p"
  by (simp add: apply_sl_def split: list.splits)

text \<open>\<open>protects q p\<close>: the same position with a stop at least as tight (a stop is a positive
  price).\<close>

definition protects :: "broker_pos \<Rightarrow> broker_pos \<Rightarrow> bool" where
  "protects q p \<longleftrightarrow> b_ticket q = b_ticket p \<and> b_type q = b_type p \<and> b_open q = b_open p
     \<and> b_volume q = b_volume p
     \<and> (0 < cur_sl p \<longrightarrow> 0 < cur_sl q
          \<and> (if is_long p then cur_sl p \<le> cur_sl q else cur_sl q \<le> cur_sl p))"

lemma protects_refl: "protects p p"
  by (simp add: protects_def)

lemma protects_trans: "protects r q \<Longrightarrow> protects q p \<Longrightarrow> protects r p"
  by (auto simp: protects_def is_long_def split: if_splits)

text \<open>A manager run over bars, the broker accepting every stop update; positions are fixed but for
  their stops.\<close>

fun sit_run ::
  "(broker_pos list \<Rightarrow> 'c \<Rightarrow> 's \<Rightarrow> action list \<times> 's) \<Rightarrow> 'c list \<Rightarrow> broker_pos list \<Rightarrow> 's
   \<Rightarrow> broker_pos list \<times> 's" where
  "sit_run f [] ps s = (ps, s)"
| "sit_run f (c # cs) ps s = (case f ps c s of (acts, s') \<Rightarrow> sit_run f cs (map (apply_sl acts) ps) s')"

locale exit_sitter =
  fixes on_bar :: "broker_pos list \<Rightarrow> 'c \<Rightarrow> 's \<Rightarrow> action list \<times> 's"
    and tracked :: "'s \<Rightarrow> int set"
    and inv :: "'s \<Rightarrow> bool"
    and price :: "'c \<Rightarrow> flt"
  assumes inv_step: "inv s \<Longrightarrow> on_bar ps c s = (acts, s') \<Longrightarrow> inv s'"
    and sl_tightens: "inv s \<Longrightarrow> distinct (map b_ticket ps) \<Longrightarrow> on_bar ps c s = (acts, s')
      \<Longrightarrow> p \<in> set ps
      \<Longrightarrow> sls_for (b_ticket p) acts = [] \<or> (\<exists>sl. sls_for (b_ticket p) acts = [sl] \<and> tighter p sl
            \<and> (0 < price c \<longrightarrow> \<not> is_long p \<longrightarrow> 0 < sl))"
    and sl_known: "on_bar ps c s = (acts, s') \<Longrightarrow> t \<notin> b_ticket ` set ps \<Longrightarrow> sls_for t acts = []"
    and close_bounded: "inv s \<Longrightarrow> distinct (map b_ticket ps) \<Longrightarrow> on_bar ps c s = (acts, s')
      \<Longrightarrow> p \<in> set ps \<Longrightarrow> 0 \<le> b_volume p \<Longrightarrow> 0 \<le> closed_for (b_ticket p) acts
        \<and> closed_for (b_ticket p) acts \<le> b_volume p"
    and close_known: "on_bar ps c s = (acts, s') \<Longrightarrow> t \<notin> b_ticket ` set ps
      \<Longrightarrow> closed_for t acts = 0"
    and forgets: "on_bar ps c s = (acts, s') \<Longrightarrow> tracked s' \<subseteq> b_ticket ` set ps"
begin

lemma apply_protects:
  assumes "inv s" "distinct (map b_ticket ps)" "on_bar ps c s = (acts, s')" "p \<in> set ps"
    "0 < price c"
  shows "protects (apply_sl acts p) p"
  using sl_tightens [OF assms(1-4)] assms(5)
  by (auto simp: apply_sl_def protects_def tighter_def cur_sl_def is_long_def split: if_splits)

lemma run_protects:
  "inv s \<Longrightarrow> distinct (map b_ticket ps) \<Longrightarrow> \<forall>c \<in> set cs. 0 < price c
   \<Longrightarrow> sit_run on_bar cs ps s = (qs, s') \<Longrightarrow> list_all2 protects qs ps"
proof (induction cs arbitrary: ps s)
  case Nil
  then show ?case by (simp add: list_all2_same protects_refl)
next
  case (Cons c cs)
  obtain acts s1 where b: "on_bar ps c s = (acts, s1)" by (meson surj_pair)
  define ps1 where "ps1 = map (apply_sl acts) ps"
  have "distinct (map b_ticket ps1)" using Cons.prems(2)
    by (simp add: ps1_def comp_def apply_sl_ticket)
  have one: "list_all2 protects ps1 ps"
    using apply_protects [OF Cons.prems(1,2) b] Cons.prems(3)
    by (auto simp: ps1_def list_all2_conv_all_nth)
  have "list_all2 protects qs ps1"
    by (rule Cons.IH [OF inv_step [OF Cons.prems(1) b]])
      (use Cons.prems(3,4) b \<open>distinct (map b_ticket ps1)\<close> in \<open>simp_all add: ps1_def\<close>)
  then show ?case using one by (rule list_all2_trans [rotated]) (rule protects_trans)
qed

end

section \<open>The loop over positions\<close>

text \<open>Both managers walk the positions once, each step reading and writing only its own ticket's
  entry and asking only for its own ticket; \<open>sweep\<close> is the final loop that drops closed ones.\<close>

fun each_pos ::
  "(broker_pos \<Rightarrow> 'st option \<Rightarrow> action list \<times> 'st option) \<Rightarrow> broker_pos list \<Rightarrow> (int \<rightharpoonup> 'st)
   \<Rightarrow> action list \<times> (int \<rightharpoonup> 'st)" where
  "each_pos f [] tr = ([], tr)"
| "each_pos f (p # ps) tr =
     (case f p (tr (b_ticket p)) of (a, st) \<Rightarrow>
      case each_pos f ps (tr(b_ticket p := st)) of (as, tr') \<Rightarrow> (a @ as, tr'))"

definition sweep :: "broker_pos list \<Rightarrow> (int \<rightharpoonup> 'st) \<Rightarrow> (int \<rightharpoonup> 'st)" where
  "sweep ps tr = (\<lambda>t. if t \<in> b_ticket ` set ps then tr t else None)"

definition own_ticket :: "(broker_pos \<Rightarrow> 'st option \<Rightarrow> action list \<times> 'st option) \<Rightarrow> bool" where
  "own_ticket f \<longleftrightarrow> (\<forall>p st t. t \<noteq> b_ticket p \<longrightarrow> sls_for t (fst (f p st)) = []
     \<and> closed_for t (fst (f p st)) = 0)"

lemma each_pos_other:
  assumes "own_ticket f"
  shows "each_pos f ps tr = (acts, tr') \<Longrightarrow> t \<notin> b_ticket ` set ps
    \<Longrightarrow> sls_for t acts = [] \<and> closed_for t acts = 0 \<and> tr' t = tr t"
proof (induction ps arbitrary: tr acts)
  case Nil
  then show ?case by simp
next
  case (Cons p ps)
  obtain a st where f: "f p (tr (b_ticket p)) = (a, st)" by (meson surj_pair)
  obtain as where r: "each_pos f ps (tr(b_ticket p := st)) = (as, tr')" "acts = a @ as"
    using Cons.prems(1) f by (auto split: prod.splits)
  have "sls_for t a = [] \<and> closed_for t a = 0"
    using assms f Cons.prems(2) unfolding own_ticket_def by (metis fst_conv image_eqI list.set_intros(1))
  then show ?case using Cons.IH [OF r(1)] Cons.prems(2) r(2) by simp
qed

lemma each_pos_own:
  assumes "own_ticket f"
  shows "each_pos f ps tr = (acts, tr') \<Longrightarrow> distinct (map b_ticket ps) \<Longrightarrow> p \<in> set ps
    \<Longrightarrow> \<exists>a. f p (tr (b_ticket p)) = (a, tr' (b_ticket p))
         \<and> sls_for (b_ticket p) acts = sls_for (b_ticket p) a
         \<and> closed_for (b_ticket p) acts = closed_for (b_ticket p) a"
proof (induction ps arbitrary: tr acts)
  case Nil
  then show ?case by simp
next
  case (Cons q ps)
  obtain a st where f: "f q (tr (b_ticket q)) = (a, st)" by (meson surj_pair)
  obtain as where r: "each_pos f ps (tr(b_ticket q := st)) = (as, tr')" "acts = a @ as"
    using Cons.prems(1) f by (auto split: prod.splits)
  show ?case
  proof (cases "p = q")
    case True
    then have "b_ticket p \<notin> b_ticket ` set ps" using Cons.prems(2) by simp
    from each_pos_other [OF assms r(1) this] show ?thesis using f r(2) True by simp
  next
    case False
    then have p: "p \<in> set ps" using Cons.prems(3) by simp
    then have tq: "b_ticket p \<noteq> b_ticket q" using Cons.prems(2) by (simp, metis imageI)
    have "sls_for (b_ticket p) a = [] \<and> closed_for (b_ticket p) a = 0"
      using assms f tq unfolding own_ticket_def by (metis fst_conv)
    then show ?thesis using Cons.IH [OF r(1)] Cons.prems(2) p tq r(2) by simp
  qed
qed

lemma each_pos_inv:
  assumes "\<And>p st0 a st. P st0 \<Longrightarrow> f p st0 = (a, st) \<Longrightarrow> P st"
  shows "each_pos f ps tr = (acts, tr') \<Longrightarrow> (\<And>t. P (tr t)) \<Longrightarrow> P (tr' t)"
proof (induction ps arbitrary: tr acts)
  case Nil
  then show ?case by simp
next
  case (Cons p ps)
  obtain a st where f: "f p (tr (b_ticket p)) = (a, st)" by (meson surj_pair)
  obtain as where r: "each_pos f ps (tr(b_ticket p := st)) = (as, tr')"
    using Cons.prems(1) f by (auto split: prod.splits)
  show ?case by (rule Cons.IH [OF r]) (use assms [OF _ f] Cons.prems(2) in auto)
qed

section \<open>Babysitter\<close>

record sitter_config =
  bs_partial_frac :: flt
  bs_partial_at_r :: flt
  bs_breakeven_at_r :: flt
  bs_default_d :: flt

definition sitter_defaults :: sitter_config where
  "sitter_defaults = \<lparr>bs_partial_frac = 7 / 10, bs_partial_at_r = 2, bs_breakeven_at_r = 0,
     bs_default_d = 4\<rparr>"

record trade_state =
  ts_d :: flt
  ts_partial_done :: bool

definition initial_d :: "flt \<Rightarrow> broker_pos \<Rightarrow> flt" where
  "initial_d fallback p = (if truthy (b_sl p) then \<bar>b_open p - cur_sl p\<bar> else fallback)"

definition sit_profit :: "bool \<Rightarrow> flt \<Rightarrow> flt \<Rightarrow> flt" where
  "sit_profit long close entry = (if long then close - entry else entry - close)"

text \<open>The trailing target: the close less the initial distance, held at entry once the breakeven
  threshold is reached.\<close>

definition trail_target :: "sitter_config \<Rightarrow> flt \<Rightarrow> flt \<Rightarrow> broker_pos \<Rightarrow> flt" where
  "trail_target g close d p =
     (let long = is_long p;
          target = (if long then close - d else close + d)
      in if bs_breakeven_at_r g > 0 \<and> sit_profit long close (b_open p) \<ge> bs_breakeven_at_r g * d
         then (if long then max target (b_open p) else min target (b_open p))
         else target)"

definition babysit_pos ::
  "sitter_config \<Rightarrow> flt \<Rightarrow> broker_pos \<Rightarrow> trade_state option \<Rightarrow> action list \<times> trade_state option" where
  "babysit_pos g close p st0 =
     (let st = (case st0 of Some x \<Rightarrow> x
                | None \<Rightarrow> \<lparr>ts_d = initial_d (bs_default_d g) p, ts_partial_done = False\<rparr>);
          profit = sit_profit (is_long p) close (b_open p);
          fire = (\<not> ts_partial_done st \<and> profit \<ge> bs_partial_at_r g * ts_d st);
          target = trail_target g close (ts_d st) p
      in ((if fire then [PartialClose (b_ticket p) (b_volume p * bs_partial_frac g)] else [])
           @ (if tighter p target then [UpdateSl (b_ticket p) target] else []),
          Some (if fire then st\<lparr>ts_partial_done := True\<rparr> else st)))"

definition babysit ::
  "sitter_config \<Rightarrow> broker_pos list \<Rightarrow> flt \<Rightarrow> (int \<rightharpoonup> trade_state)
   \<Rightarrow> action list \<times> (int \<rightharpoonup> trade_state)" where
  "babysit g ps close tr =
     (case each_pos (babysit_pos g close) ps tr of (acts, tr') \<Rightarrow> (acts, sweep ps tr'))"

definition sitter_inv :: "sitter_config \<Rightarrow> (int \<rightharpoonup> trade_state) \<Rightarrow> bool" where
  "sitter_inv g tr \<longleftrightarrow> 0 \<le> bs_partial_frac g \<and> bs_partial_frac g \<le> 1 \<and> 0 \<le> bs_default_d g
     \<and> (\<forall>t st. tr t = Some st \<longrightarrow> 0 \<le> ts_d st)"

lemma babysit_own: "own_ticket (babysit_pos g close)"
  by (simp add: own_ticket_def babysit_pos_def Let_def)

lemma initial_d_nonneg: "0 \<le> d \<Longrightarrow> 0 \<le> initial_d d p"
  by (simp add: initial_d_def)

lemma babysit_pos_d:
  "babysit_pos g close p st0 = (a, st) \<Longrightarrow> 0 \<le> bs_default_d g
   \<Longrightarrow> (\<And>x. st0 = Some x \<Longrightarrow> 0 \<le> ts_d x) \<Longrightarrow> \<exists>x. st = Some x \<and> 0 \<le> ts_d x"
  by (auto simp: babysit_pos_def Let_def initial_d_nonneg split: option.splits)

lemma trail_target_short:
  "0 < close \<Longrightarrow> 0 \<le> d \<Longrightarrow> \<not> is_long p \<Longrightarrow> 0 < trail_target g close d p"
proof -
  assume a: "0 < close" "0 \<le> d" "\<not> is_long p"
  have "0 < b_open p" if "bs_breakeven_at_r g > 0" "b_open p - close \<ge> bs_breakeven_at_r g * d"
  proof -
    have "0 \<le> bs_breakeven_at_r g * d" using that(1) a(2) by simp
    then show ?thesis using that(2) a(1) by linarith
  qed
  then show ?thesis using a by (auto simp: trail_target_def Let_def sit_profit_def min_def)
qed

lemma babysit_pos_acts:
  assumes "babysit_pos g close p st0 = (a, st)" and "0 \<le> bs_partial_frac g"
    "bs_partial_frac g \<le> 1" "0 \<le> bs_default_d g" and "\<And>x. st0 = Some x \<Longrightarrow> 0 \<le> ts_d x"
  shows "sls_for (b_ticket p) a = [] \<or> (\<exists>sl. sls_for (b_ticket p) a = [sl] \<and> tighter p sl
            \<and> (0 < close \<longrightarrow> \<not> is_long p \<longrightarrow> 0 < sl))"
    "0 \<le> b_volume p \<Longrightarrow> 0 \<le> closed_for (b_ticket p) a \<and> closed_for (b_ticket p) a \<le> b_volume p"
proof -
  define d where "d = ts_d (case st0 of Some x \<Rightarrow> x
     | None \<Rightarrow> \<lparr>ts_d = initial_d (bs_default_d g) p, ts_partial_done = False\<rparr>)"
  have d: "0 \<le> d" using assms(4,5) initial_d_nonneg by (auto simp: d_def split: option.splits)
  have sl: "sls_for (b_ticket p) a
      = (if tighter p (trail_target g close d p) then [trail_target g close d p] else [])"
    using assms(1) by (auto simp: babysit_pos_def Let_def d_def split: if_splits)
  then show "sls_for (b_ticket p) a = [] \<or> (\<exists>sl. sls_for (b_ticket p) a = [sl] \<and> tighter p sl
            \<and> (0 < close \<longrightarrow> \<not> is_long p \<longrightarrow> 0 < sl))"
    using trail_target_short [OF _ d] by simp
  assume v: "0 \<le> b_volume p"
  have "closed_for (b_ticket p) a \<in> {0, b_volume p * bs_partial_frac g}"
    using assms(1) by (auto simp: babysit_pos_def Let_def split: if_splits)
  then show "0 \<le> closed_for (b_ticket p) a \<and> closed_for (b_ticket p) a \<le> b_volume p"
    using v assms(2,3) mult_left_le [of "bs_partial_frac g" "b_volume p"] by auto
qed

lemma sweep_dom: "sweep ps tr t = Some st \<Longrightarrow> tr t = Some st \<and> t \<in> b_ticket ` set ps"
  by (auto simp: sweep_def split: if_splits)

lemma babysit_split:
  assumes "babysit g ps close tr = (acts, tr')"
  obtains tr1 where "each_pos (babysit_pos g close) ps tr = (acts, tr1)" "tr' = sweep ps tr1"
  using assms by (auto simp: babysit_def split: prod.splits)

interpretation sitter: exit_sitter "babysit g" dom "sitter_inv g" "\<lambda>c. c" for g
proof unfold_locales
  show "sitter_inv g s'" if inv: "sitter_inv g s" and run: "babysit g ps c s = (acts, s')"
    for s ps c acts s'
  proof (rule babysit_split [OF run])
    fix tr1 assume e: "each_pos (babysit_pos g c) ps s = (acts, tr1)" "s' = sweep ps tr1"
    have "(case tr1 t of Some st \<Rightarrow> 0 \<le> ts_d st | None \<Rightarrow> True)" for t
      by (rule each_pos_inv [where P = "\<lambda>x. case x of Some st \<Rightarrow> 0 \<le> ts_d st | None \<Rightarrow> True", OF _ e(1)])
        (use inv babysit_pos_d in \<open>fastforce simp: sitter_inv_def split: option.splits\<close>)+
    then have "0 \<le> ts_d st" if "tr1 t = Some st" for t st using that by (metis option.simps(5))
    then show ?thesis using inv e(2) by (auto simp: sitter_inv_def dest!: sweep_dom)
  qed
  have own: "\<exists>a x. babysit_pos g c p (s (b_ticket p)) = (a, x)
      \<and> sls_for (b_ticket p) acts = sls_for (b_ticket p) a
      \<and> closed_for (b_ticket p) acts = closed_for (b_ticket p) a"
    if "distinct (map b_ticket ps)" "babysit g ps c s = (acts, s')" "p \<in> set ps"
    for s ps c acts s' p
  proof (rule babysit_split [OF that(2)])
    fix tr1 assume e: "each_pos (babysit_pos g c) ps s = (acts, tr1)"
    show ?thesis using each_pos_own [OF babysit_own e that(1,3)] by blast
  qed
  have nn: "0 \<le> ts_d x" if "sitter_inv g s" "s t = Some x" for s t x
    using that by (simp add: sitter_inv_def)
  have cfg: "0 \<le> bs_partial_frac g" "bs_partial_frac g \<le> 1" "0 \<le> bs_default_d g"
    if "sitter_inv g s" for s using that by (simp_all add: sitter_inv_def)
  show "sls_for (b_ticket p) acts = [] \<or> (\<exists>sl. sls_for (b_ticket p) acts = [sl] \<and> tighter p sl
      \<and> (0 < c \<longrightarrow> \<not> is_long p \<longrightarrow> 0 < sl))"
    if i: "sitter_inv g s" and r: "distinct (map b_ticket ps)" "babysit g ps c s = (acts, s')"
      "p \<in> set ps" for s ps c acts s' p
  proof -
    obtain a x where a: "babysit_pos g c p (s (b_ticket p)) = (a, x)"
        "sls_for (b_ticket p) acts = sls_for (b_ticket p) a"
        "closed_for (b_ticket p) acts = closed_for (b_ticket p) a"
      using own [OF r] by blast
    show ?thesis unfolding a(2,3)
      by (rule babysit_pos_acts(1) [OF a(1) cfg [OF i]]) (use nn [OF i] in auto)
  qed
  show "0 \<le> closed_for (b_ticket p) acts \<and> closed_for (b_ticket p) acts \<le> b_volume p"
    if i: "sitter_inv g s" and r: "distinct (map b_ticket ps)" "babysit g ps c s = (acts, s')"
      "p \<in> set ps" and v: "0 \<le> b_volume p" for s ps c acts s' p
  proof -
    obtain a x where a: "babysit_pos g c p (s (b_ticket p)) = (a, x)"
        "sls_for (b_ticket p) acts = sls_for (b_ticket p) a"
        "closed_for (b_ticket p) acts = closed_for (b_ticket p) a"
      using own [OF r] by blast
    show ?thesis unfolding a(2,3)
      by (rule babysit_pos_acts(2) [OF a(1) cfg [OF i]]) (use nn [OF i] v in auto)
  qed
  show "sls_for t acts = []" if "babysit g ps c s = (acts, s')" "t \<notin> b_ticket ` set ps"
    for s ps c acts s' t
    by (rule babysit_split [OF that(1)]) (use each_pos_other [OF babysit_own _ that(2)] in blast)
  show "closed_for t acts = 0" if "babysit g ps c s = (acts, s')" "t \<notin> b_ticket ` set ps"
    for s ps c acts s' t
    by (rule babysit_split [OF that(1)]) (use each_pos_other [OF babysit_own _ that(2)] in blast)
  show "dom s' \<subseteq> b_ticket ` set ps" if "babysit g ps c s = (acts, s')" for s ps c acts s'
    by (rule babysit_split [OF that]) (auto dest: sweep_dom)
qed

section \<open>Ladder exit manager\<close>

text \<open>\<open>lc_spread_fn\<close> says whether a live spread callback is configured; what it returns while a
  ticket is processed is the input \<open>feed\<close>.\<close>

record ladder_config =
  lc_levels :: "(flt \<times> flt) list"
  lc_final_r :: flt
  lc_stage1_r :: flt
  lc_stage2_r :: flt
  lc_min_lock_r :: flt
  lc_buffer :: flt
  lc_comm :: flt
  lc_value_per_move :: flt
  lc_spread :: flt
  lc_spread_fn :: bool
  lc_vol_min :: flt
  lc_vol_step :: flt
  lc_default_d :: flt

definition ladder_defaults :: ladder_config where
  "ladder_defaults = \<lparr>lc_levels = [(5, 4 / 10), (7, 3 / 10)], lc_final_r = 10, lc_stage1_r = 1,
     lc_stage2_r = 2, lc_min_lock_r = 1, lc_buffer = 1 / 2, lc_comm = 7, lc_value_per_move = 100,
     lc_spread = 1 / 10, lc_spread_fn = False, lc_vol_min = 1 / 100, lc_vol_step = 1 / 100,
     lc_default_d = 2\<rparr>"

definition ladder_init :: "ladder_config \<Rightarrow> error + ladder_config" where
  "ladder_init g =
    (if lc_vol_step g \<le> 0 \<or> lc_vol_min g \<le> 0 then Inl (ValueError ''vol_step and vol_min must be > 0'')
     else if lc_default_d g \<le> 0 then Inl (ValueError ''default_d must be > 0'')
     else if lc_stage1_r g \<le> 0 then Inl (ValueError ''stage1_at_r must be > 0'')
     else if lc_stage2_r g \<le> lc_stage1_r g then Inl (ValueError ''stage2_at_r must be > stage1_at_r'')
     else if lc_min_lock_r g \<le> 0 then Inl (ValueError ''stage2_min_lock_r must be > 0'')
     else if lc_value_per_move g \<le> 0 then Inl (ValueError ''value_per_move must be > 0'')
     else Inr g)"

definition eps9 :: flt where "eps9 = 1 / 10 ^ 9"

definition snap_down :: "flt \<Rightarrow> flt \<Rightarrow> flt" where
  "snap_down v step = round_dp 10 (of_int \<lfloor>v / step + eps9\<rfloor> * step)"

record ladder_pos =
  lp_entry :: flt
  lp_d :: flt
  lp_vol0 :: flt
  lp_filled :: "nat list"
  lp_stage1 :: bool
  lp_stage2 :: bool

definition stage1_level :: "ladder_config \<Rightarrow> flt \<Rightarrow> flt \<Rightarrow> bool \<Rightarrow> flt" where
  "stage1_level g spread entry long =
     (let buf = (if lc_spread_fn g then spread else lc_spread g) + lc_comm g / lc_value_per_move g
      in if long then entry + buf else entry - buf)"

definition stage2_level :: "ladder_config \<Rightarrow> flt \<Rightarrow> flt \<Rightarrow> candle \<Rightarrow> bool \<Rightarrow> flt" where
  "stage2_level g entry d cand long =
     (if long then max (c_low cand - lc_buffer g) (entry + lc_min_lock_r g * d)
      else min (c_high cand + lc_buffer g) (entry - lc_min_lock_r g * d))"

text \<open>The first loop: rungs in order, \<open>emitted\<close> the volume already asked for on this bar.\<close>

fun ladder_rungs ::
  "ladder_config \<Rightarrow> broker_pos \<Rightarrow> flt \<Rightarrow> flt \<Rightarrow> (nat \<times> flt \<times> flt) list \<Rightarrow> nat list \<Rightarrow> flt
   \<Rightarrow> action list \<times> nat list \<times> flt" where
  "ladder_rungs g p vol0 r [] filled emitted = ([], filled, emitted)"
| "ladder_rungs g p vol0 r ((i, lvl, share) # rest) filled emitted =
     (if i \<in> set filled \<or> r < lvl then ladder_rungs g p vol0 r rest filled emitted
      else
        let vol = snap_down (vol0 * share) (lc_vol_step g);
            residual = b_volume p - emitted - vol
        in if vol < lc_vol_min g - eps9 \<or> residual < lc_vol_min g - eps9
           then ladder_rungs g p vol0 r rest (i # filled) emitted
           else case ladder_rungs g p vol0 r rest (i # filled) (emitted + vol) of
                  (acts, filled', emitted') \<Rightarrow>
                    (PartialClose (b_ticket p) vol # acts, filled', emitted'))"

text \<open>The stop stage: the confirmed candle proposes, the current close must leave it valid.\<close>

definition ladder_plan ::
  "ladder_config \<Rightarrow> flt \<Rightarrow> broker_pos \<Rightarrow> candle \<Rightarrow> ladder_pos \<Rightarrow> (flt \<times> bool) option" where
  "ladder_plan g spread p n st =
     (let long = is_long p;
          r_n = sit_profit long (c_close n) (lp_entry st) / lp_d st
      in if r_n \<ge> lc_stage2_r g
           then Some (stage2_level g (lp_entry st) (lp_d st) n long, True)
         else if \<not> lp_stage1 st \<and> r_n \<ge> lc_stage1_r g
           then Some (stage1_level g spread (lp_entry st) long, False)
         else None)"

definition ladder_stage ::
  "ladder_config \<Rightarrow> flt \<Rightarrow> broker_pos \<Rightarrow> flt \<Rightarrow> candle option \<Rightarrow> ladder_pos \<Rightarrow> action list \<times> ladder_pos"
where
  "ladder_stage g spread p close cand st =
    (case cand of None \<Rightarrow> ([], st) | Some n \<Rightarrow>
       if lp_stage2 st then ([], st)
       else case ladder_plan g spread p n st of
              None \<Rightarrow> ([], st)
            | Some (sl, final) \<Rightarrow>
                if tighter p sl \<and> (if is_long p then sl < close else sl > close)
                then ([UpdateSl (b_ticket p) sl],
                      st\<lparr>lp_stage1 := True, lp_stage2 := lp_stage2 st \<or> final\<rparr>)
                else ([], st))"

definition ladder_new_pos :: "ladder_config \<Rightarrow> broker_pos \<Rightarrow> ladder_pos" where
  "ladder_new_pos g p =
     (let d0 = initial_d (lc_default_d g) p
      in \<lparr>lp_entry = b_open p, lp_d = (if d0 \<le> 0 then lc_default_d g else d0),
          lp_vol0 = b_volume p, lp_filled = [], lp_stage1 = False, lp_stage2 = False\<rparr>)"

definition ladder_manage ::
  "ladder_config \<Rightarrow> flt \<Rightarrow> candle \<Rightarrow> candle option \<Rightarrow> broker_pos \<Rightarrow> ladder_pos
   \<Rightarrow> action list \<times> ladder_pos option" where
  "ladder_manage g spread c cand p st =
     (let r = sit_profit (is_long p) (c_close c) (lp_entry st) / lp_d st
      in case ladder_rungs g p (lp_vol0 st) r (enumerate 0 (lc_levels g)) (lp_filled st) 0 of
           (acts, filled, emitted) \<Rightarrow>
             if lc_final_r g > 0 \<and> r \<ge> lc_final_r g then
               (acts @ (if b_volume p - emitted > eps9
                        then [PartialClose (b_ticket p) (b_volume p - emitted)] else []), None)
             else
               (case ladder_stage g spread p (c_close c) cand (st\<lparr>lp_filled := filled\<rparr>)
                of (acts2, st') \<Rightarrow> (acts @ acts2, Some st')))"

definition ladder_pos_step ::
  "ladder_config \<Rightarrow> (int \<Rightarrow> flt) \<Rightarrow> candle \<Rightarrow> candle option \<Rightarrow> broker_pos \<Rightarrow> ladder_pos option
   \<Rightarrow> action list \<times> ladder_pos option" where
  "ladder_pos_step g feed c cand p st0 =
     ladder_manage g (feed (b_ticket p)) c cand p
       (case st0 of Some x \<Rightarrow> x | None \<Rightarrow> ladder_new_pos g p)"

record ladder =
  lm_trades :: "int \<rightharpoonup> ladder_pos"
  lm_prev :: "candle option"

definition ladder_new :: ladder where
  "ladder_new = \<lparr>lm_trades = (\<lambda>_. None), lm_prev = None\<rparr>"

definition ladder_on_bar ::
  "ladder_config \<Rightarrow> broker_pos list \<Rightarrow> candle \<times> (int \<Rightarrow> flt) \<Rightarrow> ladder \<Rightarrow> action list \<times> ladder" where
  "ladder_on_bar g ps bar m =
     (case each_pos (ladder_pos_step g (snd bar) (fst bar) (lm_prev m)) ps (lm_trades m) of
        (acts, tr) \<Rightarrow> (acts, \<lparr>lm_trades = sweep ps tr, lm_prev = Some (fst bar)\<rparr>))"

subsection \<open>Rungs and stages\<close>

definition ladder_ok :: "ladder_config \<Rightarrow> bool" where
  "ladder_ok g \<longleftrightarrow> ladder_init g = Inr g \<and> eps9 \<le> lc_vol_min g"

lemma ladder_okD:
  assumes "ladder_ok g"
  shows "0 < lc_vol_step g" "eps9 \<le> lc_vol_min g" "0 < lc_default_d g" "0 < lc_stage1_r g"
    "lc_stage1_r g < lc_stage2_r g" "0 < lc_min_lock_r g" "0 < lc_value_per_move g"
  using assms by (auto simp: ladder_ok_def ladder_init_def split: if_splits)

lemma ladder_rungs_acts:
  "ladder_rungs g p vol0 r xs filled emitted = (acts, filled', emitted')
   \<Longrightarrow> sls_for t acts = [] \<and> (t \<noteq> b_ticket p \<longrightarrow> closed_for t acts = 0)
     \<and> closed_for (b_ticket p) acts = emitted' - emitted"
  by (induction g p vol0 r xs filled emitted arbitrary: acts rule: ladder_rungs.induct)
    (auto simp: Let_def split: if_splits prod.splits)

lemma ladder_rungs_bound:
  "ladder_ok g \<Longrightarrow> ladder_rungs g p vol0 r xs filled emitted = (acts, filled', emitted')
   \<Longrightarrow> emitted \<le> b_volume p \<Longrightarrow> emitted \<le> emitted' \<and> emitted' \<le> b_volume p"
proof (induction g p vol0 r xs filled emitted arbitrary: acts rule: ladder_rungs.induct)
  case (1 g p vol0 r filled emitted)
  then show ?case by simp
next
  case (2 g p vol0 r i lvl share rest filled emitted)
  define vol where "vol = snap_down (vol0 * share) (lc_vol_step g)"
  consider (skip) "i \<in> set filled \<or> r < lvl"
    | (small) "\<not> (i \<in> set filled \<or> r < lvl)"
        "vol < lc_vol_min g - eps9 \<or> b_volume p - emitted - vol < lc_vol_min g - eps9"
    | (close) "\<not> (i \<in> set filled \<or> r < lvl)"
        "\<not> (vol < lc_vol_min g - eps9 \<or> b_volume p - emitted - vol < lc_vol_min g - eps9)"
    by blast
  then show ?case
  proof cases
    case skip
    then show ?thesis using 2 by (simp add: vol_def)
  next
    case small
    then show ?thesis using 2(2) [OF small(1) vol_def refl small(2)] 2(4,5,6)
      by (simp add: Let_def vol_def)
  next
    case close
    obtain acts1 where r: "ladder_rungs g p vol0 r rest (i # filled) (emitted + vol)
        = (acts1, filled', emitted')"
      using 2(5) close by (auto simp: Let_def vol_def split: prod.splits if_splits)
    have "0 \<le> vol" "emitted + vol \<le> b_volume p" using close(2) ladder_okD(2) [OF 2(4)] by auto
    then show ?thesis using 2(3) [OF close(1) vol_def refl close(2) 2(4) r] by auto
  qed
qed

text \<open>How far a position's stop has advanced: untouched, at breakeven, locked.\<close>

definition stage_of :: "ladder_pos option \<Rightarrow> nat" where
  "stage_of x = (case x of None \<Rightarrow> 0
     | Some st \<Rightarrow> if lp_stage2 st then 2 else if lp_stage1 st then 1 else 0)"

lemma ladder_stage_acts:
  assumes "ladder_stage g spr p close cand st = (acts, st')"
  shows "t \<noteq> b_ticket p \<Longrightarrow> sls_for t acts = []" and "closed_for t acts = 0"
    and "sls_for (b_ticket p) acts = [] \<and> st' = st
      \<or> (\<exists>sl. sls_for (b_ticket p) acts = [sl] \<and> tighter p sl
           \<and> (if is_long p then sl < close else close < sl)
           \<and> stage_of (Some st) < stage_of (Some st') \<and> lp_d st' = lp_d st)"
proof -
  show "t \<noteq> b_ticket p \<Longrightarrow> sls_for t acts = []" "closed_for t acts = 0"
    using assms by (auto simp: ladder_stage_def Let_def split: option.splits if_splits)
  show "sls_for (b_ticket p) acts = [] \<and> st' = st
      \<or> (\<exists>sl. sls_for (b_ticket p) acts = [sl] \<and> tighter p sl
           \<and> (if is_long p then sl < close else close < sl)
           \<and> stage_of (Some st) < stage_of (Some st') \<and> lp_d st' = lp_d st)"
  proof (cases "sls_for (b_ticket p) acts = [] \<and> st' = st")
    case False
    obtain n where n1: "cand = Some n" "\<not> lp_stage2 st"
      using assms False by (cases cand) (auto simp: ladder_stage_def split: if_splits)
    obtain sl final where n: "ladder_plan g spr p n st = Some (sl, final)"
      using assms False n1 by (cases "ladder_plan g spr p n st") (auto simp: ladder_stage_def)
    have c: "tighter p sl" "if is_long p then sl < close else close < sl"
      using assms False n1 n by (auto simp: ladder_stage_def split: if_splits)
    then have "acts = [UpdateSl (b_ticket p) sl]"
        "st' = st\<lparr>lp_stage1 := True, lp_stage2 := lp_stage2 st \<or> final\<rparr>"
      using assms n1 n by (simp_all add: ladder_stage_def split: if_splits)
    moreover have "final \<or> \<not> lp_stage1 st"
      using n by (auto simp: ladder_plan_def Let_def split: if_splits)
    ultimately show ?thesis using c n1(2) by (auto simp: stage_of_def)
  qed blast
qed

lemma ladder_manage_cases:
  assumes "ladder_manage g spr c cand p st = (acts, res)"
  obtains (final) a1 f em r where "acts = a1 @ (if b_volume p - em > eps9
        then [PartialClose (b_ticket p) (b_volume p - em)] else [])" "res = None"
      "ladder_rungs g p (lp_vol0 st) r (enumerate 0 (lc_levels g)) (lp_filled st) 0 = (a1, f, em)"
  | (manage) a1 f em r a2 st' where "acts = a1 @ a2" "res = Some st'"
      "ladder_rungs g p (lp_vol0 st) r (enumerate 0 (lc_levels g)) (lp_filled st) 0 = (a1, f, em)"
      "ladder_stage g spr p (c_close c) cand (st\<lparr>lp_filled := f\<rparr>) = (a2, st')"
proof -
  define r where "r = sit_profit (is_long p) (c_close c) (lp_entry st) / lp_d st"
  obtain a1 f em where q: "ladder_rungs g p (lp_vol0 st) r (enumerate 0 (lc_levels g))
      (lp_filled st) 0 = (a1, f, em)" by (meson prod_cases3)
  obtain a2 st' where s: "ladder_stage g spr p (c_close c) cand (st\<lparr>lp_filled := f\<rparr>) = (a2, st')"
    by (meson surj_pair)
  have "(acts, res) = (if lc_final_r g > 0 \<and> r \<ge> lc_final_r g then
      (a1 @ (if b_volume p - em > eps9 then [PartialClose (b_ticket p) (b_volume p - em)] else []),
       None) else (a1 @ a2, Some st'))"
    using assms by (simp only: ladder_manage_def Let_def r_def [symmetric] q s prod.case)
  then show thesis using final [OF _ _ q] manage [OF _ _ q s] by (simp split: if_splits)
qed

lemma ladder_manage_other:
  assumes "ladder_manage g spr c cand p st = (acts, res)" and "t \<noteq> b_ticket p"
  shows "sls_for t acts = [] \<and> closed_for t acts = 0"
proof (cases rule: ladder_manage_cases [OF assms(1)])
  case (1 a1 f em r)
  then show ?thesis using ladder_rungs_acts [OF 1(3), of t] assms(2) by auto
next
  case (2 a1 f em r a2 st')
  then show ?thesis
    using ladder_rungs_acts [OF 2(3), of t] ladder_stage_acts(1,2) [OF 2(4), of t] assms(2) by auto
qed

lemma ladder_step_own: "own_ticket (ladder_pos_step g feed c cand)"
  unfolding own_ticket_def ladder_pos_step_def
  using ladder_manage_other by (metis prod.collapse)

lemma ladder_manage_closed:
  assumes "ladder_manage g spr c cand p st = (acts, res)" and "ladder_ok g" "0 \<le> b_volume p"
  shows "0 \<le> closed_for (b_ticket p) acts \<and> closed_for (b_ticket p) acts \<le> b_volume p
     \<and> (res = None \<longrightarrow> b_volume p - closed_for (b_ticket p) acts \<le> eps9)"
proof (cases rule: ladder_manage_cases [OF assms(1)])
  case (1 a1 f em r)
  show ?thesis using ladder_rungs_acts [OF 1(3)] ladder_rungs_bound [OF assms(2) 1(3) assms(3)]
    by (auto simp: 1(1) eps9_def)
next
  case (2 a1 f em r a2 st')
  show ?thesis using ladder_rungs_acts [OF 2(3)] ladder_rungs_bound [OF assms(2) 2(3) assms(3)]
      ladder_stage_acts(2) [OF 2(4)] by (simp add: 2(1,2))
qed

text \<open>A step asks for at most one stop update, a strictly tighter stop on the right side of the
  close, and each one advances the stage.\<close>

lemma ladder_manage_stop:
  assumes "ladder_manage g spr c cand p st = (acts, res)"
  shows "sls_for (b_ticket p) acts = [] \<or> (\<exists>sl. sls_for (b_ticket p) acts = [sl] \<and> tighter p sl
       \<and> (if is_long p then sl < c_close c else c_close c < sl))"
    and "res = Some st' \<Longrightarrow>
       stage_of (Some st) + length (sls_for (b_ticket p) acts) \<le> stage_of (Some st')"
proof -
  have up: "stage_of (Some (st\<lparr>lp_filled := f\<rparr>)) = stage_of (Some st)" for f
    by (simp add: stage_of_def)
  have "(sls_for (b_ticket p) acts = [] \<or> (\<exists>sl. sls_for (b_ticket p) acts = [sl] \<and> tighter p sl
       \<and> (if is_long p then sl < c_close c else c_close c < sl)))
    \<and> (\<forall>st'. res = Some st' \<longrightarrow>
       stage_of (Some st) + length (sls_for (b_ticket p) acts) \<le> stage_of (Some st'))"
  proof (cases rule: ladder_manage_cases [OF assms(1)])
    case (1 a1 f em r)
    show ?thesis using ladder_rungs_acts [OF 1(3)] by (simp add: 1(1,2))
  next
    case (2 a1 f em r a2 st')
    have s: "sls_for (b_ticket p) acts = sls_for (b_ticket p) a2"
      using ladder_rungs_acts [OF 2(3)] by (simp add: 2(1))
    show ?thesis using ladder_stage_acts(3) [OF 2(4)] up [of f] 2(2)
      by (elim disjE conjE exE) (simp_all add: s)
  qed
  then show "sls_for (b_ticket p) acts = [] \<or> (\<exists>sl. sls_for (b_ticket p) acts = [sl] \<and> tighter p sl
       \<and> (if is_long p then sl < c_close c else c_close c < sl))"
    "res = Some st' \<Longrightarrow>
       stage_of (Some st) + length (sls_for (b_ticket p) acts) \<le> stage_of (Some st')" by blast+
qed

lemma stage_of_new: "stage_of (Some (case st0 of Some x \<Rightarrow> x | None \<Rightarrow> ladder_new_pos g p)) = stage_of st0"
  by (cases st0) (simp_all add: stage_of_def ladder_new_pos_def Let_def)

lemma ladder_split:
  assumes "ladder_on_bar g ps bar m = (acts, m')"
  obtains tr where
    "each_pos (ladder_pos_step g (snd bar) (fst bar) (lm_prev m)) ps (lm_trades m) = (acts, tr)"
    "m' = \<lparr>lm_trades = sweep ps tr, lm_prev = Some (fst bar)\<rparr>"
  using assms by (auto simp: ladder_on_bar_def split: prod.splits)

lemma ladder_bar_own:
  assumes "ladder_on_bar g ps bar m = (acts, m')" "distinct (map b_ticket ps)" "p \<in> set ps"
  obtains a st where "ladder_manage g (snd bar (b_ticket p)) (fst bar) (lm_prev m) p st
       = (a, lm_trades m' (b_ticket p))" "stage_of (Some st) = stage_of (lm_trades m (b_ticket p))"
    "sls_for (b_ticket p) acts = sls_for (b_ticket p) a"
    "closed_for (b_ticket p) acts = closed_for (b_ticket p) a"
proof (rule ladder_split [OF assms(1)])
  fix tr assume e: "each_pos (ladder_pos_step g (snd bar) (fst bar) (lm_prev m)) ps (lm_trades m)
      = (acts, tr)" "m' = \<lparr>lm_trades = sweep ps tr, lm_prev = Some (fst bar)\<rparr>"
  from each_pos_own [OF ladder_step_own e(1) assms(2,3)] that show thesis
    using assms(3) stage_of_new by (auto simp: e(2) sweep_def ladder_pos_step_def)
qed

interpretation ladder: exit_sitter "ladder_on_bar g" "\<lambda>m. dom (lm_trades m)" "\<lambda>_. ladder_ok g"
  "\<lambda>bar. c_close (fst bar)" for g
proof unfold_locales
  show "sls_for (b_ticket p) acts = [] \<or> (\<exists>sl. sls_for (b_ticket p) acts = [sl] \<and> tighter p sl
      \<and> (0 < c_close (fst c) \<longrightarrow> \<not> is_long p \<longrightarrow> 0 < sl))"
    if r: "distinct (map b_ticket ps)" "ladder_on_bar g ps c s = (acts, s')" "p \<in> set ps"
    for s ps c acts s' p
    by (rule ladder_bar_own [OF r(2,1,3)]) (auto dest!: ladder_manage_stop(1) split: if_splits)
  show "0 \<le> closed_for (b_ticket p) acts \<and> closed_for (b_ticket p) acts \<le> b_volume p"
    if i: "ladder_ok g" and r: "distinct (map b_ticket ps)" "ladder_on_bar g ps c s = (acts, s')"
      "p \<in> set ps" and v: "0 \<le> b_volume p" for s ps c acts s' p
    by (rule ladder_bar_own [OF r(2,1,3)]) (use ladder_manage_closed i v in auto)
  show "sls_for t acts = []" "closed_for t acts = 0"
    if "ladder_on_bar g ps c s = (acts, s')" "t \<notin> b_ticket ` set ps" for s ps c acts s' t
    by (rule ladder_split [OF that(1)];
        use each_pos_other [OF ladder_step_own _ that(2)] in blast)+
  show "dom (lm_trades s') \<subseteq> b_ticket ` set ps" if "ladder_on_bar g ps c s = (acts, s')"
    for s ps c acts s'
    by (rule ladder_split [OF that]) (auto dest: sweep_dom)
qed

end
