(* ===== verification/Exit_Properties.thy ===== *)
theory Exit_Properties
  imports Exits
begin

text \<open>
  What the two exit managers promise: a stop that never loosens, no more volume closed than is
  held, a bounded number of stop changes per trade; and the degenerate distance of a position
  whose stop sits at its entry.
\<close>

definition cbar :: "flt \<Rightarrow> flt \<Rightarrow> flt \<Rightarrow> candle" where
  "cbar h l c = \<lparr>c_ts = utc_ts 0, c_open = c, c_high = h, c_low = l, c_close = c, c_volume = 0\<rparr>"

definition demo_pos :: broker_pos where
  "demo_pos = \<lparr>b_ticket = 7, b_type = 0, b_volume = 1, b_open = 100, b_sl = Some 98\<rparr>"

text \<open>C12: the babysitter never loosens a stop. Over any run of bars with positive closes, the
  broker applying every update, each position keeps its identity, and a long's stop only rises, a
  short's only falls.\<close>

theorem sitter_never_loosens:
  assumes "sitter_inv g tr" and "distinct (map b_ticket ps)" and "\<forall>c \<in> set cs. 0 < c"
  shows "list_all2 protects (fst (sit_run (babysit g) cs ps tr)) ps"
  by (rule sitter.run_protects [OF assms, of _ "snd (sit_run (babysit g) cs ps tr)"]) simp

lemma sitter_inv_start: "sitter_inv sitter_defaults (\<lambda>_. None)"
  by (simp add: sitter_inv_def sitter_defaults_def)

theorem sitter_never_loosens_witness:
  "list_all2 protects
     (fst (sit_run (babysit sitter_defaults) [101, 99, 105, 103] [demo_pos] (\<lambda>_. None))) [demo_pos]
   \<and> map b_sl (fst (sit_run (babysit sitter_defaults) [101, 99, 105, 103] [demo_pos] (\<lambda>_. None)))
     = [Some 103]"
proof
  show "list_all2 protects
     (fst (sit_run (babysit sitter_defaults) [101, 99, 105, 103] [demo_pos] (\<lambda>_. None))) [demo_pos]"
    by (rule sitter_never_loosens [OF sitter_inv_start]) simp_all
  show "map b_sl (fst (sit_run (babysit sitter_defaults) [101, 99, 105, 103] [demo_pos]
      (\<lambda>_. None))) = [Some 103]" by code_simp
qed

text \<open>The ladder manager never loosens a stop either: over any run of bars with positive
  closes, whatever its live spread feed says, every stop is at least as tight at the end.\<close>

theorem ladder_never_loosens:
  assumes "ladder_ok g" and "distinct (map b_ticket ps)" and "\<forall>bar \<in> set bars. 0 < c_close (fst bar)"
  shows "list_all2 protects (fst (sit_run (ladder_on_bar g) bars ps m)) ps"
  by (rule ladder.run_protects [OF assms, of m _ "snd (sit_run (ladder_on_bar g) bars ps m)"]) simp

lemma ladder_defaults_ok: "ladder_ok ladder_defaults"
  by (simp add: ladder_ok_def ladder_init_def ladder_defaults_def eps9_def)

theorem ladder_never_loosens_witness:
  "list_all2 protects (fst (sit_run (ladder_on_bar ladder_defaults)
      (map (\<lambda>c. (cbar (c + 1) (c - 1) c, \<lambda>_. 0)) [103, 104, 105]) [demo_pos] ladder_new)) [demo_pos]
   \<and> map b_sl (fst (sit_run (ladder_on_bar ladder_defaults)
      (map (\<lambda>c. (cbar (c + 1) (c - 1) c, \<lambda>_. 0)) [103, 104, 105]) [demo_pos] ladder_new))
     = [Some (205 / 2)]"
proof
  show "list_all2 protects (fst (sit_run (ladder_on_bar ladder_defaults)
      (map (\<lambda>c. (cbar (c + 1) (c - 1) c, \<lambda>_. 0)) [103, 104, 105]) [demo_pos] ladder_new)) [demo_pos]"
    by (rule ladder_never_loosens [OF ladder_defaults_ok]) (simp_all add: cbar_def)
  show "map b_sl (fst (sit_run (ladder_on_bar ladder_defaults)
      (map (\<lambda>c. (cbar (c + 1) (c - 1) c, \<lambda>_. 0)) [103, 104, 105]) [demo_pos] ladder_new))
     = [Some (205 / 2)]" by code_simp
qed

text \<open>The bars of a run, with the actions of each and the manager after it.\<close>

fun ladder_trace ::
  "ladder_config \<Rightarrow> (broker_pos list \<times> candle \<times> (int \<Rightarrow> flt)) list \<Rightarrow> ladder
   \<Rightarrow> (action list \<times> ladder) list" where
  "ladder_trace g [] m = []"
| "ladder_trace g ((ps, bar) # rest) m =
     (case ladder_on_bar g ps bar m of (acts, m') \<Rightarrow> (acts, m') # ladder_trace g rest m')"

definition sl_count :: "int \<Rightarrow> (action list \<times> ladder) list \<Rightarrow> nat" where
  "sl_count t steps = sum_list (map (\<lambda>x. length (sls_for t (fst x))) steps)"

lemma stage_of_le: "stage_of x \<le> 2"
  by (simp add: stage_of_def split: option.splits)

lemma ladder_trace_stage:
  assumes "\<forall>(ps, bar) \<in> set bars. distinct (map b_ticket ps) \<and> t \<in> b_ticket ` set ps"
    and "\<forall>(acts, m') \<in> set (ladder_trace g bars m). lm_trades m' t \<noteq> None"
  shows "stage_of (lm_trades m t) + sl_count t (ladder_trace g bars m) \<le> 2"
  using assms
proof (induction bars arbitrary: m)
  case Nil
  then show ?case by (simp add: sl_count_def stage_of_le)
next
  case (Cons b bars)
  obtain ps bar where b: "b = (ps, bar)" by (cases b)
  obtain acts m' where run: "ladder_on_bar g ps bar m = (acts, m')" by (meson surj_pair)
  obtain p where p: "p \<in> set ps" "b_ticket p = t" "distinct (map b_ticket ps)"
    using Cons.prems(1) b by auto
  obtain st' where st': "lm_trades m' t = Some st'" using Cons.prems(2) by (auto simp: b run)
  obtain a st where own: "ladder_manage g (snd bar t) (fst bar) (lm_prev m) p st
      = (a, lm_trades m' t)" "stage_of (Some st) = stage_of (lm_trades m t)"
      "sls_for t acts = sls_for t a"
    using ladder_bar_own [OF run p(3,1)] p(2) by metis
  have "stage_of (lm_trades m t) + length (sls_for t acts) \<le> stage_of (lm_trades m' t)"
    using ladder_manage_stop(2) [OF own(1) st'] own(2,3) p(2) st' by simp
  moreover have "stage_of (lm_trades m' t) + sl_count t (ladder_trace g bars m') \<le> 2"
    by (rule Cons.IH) (use Cons.prems in \<open>auto simp: b run\<close>)
  ultimately show ?case by (simp add: b run sl_count_def)
qed

text \<open>At most two stop changes per position: while a ticket is in every bar's positions and has
  not been closed out, the manager asks for its stop to be moved at most twice, at most once on
  any bar.\<close>

theorem ladder_two_changes:
  assumes "\<forall>(ps, bar) \<in> set bars. distinct (map b_ticket ps) \<and> t \<in> b_ticket ` set ps"
    and "\<forall>(acts, m') \<in> set (ladder_trace g bars m). lm_trades m' t \<noteq> None"
  shows "sl_count t (ladder_trace g bars m) \<le> 2"
  using ladder_trace_stage [OF assms] by simp

theorem ladder_two_changes_witness:
  "sl_count 7 (ladder_trace ladder_defaults
     (map (\<lambda>c. ([demo_pos], cbar (c + 1) (c - 1) c, \<lambda>_. 0)) [103, 104, 105, 106]) ladder_new) \<le> 2
   \<and> sl_count 7 (ladder_trace ladder_defaults
     (map (\<lambda>c. ([demo_pos], cbar (c + 1) (c - 1) c, \<lambda>_. 0)) [103, 104, 105, 106]) ladder_new) = 2"
proof
  have "list_all (\<lambda>x. lm_trades (snd x) 7 \<noteq> None) (ladder_trace ladder_defaults
     (map (\<lambda>c. ([demo_pos], cbar (c + 1) (c - 1) c, \<lambda>_. 0)) [103, 104, 105, 106]) ladder_new)"
    by code_simp
  then show "sl_count 7 (ladder_trace ladder_defaults
     (map (\<lambda>c. ([demo_pos], cbar (c + 1) (c - 1) c, \<lambda>_. 0)) [103, 104, 105, 106]) ladder_new) \<le> 2"
    by (intro ladder_two_changes) (auto simp: demo_pos_def list_all_iff)
  show "sl_count 7 (ladder_trace ladder_defaults
     (map (\<lambda>c. ([demo_pos], cbar (c + 1) (c - 1) c, \<lambda>_. 0)) [103, 104, 105, 106]) ladder_new) = 2"
    by code_simp
qed

text \<open>The ladder never closes more than the position holds, and when it forgets a ticket that is
  still open (the final target) it has asked to close all of it.\<close>

theorem ladder_closes_within_volume:
  assumes "ladder_ok g" and "distinct (map b_ticket ps)" and "p \<in> set ps" and "0 \<le> b_volume p"
    and "ladder_on_bar g ps bar m = (acts, m')"
  shows "0 \<le> closed_for (b_ticket p) acts \<and> closed_for (b_ticket p) acts \<le> b_volume p
     \<and> (lm_trades m' (b_ticket p) = None
          \<longrightarrow> b_volume p - closed_for (b_ticket p) acts \<le> eps9)"
  by (rule ladder_bar_own [OF assms(5,2,3)])
    (use ladder_manage_closed [OF _ assms(1,4)] in auto)

theorem ladder_closes_within_volume_witness:
  "\<exists>acts m'. ladder_on_bar ladder_defaults [demo_pos] (cbar 121 119 120, \<lambda>_. 0) ladder_new
       = (acts, m') \<and> closed_for 7 acts \<le> 1 \<and> acts = [PartialClose 7 (4 / 10),
            PartialClose 7 (3 / 10), PartialClose 7 (3 / 10)]"
proof -
  have "(case ladder_on_bar ladder_defaults [demo_pos] (cbar 121 119 120, \<lambda>_. 0) ladder_new of
      (acts, m') \<Rightarrow> acts = [PartialClose 7 (4 / 10), PartialClose 7 (3 / 10),
         PartialClose 7 (3 / 10)])" by code_simp
  then obtain acts m' where r: "ladder_on_bar ladder_defaults [demo_pos]
      (cbar 121 119 120, \<lambda>_. 0) ladder_new = (acts, m')"
      "acts = [PartialClose 7 (4 / 10), PartialClose 7 (3 / 10), PartialClose 7 (3 / 10)]"
    by (auto split: prod.splits)
  from ladder_closes_within_volume [OF ladder_defaults_ok _ _ _ r(1), of demo_pos]
  show ?thesis using r by (simp add: demo_pos_def)
qed

text \<open>A babysitter that first sees a position whose stop already sits at its entry (after a
  restart, say) takes zero for the trade's risk: on the next bar without loss it closes the partial
  at once and drags the stop to the very close.\<close>

theorem sitter_zero_distance:
  assumes "tr (b_ticket p) = None" and "is_long p" and "b_open p \<noteq> 0" and "b_sl p = Some (b_open p)"
    and "b_open p < close"
  shows "fst (babysit sitter_defaults [p] close tr)
     = [PartialClose (b_ticket p) (b_volume p * (7 / 10)), UpdateSl (b_ticket p) close]"
  using assms
  by (simp add: babysit_def babysit_pos_def initial_d_def cur_sl_def sit_profit_def
      sitter_defaults_def trail_target_def tighter_def Let_def)

theorem sitter_zero_distance_witness:
  "fst (babysit sitter_defaults [demo_pos\<lparr>b_sl := Some 100\<rparr>] 101 (\<lambda>_. None))
     = [PartialClose 7 (1 * (7 / 10)), UpdateSl 7 101]"
  using sitter_zero_distance [of "\<lambda>_. None" "demo_pos\<lparr>b_sl := Some 100\<rparr>" 101]
  by (simp add: demo_pos_def is_long_def)
end
