(* ===== verification/Guards.thy ===== *)
theory Guards
  imports Models
begin

text \<open>
  Risk and execution guards: \<open>orb/riskguard.py\<close> (daily loss breaker, consecutive-loss guard,
  spike cancel), \<open>orb/execguard.py\<close> (spread gate, killzone windows, fill assessment) and
  \<open>orb/svp/sizing.py\<close> (structural-stop lot size). Each is a small state machine or a pure function.
\<close>

section \<open>Daily loss breaker\<close>

record breaker =
  db_max :: "flt option"
  db_pct :: "flt option"
  db_day :: "int option"
  db_start :: flt
  db_cap :: flt
  db_delta :: flt
  db_halted :: bool

definition breaker_init :: "flt option \<Rightarrow> flt option \<Rightarrow> error + breaker" where
  "breaker_init mx pct =
    (if mx = None \<and> pct = None
       then Inl (ValueError ''one of max_daily_loss / max_daily_loss_pct required'')
     else if opt_nonpos mx then Inl (ValueError ''max_daily_loss must be > 0'')
     else if opt_nonpos pct then Inl (ValueError ''max_daily_loss_pct must be > 0'')
     else Inr \<lparr>db_max = mx, db_pct = pct, db_day = None, db_start = 0,
       db_cap = (case mx of None \<Rightarrow> 0 | Some m \<Rightarrow> m), db_delta = 0, db_halted = False\<rparr>)"

definition day_pnl :: "breaker \<Rightarrow> flt" where
  "day_pnl b = (if db_day b = None then 0 else db_delta b)"

text \<open>The cap of a day that opens with a balance. With neither limit set (which the constructor
  refuses) the code would compare with \<open>None\<close>; the model keeps the old cap there.\<close>

definition day_cap :: "breaker \<Rightarrow> flt \<Rightarrow> flt" where
  "day_cap b balance = (case db_pct b of Some p \<Rightarrow> balance * (p / 100)
     | None \<Rightarrow> (case db_max b of Some m \<Rightarrow> m | None \<Rightarrow> db_cap b))"

definition breaker_roll :: "int \<Rightarrow> flt \<Rightarrow> breaker \<Rightarrow> breaker" where
  "breaker_roll day balance b =
     (if Some day \<noteq> db_day b
      then b\<lparr>db_day := Some day, db_start := balance, db_cap := day_cap b balance,
             db_halted := False\<rparr>
      else b)"

definition breaker_update :: "int \<Rightarrow> flt \<Rightarrow> breaker \<Rightarrow> bool \<times> breaker" where
  "breaker_update day balance b =
     (let b1 = breaker_roll day balance b;
          b2 = b1\<lparr>db_delta := balance - db_start b1\<rparr>;
          b3 = (if \<not> db_halted b2 \<and> db_start b2 - balance \<ge> db_cap b2
                then b2\<lparr>db_halted := True\<rparr> else b2)
      in (db_halted b3, b3))"

section \<open>Consecutive losses\<close>

record loss_guard =
  lg_max :: int
  lg_period :: "int option"
  lg_streak :: int

definition loss_guard_new :: "int \<Rightarrow> loss_guard" where
  "loss_guard_new n = \<lparr>lg_max = n, lg_period = None, lg_streak = 0\<rparr>"

definition on_period :: "int \<Rightarrow> loss_guard \<Rightarrow> loss_guard" where
  "on_period p g = (if Some p \<noteq> lg_period g then g\<lparr>lg_period := Some p, lg_streak := 0\<rparr> else g)"

definition record_pnl :: "flt \<Rightarrow> loss_guard \<Rightarrow> loss_guard" where
  "record_pnl pnl g = (if pnl < 0 then g\<lparr>lg_streak := lg_streak g + 1\<rparr>
     else if pnl > 0 then g\<lparr>lg_streak := 0\<rparr> else g)"

definition blocked :: "loss_guard \<Rightarrow> bool" where
  "blocked g \<longleftrightarrow> lg_max g > 0 \<and> lg_streak g \<ge> lg_max g"

section \<open>Spike cancel\<close>

record spike =
  sk_ratio :: flt
  sk_lookback :: int
  sk_min_bars :: int
  sk_ranges :: "flt list"

definition spike_init :: "flt \<Rightarrow> int \<Rightarrow> int \<Rightarrow> error + spike" where
  "spike_init ratio lookback min_bars =
     (if ratio \<le> 1 then Inl (ValueError ''ratio must be > 1'')
      else Inr \<lparr>sk_ratio = ratio, sk_lookback = lookback, sk_min_bars = min_bars, sk_ranges = []\<rparr>)"

text \<open>Python's \<open>xs[-n:]\<close>: the last \<open>n\<close> for positive \<open>n\<close>, everything for 0, all but the first
  \<open>|n|\<close> for negative \<open>n\<close>.\<close>

definition last_n :: "int \<Rightarrow> 'a list \<Rightarrow> 'a list" where
  "last_n n xs = (if n > 0 then drop (length xs - nat n) xs else drop (nat (- n)) xs)"

definition spike_update :: "flt \<Rightarrow> flt \<Rightarrow> spike \<Rightarrow> bool \<times> spike" where
  "spike_update high low s =
     (let rng = high - low;
          history = last_n (sk_lookback s) (sk_ranges s);
          total = sum_list history;
          avg = (if history \<noteq> [] then total / of_nat (length history) else 0);
          hit = (int (length history) \<ge> sk_min_bars s \<and> total > 0 \<and> rng \<ge> sk_ratio s * avg);
          rs = sk_ranges s @ [rng]
      in (hit, s\<lparr>sk_ranges := (if int (length rs) > sk_lookback s
                               then last_n (sk_lookback s) rs else rs)\<rparr>))"

section \<open>Spread gate\<close>

definition spread_gate_init :: "flt \<Rightarrow> error + flt" where
  "spread_gate_init m = (if m \<le> 0 then Inl (ValueError ''max_spread must be > 0'') else Inr m)"

definition spread_allows :: "flt \<Rightarrow> flt \<Rightarrow> flt \<Rightarrow> bool \<times> flt" where
  "spread_allows max_spread bid ask =
     (let spread = round_dp 10 (ask - bid) in (spread \<le> max_spread, spread))"

section \<open>Killzone windows\<close>

text \<open>Splitting at commas, and \<open>str.strip\<close> on 8-bit characters.\<close>

fun split_commas :: "string \<Rightarrow> string list" where
  "split_commas [] = [[]]"
| "split_commas (c # cs) = (if c = CHR '','' then [] # split_commas cs
     else (case split_commas cs of [] \<Rightarrow> [[c]] | w # ws \<Rightarrow> (c # w) # ws))"

definition is_space :: "char \<Rightarrow> bool" where
  "is_space c \<longleftrightarrow> (let n = (of_char c :: nat) in 9 \<le> n \<and> n \<le> 13 \<or> 28 \<le> n \<and> n \<le> 32
     \<or> n = 133 \<or> n = 160)"

definition strip :: "string \<Rightarrow> string" where
  "strip s = rev (dropWhile is_space (rev (dropWhile is_space s)))"

definition digit :: "char \<Rightarrow> nat option" where
  "digit c = (let n = (of_char c :: nat) in if 48 \<le> n \<and> n \<le> 57 then Some (n - 48) else None)"

text \<open>\<open>([01]?\d|2[0-3])\<close> followed by a stop character: one or two digits, an hour. Returns the hour
  and what follows the stop character.\<close>

fun hour_then :: "char \<Rightarrow> string \<Rightarrow> (nat \<times> string) option" where
  "hour_then stop (a # b # rest) =
     (case digit a of None \<Rightarrow> None | Some x \<Rightarrow>
        if b = stop then Some (x, rest)
        else (case (digit b, rest) of
                (Some y, c # rest') \<Rightarrow>
                  if c = stop \<and> 10 * x + y < 24 then Some (10 * x + y, rest') else None
              | _ \<Rightarrow> None))"
| "hour_then stop _ = None"

text \<open>\<open>([0-5]\d)\<close>.\<close>

fun minute2 :: "string \<Rightarrow> (nat \<times> string) option" where
  "minute2 (a # b # rest) =
     (case (digit a, digit b) of
        (Some x, Some y) \<Rightarrow> if x < 6 then Some (10 * x + y, rest) else None
      | _ \<Rightarrow> None)"
| "minute2 _ = None"

definition match_window :: "string \<Rightarrow> (nat \<times> nat \<times> nat \<times> nat) option" where
  "match_window s =
     (case hour_then (CHR '':'') s of None \<Rightarrow> None | Some (h1, s1) \<Rightarrow>
      case minute2 s1 of None \<Rightarrow> None | Some (m1, s2) \<Rightarrow>
      case s2 of [] \<Rightarrow> None | d # s3 \<Rightarrow>
        if d \<noteq> CHR ''-'' then None else
      case hour_then (CHR '':'') s3 of None \<Rightarrow> None | Some (h2, s4) \<Rightarrow>
      case minute2 s4 of None \<Rightarrow> None | Some (m2, s5) \<Rightarrow>
        if s5 = [] then Some (h1, m1, h2, m2) else None)"

fun parse_windows :: "string list \<Rightarrow> error + (int \<times> int) list" where
  "parse_windows [] = Inr []"
| "parse_windows (w # ws) =
     (let token = strip w in
      if token = [] then parse_windows ws
      else case match_window token of
        None \<Rightarrow> Inl (ValueError ''bad killzone window'')
      | Some (h1, m1, h2, m2) \<Rightarrow>
          let start = int (h1 * 60 + m1); end' = int (h2 * 60 + m2)
          in if start = end' then Inl (ValueError ''zero-length killzone window'')
             else case parse_windows ws of
               Inl e \<Rightarrow> Inl e | Inr rest \<Rightarrow> Inr ((start, end') # rest))"

definition parse_killzones :: "string \<Rightarrow> error + (int \<times> int) list" where
  "parse_killzones spec = parse_windows (split_commas spec)"

text \<open>The gate: an aware timestamp is read in UTC, a naive one (no offset) as it stands.\<close>

definition utc_minute :: "int \<Rightarrow> int option \<Rightarrow> int" where
  "utc_minute local off = ((local - (case off of None \<Rightarrow> 0 | Some z \<Rightarrow> z)) mod us_day) div us_min"

definition in_window :: "int \<Rightarrow> int \<times> int \<Rightarrow> bool" where
  "in_window m w = (case w of (a, b) \<Rightarrow> if a < b then a \<le> m \<and> m < b else m \<ge> a \<or> m < b)"

definition session_allows :: "(int \<times> int) list \<Rightarrow> int \<Rightarrow> int option \<Rightarrow> bool" where
  "session_allows ws local off = (if ws = [] then True
     else list_ex (in_window (utc_minute local off)) ws)"

section \<open>Fill assessment\<close>

record fill_assessment =
  fa_slippage :: flt
  fa_inflation :: "flt option"
  fa_planned :: "flt option"
  fa_achieved :: "flt option"
  fa_breach :: bool
  fa_degraded :: bool

definition assess_fill ::
  "flt \<Rightarrow> flt \<Rightarrow> flt option \<Rightarrow> flt option \<Rightarrow> flt option \<Rightarrow> flt option \<Rightarrow> fill_assessment" where
  "assess_fill requested filled stop tp max_slippage rr_floor =
    (let slippage = round_dp 10 \<bar>filled - requested\<bar>;
         plan = (case stop of Some s \<Rightarrow> if s = 0 then 0 else \<bar>requested - s\<bar> | None \<Rightarrow> 0);
         fill = (case stop of Some s \<Rightarrow> if s = 0 then 0 else \<bar>filled - s\<bar> | None \<Rightarrow> 0);
         target = (case tp of Some t \<Rightarrow> if t = 0 then None else Some t | None \<Rightarrow> None);
         planned = (if plan > 0 then map_option (\<lambda>t. \<bar>t - requested\<bar> / plan) target else None);
         achieved = (if plan > 0 \<and> fill > 0 then map_option (\<lambda>t. \<bar>t - filled\<bar> / fill) target
                     else None)
     in \<lparr>fa_slippage = slippage,
         fa_inflation = (if plan > 0 then Some (slippage / plan) else None),
         fa_planned = planned, fa_achieved = achieved,
         fa_breach = (case max_slippage of None \<Rightarrow> False | Some m \<Rightarrow> slippage > m),
         fa_degraded = (case rr_floor of None \<Rightarrow> False
            | Some f \<Rightarrow> (case achieved of None \<Rightarrow> False | Some a \<Rightarrow> a < f))\<rparr>)"

section \<open>Lot size\<close>

definition floor_to_step :: "flt \<Rightarrow> flt \<Rightarrow> flt" where
  "floor_to_step x step = (if step \<le> 0 then x
     else round_dp 10 (of_int \<lfloor>x / step + 1 / 10 ^ 9\<rfloor> * step))"

definition compute_lot ::
  "flt \<Rightarrow> flt \<Rightarrow> flt \<Rightarrow> flt \<Rightarrow> flt \<Rightarrow> flt \<Rightarrow> flt \<Rightarrow> flt \<Rightarrow> flt option \<Rightarrow> flt" where
  "compute_lot balance risk_pct entry stop value_per_move vol_min vol_step vol_max max_risk =
    (let dist = \<bar>entry - stop\<bar>
     in if dist \<le> 0 \<or> value_per_move \<le> 0 \<or> balance \<le> 0 \<or> risk_pct \<le> 0 then 0
        else if opt_nonpos max_risk then 0
        else
          let risk0 = balance * (risk_pct / 100);
              risk = (case max_risk of None \<Rightarrow> risk0 | Some m \<Rightarrow> min risk0 m);
              lot = floor_to_step (risk / (dist * value_per_move)) vol_step
          in if lot < vol_min then 0 else min lot vol_max)"

end
