(* ===== verification/Guard_Properties.thy ===== *)
theory Guard_Properties
  imports Guards
begin

text \<open>
  What the guards promise: the breaker latches exactly when a day's drawdown reached its cap, the
  loss guard counts the losing streak, the spike test sees exactly the last bars, killzone windows
  parse back from their text and wrap correctly, a worse fill never looks better, and no lot risks
  more than its budget.
\<close>

section \<open>Daily loss breaker\<close>

definition breaker_day :: "int \<Rightarrow> flt list \<Rightarrow> breaker \<Rightarrow> breaker" where
  "breaker_day d bals b = fold (\<lambda>x s. snd (breaker_update d x s)) bals b"

lemma breaker_same_day:
  "db_day b = Some d \<Longrightarrow>
   db_halted (breaker_day d bals b)
     = (db_halted b \<or> (\<exists>x \<in> set bals. db_cap b \<le> db_start b - x))"
proof (induction bals arbitrary: b)
  case Nil
  then show ?case by (simp add: breaker_day_def)
next
  case (Cons x bals)
  have s: "db_day (snd (breaker_update d x b)) = Some d"
    "db_cap (snd (breaker_update d x b)) = db_cap b"
    "db_start (snd (breaker_update d x b)) = db_start b"
    "db_halted (snd (breaker_update d x b)) = (db_halted b \<or> db_cap b \<le> db_start b - x)"
    using Cons.prems by (simp_all add: breaker_update_def breaker_roll_def Let_def)
  show ?case using Cons.IH [OF s(1)] s by (auto simp: breaker_day_def)
qed

text \<open>The breaker halts exactly when it should. Over the balances of a new day it is halted at
  the end if and only if some balance had fallen from the day's first one by at least the day's
  cap; the halt latches until the day changes.\<close>

theorem breaker_halts_iff:
  assumes "db_day b \<noteq> Some d"
  shows "db_halted (breaker_day d (x # bals) b)
     \<longleftrightarrow> (\<exists>y \<in> set (x # bals). day_cap b x \<le> x - y)"
proof -
  define b1 where "b1 = snd (breaker_update d x b)"
  have s: "db_day b1 = Some d" "db_cap b1 = day_cap b x" "db_start b1 = x"
    "db_halted b1 = (day_cap b x \<le> x - x)"
    using assms by (simp_all add: b1_def breaker_update_def breaker_roll_def Let_def)
  have "db_halted (breaker_day d (x # bals) b) = db_halted (breaker_day d bals b1)"
    by (simp add: breaker_day_def b1_def)
  then show ?thesis using breaker_same_day [OF s(1), of bals] s by simp
qed

definition demo_breaker :: breaker where
  "demo_breaker = \<lparr>db_max = None, db_pct = Some 5, db_day = Some 1, db_start = 900, db_cap = 45,
     db_delta = - 50, db_halted = True\<rparr>"

theorem breaker_halts_iff_witness:
  "db_halted (breaker_day 2 [1000, 980, 950, 990] demo_breaker)
   \<and> \<not> db_halted (breaker_day 2 [1000, 980, 951, 990] demo_breaker)"
  using breaker_halts_iff [of demo_breaker 2 1000 "[980, 950, 990]"]
    breaker_halts_iff [of demo_breaker 2 1000 "[980, 951, 990]"]
  by (simp add: demo_breaker_def day_cap_def)

section \<open>Losing streaks\<close>

definition losing_streak :: "flt list \<Rightarrow> int" where
  "losing_streak pnls = int (length (filter (\<lambda>x. x < 0) (takeWhile (\<lambda>x. x \<le> 0) (rev pnls))))"

lemma streak_fold:
  "lg_streak g = 0 \<Longrightarrow> lg_streak (fold record_pnl pnls g) = losing_streak pnls
     \<and> lg_max (fold record_pnl pnls g) = lg_max g"
proof (induction pnls rule: rev_induct)
  case Nil
  then show ?case by (simp add: losing_streak_def)
next
  case (snoc x xs)
  then show ?case by (auto simp: losing_streak_def record_pnl_def)
qed

text \<open>After a session's trades the guard blocks exactly when it is enabled and the losses since
  the last win, break-even trades aside, number at least the maximum.\<close>

theorem loss_guard_blocks_iff:
  assumes "lg_period g \<noteq> Some p"
  shows "blocked (fold record_pnl pnls (on_period p g))
     \<longleftrightarrow> 0 < lg_max g \<and> lg_max g \<le> losing_streak pnls"
  using streak_fold [of "on_period p g" pnls] assms by (simp add: blocked_def on_period_def)

theorem loss_guard_blocks_iff_witness:
  "blocked (fold record_pnl [-1, 5, -2, 0, -3] (on_period 4 (loss_guard_new 2)))
   \<and> \<not> blocked (fold record_pnl [-1, -5, 2, 0, -3] (on_period 4 (loss_guard_new 2)))"
  using loss_guard_blocks_iff [of "loss_guard_new 2" 4 "[-1, 5, -2, 0, -3]"]
    loss_guard_blocks_iff [of "loss_guard_new 2" 4 "[-1, -5, 2, 0, -3]"]
  by (simp add: loss_guard_new_def losing_streak_def)

section \<open>Spikes\<close>

definition spike_feed :: "(flt \<times> flt) list \<Rightarrow> spike \<Rightarrow> spike" where
  "spike_feed bars s = fold (\<lambda>b s. snd (spike_update (fst b) (snd b) s)) bars s"

lemma last_n_snoc: "0 < n \<Longrightarrow> last_n n (last_n n xs @ [x]) = last_n n (xs @ [x])"
  using push_drop [of "nat n" xs x] by (simp add: last_n_def push_def)

lemma spike_feed_ranges:
  assumes "1 \<le> sk_lookback s" and "sk_ranges s = []"
  shows "spike_feed bars s
    = s\<lparr>sk_ranges := last_n (sk_lookback s) (map (\<lambda>b. fst b - snd b) bars)\<rparr>"
proof (induction bars rule: rev_induct)
  case Nil
  then show ?case using assms by (simp add: spike_feed_def last_n_def)
next
  case (snoc b bars)
  define rs where "rs = last_n (sk_lookback s) (map (\<lambda>b. fst b - snd b) bars)"
  have short: "last_n (sk_lookback s) ys = ys" if "int (length ys) \<le> sk_lookback s" for ys :: "flt list"
    using that assms(1) by (simp add: last_n_def)
  have "spike_feed (bars @ [b]) s
      = snd (spike_update (fst b) (snd b) (s\<lparr>sk_ranges := rs\<rparr>))"
    using snoc by (simp add: spike_feed_def rs_def)
  also have "\<dots> = s\<lparr>sk_ranges := last_n (sk_lookback s) (rs @ [fst b - snd b])\<rparr>"
    using short [of "rs @ [fst b - snd b]"]
    by (simp add: spike_update_def Let_def not_le [symmetric] split: if_splits)
  finally show ?case using assms(1) by (simp add: rs_def last_n_snoc)
qed

text \<open>After any bars the next one is called a spike exactly when there were at least
  \<open>min_bars\<close> among the last \<open>lookback\<close> bars, they were not all flat, and its range reaches
  \<open>ratio\<close> times the mean of theirs; and the guard never remembers more than \<open>lookback\<close> ranges.\<close>

theorem spike_sees_last_bars:
  assumes "spike_init ratio lookback min_bars = Inr s" and "1 \<le> lookback"
    and "hist = last_n lookback (map (\<lambda>b. fst b - snd b) bars)"
  shows "fst (spike_update h l (spike_feed bars s))
     = (min_bars \<le> int (length hist) \<and> 0 < sum_list hist
        \<and> ratio * (sum_list hist / of_nat (length hist)) \<le> h - l)
     \<and> int (length (sk_ranges (spike_feed bars s))) \<le> lookback"
proof -
  have s: "s = \<lparr>sk_ratio = ratio, sk_lookback = lookback, sk_min_bars = min_bars, sk_ranges = []\<rparr>"
    using assms(1) by (simp add: spike_init_def split: if_splits)
  have f: "spike_feed bars s = s\<lparr>sk_ranges := hist\<rparr>"
    using spike_feed_ranges [of s bars] assms(2,3) by (simp add: s)
  have len: "int (length hist) \<le> lookback" using assms(2,3) by (simp add: last_n_def)
  then have "last_n lookback hist = hist" using assms(2) by (simp add: last_n_def)
  then show ?thesis unfolding f using len by (auto simp: s spike_update_def Let_def)
qed

theorem spike_sees_last_bars_witness:
  "fst (spike_update 15 10 (spike_feed [(11, 10), (12, 10), (13, 11)]
     \<lparr>sk_ratio = 5 / 2, sk_lookback = 2, sk_min_bars = 2, sk_ranges = []\<rparr>))"
  using spike_sees_last_bars [of "5 / 2" 2 2
    "\<lparr>sk_ratio = 5 / 2, sk_lookback = 2, sk_min_bars = 2, sk_ranges = []\<rparr>" "[2, 2]"
    "[(11, 10), (12, 10), (13, 11)]" 15 10]
  by (simp add: spike_init_def last_n_def)

section \<open>Killzones\<close>

text \<open>A printer of windows, \<open>HH:MM-HH:MM\<close> joined by commas.\<close>

definition dig :: "nat \<Rightarrow> char" where
  "dig n = char_of (48 + n)"

definition two :: "nat \<Rightarrow> string" where
  "two n = [dig (n div 10), dig (n mod 10)]"

definition print_window :: "int \<times> int \<Rightarrow> string" where
  "print_window w = two (nat (fst w) div 60) @ '':'' @ two (nat (fst w) mod 60) @ ''-''
     @ two (nat (snd w) div 60) @ '':'' @ two (nat (snd w) mod 60)"

fun print_windows :: "(int \<times> int) list \<Rightarrow> string" where
  "print_windows [] = ''''"
| "print_windows [w] = print_window w"
| "print_windows (w # ws) = print_window w @ '','' @ print_windows ws"

definition window_ok :: "int \<times> int \<Rightarrow> bool" where
  "window_ok w \<longleftrightarrow> 0 \<le> fst w \<and> fst w < 1440 \<and> 0 \<le> snd w \<and> snd w < 1440 \<and> fst w \<noteq> snd w"

lemma digit_dig: "n < 10 \<Longrightarrow> digit (dig n) = Some n"
  by (simp add: digit_def dig_def Let_def)

lemma dig_plain:
  assumes "n < 10"
  shows "dig n \<noteq> CHR '':''" "dig n \<noteq> CHR ''-''" "dig n \<noteq> CHR '',''" "\<not> is_space (dig n)"
proof -
  have v: "(of_char (dig n) :: nat) = 48 + n" using assms by (simp add: dig_def)
  show "dig n \<noteq> CHR '':''" "dig n \<noteq> CHR ''-''" "dig n \<noteq> CHR '',''"
    using v assms by auto
  show "\<not> is_space (dig n)" using v assms by (simp add: is_space_def Let_def)
qed

lemma hour_two: "h < 24 \<Longrightarrow> hour_then (CHR '':'') (two h @ '':'' @ rest) = Some (h, rest)"
  by (simp add: two_def digit_dig dig_plain)

lemma minute_two: "m < 60 \<Longrightarrow> minute2 (two m @ rest) = Some (m, rest)"
  by (simp add: two_def digit_dig)

lemma match_print:
  assumes "window_ok (a, b)"
  shows "match_window (print_window (a, b))
     = Some (nat a div 60, nat a mod 60, nat b div 60, nat b mod 60)"
proof -
  have "nat a div 60 < 24" "nat b div 60 < 24" using assms by (auto simp: window_ok_def)
  then show ?thesis
    using hour_two [of "nat a div 60" "two (nat a mod 60) @ ''-'' @ two (nat b div 60) @ '':''
        @ two (nat b mod 60)"]
      hour_two [of "nat b div 60" "two (nat b mod 60)"]
      minute_two [of "nat a mod 60" "''-'' @ two (nat b div 60) @ '':'' @ two (nat b mod 60)"]
      minute_two [of "nat b mod 60" "[]"]
    by (simp add: match_window_def print_window_def)
qed

lemma print_window_plain:
  assumes "window_ok w" "c \<in> set (print_window w)"
  shows "c \<noteq> CHR '','' \<and> \<not> is_space c"
proof -
  have d: "nat (fst w) div 60 < 24" "nat (snd w) div 60 < 24" using assms by (auto simp: window_ok_def)
  have m: "nat x mod 60 < 100" for x using mod_less_divisor [of 60 "nat x"] by linarith
  have two: "\<exists>k<10. c = dig k" if "c \<in> set (two n)" "n < 100" for n
    using that by (auto simp: two_def intro: exI [of _ "n div 10"] exI [of _ "n mod 10"])
  have "c = CHR '':'' \<or> c = CHR ''-'' \<or> (\<exists>n<10. c = dig n)"
    using assms(2) d m two [of "nat (fst w) div 60"] two [of "nat (snd w) div 60"]
      two [of "nat (fst w) mod 60"] two [of "nat (snd w) mod 60"]
    by (auto simp: print_window_def)
  then show ?thesis using dig_plain by (auto simp: is_space_def)
qed

lemma split_commas_plain: "CHR '','' \<notin> set w \<Longrightarrow> split_commas w = [w]"
  by (induction w) auto

lemma split_commas_cons:
  "CHR '','' \<notin> set w \<Longrightarrow> split_commas (w @ CHR '','' # rest) = w # split_commas rest"
  by (induction w) auto

lemma strip_plain: "(\<And>c. c \<in> set w \<Longrightarrow> \<not> is_space c) \<Longrightarrow> strip w = w"
proof -
  assume a: "\<And>c. c \<in> set w \<Longrightarrow> \<not> is_space c"
  have d: "dropWhile is_space v = v" if "set v = set w" for v
    using a that by (cases v) auto
  show ?thesis using d [of w] d [of "rev w"] by (simp add: strip_def)
qed

lemma parse_print_one:
  assumes "window_ok w" "parse_windows ws = Inr rest"
  shows "parse_windows (print_window w # ws) = Inr (w # rest)"
proof -
  obtain a b where w: "w = (a, b)" by (cases w)
  have s: "strip (print_window w) = print_window w"
    by (rule strip_plain) (use print_window_plain [OF assms(1)] in blast)
  have ne: "print_window w \<noteq> []" by (simp add: print_window_def two_def)
  have "int (nat a div 60 * 60 + nat a mod 60) = a" "int (nat b div 60 * 60 + nat b mod 60) = b" "a \<noteq> b"
    using assms(1) w by (simp_all only: window_ok_def fst_conv snd_conv div_mult_mod_eq) simp_all
  then show ?thesis using s ne match_print [of a b] assms
    by (simp only: w parse_windows.simps Let_def option.case prod.case if_False sum.case)
qed

text \<open>Killzone windows survive their text form: any list of valid windows (minutes of the day,
  wrapping past midnight or not), printed as comma-separated \<open>HH:MM-HH:MM\<close>, parses back to itself.\<close>

theorem killzones_roundtrip:
  assumes "\<forall>w \<in> set ws. window_ok w"
  shows "parse_killzones (print_windows ws) = Inr ws"
  using assms
proof (induction ws rule: print_windows.induct)
  case 1
  then show ?case by (simp add: parse_killzones_def strip_def)
next
  case (2 w)
  have "CHR '','' \<notin> set (print_window w)" using print_window_plain 2 by fastforce
  then show ?case using parse_print_one [of w "[]" "[]"] 2
    by (simp add: parse_killzones_def split_commas_plain)
next
  case (3 w v ws)
  have "CHR '','' \<notin> set (print_window w)" using print_window_plain 3(2) by fastforce
  then show ?case using parse_print_one [of w] 3
    by (simp add: parse_killzones_def split_commas_cons)
qed

theorem killzones_roundtrip_witness:
  "print_windows [(720, 960), (1320, 120)] = ''12:00-16:00,22:00-02:00''
   \<and> parse_killzones (print_windows [(720, 960), (1320, 120)]) = Inr [(720, 960), (1320, 120)]"
proof
  show "print_windows [(720, 960), (1320, 120)] = ''12:00-16:00,22:00-02:00''" by code_simp
  show "parse_killzones (print_windows [(720, 960), (1320, 120)]) = Inr [(720, 960), (1320, 120)]"
    by (rule killzones_roundtrip) (simp add: window_ok_def)
qed

text \<open>The session gate is membership in cyclic intervals: with windows given, a time is allowed
  exactly when, for some window, the minutes elapsed since its start (around the clock) are fewer
  than the window's length.\<close>

theorem session_gate_cyclic:
  assumes "ws \<noteq> []" and "\<forall>w \<in> set ws. window_ok w"
  shows "session_allows ws local off \<longleftrightarrow>
     (\<exists>(a, b) \<in> set ws. (utc_minute local off - a) mod 1440 < (b - a) mod 1440)"
proof -
  define m where "m = utc_minute local off"
  have m: "0 \<le> m" "m < 1440"
    using minute_of_day_bounds [of "\<lparr>local_us = local - (case off of None \<Rightarrow> 0 | Some z \<Rightarrow> z),
        tz_off = 0\<rparr>"]
    by (simp_all add: m_def utc_minute_def minute_of_day_def)
  have "in_window m (a, b) \<longleftrightarrow> (m - a) mod 1440 < (b - a) mod 1440" if "window_ok (a, b)" for a b
  proof -
    have r: "0 \<le> a" "a < 1440" "0 \<le> b" "b < 1440" "a \<noteq> b"
      using that by (simp_all add: window_ok_def)
    have wrap: "(x - a) mod 1440 = (if a \<le> x then x - a else x - a + 1440)"
      if "0 \<le> x" "x < 1440" for x
      using that r(1,2) mod_pos_pos_trivial [of "x - a" 1440]
        mod_pos_pos_trivial [of "x - a + 1440" 1440] mod_add_self2 [of "x - a" 1440] by auto
    show ?thesis using wrap [OF m] wrap [OF r(3,4)] r m by (auto simp: in_window_def)
  qed
  then have "in_window m w \<longleftrightarrow> (case w of (a, b) \<Rightarrow> (m - a) mod 1440 < (b - a) mod 1440)"
    if "w \<in> set ws" for w using assms(2) that by (cases w) auto
  then show ?thesis using assms(1) unfolding session_allows_def m_def [symmetric]
    by (simp add: list_ex_iff)
qed

theorem session_gate_cyclic_witness:
  "session_allows [(1320, 120)] (60 * us_min) None \<and> \<not> session_allows [(1320, 120)] (180 * us_min) None"
  using session_gate_cyclic [of "[(1320, 120)]" "60 * us_min" None]
    session_gate_cyclic [of "[(1320, 120)]" "180 * us_min" None]
  by (simp add: window_ok_def utc_minute_def us_min_def us_day_def)

section \<open>Fills and lots\<close>

text \<open>An adverse fill never looks better than the plan. For a long whose stop is below the
  requested price and whose target is above a worse fill, the achieved reward-to-risk is at most
  the planned one, and the reported risk inflation is the slippage in units of planned risk.\<close>

theorem adverse_fill_degrades:
  assumes "0 < s" and "s < req" and "req \<le> fill" and "fill \<le> t"
  shows "\<exists>a pl. fa_achieved (assess_fill req fill (Some s) (Some t) ms rf) = Some a
     \<and> fa_planned (assess_fill req fill (Some s) (Some t) ms rf) = Some pl \<and> a \<le> pl
     \<and> fa_inflation (assess_fill req fill (Some s) (Some t) ms rf)
         = Some (round_dp 10 (fill - req) / (req - s))
     \<and> fa_degraded (assess_fill req fill (Some s) (Some t) ms rf) = (\<exists>f. rf = Some f \<and> a < f)"
proof -
  have "(t - fill) / (fill - s) \<le> (t - req) / (req - s)"
    by (rule frac_le) (use assms in auto)
  then show ?thesis using assms
    by (auto simp: assess_fill_def Let_def split: option.splits)
qed

theorem adverse_fill_degrades_witness:
  "\<exists>a pl. fa_achieved (assess_fill 100 102 (Some 98) (Some 110) None (Some 3)) = Some a
     \<and> fa_planned (assess_fill 100 102 (Some 98) (Some 110) None (Some 3)) = Some pl
     \<and> a \<le> pl \<and> a = 2 \<and> pl = 5"
  using adverse_fill_degrades [of 98 100 102 110 None "Some 3"]
  by (simp add: assess_fill_def Let_def)

lemma floor_to_step_upper:
  assumes "0 < step"
  shows "floor_to_step x step \<le> x + step / 10 ^ 9 + 1 / (2 * 10 ^ 10)"
proof -
  have "of_int \<lfloor>x / step + 1 / 10 ^ 9\<rfloor> * step \<le> (x / step + 1 / 10 ^ 9) * step"
    by (rule mult_right_mono) (use assms in \<open>auto simp: of_int_floor_le\<close>)
  also have "\<dots> = x + step / 10 ^ 9" using assms by (simp add: distrib_right)
  finally have y: "of_int \<lfloor>x / step + 1 / 10 ^ 9\<rfloor> * step \<le> x + step / 10 ^ 9" .
  have "floor_to_step x step = round_dp 10 (of_int \<lfloor>x / step + 1 / 10 ^ 9\<rfloor> * step)"
    using assms by (simp add: floor_to_step_def)
  then show ?thesis
    using y order_trans [OF abs_ge_self round_dp_near [of 10 "of_int \<lfloor>x / step + 1 / 10 ^ 9\<rfloor> * step"]]
    by linarith
qed

text \<open>The money lost when a lot is stopped out.\<close>

definition lot_risk :: "flt \<Rightarrow> flt \<Rightarrow> flt \<Rightarrow> flt \<Rightarrow> flt" where
  "lot_risk lot entry stop value_per_move = lot * (\<bar>entry - stop\<bar> * value_per_move)"

lemma lot_budget:
  fixes balance risk_pct entry stop vpm vol_min vol_step vol_max :: flt and max_risk :: "flt option"
  assumes "0 < vol_step" and "0 \<le> vol_max"
  defines "lot \<equiv> compute_lot balance risk_pct entry stop vpm vol_min vol_step vol_max max_risk"
    and "slack \<equiv> (vol_step / 10 ^ 9 + 1 / (2 * 10 ^ 10)) * (\<bar>entry - stop\<bar> * vpm)"
  shows "(lot = 0 \<or> min vol_min vol_max \<le> lot) \<and> lot \<le> vol_max
     \<and> (lot \<noteq> 0 \<longrightarrow> lot_risk lot entry stop vpm \<le> balance * (risk_pct / 100) + slack
          \<and> (\<forall>m. max_risk = Some m \<longrightarrow> lot_risk lot entry stop vpm \<le> m + slack))"
proof (cases "lot = 0")
  case True
  then show ?thesis using assms(2) by simp
next
  case False
  define risk where "risk = (case max_risk of None \<Rightarrow> balance * (risk_pct / 100)
     | Some m \<Rightarrow> min (balance * (risk_pct / 100)) m)"
  define unit where "unit = \<bar>entry - stop\<bar> * vpm"
  define raw where "raw = floor_to_step (risk / unit) vol_step"
  have open_gate: "\<not> (\<bar>entry - stop\<bar> \<le> 0 \<or> vpm \<le> 0 \<or> balance \<le> 0 \<or> risk_pct \<le> 0)"
    "\<not> opt_nonpos max_risk"
    using False unfolding lot_def compute_lot_def Let_def by presburger+
  have lot: "lot = (if raw < vol_min then 0 else min raw vol_max)"
    unfolding lot_def compute_lot_def Let_def raw_def risk_def unit_def
    by (simp only: open_gate if_False)
  have gates: "0 < \<bar>entry - stop\<bar>" "0 < vpm"
    "lot = (if raw < vol_min then 0 else min raw vol_max)"
    using open_gate lot by auto
  then have unit: "0 < unit" by (simp add: unit_def)
  have l: "\<not> raw < vol_min" "lot = min raw vol_max" using gates(3) False by (auto split: if_splits)
  have "lot * unit \<le> raw * unit" using l(2) unit by (simp add: mult_right_mono)
  also have "\<dots> \<le> (risk / unit + (vol_step / 10 ^ 9 + 1 / (2 * 10 ^ 10))) * unit"
    using floor_to_step_upper [OF assms(1), of "risk / unit"] unit
    by (intro mult_right_mono) (simp_all add: raw_def)
  also have "\<dots> = risk + slack"
    using unit unfolding slack_def unit_def [symmetric] by (simp add: distrib_right)
  finally have "lot * unit \<le> risk + slack" .
  then have "lot_risk lot entry stop vpm \<le> risk + slack" by (simp add: lot_risk_def unit_def)
  moreover have "risk \<le> balance * (risk_pct / 100)" "\<forall>m. max_risk = Some m \<longrightarrow> risk \<le> m"
    by (auto simp: risk_def split: option.splits)
  ultimately show ?thesis using l by (auto simp: min_def)
qed

text \<open>C13: no lot over budget. The size is zero or at least the smallest lot (unless the largest is
  smaller), never above the largest, and its loss at the stop exceeds neither the risk percentage
  of the balance nor the hard cap by more than the code's rounding slack (a billionth of a volume
  step plus half of the tenth decimal).\<close>

theorem lot_within_budget:
  fixes balance risk_pct entry stop vpm vol_min vol_step vol_max :: flt and max_risk :: "flt option"
  assumes "0 < vol_step" and "0 \<le> vol_max"
  defines "lot \<equiv> compute_lot balance risk_pct entry stop vpm vol_min vol_step vol_max max_risk"
    and "slack \<equiv> (vol_step / 10 ^ 9 + 1 / (2 * 10 ^ 10)) * (\<bar>entry - stop\<bar> * vpm)"
  shows "(lot = 0 \<or> min vol_min vol_max \<le> lot) \<and> lot \<le> vol_max
     \<and> (lot \<noteq> 0 \<longrightarrow> lot_risk lot entry stop vpm \<le> balance * (risk_pct / 100) + slack
          \<and> (\<forall>m. max_risk = Some m \<longrightarrow> lot_risk lot entry stop vpm \<le> m + slack))"
  using lot_budget [OF assms(1,2)] unfolding lot_def slack_def .

theorem lot_within_budget_witness:
  "compute_lot 10000 1 2000 1996 100 (1 / 100) (1 / 100) 50 (Some 60) = 15 / 100
   \<and> lot_risk (15 / 100) 2000 1996 100
       \<le> 60 + ((1 / 100) / 10 ^ 9 + 1 / (2 * 10 ^ 10)) * (\<bar>2000 - 1996\<bar> * 100)"
proof -
  have e: "compute_lot 10000 1 2000 1996 100 (1 / 100) (1 / 100) 50 (Some 60) = 15 / 100"
    by code_simp
  have "0 < (1 / 100 :: flt)" "0 \<le> (50 :: flt)" by simp_all
  from lot_within_budget [OF this, of 10000 1 2000 1996 100 "1 / 100" "Some 60"]
  show ?thesis unfolding e by (simp add: lot_risk_def)
qed

end
