(* ===== verification/Retcodes.thy ===== *)
theory Retcodes
  imports Prelude
begin

text \<open>
  \<open>orb/broker/retcodes.py\<close>: the policy table from trade-server return codes to actions, and the
  back-off schedule. A return code is an integer, \<open>None\<close> when \<open>order_send\<close> returned nothing.
\<close>

datatype policy_action = SUCCESS | SUCCESS_PARTIAL | RETRY_FRESH_PRICE | RETRY_BACKOFF | AMBIGUOUS
  | DEFER_LADDER | ROTATE_FILLING | ABORT | ABORT_ALERT

definition policy_table :: "(int \<times> policy_action) list" where
  "policy_table = [(10009, SUCCESS), (10008, SUCCESS), (10010, SUCCESS_PARTIAL),
     (10004, RETRY_FRESH_PRICE), (10015, RETRY_FRESH_PRICE), (10020, RETRY_FRESH_PRICE),
     (10006, RETRY_BACKOFF), (10011, RETRY_BACKOFF), (10021, RETRY_BACKOFF),
     (10024, RETRY_BACKOFF), (10028, RETRY_BACKOFF),
     (10012, AMBIGUOUS), (10031, AMBIGUOUS),
     (10019, DEFER_LADDER), (10030, ROTATE_FILLING),
     (10013, ABORT), (10014, ABORT), (10017, ABORT), (10018, ABORT), (10022, ABORT),
     (10029, ABORT), (10033, ABORT), (10034, ABORT),
     (10016, ABORT_ALERT), (10026, ABORT_ALERT), (10027, ABORT_ALERT)]"

definition retcode_action :: "int option \<Rightarrow> policy_action" where
  "retcode_action rc = (case rc of None \<Rightarrow> AMBIGUOUS
     | Some n \<Rightarrow> (case map_of policy_table n of None \<Rightarrow> ABORT | Some a \<Rightarrow> a))"

definition retcode_names :: "(int \<times> string) list" where
  "retcode_names = [(10004, ''REQUOTE''), (10006, ''REJECT''), (10008, ''PLACED''),
     (10009, ''DONE''), (10010, ''DONE_PARTIAL''), (10011, ''ERROR''), (10012, ''TIMEOUT''),
     (10013, ''INVALID''), (10014, ''INVALID_VOLUME''), (10015, ''INVALID_PRICE''),
     (10016, ''INVALID_STOPS''), (10017, ''TRADE_DISABLED''), (10018, ''MARKET_CLOSED''),
     (10019, ''NO_MONEY''), (10020, ''PRICE_CHANGED''), (10021, ''PRICE_OFF''),
     (10022, ''INVALID_EXPIRATION''), (10024, ''TOO_MANY_REQUESTS''),
     (10026, ''SERVER_DISABLES_AT''), (10027, ''CLIENT_DISABLES_AT''), (10028, ''LOCKED''),
     (10029, ''FROZEN''), (10030, ''INVALID_FILL''), (10031, ''CONNECTION''),
     (10033, ''LIMIT_ORDERS''), (10034, ''LIMIT_VOLUME'')]"

text \<open>Decimal digits of an integer.\<close>

function show_digits :: "int \<Rightarrow> string" where
  "show_digits n = (if n < 10 then [char_of (48 + n)] else show_digits (n div 10) @ [char_of (48 + n mod 10)])"
  by auto
termination by (relation "measure nat") auto

declare show_digits.simps [simp del]

definition show_int :: "int \<Rightarrow> string" where
  "show_int i = (if i < 0 then ''-'' @ show_digits (- i) else show_digits i)"

definition retcode_name :: "int option \<Rightarrow> string" where
  "retcode_name rc = (case rc of None \<Rightarrow> ''NONE_RESULT''
     | Some n \<Rightarrow> (case map_of retcode_names n of Some s \<Rightarrow> s | None \<Rightarrow> ''UNKNOWN_'' @ show_int n))"

record retry_policy =
  rp_max_retries :: int
  rp_base :: flt
  rp_mult :: flt
  rp_max_delay :: flt

definition retry_defaults :: retry_policy where
  "retry_defaults = \<lparr>rp_max_retries = 3, rp_base = 1 / 2, rp_mult = 2, rp_max_delay = 8\<rparr>"

fun delays_from :: "retry_policy \<Rightarrow> nat \<Rightarrow> flt \<Rightarrow> flt list" where
  "delays_from p 0 d = []"
| "delays_from p (Suc n) d = min d (rp_max_delay p) # delays_from p n (d * rp_mult p)"

definition delays :: "retry_policy \<Rightarrow> flt list" where
  "delays p = delays_from p (nat (rp_max_retries p)) (rp_base p)"

text \<open>The schedule, by index.\<close>

lemma delays_from_nth:
  "i < n \<Longrightarrow> delays_from p n d ! i = min (d * rp_mult p ^ i) (rp_max_delay p)"
proof (induction n arbitrary: d i)
  case (Suc n)
  then show ?case by (cases i) (simp_all add: mult.assoc)
qed simp

lemma length_delays_from [simp]: "length (delays_from p n d) = n"
  by (induction n arbitrary: d) auto

text \<open>The back-off schedule: one delay per permitted retry, the i-th the base grown
  geometrically and capped, so with a growth factor of at least one no delay is shorter than the
  one before it.\<close>

theorem delays_schedule:
  shows "length (delays p) = nat (rp_max_retries p)
     \<and> (\<forall>i < length (delays p). delays p ! i = min (rp_base p * rp_mult p ^ i) (rp_max_delay p))
     \<and> (0 \<le> rp_base p \<and> 1 \<le> rp_mult p \<longrightarrow> sorted (delays p))"
proof (intro conjI impI)
  show l: "length (delays p) = nat (rp_max_retries p)" by (simp add: delays_def)
  show n: "\<forall>i < length (delays p). delays p ! i = min (rp_base p * rp_mult p ^ i) (rp_max_delay p)"
    by (simp add: delays_def delays_from_nth)
  assume a: "0 \<le> rp_base p \<and> 1 \<le> rp_mult p"
  then have up: "rp_base p * rp_mult p ^ i \<le> rp_base p * rp_mult p ^ j" if "i \<le> j" for i j
    using that by (intro mult_left_mono power_increasing) auto
  show "sorted (delays p)"
    unfolding sorted_iff_nth_mono using n up by (auto simp: min_le_iff_disj)
qed

theorem delays_schedule_witness:
  "delays retry_defaults = [1 / 2, 1, 2] \<and> sorted (delays retry_defaults)"
  using delays_schedule [of retry_defaults]
  by (simp add: retry_defaults_def delays_def numeral_3_eq_3)

end
