(* ===== verification/Broker.thy ===== *)
theory Broker
  imports Exits Retcodes
begin

text \<open>
  \<open>orb/broker/mt5.py\<close>: the execution adapter. The MetaTrader terminal and the server behind it
  are not part of the repository; \<open>terminal\<close> is the record of the calls the adapter makes, each a
  function of an unknown world \<open>'w\<close> that it may change. \<open>broker\<close> is the adapter's state: that
  world, the return-code tally, and what it did to its surroundings (requests sent, sleeps,
  events). Python's printing of a request and of a comment, used in error messages, are fields of
  the terminal too, and so is the deal history. An event holds what the adapter hands to
  \<open>build_event\<close>: the action, the request, the result, the reason, the account and the profit.
\<close>

section \<open>Requests and the terminal\<close>

datatype trade_action = DEAL | SLTP | PENDING | REMOVE
datatype order_type = BUY | SELL | BUY_LIMIT | SELL_LIMIT
datatype filling = IOC | FOK | RETURN_FILL

record order_req =
  q_action :: trade_action
  q_order :: "int option"
  q_position :: "int option"
  q_volume :: "flt option"
  q_type :: "order_type option"
  q_price :: "flt option"
  q_sl :: "flt option"
  q_tp :: "flt option"
  q_deviation :: "int option"
  q_magic :: "int option"
  q_comment :: "string option"
  q_filling :: "filling option"

definition blank_req :: "trade_action \<Rightarrow> order_req" where
  "blank_req a = \<lparr>q_action = a, q_order = None, q_position = None, q_volume = None,
     q_type = None, q_price = None, q_sl = None, q_tp = None, q_deviation = None,
     q_magic = None, q_comment = None, q_filling = None\<rparr>"

record send_result =
  sr_retcode :: int
  sr_order :: int
  sr_deal :: int
  sr_price :: flt
  sr_volume :: flt
  sr_comment :: string

record tick =
  k_bid :: flt
  k_ask :: flt
  k_time :: "int option"

record term_pos = broker_pos +
  b_magic :: int
  b_tp :: "flt option"

record pending_order =
  po_ticket :: int
  po_magic :: int
  po_setup :: "int option"

record sym_info =
  y_filling :: int
  y_step :: "flt option"
  y_vol_min :: "flt option"
  y_vol_max :: "flt option"
  y_tick_value :: "flt option"
  y_tick_size :: "flt option"

record account =
  a_demo :: bool
  a_balance :: flt
  a_login :: int

record 'w terminal =
  tm_initialize :: "'w \<Rightarrow> bool \<times> 'w"
  tm_account :: "'w \<Rightarrow> account option \<times> 'w"
  tm_select :: "'w \<Rightarrow> bool \<times> 'w"
  tm_send :: "order_req \<Rightarrow> 'w \<Rightarrow> send_result option \<times> 'w"
  tm_positions :: "'w \<Rightarrow> term_pos list \<times> 'w"
  tm_orders :: "'w \<Rightarrow> pending_order list \<times> 'w"
  tm_tick :: "'w \<Rightarrow> tick option \<times> 'w"
  tm_symbol :: "'w \<Rightarrow> sym_info option \<times> 'w"
  tm_deals :: "int \<Rightarrow> 'w \<Rightarrow> (int \<times> flt) list \<times> 'w"
  tm_last_error :: "'w \<Rightarrow> string"
  tm_repr :: "string \<Rightarrow> string"
  tm_render :: "order_req \<Rightarrow> string"

record broker_cfg =
  k_default_qty :: flt
  k_allow_live :: bool
  k_magic :: int
  k_deviation :: int
  k_server_tp :: bool
  k_mode :: string
  k_addon :: flt
  k_events :: bool
  k_retry :: "retry_policy option"

record send_out =
  o_retcode :: int
  o_order :: int
  o_deal :: int
  o_price :: flt
  o_volume :: flt

record event =
  ev_action :: string
  ev_request :: order_req
  ev_result :: send_out
  ev_reason :: "string option"
  ev_account :: "int option"
  ev_pnl :: "flt option"

record 'w broker =
  bk_world :: 'w
  bk_counts :: "int \<Rightarrow> nat"
  bk_connected :: bool
  bk_sent :: "order_req list"
  bk_sleeps :: "flt list"
  bk_events :: "event list"

definition broker_init :: "broker_cfg \<Rightarrow> 'w \<Rightarrow> error + 'w broker" where
  "broker_init k w =
     (if k_mode k \<notin> {''market'', ''limit''}
      then Inl (BrokerError ''entry_mode must be market or limit'')
      else Inr \<lparr>bk_world = w, bk_counts = (\<lambda>_. 0), bk_connected = False, bk_sent = [],
             bk_sleeps = [], bk_events = []\<rparr>)"

text \<open>A terminal call, threaded through the adapter's state.\<close>

definition ask :: "('w \<Rightarrow> 'a \<times> 'w) \<Rightarrow> 'w broker \<Rightarrow> 'a \<times> 'w broker" where
  "ask f b = (case f (bk_world b) of (x, w) \<Rightarrow> (x, b\<lparr>bk_world := w\<rparr>))"

definition order_send :: "'w terminal \<Rightarrow> order_req \<Rightarrow> 'w broker \<Rightarrow> send_result option \<times> 'w broker" where
  "order_send m q b =
     (case tm_send m q (bk_world b) of (r, w) \<Rightarrow> (r, b\<lparr>bk_world := w, bk_sent := bk_sent b @ [q]\<rparr>))"

section \<open>Connection\<close>

text \<open>The account guard: a real account needs \<open>allow_live\<close>.\<close>

definition connect :: "'w terminal \<Rightarrow> broker_cfg \<Rightarrow> 'w broker \<Rightarrow> (error + account) \<times> 'w broker" where
  "connect m k b =
    (case ask (tm_initialize m) b of (ok, b1) \<Rightarrow>
     if \<not> ok then (Inl (BrokerError (''mt5.initialize failed: '' @ tm_last_error m (bk_world b1))), b1)
     else case ask (tm_account m) b1 of
       (None, b2) \<Rightarrow> (Inl (BrokerError ''mt5.account_info returned None (no login?)''), b2)
     | (Some acct, b2) \<Rightarrow>
       if \<not> a_demo acct \<and> \<not> k_allow_live k
       then (Inl (BrokerError ''account is NOT demo; pass allow_live=True / --live to trade real money''), b2)
       else case ask (tm_select m) b2 of (sel, b3) \<Rightarrow>
         if \<not> sel then (Inl (BrokerError (''symbol_select failed: '' @ tm_last_error m (bk_world b3))), b3)
         else (Inr acct, b3\<lparr>bk_connected := True\<rparr>))"

definition shutdown :: "'w broker \<Rightarrow> 'w broker" where
  "shutdown b = (if bk_connected b then b\<lparr>bk_connected := False\<rparr> else b)"

text \<open>\<open>_emit\<close>: nothing without a sink; the account is looked up only while connected.\<close>

definition emit ::
  "'w terminal \<Rightarrow> broker_cfg \<Rightarrow> string \<Rightarrow> order_req \<Rightarrow> send_out \<Rightarrow> string option \<Rightarrow> flt option
   \<Rightarrow> 'w broker \<Rightarrow> 'w broker" where
  "emit m k a q r why pnl b =
    (if \<not> k_events k then b
     else case (if bk_connected b then ask (tm_account m) b else (None, b)) of
       (acct, b1) \<Rightarrow> b1\<lparr>bk_events := bk_events b1 @ [\<lparr>ev_action = a, ev_request = q, ev_result = r,
          ev_reason = why, ev_account = map_option a_login acct, ev_pnl = pnl\<rparr>]\<rparr>)"

text \<open>\<open>deal_profit\<close>: the deal's own profit, else the first listed. A failing lookup lists no deal.\<close>

definition deal_profit :: "'w terminal \<Rightarrow> int \<Rightarrow> 'w broker \<Rightarrow> flt option \<times> 'w broker" where
  "deal_profit m deal b =
    (if deal = 0 then (None, b)
     else case ask (tm_deals m deal) b of (deals, b1) \<Rightarrow>
       (case filter (\<lambda>d. fst d = deal) deals of
          d # _ \<Rightarrow> (Some (snd d), b1)
        | [] \<Rightarrow> (case deals of [] \<Rightarrow> (None, b1) | d # _ \<Rightarrow> (Some (snd d), b1))))"

definition my_positions :: "'w terminal \<Rightarrow> broker_cfg \<Rightarrow> 'w broker \<Rightarrow> term_pos list \<times> 'w broker" where
  "my_positions m k b = (case ask (tm_positions m) b of
     (ps, b1) \<Rightarrow> (filter (\<lambda>p. b_magic p = k_magic k) ps, b1))"

section \<open>Sending\<close>

definition send_error :: "'w terminal \<Rightarrow> send_result option \<Rightarrow> order_req \<Rightarrow> 'w \<Rightarrow> error" where
  "send_error m res q w = (case res of
       None \<Rightarrow> BrokerError (''order_send returned None: '' @ tm_last_error m w)
     | Some r \<Rightarrow> BrokerError (''order rejected retcode='' @ show_int (sr_retcode r)
         @ '' comment='' @ tm_repr m (sr_comment r) @ '' request='' @ tm_render m q))"

definition out_of :: "send_result \<Rightarrow> send_out" where
  "out_of r = \<lparr>o_retcode = sr_retcode r, o_order = sr_order r, o_deal = sr_deal r,
     o_price = sr_price r, o_volume = sr_volume r\<rparr>"

text \<open>\<open>_recovered_entry\<close>: a position of ours that was not there before the send.\<close>

definition recovered_entry ::
  "'w terminal \<Rightarrow> broker_cfg \<Rightarrow> int set \<Rightarrow> 'w broker \<Rightarrow> send_out option \<times> 'w broker" where
  "recovered_entry m k before b = (case my_positions m k b of (ps, b1) \<Rightarrow>
     (case filter (\<lambda>p. b_ticket p \<notin> before) ps of
        [] \<Rightarrow> (None, b1)
      | p # _ \<Rightarrow> (Some \<lparr>o_retcode = - 1, o_order = b_ticket p, o_deal = 0, o_price = b_open p,
                        o_volume = b_volume p\<rparr>, b1)))"

definition rotate :: "filling option \<Rightarrow> filling" where
  "rotate f = (case f of Some IOC \<Rightarrow> FOK | Some FOK \<Rightarrow> IOC | _ \<Rightarrow> RETURN_FILL)"

definition tally :: "int option \<Rightarrow> 'w broker \<Rightarrow> 'w broker" where
  "tally rc b = (let c = (case rc of None \<Rightarrow> - 1 | Some n \<Rightarrow> n)
     in b\<lparr>bk_counts := (bk_counts b)(c := bk_counts b c + 1)\<rparr>)"

type_synonym 'w refresh = "order_req \<Rightarrow> 'w broker \<Rightarrow> order_req \<times> 'w broker"

text \<open>One round of \<open>_send_with_policy\<close>: it ends the loop or asks for another round. \<open>attempt\<close>: the
  retries so far; \<open>ds\<close>: the rest of the delay iterator. The request is returned too: the code's
  callers keep a reference to the dictionary the loop rewrites.\<close>

datatype 'w verdict =
    Stop "(error + send_out) \<times> order_req \<times> 'w broker"
  | Again "flt list" bool order_req "'w broker"

definition policy_retry ::
  "retry_policy \<Rightarrow> 'w refresh option \<Rightarrow> policy_action \<Rightarrow> flt list \<Rightarrow> bool \<Rightarrow> order_req \<Rightarrow> 'w broker
   \<Rightarrow> 'w verdict" where
  "policy_retry pol refresh action ds rotated q b =
     (if action = ROTATE_FILLING then
        Again ds True (q\<lparr>q_filling := Some (rotate (q_filling q))\<rparr>) b
      else if action = RETRY_FRESH_PRICE then
        (case refresh of None \<Rightarrow> Again ds rotated q b
         | Some f \<Rightarrow> (case f q b of (q', b') \<Rightarrow> Again ds rotated q' b'))
      else
        let delay = (case ds of [] \<Rightarrow> rp_max_delay pol | d # _ \<Rightarrow> d)
        in Again (tl ds) rotated q
             (if delay > 0 then b\<lparr>bk_sleeps := bk_sleeps b @ [delay]\<rparr> else b))"

text \<open>What follows an outcome that is not a success: recovery, the permanent failures, the budget.\<close>

definition policy_fail ::
  "'w terminal \<Rightarrow> broker_cfg \<Rightarrow> retry_policy \<Rightarrow> 'w refresh option \<Rightarrow> bool \<Rightarrow> int set \<Rightarrow> int
   \<Rightarrow> flt list \<Rightarrow> bool \<Rightarrow> policy_action \<Rightarrow> send_result option \<Rightarrow> order_req \<Rightarrow> 'w broker \<Rightarrow> 'w verdict"
where
  "policy_fail m k pol refresh guard before attempt ds rotated action res q b =
    (case (if action = AMBIGUOUS \<and> guard then recovered_entry m k before b else (None, b)) of
       (Some found, b1) \<Rightarrow> Stop (Inr found, q, b1)
     | (None, b1) \<Rightarrow>
         if action \<in> {DEFER_LADDER, ABORT_ALERT, ABORT} \<or> action = ROTATE_FILLING \<and> rotated
            \<or> attempt \<ge> rp_max_retries pol
         then Stop (Inl (send_error m res q (bk_world b1)), q, b1)
         else policy_retry pol refresh action ds rotated q b1)"

definition policy_step ::
  "'w terminal \<Rightarrow> broker_cfg \<Rightarrow> retry_policy \<Rightarrow> 'w refresh option \<Rightarrow> bool \<Rightarrow> int set \<Rightarrow> int
   \<Rightarrow> flt list \<Rightarrow> bool \<Rightarrow> order_req \<Rightarrow> 'w broker \<Rightarrow> 'w verdict" where
  "policy_step m k pol refresh guard before attempt ds rotated q b =
    (case order_send m q b of (res, b1) \<Rightarrow>
     let b2 = tally (map_option sr_retcode res) b1;
         action = retcode_action (map_option sr_retcode res)
     in case res of
          Some r \<Rightarrow>
            if action = SUCCESS \<or> action = SUCCESS_PARTIAL then Stop (Inr (out_of r), q, b2)
            else policy_fail m k pol refresh guard before attempt ds rotated action res q b2
        | None \<Rightarrow> policy_fail m k pol refresh guard before attempt ds rotated action res q b2)"

text \<open>The \<open>while True\<close> loop as it is written: nothing but the verdict of a round ends it, and a loop
  that is never left is \<open>None\<close>. That it is always left, because of the guard on \<open>attempt\<close>, is proved
  in Broker_Properties (\<open>policy_loop_ends\<close>).\<close>

partial_function (option) policy_loop ::
  "'w terminal \<Rightarrow> broker_cfg \<Rightarrow> retry_policy \<Rightarrow> 'w refresh option \<Rightarrow> bool \<Rightarrow> int set \<Rightarrow> int \<Rightarrow> flt list
   \<Rightarrow> bool \<Rightarrow> order_req \<Rightarrow> 'w broker \<Rightarrow> ((error + send_out) \<times> order_req \<times> 'w broker) option" where
  "policy_loop m k pol refresh guard before attempt ds rotated q b =
    (case policy_step m k pol refresh guard before attempt ds rotated q b of
       Stop res \<Rightarrow> Some res
     | Again ds' rotated' q' b' \<Rightarrow>
         policy_loop m k pol refresh guard before (attempt + 1) ds' rotated' q' b')"

declare policy_loop.simps [code]

definition send_with_policy ::
  "'w terminal \<Rightarrow> broker_cfg \<Rightarrow> retry_policy \<Rightarrow> 'w refresh option \<Rightarrow> bool \<Rightarrow> order_req \<Rightarrow> 'w broker
   \<Rightarrow> (error + send_out) \<times> order_req \<times> 'w broker" where
  "send_with_policy m k pol refresh guard q b =
    (case (if guard then (case my_positions m k b of (ps, b1) \<Rightarrow> (b_ticket ` set ps, b1))
           else ({}, b)) of
       (before, b1) \<Rightarrow>
         the (policy_loop m k pol refresh guard before 0 (delays pol) False q b1))"

definition send ::
  "'w terminal \<Rightarrow> broker_cfg \<Rightarrow> 'w refresh option \<Rightarrow> bool \<Rightarrow> order_req \<Rightarrow> 'w broker
   \<Rightarrow> (error + send_out) \<times> order_req \<times> 'w broker" where
  "send m k refresh guard q b =
    (case k_retry k of
       Some pol \<Rightarrow> send_with_policy m k pol refresh guard q b
     | None \<Rightarrow>
       (case order_send m q b of
          (None, b1) \<Rightarrow> (Inl (send_error m None q (bk_world b1)), q, b1)
        | (Some r, b1) \<Rightarrow>
            if sr_retcode r \<noteq> 10009 then (Inl (send_error m (Some r) q (bk_world b1)), q, b1)
            else (Inr (out_of r), q, b1)))"

text \<open>A plain send whose caller needs no refreshed request.\<close>

definition send_plain ::
  "'w terminal \<Rightarrow> broker_cfg \<Rightarrow> order_req \<Rightarrow> 'w broker \<Rightarrow> (error + send_out) \<times> order_req \<times> 'w broker" where
  "send_plain m k q b = send m k None False q b"

section \<open>Entries\<close>

text \<open>Python's truth test on an optional field, with its value.\<close>

definition nonzero :: "flt option \<Rightarrow> flt option" where
  "nonzero x = (case x of None \<Rightarrow> None | Some v \<Rightarrow> if v = 0 then None else Some v)"

definition pick_filling :: "'w terminal \<Rightarrow> 'w broker \<Rightarrow> filling \<times> 'w broker" where
  "pick_filling m b = (case ask (tm_symbol m) b of (info, b1) \<Rightarrow>
     let flags = (case info of None \<Rightarrow> 0 | Some y \<Rightarrow> y_filling y)
     in (if (flags div 2) mod 2 = 1 then IOC else if flags mod 2 = 1 then FOK else RETURN_FILL, b1))"

definition is_short :: "signal \<Rightarrow> bool" where
  "is_short s \<longleftrightarrow> s_dir s = SHORT"

text \<open>Stop and target anchored at an order price, the signal's own distances kept.\<close>

definition anchored_sl :: "signal \<Rightarrow> flt \<Rightarrow> flt option" where
  "anchored_sl s price = map_option (\<lambda>st. let d = \<bar>s_price s - st\<bar>
     in if is_short s then price + d else price - d) (nonzero (s_stop s))"

definition anchored_tp :: "broker_cfg \<Rightarrow> signal \<Rightarrow> flt \<Rightarrow> flt option" where
  "anchored_tp k s price = (if k_server_tp k then map_option (\<lambda>t. let d = \<bar>s_price s - t\<bar>
     in if is_short s then price - d else price + d) (nonzero (s_tp s)) else None)"

definition round8 :: "flt option \<Rightarrow> flt" where
  "round8 x = (case x of None \<Rightarrow> 0 | Some v \<Rightarrow> round_dp 8 v)"

definition entry_req :: "broker_cfg \<Rightarrow> signal \<Rightarrow> flt \<Rightarrow> flt \<Rightarrow> filling \<Rightarrow> order_req" where
  "entry_req k s price vol fill = (blank_req DEAL)\<lparr>q_volume := Some vol,
     q_type := Some (if is_short s then SELL else BUY), q_price := Some price,
     q_sl := Some (round8 (anchored_sl s price)), q_tp := Some (round8 (anchored_tp k s price)),
     q_deviation := Some (k_deviation k), q_magic := Some (k_magic k),
     q_comment := Some (''orb:'' @ s_reason s), q_filling := Some fill\<rparr>"

text \<open>\<open>_refresh\<close>: the tick is read again, the levels re-anchored; without a tick nothing changes.\<close>

definition refresh_entry :: "'w terminal \<Rightarrow> broker_cfg \<Rightarrow> signal \<Rightarrow> 'w refresh" where
  "refresh_entry m k s q b = (case ask (tm_tick m) b of
     (None, b1) \<Rightarrow> (q, b1)
   | (Some t, b1) \<Rightarrow>
       let px = (if is_short s then k_bid t else k_ask t);
           q1 = q\<lparr>q_price := Some px\<rparr>;
           q2 = (case anchored_sl s px of None \<Rightarrow> q1 | Some v \<Rightarrow> q1\<lparr>q_sl := Some (round_dp 8 v)\<rparr>);
           q3 = (case anchored_tp k s px of None \<Rightarrow> q2 | Some v \<Rightarrow> q2\<lparr>q_tp := Some (round_dp 8 v)\<rparr>)
       in (q3, b1))"

fun contains :: "string \<Rightarrow> string \<Rightarrow> bool" where
  "contains needle [] \<longleftrightarrow> needle = []"
| "contains needle (c # cs) \<longleftrightarrow> take (length needle) (c # cs) = needle \<or> contains needle cs"

definition no_money :: "error \<Rightarrow> bool" where
  "no_money e = (case e of BrokerError s \<Rightarrow> contains ''10019'' s | _ \<Rightarrow> False)"

definition volume_ladder :: "flt \<Rightarrow> flt list" where
  "volume_ladder want = want # filter (\<lambda>v. want > v) [2 / 100, 1 / 100]"

definition wanted :: "broker_cfg \<Rightarrow> signal \<Rightarrow> flt" where
  "wanted k s = (case nonzero (s_qty s) of Some q \<Rightarrow> q | None \<Rightarrow> k_default_qty k)"

text \<open>The ladder: the next volume is tried only after an error that reads as "no money".\<close>

fun open_ladder ::
  "'w terminal \<Rightarrow> broker_cfg \<Rightarrow> signal \<Rightarrow> flt \<Rightarrow> error \<Rightarrow> flt list \<Rightarrow> 'w broker
   \<Rightarrow> (error + send_out) \<times> 'w broker" where
  "open_ladder m k s price last_err [] b = (Inl last_err, b)"
| "open_ladder m k s price last_err (vol # vols) b =
    (case pick_filling m b of (fill, b1) \<Rightarrow>
     case send m k (Some (refresh_entry m k s)) True (entry_req k s price vol fill) b1 of
       (Inr out, q, b2) \<Rightarrow> (Inr out, emit m k ''open'' q out (Some (s_reason s)) None b2)
     | (Inl er, q, b2) \<Rightarrow>
         if no_money er then open_ladder m k s price er vols b2 else (Inl er, b2))"

definition open_market ::
  "'w terminal \<Rightarrow> broker_cfg \<Rightarrow> signal \<Rightarrow> 'w broker \<Rightarrow> (error + send_out) \<times> 'w broker" where
  "open_market m k s b =
    (case ask (tm_tick m) b of
       (None, b1) \<Rightarrow> (Inl (BrokerError (''no tick: '' @ tm_last_error m (bk_world b1))), b1)
     | (Some t, b1) \<Rightarrow>
         open_ladder m k s (if is_short s then k_bid t else k_ask t) TypeError
           (volume_ladder (wanted k s)) b1)"

definition limit_req :: "broker_cfg \<Rightarrow> signal \<Rightarrow> string \<Rightarrow> flt \<Rightarrow> flt \<Rightarrow> order_req" where
  "limit_req k s label px sl = (blank_req PENDING)\<lparr>q_volume := Some (wanted k s),
     q_type := Some (if is_short s then SELL_LIMIT else BUY_LIMIT),
     q_price := Some (round_dp 8 px), q_sl := Some (round_dp 8 sl), q_tp := Some (round_dp 8 0),
     q_magic := Some (k_magic k),
     q_comment := Some (take 31 (''orb:'' @ label @ '':'' @ s_reason s)),
     q_filling := Some RETURN_FILL\<rparr>"

text \<open>The two limit orders: the entry where the naive stop would have been, the add-on deeper, one
  shared stop.\<close>

definition limit_levels :: "broker_cfg \<Rightarrow> signal \<Rightarrow> flt \<Rightarrow> flt \<times> flt \<times> flt" where
  "limit_levels k s d =
     (let l1 = (if is_short s then s_price s + d else s_price s - d);
          sl = (if is_short s then l1 + d else l1 - d);
          l2 = (if is_short s then l1 + k_addon k * d else l1 - k_addon k * d)
      in (l1, l2, sl))"

definition open_limit ::
  "'w terminal \<Rightarrow> broker_cfg \<Rightarrow> signal \<Rightarrow> 'w broker \<Rightarrow> (error + send_out) \<times> 'w broker" where
  "open_limit m k s b =
    (case s_stop s of
       None \<Rightarrow> (Inl (BrokerError ''limit entry requires a stop on the signal''), b)
     | Some st \<Rightarrow>
       (case limit_levels k s \<bar>s_price s - st\<bar> of (l1, l2, sl) \<Rightarrow>
        case send_plain m k (limit_req k s ''entry'' l1 sl) b of
          (Inl er, q, b1) \<Rightarrow> (Inl er, b1)
        | (Inr out, q, b1) \<Rightarrow>
          (case send_plain m k (limit_req k s ''addon'' l2 sl)
                  (emit m k ''open_pending'' q out (Some (''entry:'' @ s_reason s)) None b1) of
             (Inl er, q2, b2) \<Rightarrow> (Inl er, b2)
           | (Inr out2, q2, b2) \<Rightarrow>
               (Inr out2, emit m k ''open_pending'' q2 out2 (Some (''addon:'' @ s_reason s)) None b2))))"

definition open_signal ::
  "'w terminal \<Rightarrow> broker_cfg \<Rightarrow> signal \<Rightarrow> 'w broker \<Rightarrow> (error + send_out) \<times> 'w broker" where
  "open_signal m k s b = (if k_mode k = ''limit'' then open_limit m k s b else open_market m k s b)"

section \<open>Closing\<close>

text \<open>Without a tick the code reads an attribute of \<open>None\<close>.\<close>

definition close_position ::
  "'w terminal \<Rightarrow> broker_cfg \<Rightarrow> term_pos \<Rightarrow> flt \<Rightarrow> string \<Rightarrow> 'w broker \<Rightarrow> (error + send_out) \<times> 'w broker"
where
  "close_position m k p volume reason b =
    (case ask (tm_tick m) b of
       (None, b1) \<Rightarrow> (Inl AttributeError, b1)
     | (Some t, b1) \<Rightarrow>
       (case pick_filling m b1 of (fill, b2) \<Rightarrow>
        case send_plain m k ((blank_req DEAL)\<lparr>q_volume := Some volume,
               q_type := Some (if b_type p = 0 then SELL else BUY), q_position := Some (b_ticket p),
               q_price := Some (if b_type p = 0 then k_bid t else k_ask t),
               q_deviation := Some (k_deviation k), q_magic := Some (k_magic k),
               q_comment := Some (''orb:'' @ reason), q_filling := Some fill\<rparr>) b2 of
          (Inl er, q, b3) \<Rightarrow> (Inl er, b3)
        | (Inr out, q, b3) \<Rightarrow>
            if \<not> k_events k then (Inr out, b3)
            else (case deal_profit m (o_deal out) b3 of (pnl, b4) \<Rightarrow>
              (Inr out, emit m k (if volume < b_volume p - 1 / 10 ^ 9 then ''partial_close'' else ''close'')
                          q out (Some reason) pnl b4))))"

fun close_each ::
  "'w terminal \<Rightarrow> broker_cfg \<Rightarrow> string \<Rightarrow> term_pos list \<Rightarrow> send_out option \<Rightarrow> 'w broker
   \<Rightarrow> (error + send_out option) \<times> 'w broker" where
  "close_each m k reason [] res b = (Inr res, b)"
| "close_each m k reason (p # ps) res b =
     (case close_position m k p (b_volume p) reason b of
        (Inl er, b1) \<Rightarrow> (Inl er, b1)
      | (Inr out, b1) \<Rightarrow> close_each m k reason ps (Some out) b1)"

definition close_all ::
  "'w terminal \<Rightarrow> broker_cfg \<Rightarrow> string \<Rightarrow> 'w broker \<Rightarrow> (error + send_out option) \<times> 'w broker" where
  "close_all m k reason b = (case my_positions m k b of (ps, b1) \<Rightarrow> close_each m k reason ps None b1)"

definition snap_volume :: "flt \<Rightarrow> flt \<Rightarrow> flt" where
  "snap_volume step qty = round_dp 8 (of_int (round_even (qty / step + 1 / 10 ^ 9)) * step)"

definition round_volume :: "'w terminal \<Rightarrow> flt \<Rightarrow> 'w broker \<Rightarrow> flt \<times> 'w broker" where
  "round_volume m qty b = (case ask (tm_symbol m) b of (info, b1) \<Rightarrow>
     let step = (case info of None \<Rightarrow> 1 / 100
                 | Some y \<Rightarrow> (case nonzero (y_step y) of None \<Rightarrow> 1 / 100 | Some v \<Rightarrow> v))
     in (snap_volume step qty, b1))"

definition close_ticket ::
  "'w terminal \<Rightarrow> broker_cfg \<Rightarrow> int \<Rightarrow> flt \<Rightarrow> 'w broker \<Rightarrow> (error + send_out option) \<times> 'w broker" where
  "close_ticket m k ticket volume b =
    (case my_positions m k b of (ps, b1) \<Rightarrow>
     case filter (\<lambda>p. b_ticket p = ticket) ps of
       [] \<Rightarrow> (Inr None, b1)
     | p # _ \<Rightarrow>
       (case round_volume m (min volume (b_volume p)) b1 of (vol, b2) \<Rightarrow>
        if vol \<le> 0 then (Inr None, b2)
        else case close_position m k p vol ''partial_2r'' b2 of
               (Inl er, b3) \<Rightarrow> (Inl er, b3) | (Inr out, b3) \<Rightarrow> (Inr (Some out), b3)))"

text \<open>\<open>_close\<close>: every own position, or in part when the signal is a partial take-profit smaller
  than the position; in limit mode the engine's exits are ignored.\<close>

fun close_signal_each ::
  "'w terminal \<Rightarrow> broker_cfg \<Rightarrow> signal \<Rightarrow> term_pos list \<Rightarrow> send_out option \<Rightarrow> 'w broker
   \<Rightarrow> (error + send_out option) \<times> 'w broker" where
  "close_signal_each m k s [] res b = (Inr res, b)"
| "close_signal_each m k s (p # ps) res b =
    (case (case nonzero (s_qty s) of
             Some q \<Rightarrow> if s_reason s = ''take_profit_partial'' \<and> q < b_volume p
                      then (case round_volume m q b of (v, b1) \<Rightarrow> (v, v \<le> 0, b1))
                      else (b_volume p, False, b)
           | None \<Rightarrow> (b_volume p, False, b)) of
       (volume, none, b1) \<Rightarrow>
         if none then (Inr None, b1)
         else case close_position m k p volume (s_reason s) b1 of
                (Inl er, b2) \<Rightarrow> (Inl er, b2)
              | (Inr out, b2) \<Rightarrow> close_signal_each m k s ps (Some out) b2)"

definition close_signal ::
  "'w terminal \<Rightarrow> broker_cfg \<Rightarrow> signal \<Rightarrow> 'w broker \<Rightarrow> (error + send_out option) \<times> 'w broker" where
  "close_signal m k s b =
    (if k_mode k = ''limit'' then (Inr None, b)
     else case my_positions m k b of (ps, b1) \<Rightarrow>
       if ps = [] then (Inr None, b1) else close_signal_each m k s ps None b1)"

definition execute ::
  "'w terminal \<Rightarrow> broker_cfg \<Rightarrow> signal \<Rightarrow> 'w broker \<Rightarrow> (error + send_out option) \<times> 'w broker" where
  "execute m k s b =
    (if s_kind s = REJECT then (Inr None, b)
     else if \<not> bk_connected b then (Inl (BrokerError ''not connected (call connect() first)''), b)
     else if s_kind s = ENTRY then
       (case open_signal m k s b of (Inl er, b1) \<Rightarrow> (Inl er, b1) | (Inr out, b1) \<Rightarrow> (Inr (Some out), b1))
     else close_signal m k s b)"

section \<open>Stops and pending orders\<close>

definition sl_req :: "term_pos \<Rightarrow> flt \<Rightarrow> order_req" where
  "sl_req p sl = (blank_req SLTP)\<lparr>q_position := Some (b_ticket p), q_sl := Some (round_dp 8 sl),
     q_tp := Some (case b_tp p of None \<Rightarrow> 0 | Some t \<Rightarrow> t)\<rparr>"

definition same_sl :: "term_pos \<Rightarrow> flt \<Rightarrow> bool" where
  "same_sl p sl \<longleftrightarrow> \<bar>(case b_sl p of None \<Rightarrow> 0 | Some v \<Rightarrow> v) - sl\<bar> < 1 / 10 ^ 6"

fun update_each ::
  "'w terminal \<Rightarrow> broker_cfg \<Rightarrow> flt \<Rightarrow> term_pos list \<Rightarrow> send_out option \<Rightarrow> 'w broker
   \<Rightarrow> (error + send_out option) \<times> 'w broker" where
  "update_each m k sl [] res b = (Inr res, b)"
| "update_each m k sl (p # ps) res b =
     (if same_sl p sl then update_each m k sl ps res b
      else case send_plain m k (sl_req p sl) b of
        (Inl er, q, b1) \<Rightarrow> (Inl er, b1)
      | (Inr out, q, b1) \<Rightarrow>
          update_each m k sl ps (Some out) (emit m k ''modify_sl'' q out (Some ''trail_sync'') None b1))"

definition update_stop ::
  "'w terminal \<Rightarrow> broker_cfg \<Rightarrow> flt \<Rightarrow> 'w broker \<Rightarrow> (error + send_out option) \<times> 'w broker" where
  "update_stop m k sl b = (case my_positions m k b of (ps, b1) \<Rightarrow> update_each m k sl ps None b1)"

definition modify_sl ::
  "'w terminal \<Rightarrow> broker_cfg \<Rightarrow> int \<Rightarrow> flt \<Rightarrow> 'w broker \<Rightarrow> (error + send_out option) \<times> 'w broker" where
  "modify_sl m k ticket sl b =
    (case my_positions m k b of (ps, b1) \<Rightarrow>
     case filter (\<lambda>p. b_ticket p = ticket) ps of
       [] \<Rightarrow> (Inr None, b1)
     | p # _ \<Rightarrow>
       if same_sl p sl then (Inr None, b1)
       else (case send_plain m k (sl_req p sl) b1 of
          (Inl er, q, b2) \<Rightarrow> (Inl er, b2)
        | (Inr out, q, b2) \<Rightarrow> (Inr (Some out), emit m k ''modify_sl'' q out None None b2)))"

text \<open>Cancelling: \<open>spare\<close> says which of our orders are left alone.\<close>

fun cancel_each ::
  "'w terminal \<Rightarrow> broker_cfg \<Rightarrow> string \<Rightarrow> (pending_order \<Rightarrow> bool) \<Rightarrow> pending_order list \<Rightarrow> nat \<Rightarrow> 'w broker
   \<Rightarrow> (error + nat) \<times> 'w broker" where
  "cancel_each m k why spare [] n b = (Inr n, b)"
| "cancel_each m k why spare (po # pos) n b =
     (if po_magic po \<noteq> k_magic k \<or> spare po then cancel_each m k why spare pos n b
      else case send_plain m k ((blank_req REMOVE)\<lparr>q_order := Some (po_ticket po)\<rparr>) b of
        (Inl er, q, b1) \<Rightarrow> (Inl er, b1)
      | (Inr out, q, b1) \<Rightarrow>
          cancel_each m k why spare pos (Suc n) (emit m k ''cancel_pending'' q out (Some why) None b1))"

definition cancel_expired ::
  "'w terminal \<Rightarrow> broker_cfg \<Rightarrow> int \<Rightarrow> 'w broker \<Rightarrow> (error + nat) \<times> 'w broker" where
  "cancel_expired m k max_age b =
    (case ask (tm_tick m) b of (t, b1) \<Rightarrow>
     case (case t of None \<Rightarrow> None | Some x \<Rightarrow> k_time x) of
       None \<Rightarrow> (Inr 0, b1)
     | Some now \<Rightarrow>
       (case ask (tm_orders m) b1 of (pos, b2) \<Rightarrow>
          cancel_each m k ''expired''
            (\<lambda>po. now - (case po_setup po of None \<Rightarrow> now | Some x \<Rightarrow> x) < max_age) pos 0 b2))"

definition has_pending :: "'w terminal \<Rightarrow> broker_cfg \<Rightarrow> 'w broker \<Rightarrow> bool \<times> 'w broker" where
  "has_pending m k b = (case ask (tm_orders m) b of
     (pos, b1) \<Rightarrow> (list_ex (\<lambda>po. po_magic po = k_magic k) pos, b1))"

definition cancel_pending ::
  "'w terminal \<Rightarrow> broker_cfg \<Rightarrow> int \<Rightarrow> 'w broker \<Rightarrow> (error + nat) \<times> 'w broker" where
  "cancel_pending m k min_age b =
    (case (if min_age > 0
           then (case ask (tm_tick m) b of (t, b1) \<Rightarrow>
                  ((case t of None \<Rightarrow> None | Some x \<Rightarrow> k_time x), b1))
           else (None, b)) of
       (now, b1) \<Rightarrow>
         (case ask (tm_orders m) b1 of (pos, b2) \<Rightarrow>
            cancel_each m k ''cancelled''
              (\<lambda>po. case now of None \<Rightarrow> False
                 | Some t \<Rightarrow> t - (case po_setup po of None \<Rightarrow> 0 | Some x \<Rightarrow> x) < min_age) pos 0 b2))"

section \<open>Read-only queries\<close>

definition balance :: "'w terminal \<Rightarrow> 'w broker \<Rightarrow> (error + flt) \<times> 'w broker" where
  "balance m b = (case ask (tm_account m) b of
     (None, b1) \<Rightarrow> (Inl (BrokerError ''account_info returned None''), b1)
   | (Some a, b1) \<Rightarrow> (Inr (a_balance a), b1))"

definition or_default :: "flt \<Rightarrow> flt option \<Rightarrow> flt" where
  "or_default d x = (case nonzero x of None \<Rightarrow> d | Some v \<Rightarrow> v)"

record specs =
  sp_tick_size :: flt
  sp_tick_value :: flt
  sp_value_per_move :: flt
  sp_vol_min :: flt
  sp_vol_step :: flt
  sp_vol_max :: flt

definition symbol_specs :: "'w terminal \<Rightarrow> 'w broker \<Rightarrow> (error + specs) \<times> 'w broker" where
  "symbol_specs m b = (case ask (tm_symbol m) b of
     (None, b1) \<Rightarrow> (Inl (BrokerError ''symbol_info returned None''), b1)
   | (Some y, b1) \<Rightarrow>
       let tv = or_default 0 (y_tick_value y); ts = or_default 0 (y_tick_size y)
       in (Inr \<lparr>sp_tick_size = ts, sp_tick_value = tv,
                sp_value_per_move = (if ts \<noteq> 0 then tv / ts else 0),
                sp_vol_min = or_default (1 / 100) (y_vol_min y),
                sp_vol_step = or_default (1 / 100) (y_step y),
                sp_vol_max = or_default 100 (y_vol_max y)\<rparr>, b1))"

definition current_spread :: "'w terminal \<Rightarrow> 'w broker \<Rightarrow> (error + flt \<times> flt \<times> flt) \<times> 'w broker" where
  "current_spread m b = (case ask (tm_tick m) b of
     (None, b1) \<Rightarrow> (Inl (BrokerError (''no tick: '' @ tm_last_error m (bk_world b1))), b1)
   | (Some t, b1) \<Rightarrow> (Inr (k_bid t, k_ask t, round_dp 8 (k_ask t - k_bid t)), b1))"

end
