(* ===== verification/Broker_Properties.thy ===== *)
theory Broker_Properties
  imports Broker
begin

text \<open>
  What the execution adapter promises of its sends: a bounded number of attempts, at most one new
  position per entry however ambiguous the outcomes, risk distances kept across re-quotes, no
  request on a real account without permission; and where it falls short.
\<close>

section \<open>Rounds of the send loop\<close>

text \<open>Only the guard on \<open>attempt\<close> bounds the rounds: one that asks for another had retries left.\<close>

lemma policy_step_again:
  "policy_step m k pol refresh guard before attempt ds rotated q b = Again ds' rotated' q' b'
   \<Longrightarrow> attempt < rp_max_retries pol"
  by (simp add: policy_step_def policy_fail_def Let_def not_le
      split: prod.splits option.splits if_splits)

text \<open>Induction over the rounds still allowed.\<close>

lemma policy_rounds [case_names round]:
  assumes "\<And>attempt ds rot q b. (\<And>ds' rot' q' b'.
      policy_step m k pol refresh guard before attempt ds rot q b = Again ds' rot' q' b'
        \<Longrightarrow> P (attempt + 1) ds' rot' q' b') \<Longrightarrow> P attempt ds rot q b"
  shows "P attempt ds rot q b"
proof (induction "nat (rp_max_retries pol - attempt)" arbitrary: attempt ds rot q b rule: less_induct)
  case (less attempt ds rot q b)
  show ?case
  proof (rule assms)
    fix ds' rot' q' b'
    assume "policy_step m k pol refresh guard before attempt ds rot q b = Again ds' rot' q' b'"
    then have "attempt < rp_max_retries pol" by (rule policy_step_again)
    then show "P (attempt + 1) ds' rot' q' b'" by (intro less.hyps) simp
  qed
qed

lemma policy_loop_unfold:
  "policy_step m k pol refresh guard before attempt ds rot q b = Stop res
     \<Longrightarrow> policy_loop m k pol refresh guard before attempt ds rot q b = Some res"
  "policy_step m k pol refresh guard before attempt ds rot q b = Again ds' rot' q' b'
     \<Longrightarrow> policy_loop m k pol refresh guard before attempt ds rot q b
       = policy_loop m k pol refresh guard before (attempt + 1) ds' rot' q' b'"
  by (subst policy_loop.simps, simp)+

lemma policy_loop_ends: "policy_loop m k pol refresh guard before attempt ds rot q b \<noteq> None"
proof (induction attempt ds rot q b rule: policy_rounds [where m = m and k = k and pol = pol
      and refresh = refresh and guard = guard and before = before])
  case (round attempt ds rot q b)
  show ?case
    by (cases "policy_step m k pol refresh guard before attempt ds rot q b")
      (simp_all add: policy_loop_unfold round.IH)
qed

lemma order_send_sent: "order_send m q b = (res, b1) \<Longrightarrow> bk_sent b1 = bk_sent b @ [q]"
  by (auto simp: order_send_def split: prod.splits)

lemma ask_frame [frame_simps]:
  assumes "ask f b = (x, b1)"
  shows "bk_sent b1 = bk_sent b" "bk_connected b1 = bk_connected b" "bk_events b1 = bk_events b"
    "bk_sleeps b1 = bk_sleeps b" "bk_counts b1 = bk_counts b"
  using assms by (auto simp: ask_def split: prod.splits)

lemma ask_sent: "ask f b = (x, b1) \<Longrightarrow> bk_sent b1 = bk_sent b"
  by (auto simp: ask_def split: prod.splits)

lemma positions_sent: "my_positions m k b = (ps, b1) \<Longrightarrow> bk_sent b1 = bk_sent b"
  by (auto simp: my_positions_def ask_def split: prod.splits)

lemma recovered_sent: "recovered_entry m k before b = (r, b1) \<Longrightarrow> bk_sent b1 = bk_sent b"
  by (auto simp: recovered_entry_def split: prod.splits list.splits dest: positions_sent)

lemma tally_simps [simp]: "bk_sent (tally rc b) = bk_sent b" "bk_world (tally rc b) = bk_world b"
  by (simp_all add: tally_def Let_def)

definition quiet_refresh :: "'w refresh option \<Rightarrow> bool" where
  "quiet_refresh refresh \<longleftrightarrow> (\<forall>f q b q' b'. refresh = Some f \<longrightarrow> f q b = (q', b') \<longrightarrow> bk_sent b' = bk_sent b)"

lemma policy_retry_sent:
  "quiet_refresh refresh \<Longrightarrow> policy_retry pol refresh action ds rot q b = Again ds' rot' q' b'
   \<Longrightarrow> bk_sent b' = bk_sent b"
  by (auto simp: policy_retry_def quiet_refresh_def Let_def split: if_splits option.splits prod.splits)

text \<open>Every round sends its request exactly once.\<close>

lemma policy_retry_again: "policy_retry pol refresh action ds rot q b \<noteq> Stop x"
  by (simp add: policy_retry_def Let_def split: option.splits prod.splits)

lemma policy_fail_cases:
  obtains (found) x b1 where "action = AMBIGUOUS" "guard" "recovered_entry m k before b = (Some x, b1)"
      "policy_fail m k pol refresh guard before attempt ds rot action res q b = Stop (Inr x, q, b1)"
  | (raised) b1 where "b1 = b \<and> \<not> (action = AMBIGUOUS \<and> guard)
         \<or> action = AMBIGUOUS \<and> guard \<and> recovered_entry m k before b = (None, b1)"
      "policy_fail m k pol refresh guard before attempt ds rot action res q b
         = Stop (Inl (send_error m res q (bk_world b1)), q, b1)"
  | (retry) b1 where "b1 = b \<and> \<not> (action = AMBIGUOUS \<and> guard)
         \<or> action = AMBIGUOUS \<and> guard \<and> recovered_entry m k before b = (None, b1)" "attempt < rp_max_retries pol"
      "policy_fail m k pol refresh guard before attempt ds rot action res q b
         = policy_retry pol refresh action ds rot q b1"
proof -
  define x where "x = (if action = AMBIGUOUS \<and> guard then recovered_entry m k before b else (None, b))"
  obtain r b1 where r: "x = (r, b1)" by (meson surj_pair)
  have e: "policy_fail m k pol refresh guard before attempt ds rot action res q b
      = (case r of Some found \<Rightarrow> Stop (Inr found, q, b1)
         | None \<Rightarrow> if action \<in> {DEFER_LADDER, ABORT_ALERT, ABORT} \<or> action = ROTATE_FILLING \<and> rot
              \<or> attempt \<ge> rp_max_retries pol
             then Stop (Inl (send_error m res q (bk_world b1)), q, b1)
             else policy_retry pol refresh action ds rot q b1)"
    using r by (simp add: policy_fail_def x_def [symmetric])
  show thesis
  proof (cases r)
    case None
    have c: "b1 = b \<and> \<not> (action = AMBIGUOUS \<and> guard)
         \<or> action = AMBIGUOUS \<and> guard \<and> recovered_entry m k before b = (None, b1)"
      using r None by (auto simp: x_def split: if_splits)
    show thesis
    proof (cases "action \<in> {DEFER_LADDER, ABORT_ALERT, ABORT} \<or> action = ROTATE_FILLING \<and> rot
        \<or> attempt \<ge> rp_max_retries pol")
      case True
      show thesis by (rule raised [OF c]) (use e None True in simp)
    next
      case False
      have "policy_fail m k pol refresh guard before attempt ds rot action res q b
          = policy_retry pol refresh action ds rot q b1"
        unfolding e None option.case by (rule if_not_P [OF False])
      then show thesis using retry [OF c] False by fastforce
    qed
  next
    case (Some y)
    then show thesis using r e found [of y b1] by (auto simp: x_def split: if_splits)
  qed
qed

definition verdict_sent :: "'w verdict \<Rightarrow> order_req list" where
  "verdict_sent v = (case v of Stop x \<Rightarrow> bk_sent (snd (snd x)) | Again ds rot q b \<Rightarrow> bk_sent b)"

lemma policy_fail_sent:
  assumes "quiet_refresh refresh"
  shows "verdict_sent (policy_fail m k pol refresh guard before attempt ds rot action res q b) = bk_sent b"
proof (rule policy_fail_cases [of action guard m k before b pol refresh attempt ds rot res q])
  fix b1
  assume "b1 = b \<and> \<not> (action = AMBIGUOUS \<and> guard)
         \<or> action = AMBIGUOUS \<and> guard \<and> recovered_entry m k before b = (None, b1)"
    and e: "policy_fail m k pol refresh guard before attempt ds rot action res q b
         = policy_retry pol refresh action ds rot q b1"
  then have "bk_sent b1 = bk_sent b" using recovered_sent by blast
  moreover have "verdict_sent (policy_retry pol refresh action ds rot q b1) = bk_sent b1"
    using policy_retry_sent [OF assms, of pol action ds rot q b1]
      policy_retry_again [of pol refresh action ds rot q b1]
    by (cases "policy_retry pol refresh action ds rot q b1") (auto simp: verdict_sent_def)
  ultimately show ?thesis using e by simp
qed (auto simp: verdict_sent_def dest: recovered_sent)

lemma policy_step_verdict:
  assumes "quiet_refresh refresh"
  shows "verdict_sent (policy_step m k pol refresh guard before attempt ds rot q b) = bk_sent b @ [q]"
proof -
  obtain res b1 where r: "order_send m q b = (res, b1)" by (meson surj_pair)
  show ?thesis using order_send_sent [OF r] policy_fail_sent [OF assms]
    by (cases res) (auto simp: policy_step_def r Let_def verdict_sent_def)
qed

lemma policy_step_sent:
  assumes "quiet_refresh refresh"
  shows "policy_step m k pol refresh guard before attempt ds rot q b = Stop (r, q', b')
      \<Longrightarrow> bk_sent b' = bk_sent b @ [q]"
    and "policy_step m k pol refresh guard before attempt ds rot q b = Again ds' rot' q' b'
      \<Longrightarrow> bk_sent b' = bk_sent b @ [q]"
  using policy_step_verdict [OF assms, of m k pol guard before attempt ds rot q b]
  by (simp_all add: verdict_sent_def)

text \<open>An invariant of the rounds holds at the end.\<close>

lemma policy_loop_inv:
  assumes again: "\<And>attempt ds rot q b ds' rot' q' b'. I q b \<Longrightarrow>
      policy_step m k pol refresh guard before attempt ds rot q b = Again ds' rot' q' b' \<Longrightarrow> I q' b'"
    and stop: "\<And>attempt ds rot q b r q' b'. I q b \<Longrightarrow>
      policy_step m k pol refresh guard before attempt ds rot q b = Stop (r, q', b') \<Longrightarrow> J r q' b'"
  shows "I q b \<Longrightarrow> policy_loop m k pol refresh guard before attempt ds rot q b = Some (r, q', b')
    \<Longrightarrow> J r q' b'"
proof (induction attempt ds rot q b rule: policy_rounds [where m = m and k = k and pol = pol
      and refresh = refresh and guard = guard and before = before])
  case (round attempt ds rot q b)
  show ?case
  proof (cases "policy_step m k pol refresh guard before attempt ds rot q b")
    case (Stop x)
    then show ?thesis using round.prems stop by (cases x) (simp add: policy_loop_unfold)
  next
    case (Again ds1 rot1 q1 b1)
    then show ?thesis using round again by (simp add: policy_loop_unfold)
  qed
qed

lemma policy_loop_sent:
  assumes "quiet_refresh refresh"
  shows "policy_loop m k pol refresh guard before attempt ds rot q b = Some (r, q', b') \<Longrightarrow>
    \<exists>qs. bk_sent b' = bk_sent b @ q # qs \<and> int (length qs) \<le> max 0 (rp_max_retries pol - attempt)"
proof (induction attempt ds rot q b rule: policy_rounds [where m = m and k = k and pol = pol
      and refresh = refresh and guard = guard and before = before])
  case (round attempt ds rot q b)
  show ?case
  proof (cases "policy_step m k pol refresh guard before attempt ds rot q b")
    case (Stop x)
    then have "bk_sent b' = bk_sent b @ [q]"
      using round.prems policy_step_sent(1) [OF assms] by (cases x) (simp add: policy_loop_unfold)
    then show ?thesis by simp
  next
    case (Again ds1 rot1 q1 b1)
    have "policy_loop m k pol refresh guard before (attempt + 1) ds1 rot1 q1 b1 = Some (r, q', b')"
      using round.prems Again by (simp add: policy_loop_unfold)
    from round.IH [OF Again this] obtain qs where qs: "bk_sent b' = bk_sent b1 @ q1 # qs"
      "int (length qs) \<le> max 0 (rp_max_retries pol - (attempt + 1))" by blast
    have "int (length (q1 # qs)) \<le> max 0 (rp_max_retries pol - attempt)"
      using qs(2) policy_step_again [OF Again] by simp
    then show ?thesis using qs(1) policy_step_sent(2) [OF assms Again] by auto
  qed
qed

lemma send_with_policy_loop:
  assumes "send_with_policy m k pol refresh guard q b = (r, q', b')"
  obtains before b1 where "bk_sent b1 = bk_sent b"
    "guard \<Longrightarrow> \<exists>ps. my_positions m k b = (ps, b1) \<and> before = b_ticket ` set ps"
    "\<not> guard \<Longrightarrow> b1 = b"
    "policy_loop m k pol refresh guard before 0 (delays pol) False q b1 = Some (r, q', b')"
proof -
  define start where "start = (if guard then (case my_positions m k b of (ps, b1) \<Rightarrow> (b_ticket ` set ps, b1))
           else ({}, b))"
  obtain before b1 where s: "start = (before, b1)" by (meson surj_pair)
  obtain res where l: "policy_loop m k pol refresh guard before 0 (delays pol) False q b1 = Some res"
    using policy_loop_ends by blast
  have e: "send_with_policy m k pol refresh guard q b = res"
    using s l by (simp add: send_with_policy_def start_def)
  show thesis
  proof (rule that)
    show "bk_sent b1 = bk_sent b" using s
      by (auto simp: start_def split: if_splits prod.splits dest: positions_sent)
    show "guard \<Longrightarrow> \<exists>ps. my_positions m k b = (ps, b1) \<and> before = b_ticket ` set ps" using s
      by (auto simp: start_def split: prod.splits)
    show "\<not> guard \<Longrightarrow> b1 = b" using s by (simp add: start_def)
    show "policy_loop m k pol refresh guard before 0 (delays pol) False q b1 = Some (r, q', b')"
      using l e assms by simp
  qed
qed

lemma refresh_entry_sent: "quiet_refresh (Some (refresh_entry m k s))"
  by (auto simp: quiet_refresh_def refresh_entry_def Let_def ask_def split: prod.splits option.splits)

text \<open>C14: sending ends, within budget. Whatever the terminal answers and however prices are
  refreshed, the retry loop (\<open>while True\<close> in the code) is left from every state it can be entered
  in; one policy-driven send hands the terminal the request once and then at most \<open>max_retries\<close>
  times more; without a policy it is handed over exactly once.\<close>

theorem send_bounded:
  assumes "quiet_refresh refresh"
  shows "(\<forall>pol before attempt ds rot q b. \<exists>r q' b'.
        policy_loop m k pol refresh guard before attempt ds rot q b = Some (r, q', b'))
    \<and> (\<exists>r q' b' qs. send m k refresh guard q b = (r, q', b') \<and> bk_sent b' = bk_sent b @ q # qs
        \<and> length qs \<le> (case k_retry k of None \<Rightarrow> 0 | Some pol \<Rightarrow> nat (rp_max_retries pol)))"
proof -
  obtain r q' b' where s: "send m k refresh guard q b = (r, q', b')" by (meson prod_cases3)
  have "\<exists>qs. bk_sent b' = bk_sent b @ q # qs
     \<and> length qs \<le> (case k_retry k of None \<Rightarrow> 0 | Some pol \<Rightarrow> nat (rp_max_retries pol))"
  proof (cases "k_retry k")
    case None
    then show ?thesis using s
      by (auto simp: send_def split: prod.splits option.splits if_splits dest!: order_send_sent)
  next
    case (Some pol)
    then have "send_with_policy m k pol refresh guard q b = (r, q', b')" using s by (simp add: send_def)
    then obtain before b1 where b1: "bk_sent b1 = bk_sent b"
      "policy_loop m k pol refresh guard before 0 (delays pol) False q b1 = Some (r, q', b')"
      by (rule send_with_policy_loop)
    from policy_loop_sent [OF assms b1(2)] show ?thesis using Some b1(1) by auto
  qed
  then show ?thesis using s policy_loop_ends by (metis option.exhaust prod_cases3)
qed

text \<open>A terminal that answers every request with a time-out, holding the list of own positions.\<close>

definition timeout_result :: send_result where
  "timeout_result = \<lparr>sr_retcode = 10012, sr_order = 0, sr_deal = 0, sr_price = 0, sr_volume = 0,
     sr_comment = ''timeout''\<rparr>"

definition own_pos :: "int \<Rightarrow> term_pos" where
  "own_pos t = \<lparr>b_ticket = t, b_type = 0, b_volume = 1, b_open = 100, b_sl = None, b_magic = 1,
     b_tp = None\<rparr>"

definition timeout_terminal :: "bool \<Rightarrow> int list terminal" where
  "timeout_terminal fills = \<lparr>tm_initialize = (\<lambda>w. (True, w)),
     tm_account = (\<lambda>w. (Some \<lparr>a_demo = True, a_balance = 1000, a_login = 7\<rparr>, w)), tm_select = (\<lambda>w. (True, w)),
     tm_send = (\<lambda>q w. (Some timeout_result, if fills then int (length w) # w else w)),
     tm_positions = (\<lambda>w. (map own_pos w, w)), tm_orders = (\<lambda>w. (map (\<lambda>t. \<lparr>po_ticket = t,
       po_magic = 1, po_setup = None\<rparr>) w, w)),
     tm_tick = (\<lambda>w. (Some \<lparr>k_bid = 100, k_ask = 101, k_time = Some 5\<rparr>, w)),
     tm_symbol = (\<lambda>w. (None, w)), tm_deals = (\<lambda>d w. ([], w)), tm_last_error = (\<lambda>_. ''''), tm_repr = (\<lambda>s. s),
     tm_render = (\<lambda>_. '''')\<rparr>"

definition demo_cfg :: broker_cfg where
  "demo_cfg = \<lparr>k_default_qty = 1, k_allow_live = False, k_magic = 1, k_deviation = 20,
     k_server_tp = True, k_mode = ''market'', k_addon = 8 / 10, k_events = False,
     k_retry = Some retry_defaults\<rparr>"

definition fresh_broker :: "'w \<Rightarrow> 'w broker" where
  "fresh_broker w = \<lparr>bk_world = w, bk_counts = (\<lambda>_. 0), bk_connected = True, bk_sent = [],
     bk_sleeps = [], bk_events = []\<rparr>"

theorem send_bounded_witness:
  "length (bk_sent (snd (snd (send (timeout_terminal False) demo_cfg None True (blank_req DEAL)
     (fresh_broker []))))) = 4"
proof -
  obtain r q' b' qs where s: "send (timeout_terminal False) demo_cfg None True (blank_req DEAL)
      (fresh_broker ([] :: int list)) = (r, q', b')"
    "bk_sent b' = bk_sent (fresh_broker ([] :: int list)) @ blank_req DEAL # qs"
    "length qs \<le> (case k_retry demo_cfg of None \<Rightarrow> 0 | Some pol \<Rightarrow> nat (rp_max_retries pol))"
    using send_bounded [of None "timeout_terminal False" demo_cfg True "blank_req DEAL"
        "fresh_broker []"] by (auto simp: quiet_refresh_def)
  moreover have "4 \<le> length (bk_sent (snd (snd (send (timeout_terminal False) demo_cfg None True
      (blank_req DEAL) (fresh_broker [])))))" by code_simp
  ultimately show ?thesis by (auto simp: demo_cfg_def retry_defaults_def fresh_broker_def)
qed

section \<open>No double fill\<close>

text \<open>What is relied on of the server, about the set of the adapter's own positions: one request
  opens at most one, and none unless it succeeds or its outcome is unknown; a position list is
  truthful; other queries open none.\<close>

definition sound_terminal :: "'w terminal \<Rightarrow> broker_cfg \<Rightarrow> ('w \<Rightarrow> int set) \<Rightarrow> bool" where
  "sound_terminal m k own \<longleftrightarrow>
     (\<forall>q w res w'. tm_send m q w = (res, w') \<longrightarrow> (\<exists>t. own w' \<subseteq> insert t (own w))
        \<and> (retcode_action (map_option sr_retcode res) \<notin> {SUCCESS, SUCCESS_PARTIAL, AMBIGUOUS}
             \<longrightarrow> own w' \<subseteq> own w))
   \<and> (\<forall>w ps w'. tm_positions m w = (ps, w') \<longrightarrow> own w' \<subseteq> own w
        \<and> own w' = b_ticket ` set (filter (\<lambda>p. b_magic p = k_magic k) ps))
   \<and> (\<forall>w t w'. tm_tick m w = (t, w') \<longrightarrow> own w' \<subseteq> own w)
   \<and> (\<forall>w y w'. tm_symbol m w = (y, w') \<longrightarrow> own w' \<subseteq> own w)
   \<and> (\<forall>w a w'. tm_account m w = (a, w') \<longrightarrow> own w' \<subseteq> own w)"

lemma sound_terminalD:
  assumes "sound_terminal m k own"
  shows "tm_send m q w = (res, w') \<Longrightarrow> \<exists>t. own w' \<subseteq> insert t (own w)"
    "tm_send m q w = (res, w') \<Longrightarrow>
       retcode_action (map_option sr_retcode res) \<notin> {SUCCESS, SUCCESS_PARTIAL, AMBIGUOUS}
       \<Longrightarrow> own w' \<subseteq> own w"
    "tm_positions m w = (ps, w') \<Longrightarrow> own w' \<subseteq> own w"
    "tm_positions m w = (ps, w') \<Longrightarrow> own w' = b_ticket ` set (filter (\<lambda>p. b_magic p = k_magic k) ps)"
    "tm_tick m w = (t, w') \<Longrightarrow> own w' \<subseteq> own w" "tm_symbol m w = (y, w') \<Longrightarrow> own w' \<subseteq> own w"
    "tm_account m w = (a, w') \<Longrightarrow> own w' \<subseteq> own w"
proof -
  note s = assms [unfolded sound_terminal_def]
  show "tm_send m q w = (res, w') \<Longrightarrow> \<exists>t. own w' \<subseteq> insert t (own w)"
    "tm_send m q w = (res, w') \<Longrightarrow>
       retcode_action (map_option sr_retcode res) \<notin> {SUCCESS, SUCCESS_PARTIAL, AMBIGUOUS}
       \<Longrightarrow> own w' \<subseteq> own w" using s [THEN conjunct1] by blast+
  show "tm_positions m w = (ps, w') \<Longrightarrow> own w' \<subseteq> own w"
    "tm_positions m w = (ps, w') \<Longrightarrow> own w' = b_ticket ` set (filter (\<lambda>p. b_magic p = k_magic k) ps)"
    using s [THEN conjunct2, THEN conjunct1] by blast+
  show "tm_tick m w = (t, w') \<Longrightarrow> own w' \<subseteq> own w" "tm_symbol m w = (y, w') \<Longrightarrow> own w' \<subseteq> own w"
    "tm_account m w = (a, w') \<Longrightarrow> own w' \<subseteq> own w"
    using s [THEN conjunct2, THEN conjunct2] by simp_all
qed

lemma ask_split:
  assumes "ask f b = (x, b1)"
  obtains w where "f (bk_world b) = (x, w)" "bk_world b1 = w"
  using assms by (auto simp: ask_def split: prod.splits)

lemma sound_positions:
  assumes "sound_terminal m k own" "my_positions m k b = (ps, b1)"
  shows "own (bk_world b1) \<subseteq> own (bk_world b)" "own (bk_world b1) = b_ticket ` set ps"
proof -
  obtain all where a: "ask (tm_positions m) b = (all, b1)" "ps = filter (\<lambda>p. b_magic p = k_magic k) all"
    using assms(2) by (auto simp: my_positions_def split: prod.splits)
  obtain w where w: "tm_positions m (bk_world b) = (all, w)" "bk_world b1 = w"
    using a(1) by (rule ask_split)
  show "own (bk_world b1) \<subseteq> own (bk_world b)" "own (bk_world b1) = b_ticket ` set ps"
    using sound_terminalD(3,4) [OF assms(1) w(1)] w(2) a(2) by simp_all
qed

lemma sound_send:
  assumes "sound_terminal m k own" "order_send m q b = (res, b1)"
  shows "\<exists>t. own (bk_world b1) \<subseteq> insert t (own (bk_world b))"
    "retcode_action (map_option sr_retcode res) \<notin> {SUCCESS, SUCCESS_PARTIAL, AMBIGUOUS}
       \<Longrightarrow> own (bk_world b1) \<subseteq> own (bk_world b)"
proof -
  obtain w where w: "tm_send m q (bk_world b) = (res, w)" "bk_world b1 = w"
    using assms(2) by (auto simp: order_send_def split: prod.splits)
  show "\<exists>t. own (bk_world b1) \<subseteq> insert t (own (bk_world b))"
    using sound_terminalD(1) [OF assms(1) w(1)] w(2) by simp
  show "retcode_action (map_option sr_retcode res) \<notin> {SUCCESS, SUCCESS_PARTIAL, AMBIGUOUS}
       \<Longrightarrow> own (bk_world b1) \<subseteq> own (bk_world b)"
    using sound_terminalD(2) [OF assms(1) w(1)] w(2) by simp
qed

lemma sound_ask:
  assumes "sound_terminal m k own"
  shows "ask (tm_tick m) b = (x, b1) \<Longrightarrow> own (bk_world b1) \<subseteq> own (bk_world b)"
    "ask (tm_symbol m) b = (y, b1) \<Longrightarrow> own (bk_world b1) \<subseteq> own (bk_world b)"
  by (metis ask_split sound_terminalD(5) [OF assms], metis ask_split sound_terminalD(6) [OF assms])

lemma sound_recovered:
  assumes "sound_terminal m k own" "recovered_entry m k before b = (r, b1)"
  shows "own (bk_world b1) \<subseteq> own (bk_world b)" "r = None \<Longrightarrow> own (bk_world b1) \<subseteq> before"
proof -
  obtain ps b2 where p: "my_positions m k b = (ps, b2)" by (meson surj_pair)
  have b1: "b1 = b2" "r = None \<Longrightarrow> filter (\<lambda>p. b_ticket p \<notin> before) ps = []"
    using assms(2) p by (auto simp: recovered_entry_def split: list.splits)
  show "own (bk_world b1) \<subseteq> own (bk_world b)" using sound_positions [OF assms(1) p] b1 by simp
  show "r = None \<Longrightarrow> own (bk_world b1) \<subseteq> before"
    using sound_positions(2) [OF assms(1) p] b1 by (auto simp: filter_empty_conv)
qed

definition gentle_refresh :: "('w \<Rightarrow> int set) \<Rightarrow> 'w refresh option \<Rightarrow> bool" where
  "gentle_refresh own refresh \<longleftrightarrow> (\<forall>f q b q' b'. refresh = Some f \<longrightarrow> f q b = (q', b')
     \<longrightarrow> own (bk_world b') \<subseteq> own (bk_world b))"

lemma policy_retry_own:
  "gentle_refresh own refresh \<Longrightarrow> policy_retry pol refresh action ds rot q b = Again ds' rot' q' b'
   \<Longrightarrow> own (bk_world b') \<subseteq> own (bk_world b)"
  by (auto simp: policy_retry_def gentle_refresh_def Let_def
      split: if_splits option.splits prod.splits)

definition one_new :: "('w \<Rightarrow> int set) \<Rightarrow> int set \<Rightarrow> error + send_out \<Rightarrow> 'w broker \<Rightarrow> bool" where
  "one_new own S r b \<longleftrightarrow> (case r of Inl _ \<Rightarrow> own (bk_world b) \<subseteq> S
     | Inr _ \<Rightarrow> (\<exists>t. own (bk_world b) \<subseteq> insert t S))"

definition verdict_own :: "('w \<Rightarrow> int set) \<Rightarrow> int set \<Rightarrow> 'w verdict \<Rightarrow> bool" where
  "verdict_own own S v \<longleftrightarrow> (case v of Stop (r, q, b) \<Rightarrow> one_new own S r b
     | Again ds rot q b \<Rightarrow> own (bk_world b) \<subseteq> S)"

lemma policy_fail_own:
  assumes "sound_terminal m k own" "gentle_refresh own refresh"
    and one: "\<exists>t. own (bk_world b) \<subseteq> insert t S"
    and none: "action \<noteq> AMBIGUOUS \<Longrightarrow> own (bk_world b) \<subseteq> S"
  shows "verdict_own own S (policy_fail m k pol refresh True S attempt ds rot action res q b)"
proof (rule policy_fail_cases [of action True m k S b pol refresh attempt ds rot res q])
  fix x b1 assume "recovered_entry m k S b = (Some x, b1)"
    and e: "policy_fail m k pol refresh True S attempt ds rot action res q b = Stop (Inr x, q, b1)"
  then show ?thesis using sound_recovered(1) [OF assms(1)] one
    unfolding e by (fastforce simp: verdict_own_def one_new_def)
next
  fix b1
  assume "b1 = b \<and> \<not> (action = AMBIGUOUS \<and> True)
         \<or> action = AMBIGUOUS \<and> True \<and> recovered_entry m k S b = (None, b1)"
    and e: "policy_fail m k pol refresh True S attempt ds rot action res q b
         = Stop (Inl (send_error m res q (bk_world b1)), q, b1)"
  then have "own (bk_world b1) \<subseteq> S" using none sound_recovered(2) [OF assms(1)] by blast
  then show ?thesis unfolding e by (simp add: verdict_own_def one_new_def)
next
  fix b1
  assume "b1 = b \<and> \<not> (action = AMBIGUOUS \<and> True)
         \<or> action = AMBIGUOUS \<and> True \<and> recovered_entry m k S b = (None, b1)"
    and e: "policy_fail m k pol refresh True S attempt ds rot action res q b
         = policy_retry pol refresh action ds rot q b1"
  then have "own (bk_world b1) \<subseteq> S" using none sound_recovered(2) [OF assms(1)] by blast
  then show ?thesis
    using policy_retry_own [OF assms(2), of pol action ds rot q b1]
      policy_retry_again [of pol refresh action ds rot q b1] unfolding e
    by (cases "policy_retry pol refresh action ds rot q b1") (auto simp: verdict_own_def)
qed

lemma policy_step_own:
  assumes "sound_terminal m k own" "gentle_refresh own refresh" "own (bk_world b) \<subseteq> S"
  shows "verdict_own own S (policy_step m k pol refresh True S attempt ds rot q b)"
proof -
  obtain res b1 where r: "order_send m q b = (res, b1)" by (meson surj_pair)
  define b2 where "b2 = tally (map_option sr_retcode res) b1"
  define action where "action = retcode_action (map_option sr_retcode res)"
  have one: "\<exists>t. own (bk_world b2) \<subseteq> insert t S"
    using sound_send(1) [OF assms(1) r] assms(3) by (auto simp: b2_def)
  have none: "own (bk_world b2) \<subseteq> S" if "action \<notin> {SUCCESS, SUCCESS_PARTIAL, AMBIGUOUS}"
    using sound_send(2) [OF assms(1) r] that assms(3) by (auto simp: b2_def action_def)
  show ?thesis
  proof (cases "res \<noteq> None \<and> action \<in> {SUCCESS, SUCCESS_PARTIAL}")
    case True
    then obtain x where x: "res = Some x" by auto
    have "policy_step m k pol refresh True S attempt ds rot q b = Stop (Inr (out_of x), q, b2)"
      using True by (simp add: policy_step_def r Let_def b2_def action_def x)
    then show ?thesis using one by (simp add: verdict_own_def one_new_def)
  next
    case False
    then have e: "policy_step m k pol refresh True S attempt ds rot q b
        = policy_fail m k pol refresh True S attempt ds rot action res q b2"
      by (cases res) (auto simp: policy_step_def r Let_def b2_def action_def)
    have "action \<noteq> AMBIGUOUS \<Longrightarrow> own (bk_world b2) \<subseteq> S"
      using False none by (cases res) (auto simp: action_def retcode_action_def)
    then show ?thesis unfolding e by (rule policy_fail_own [OF assms(1,2) one])
  qed
qed

lemma policy_loop_own:
  assumes "sound_terminal m k own" "gentle_refresh own refresh" "own (bk_world b) \<subseteq> S"
    and "policy_loop m k pol refresh True S attempt ds rot q b = Some (r, q', b')"
  shows "one_new own S r b'"
proof (rule policy_loop_inv [where I = "\<lambda>q b. own (bk_world b) \<subseteq> S"
      and J = "\<lambda>r q b. one_new own S r b", OF _ _ assms(3,4)])
  fix attempt ds rot q b ds' rot' q' b'
  assume "own (bk_world b) \<subseteq> S"
    "policy_step m k pol refresh True S attempt ds rot q b = Again ds' rot' q' b'"
  then show "own (bk_world b') \<subseteq> S"
    using policy_step_own [OF assms(1,2), of b S pol attempt ds rot q] by (simp add: verdict_own_def)
next
  fix attempt ds rot q b r q' b'
  assume "own (bk_world b) \<subseteq> S"
    "policy_step m k pol refresh True S attempt ds rot q b = Stop (r, q', b')"
  then show "one_new own S r b'"
    using policy_step_own [OF assms(1,2), of b S pol attempt ds rot q] by (simp add: verdict_own_def)
qed

lemma policy_send_own:
  assumes "sound_terminal m k own" "gentle_refresh own refresh" "k_retry k = Some pol"
    and "send m k refresh True q b = (r, q', b')"
  shows "one_new own (own (bk_world b)) r b'"
proof -
  have "send_with_policy m k pol refresh True q b = (r, q', b')"
    using assms(3,4) by (simp add: send_def)
  then obtain before b1 where l: "\<exists>ps. my_positions m k b = (ps, b1) \<and> before = b_ticket ` set ps"
    "policy_loop m k pol refresh True before 0 (delays pol) False q b1 = Some (r, q', b')"
    by (rule send_with_policy_loop) simp
  then obtain ps where p: "my_positions m k b = (ps, b1)" "before = b_ticket ` set ps" by blast
  note own1 = sound_positions [OF assms(1) p(1)]
  from policy_loop_own [OF assms(1,2) _ l(2)] own1 p(2) show ?thesis
    by (fastforce simp: one_new_def split: sum.splits)
qed

text \<open>Without a policy there is no look at the positions afterwards; an entry is then safe against a
  server where every answer but a plain success (10009) means that nothing was opened.\<close>

definition plain_answers :: "'w terminal \<Rightarrow> ('w \<Rightarrow> int set) \<Rightarrow> bool" where
  "plain_answers m own \<longleftrightarrow> (\<forall>q w res w'. tm_send m q w = (res, w')
     \<longrightarrow> map_option sr_retcode res \<noteq> Some 10009 \<longrightarrow> own w' \<subseteq> own w)"

definition settled_sends :: "'w terminal \<Rightarrow> broker_cfg \<Rightarrow> ('w \<Rightarrow> int set) \<Rightarrow> bool" where
  "settled_sends m k own \<longleftrightarrow> k_retry k \<noteq> None \<or> plain_answers m own"

lemma plain_send_own:
  assumes "sound_terminal m k own" "plain_answers m own" "k_retry k = None"
    and "send m k refresh guard q b = (r, q', b')"
  shows "one_new own (own (bk_world b)) r b'"
proof -
  obtain res b1 where o: "order_send m q b = (res, b1)" by (meson surj_pair)
  obtain w where w: "tm_send m q (bk_world b) = (res, w)" "bk_world b1 = w"
    using o by (auto simp: order_send_def split: prod.splits)
  have "map_option sr_retcode res \<noteq> Some 10009 \<Longrightarrow> own w \<subseteq> own (bk_world b)"
    using assms(2) w(1) unfolding plain_answers_def by blast
  then show ?thesis using assms(3,4) o w sound_send(1) [OF assms(1) o]
    by (fastforce simp: send_def one_new_def split: option.splits if_splits)
qed

lemma send_own:
  assumes "sound_terminal m k own" "gentle_refresh own refresh" "settled_sends m k own"
    and "send m k refresh True q b = (r, q', b')"
  shows "one_new own (own (bk_world b)) r b'"
proof (cases "k_retry k")
  case None
  then show ?thesis using plain_send_own [OF assms(1) _ None assms(4)] assms(3)
    by (simp add: settled_sends_def)
next
  case (Some pol)
  then show ?thesis by (rule policy_send_own [OF assms(1,2) _ assms(4)])
qed

lemma refresh_entry_own:
  assumes "sound_terminal m k own"
  shows "gentle_refresh own (Some (refresh_entry m k s))"
  using sound_ask(1) [OF assms]
  by (fastforce simp: gentle_refresh_def refresh_entry_def Let_def split: prod.splits option.splits)

lemma emit_own:
  assumes "sound_terminal m k own"
  shows "own (bk_world (emit m k a q r why pnl b)) \<subseteq> own (bk_world b)"
  using sound_terminalD(7) [OF assms, of "bk_world b"]
  by (auto simp: emit_def ask_def split: prod.splits)

lemma open_ladder_own:
  assumes "sound_terminal m k own" "settled_sends m k own"
  shows "open_ladder m k s price er vols b = (r, b') \<Longrightarrow> own (bk_world b) \<subseteq> S
    \<Longrightarrow> one_new own S r b'"
proof (induction vols arbitrary: er b)
  case Nil
  then show ?case by (auto simp: one_new_def)
next
  case (Cons vol vols)
  obtain fill b1 where f: "pick_filling m b = (fill, b1)" by (meson surj_pair)
  have own1: "own (bk_world b1) \<subseteq> S"
    using f Cons.prems(2) sound_ask(2) [OF assms(1)]
    by (fastforce simp: pick_filling_def Let_def split: prod.splits)
  obtain r2 q b2 where s: "send m k (Some (refresh_entry m k s)) True (entry_req k s price vol fill) b1
      = (r2, q, b2)" by (meson prod_cases3)
  from send_own [OF assms(1) refresh_entry_own [OF assms(1)] assms(2) s] own1
  have own2: "one_new own S r2 b2" by (fastforce simp: one_new_def split: sum.splits)
  show ?case
  proof (cases r2)
    case (Inl e)
    then show ?thesis using Cons.IH [of e b2] Cons.prems(1) own2 f s
      by (auto simp: one_new_def split: if_splits)
  next
    case (Inr out)
    have b': "r = Inr out" "b' = emit m k ''open'' q out (Some (s_reason s)) None b2"
      using Cons.prems(1) f s Inr by auto
    then show ?thesis using own2 Inr emit_own [OF assms(1), of "''open''" q out "Some (s_reason s)" None b2]
      unfolding one_new_def by fastforce
  qed
qed

text \<open>C15: with a retry policy, an entry never fills twice. The server is relied on to open at most
  one position per request, none on a definite refusal, and to list positions truthfully
  (\<open>sound_terminal\<close>). With the policy installed, a market entry, with all its re-quotes, back-offs,
  filling rotations, ambiguous outcomes and smaller volumes, then ends with at most one position that
  was not there before, and with none when it fails. Without a policy (the command's default) the
  same holds only if, besides, every answer but 10009 means that nothing was opened: an answer lost
  on the way breaks it (\<open>plain_entry_lost\<close> below).\<close>

theorem open_market_single_fill:
  assumes "sound_terminal m k own" and "settled_sends m k own"
    and "open_market m k s b = (r, b')"
  shows "case r of Inl _ \<Rightarrow> own (bk_world b') \<subseteq> own (bk_world b)
     | Inr _ \<Rightarrow> (\<exists>t. own (bk_world b') \<subseteq> insert t (own (bk_world b)))"
proof -
  obtain t b1 where t: "ask (tm_tick m) b = (t, b1)" by (meson surj_pair)
  have o1: "own (bk_world b1) \<subseteq> own (bk_world b)" using sound_ask(1) [OF assms(1) t] .
  have "one_new own (own (bk_world b)) r b'"
    using assms(3) t o1 open_ladder_own [OF assms(1,2) _ o1]
    by (cases t) (auto simp: open_market_def one_new_def)
  then show ?thesis by (simp add: one_new_def)
qed

definition demo_entry :: signal where
  "demo_entry = \<lparr>s_ts = utc_ts 0, s_kind = ENTRY, s_dir = LONG, s_price = 100, s_from = RANGE_DEFINED,
     s_to = BREAKOUT, s_reason = ''breakout_long'', s_range_high = Some 99, s_range_low = Some 95,
     s_roc = None, s_rvol = None, s_atr = Some 2, s_stop = Some 97, s_tp = Some 106, s_qty = None,
     s_bars_held = Some 0\<rparr>"

lemma own_pos_filter: "{p \<in> own_pos ` S. b_magic p = 1} = own_pos ` S"
  by (auto simp: own_pos_def)

lemma own_pos_tickets: "b_ticket ` own_pos ` S = S"
  by (simp add: image_image own_pos_def)

lemma timeout_sound: "sound_terminal (timeout_terminal fills) demo_cfg set"
  unfolding sound_terminal_def
  by (auto simp: timeout_terminal_def demo_cfg_def retcode_action_def timeout_result_def
      policy_table_def own_pos_tickets own_pos_filter split: if_splits)

theorem open_market_single_fill_witness:
  "\<exists>out b' t. open_market (timeout_terminal True) demo_cfg demo_entry (fresh_broker [])
       = (Inr out, b') \<and> set (bk_world b') \<subseteq> {t} \<and> length (bk_sent b') = 1"
proof -
  have "(case open_market (timeout_terminal True) demo_cfg demo_entry (fresh_broker []) of
      (r, b') \<Rightarrow> (case r of Inr _ \<Rightarrow> True | Inl _ \<Rightarrow> False) \<and> length (bk_sent b') = 1)"
    by code_simp
  then obtain out b' where r: "open_market (timeout_terminal True) demo_cfg demo_entry
      (fresh_broker []) = (Inr out, b')" "length (bk_sent b') = 1"
    by (auto split: prod.splits sum.splits)
  have "settled_sends (timeout_terminal True) demo_cfg set" by (simp add: settled_sends_def demo_cfg_def)
  from open_market_single_fill [OF timeout_sound this r(1)] r
  show ?thesis by (auto simp: fresh_broker_def)
qed

section \<open>Risk distances\<close>

definition good_entry :: "broker_cfg \<Rightarrow> signal \<Rightarrow> order_req \<Rightarrow> bool" where
  "good_entry k s q \<longleftrightarrow> (\<exists>px vol. q_price q = Some px \<and> q_volume q = Some vol
     \<and> q_sl q = Some (round8 (anchored_sl s px)) \<and> q_tp q = Some (round8 (anchored_tp k s px))
     \<and> vol \<in> set (volume_ladder (wanted k s)))"

lemma refresh_good:
  assumes "good_entry k s q" "refresh_entry m k s q b = (q', b')"
  shows "good_entry k s q'"
  using assms
  by (auto simp: good_entry_def refresh_entry_def Let_def round8_def anchored_sl_def anchored_tp_def
      nonzero_def split: prod.splits option.splits if_splits)

text \<open>\<open>only_sends P old b\<close>: since the log \<open>old\<close>, every request handed over satisfies \<open>P\<close>.\<close>

definition only_sends :: "(order_req \<Rightarrow> bool) \<Rightarrow> order_req list \<Rightarrow> 'w broker \<Rightarrow> bool" where
  "only_sends P old b \<longleftrightarrow> (\<exists>new. bk_sent b = old @ new \<and> (\<forall>q \<in> set new. P q))"

lemma only_sendsI: "bk_sent b' = bk_sent b \<Longrightarrow> only_sends P old b \<Longrightarrow> only_sends P old b'"
  by (simp add: only_sends_def)

lemma only_sends_refl [simp]: "only_sends P (bk_sent b) b"
  by (simp add: only_sends_def)

lemma only_sends_trans:
  assumes "only_sends P old b" "only_sends P (bk_sent b) b'"
  shows "only_sends P old b'"
proof -
  obtain n1 n2 where "bk_sent b = old @ n1" "\<forall>q \<in> set n1. P q" "bk_sent b' = bk_sent b @ n2"
    "\<forall>q \<in> set n2. P q" using assms by (auto simp: only_sends_def)
  then show ?thesis unfolding only_sends_def by (intro exI [of _ "n1 @ n2"]) auto
qed

lemma only_sends_snoc:
  "only_sends P old b \<Longrightarrow> P q \<Longrightarrow> bk_sent b' = bk_sent b @ [q] \<Longrightarrow> only_sends P old b'"
  by (erule only_sends_trans) (simp add: only_sends_def)

text \<open>A property of requests that re-quoting and rotating the filling keep.\<close>

definition kept :: "(order_req \<Rightarrow> bool) \<Rightarrow> 'w refresh option \<Rightarrow> bool" where
  "kept P refresh \<longleftrightarrow> quiet_refresh refresh \<and> (\<forall>q f. P q \<longrightarrow> P (q\<lparr>q_filling := f\<rparr>))
     \<and> (\<forall>g q b q' b'. refresh = Some g \<longrightarrow> P q \<longrightarrow> g q b = (q', b') \<longrightarrow> P q')"

lemma policy_retry_kept:
  assumes "kept P refresh" "P q" "policy_retry pol refresh action ds rot q b = Again ds' rot' q' b'"
  shows "P q'"
proof (cases "action = RETRY_FRESH_PRICE")
  case True
  have step: "P q1" if "refresh = Some g" "g q b = (q1, b1)" for g q1 b1
    using assms(1,2) that unfolding kept_def by blast
  show ?thesis using assms(2,3) True step
    by (auto simp: policy_retry_def split: option.splits prod.splits)
next
  case False
  then show ?thesis using assms
    by (auto simp: policy_retry_def kept_def Let_def split: if_splits)
qed

lemma policy_step_kept:
  assumes "kept P refresh" "P q"
    and "policy_step m k pol refresh guard before attempt ds rot q b = Again ds' rot' q' b'"
  shows "P q'"
proof -
  obtain res b1 where r: "order_send m q b = (res, b1)" by (meson surj_pair)
  define b2 where "b2 = tally (map_option sr_retcode res) b1"
  define action where "action = retcode_action (map_option sr_retcode res)"
  have f: "policy_fail m k pol refresh guard before attempt ds rot action res q b2
      = Again ds' rot' q' b'"
    using assms(3)
    by (cases res) (auto simp: policy_step_def r Let_def b2_def action_def split: if_splits)
  show ?thesis
  proof (rule policy_fail_cases [of action guard m k before b2 pol refresh attempt ds rot res q])
    fix b1 assume "policy_fail m k pol refresh guard before attempt ds rot action res q b2
        = policy_retry pol refresh action ds rot q b1"
    then show "P q'" using f policy_retry_kept [OF assms(1,2)] by metis
  qed (use f in simp_all)
qed

lemma send_only:
  assumes k: "kept P refresh" and "P q" "only_sends P old b"
    and "send m k refresh guard q b = (r, q', b')"
  shows "only_sends P old b'"
proof (cases "k_retry k")
  case None
  then have "bk_sent b' = bk_sent b @ [q]" using assms(4)
    by (auto simp: send_def split: prod.splits option.splits if_splits dest!: order_send_sent)
  then show ?thesis by (rule only_sends_snoc [OF assms(3,2)])
next
  case (Some pol)
  then have "send_with_policy m k pol refresh guard q b = (r, q', b')"
    using assms(4) by (simp add: send_def)
  then obtain before b1 where b1: "bk_sent b1 = bk_sent b"
    and loop: "policy_loop m k pol refresh guard before 0 (delays pol) False q b1 = Some (r, q', b')"
    by (rule send_with_policy_loop)
  have quiet: "quiet_refresh refresh" using k by (simp add: kept_def)
  show ?thesis
  proof (rule policy_loop_inv [where I = "\<lambda>q b. P q \<and> only_sends P old b"
        and J = "\<lambda>r q b. only_sends P old b", OF _ _ _ loop])
    show "P q \<and> only_sends P old b1" using assms(2,3) only_sendsI [OF b1] by blast
  next
    fix attempt ds rot q b ds' rot' q' b'
    assume a: "P q \<and> only_sends P old b"
      and st: "policy_step m k pol refresh guard before attempt ds rot q b = Again ds' rot' q' b'"
    show "P q' \<and> only_sends P old b'"
      using policy_step_kept [OF k _ st] policy_step_sent(2) [OF quiet st] a only_sends_snoc by blast
  next
    fix attempt ds rot q b r q' b'
    assume a: "P q \<and> only_sends P old b"
      and st: "policy_step m k pol refresh guard before attempt ds rot q b = Stop (r, q', b')"
    show "only_sends P old b'"
      using policy_step_sent(1) [OF quiet st] a only_sends_snoc by blast
  qed
qed

lemma good_entry_kept: "kept (good_entry k s) (Some (refresh_entry m k s))"
  using refresh_good [of k s _ m] refresh_entry_sent [of m k s]
  by (auto simp: kept_def good_entry_def)

lemmas send_good = send_only [OF good_entry_kept]

lemma emit_sent [simp]: "bk_sent (emit m k a q r why pnl b) = bk_sent b"
  by (auto simp: emit_def ask_def split: prod.splits)

lemma open_ladder_good:
  "open_ladder m k s price er vols b = (r, b') \<Longrightarrow> only_sends (good_entry k s) old b
   \<Longrightarrow> set vols \<subseteq> set (volume_ladder (wanted k s)) \<Longrightarrow> only_sends (good_entry k s) old b'"
proof (induction vols arbitrary: er b)
  case Nil
  then show ?case by simp
next
  case (Cons vol vols)
  obtain fill b1 where f: "pick_filling m b = (fill, b1)" by (meson surj_pair)
  have b1: "bk_sent b1 = bk_sent b" using f
    by (auto simp: pick_filling_def Let_def split: prod.splits dest: ask_sent)
  obtain r2 q b2 where s: "send m k (Some (refresh_entry m k s)) True (entry_req k s price vol fill) b1
      = (r2, q, b2)" by (meson prod_cases3)
  have "good_entry k s (entry_req k s price vol fill)"
    using Cons.prems(3) by (auto simp: good_entry_def entry_req_def)
  from send_good [OF this only_sendsI [OF b1 Cons.prems(2)] s]
  have g: "only_sends (good_entry k s) old b2" .
  show ?case
  proof (cases r2)
    case (Inl e)
    then show ?thesis using Cons.IH [of e b2] Cons.prems(1,3) g f s by (auto split: if_splits)
  next
    case (Inr out)
    then show ?thesis using Cons.prems(1) g f s by (auto intro: only_sendsI [of _ b2])
  qed
qed

lemma open_market_good:
  assumes "open_market m k s b = (r, b')"
  shows "only_sends (good_entry k s) (bk_sent b) b'"
proof -
  obtain t b1 where t: "ask (tm_tick m) b = (t, b1)" by (meson surj_pair)
  have g: "only_sends (good_entry k s) (bk_sent b) b1" using ask_sent [OF t] by (simp add: only_sends_def)
  then show ?thesis using assms t open_ladder_good [OF _ g]
    by (cases t) (auto simp: open_market_def)
qed

lemma volume_ladder_le: "v \<in> set (volume_ladder w) \<Longrightarrow> v \<le> w"
  by (auto simp: volume_ladder_def split: if_splits)

text \<open>C16: slippage never inflates the planned risk. Every request a market entry hands to the
  terminal, first try, re-quote or smaller volume, asks for at most the wanted volume, and its stop
  is as far from its own price as the signal's stop was from the signal's price, up to the eighth
  decimal, on the losing side.\<close>

theorem open_market_keeps_risk:
  assumes "open_market m k s b = (r, b')" and "s_stop s = Some st" and "st \<noteq> 0"
  shows "\<exists>new. bk_sent b' = bk_sent b @ new \<and> (\<forall>q \<in> set new. \<exists>px sl vol.
     q_price q = Some px \<and> q_sl q = Some sl \<and> q_volume q = Some vol \<and> vol \<le> wanted k s
     \<and> \<bar>(if s_dir s = SHORT then sl - px else px - sl) - \<bar>s_price s - st\<bar>\<bar> \<le> 1 / (2 * 10 ^ 8))"
proof -
  obtain new where new: "bk_sent b' = bk_sent b @ new" "\<forall>q \<in> set new. good_entry k s q"
    using open_market_good [OF assms(1)] by (auto simp: only_sends_def)
  have "\<exists>px sl vol. q_price q = Some px \<and> q_sl q = Some sl \<and> q_volume q = Some vol \<and> vol \<le> wanted k s
     \<and> \<bar>(if s_dir s = SHORT then sl - px else px - sl) - \<bar>s_price s - st\<bar>\<bar> \<le> 1 / (2 * 10 ^ 8)"
    if "good_entry k s q" for q
  proof -
    define d where "d = \<bar>s_price s - st\<bar>"
    obtain px vol where q: "q_price q = Some px" "q_volume q = Some vol"
        "q_sl q = Some (round8 (anchored_sl s px))" "vol \<in> set (volume_ladder (wanted k s))"
      using \<open>good_entry k s q\<close> by (auto simp: good_entry_def)
    define lv where "lv = (if s_dir s = SHORT then px + d else px - d)"
    have sl: "round8 (anchored_sl s px) = round_dp 8 lv"
      using assms(2,3) by (simp add: round8_def anchored_sl_def nonzero_def is_short_def Let_def
          lv_def d_def)
    have near: "\<bar>round_dp 8 lv - lv\<bar> \<le> 1 / (2 * 10 ^ 8)" by (rule round_dp_near)
    have "\<bar>(if s_dir s = SHORT then round_dp 8 lv - px else px - round_dp 8 lv) - d\<bar>
        = \<bar>round_dp 8 lv - lv\<bar>" by (simp add: lv_def abs_minus_commute algebra_simps)
    then show ?thesis using q sl near volume_ladder_le [OF q(4)] by (auto simp: d_def)
  qed
  then show ?thesis using new by blast
qed

theorem open_market_keeps_risk_witness:
  "\<exists>r b' new. open_market (timeout_terminal False) demo_cfg demo_entry (fresh_broker []) = (r, b')
     \<and> bk_sent b' = new \<and> length new = 4 \<and> (\<forall>q \<in> set new. \<exists>px sl vol. q_price q = Some px
          \<and> q_sl q = Some sl \<and> q_volume q = Some vol \<and> vol \<le> 1 \<and> \<bar>px - sl - 3\<bar> \<le> 1 / (2 * 10 ^ 8))"
proof -
  obtain r b' where r: "open_market (timeout_terminal False) demo_cfg demo_entry (fresh_broker [])
      = (r, b')" by (meson surj_pair)
  have "length (bk_sent (snd (open_market (timeout_terminal False) demo_cfg demo_entry
      (fresh_broker [])))) = 4" by code_simp
  then show ?thesis using open_market_keeps_risk [OF r, of 97] r
    by (auto simp: demo_entry_def fresh_broker_def wanted_def nonzero_def demo_cfg_def)
qed

section \<open>Real accounts\<close>

text \<open>No order on a real account without permission. If connecting leaves the adapter connected,
  it saw a demo account or live trading was allowed; and while it is not connected, executing any
  signal hands the terminal nothing.\<close>

theorem live_account_guard:
  assumes "\<not> bk_connected b" and "connect m k b = (r, b')"
  shows "(bk_connected b' \<longrightarrow> (\<exists>acct. r = Inr acct \<and> (a_demo acct \<or> k_allow_live k)))
     \<and> (\<not> bk_connected b' \<longrightarrow> bk_sent b' = bk_sent b
          \<and> bk_sent (snd (execute m k s b')) = bk_sent b)"
proof -
  have c: "bk_sent b' = bk_sent b"
    "bk_connected b' \<Longrightarrow> \<exists>acct. r = Inr acct \<and> (a_demo acct \<or> k_allow_live k)"
    using assms by (auto simp: connect_def ask_def split: prod.splits option.splits if_splits)
  then show ?thesis by (auto simp: execute_def)
qed

theorem live_account_guard_witness:
  "\<exists>r b'. connect ((timeout_terminal False)\<lparr>tm_account := (\<lambda>w. (Some \<lparr>a_demo = False,
        a_balance = 5, a_login = 7\<rparr>, w))\<rparr>) demo_cfg ((fresh_broker [])\<lparr>bk_connected := False\<rparr>) = (r, b')
     \<and> \<not> bk_connected b' \<and> bk_sent b' = []"
proof -
  define m where "m = (timeout_terminal False)\<lparr>tm_account := (\<lambda>w. (Some \<lparr>a_demo = False,
        a_balance = 5, a_login = 7\<rparr>, w))\<rparr>"
  define b where "b = (fresh_broker ([] :: int list))\<lparr>bk_connected := False\<rparr>"
  obtain r b' where r: "connect m demo_cfg b = (r, b')" by (meson surj_pair)
  have "\<not> bk_connected b" by (simp add: b_def)
  from live_account_guard [OF this r] r
  have "\<not> bk_connected b' \<and> bk_sent b' = []"
    by (auto simp: m_def b_def connect_def ask_def timeout_terminal_def demo_cfg_def fresh_broker_def)
  then show ?thesis using r unfolding m_def b_def by blast
qed

section \<open>Where the adapter falls short\<close>

text \<open>A server that refuses every request for its stops (10016), with requests printed in part.\<close>

definition refusing_terminal :: "unit terminal" where
  "refusing_terminal = \<lparr>tm_initialize = (\<lambda>w. (True, w)),
     tm_account = (\<lambda>w. (Some \<lparr>a_demo = True, a_balance = 1000, a_login = 7\<rparr>, w)), tm_select = (\<lambda>w. (True, w)),
     tm_send = (\<lambda>q w. (Some \<lparr>sr_retcode = 10016, sr_order = 0, sr_deal = 0, sr_price = 0,
        sr_volume = 0, sr_comment = ''Invalid stops''\<rparr>, w)),
     tm_positions = (\<lambda>w. ([], w)), tm_orders = (\<lambda>w. ([], w)),
     tm_tick = (\<lambda>w. (Some \<lparr>k_bid = 10018, k_ask = 10019, k_time = Some 5\<rparr>, w)),
     tm_symbol = (\<lambda>w. (None, w)), tm_deals = (\<lambda>d w. ([], w)), tm_last_error = (\<lambda>_. ''''), tm_repr = (\<lambda>s. s),
     tm_render = (\<lambda>q. ''price: '' @ (case q_price q of None \<Rightarrow> ''none''
        | Some p \<Rightarrow> show_int \<lfloor>p\<rfloor>))\<rparr>"

text \<open>The volume ladder can misread a refusal. It recognises "no money" by looking for 10019
  anywhere in an error text that quotes the whole request, so at a price of 10019 an order the
  server refuses for invalid stops is sent again at two smaller volumes.\<close>

theorem ladder_misreads_price:
  "map q_volume (bk_sent (snd (open_market refusing_terminal (demo_cfg\<lparr>k_retry := None\<rparr>)
       (demo_entry\<lparr>s_price := 10019, s_stop := Some 10009, s_tp := None\<rparr>) (fresh_broker ()))))
   = [Some 1, Some (2 / 100), Some (1 / 100)]"
  by code_simp

lemma demo_entry_stop: "s_stop demo_entry = Some 97"
  by (simp add: demo_entry_def)

lemma timeouts_place_each:
  "case send_plain (timeout_terminal True) (demo_cfg\<lparr>k_mode := ''limit''\<rparr>) q (fresh_broker []) of
     (r, q', b') \<Rightarrow> (case r of Inl _ \<Rightarrow> length (bk_world b') = 4 | Inr _ \<Rightarrow> False)"
  by code_simp

text \<open>Limit entries are sent without the double-fill guard: when every answer times out but every
  order is placed, one limit entry leaves four resting orders, and the caller sees a failure.\<close>

theorem limit_entry_duplicates:
  "(case open_signal (timeout_terminal True) (demo_cfg\<lparr>k_mode := ''limit''\<rparr>) demo_entry
        (fresh_broker []) of
      (r, b') \<Rightarrow> (case r of Inl _ \<Rightarrow> True | Inr _ \<Rightarrow> False) \<and> length (bk_world b') = 4)"
proof -
  define l where "l = limit_levels (demo_cfg\<lparr>k_mode := ''limit''\<rparr>) demo_entry \<bar>s_price demo_entry - 97\<bar>"
  show ?thesis
    using timeouts_place_each [of "limit_req (demo_cfg\<lparr>k_mode := ''limit''\<rparr>) demo_entry ''entry''
        (fst l) (snd (snd l))"]
    by (auto simp: open_signal_def open_limit_def l_def [symmetric] demo_entry_stop
        split: prod.splits sum.splits)
qed

text \<open>Without a retry policy, the command's default, an entry whose answer is lost fails for the
  caller although it opened a position: the adapter does not look for it.\<close>

definition mute_terminal :: "int list terminal" where
  "mute_terminal = (timeout_terminal True)\<lparr>tm_send := (\<lambda>q w. (None, int (length w) # w))\<rparr>"

theorem plain_entry_lost:
  "(case open_market mute_terminal (demo_cfg\<lparr>k_retry := None\<rparr>) demo_entry (fresh_broker []) of
      (r, b') \<Rightarrow> (case r of Inl _ \<Rightarrow> True | Inr _ \<Rightarrow> False) \<and> bk_world b' = [0])"
  by code_simp

end
