(* ===== verification/Svp_Profile.thy ===== *)
theory Svp_Profile
  imports Session Indicators "HOL-Library.AList"
begin

text \<open>
  The session volume profile strategy's data: \<open>orb/svp/config.py\<close>, \<open>orb/svp/levels.py\<close>,
  \<open>orb/svp/structure.py\<close> and the histogram of \<open>orb/svp/profile.py\<close>. The histogram is Python's
  dictionary as an association list, the value-area search a loop with its termination proof.
\<close>

section \<open>Configuration\<close>

record svp_config =
  sc_session_open :: int
  sc_session_len :: int
  sc_ticks_per_row :: int
  sc_tick_size :: flt
  sc_va_pct :: flt
  sc_tiebreak :: string
  sc_hvn_frac :: flt
  sc_lvn_frac :: flt
  sc_i_max_peak :: flt
  sc_min_bars :: int
  sc_max_rows :: int
  sc_tpo :: bool
  sc_edge :: bool
  sc_lvn :: bool
  sc_absorb :: bool
  sc_buffer_ticks :: flt
  sc_absorb_lookback :: int
  sc_absorb_vol :: flt
  sc_absorb_body :: flt
  sc_absorb_wick :: flt
  sc_risk_pct :: flt
  sc_partial_frac :: flt
  sc_partial_at_r :: flt
  sc_max_trades :: int
  sc_allow_long :: bool
  sc_allow_short :: bool
  sc_trend_mode :: string
  sc_swing_lookback :: int
  sc_atr_period :: int
  sc_atr_mult :: flt
  sc_atr_floor :: bool
  sc_breakeven :: flt
  sc_killzones :: "(int \<times> int) list"
  sc_block_open :: int
  sc_block_close :: int
  sc_delta :: bool
  sc_max_losses :: int
  sc_bar_sec :: int
  sc_max_gap :: int
  sc_strict :: bool

definition svp_defaults :: svp_config where
  "svp_defaults = \<lparr>sc_session_open = 0, sc_session_len = 1440, sc_ticks_per_row = 10,
     sc_tick_size = 1 / 100, sc_va_pct = 7 / 10, sc_tiebreak = ''up'', sc_hvn_frac = 7 / 10,
     sc_lvn_frac = 3 / 10, sc_i_max_peak = 3 / 2, sc_min_bars = 20, sc_max_rows = 5000,
     sc_tpo = False, sc_edge = True, sc_lvn = False, sc_absorb = False, sc_buffer_ticks = 50,
     sc_absorb_lookback = 20, sc_absorb_vol = 18 / 10, sc_absorb_body = 5, sc_absorb_wick = 2,
     sc_risk_pct = 3, sc_partial_frac = 7 / 10, sc_partial_at_r = 2, sc_max_trades = 4,
     sc_allow_long = True, sc_allow_short = True, sc_trend_mode = ''off'', sc_swing_lookback = 2,
     sc_atr_period = 14, sc_atr_mult = 0, sc_atr_floor = True, sc_breakeven = 0,
     sc_killzones = [], sc_block_open = 0, sc_block_close = 0, sc_delta = False,
     sc_max_losses = 0, sc_bar_sec = 60, sc_max_gap = 3, sc_strict = True\<rparr>"

definition killzone_ok :: "int \<times> int \<Rightarrow> bool" where
  "killzone_ok w \<longleftrightarrow> 0 \<le> fst w \<and> fst w < snd w \<and> snd w \<le> 1440"

definition svp_config_init :: "svp_config \<Rightarrow> error + svp_config" where
  "svp_config_init g =
    (if sc_ticks_per_row g < 1 then Inl (ConfigError ''ticks_per_row must be >= 1'')
     else if sc_tick_size g \<le> 0 then Inl (ConfigError ''tick_size must be > 0'')
     else if \<not> (0 < sc_va_pct g \<and> sc_va_pct g \<le> 1)
       then Inl (ConfigError ''value_area_pct must be in (0, 1]'')
     else if sc_tiebreak g \<notin> {''up'', ''down''}
       then Inl (ConfigError ''va_tiebreak must be up or down'')
     else if \<not> (0 < sc_hvn_frac g \<and> sc_hvn_frac g \<le> 1)
       then Inl (ConfigError ''hvn_frac must be in (0, 1]'')
     else if \<not> (0 < sc_lvn_frac g \<and> sc_lvn_frac g \<le> 1)
       then Inl (ConfigError ''lvn_frac must be in (0, 1]'')
     else if sc_i_max_peak g \<le> 1 then Inl (ConfigError ''i_max_peak must be > 1'')
     else if sc_min_bars g < 1 then Inl (ConfigError ''min_session_bars must be >= 1'')
     else if sc_max_rows g < 1 then Inl (ConfigError ''max_rows_per_bar must be >= 1'')
     else if sc_buffer_ticks g < 0 then Inl (ConfigError ''stop_buffer_ticks must be >= 0'')
     else if sc_absorb_lookback g < 1 then Inl (ConfigError ''absorb_lookback must be >= 1'')
     else if sc_risk_pct g \<le> 0 then Inl (ConfigError ''risk_pct must be > 0'')
     else if \<not> (0 < sc_partial_frac g \<and> sc_partial_frac g \<le> 1)
       then Inl (ConfigError ''partial_frac must be in (0, 1]'')
     else if sc_partial_at_r g \<le> 0 then Inl (ConfigError ''partial_at_r must be > 0'')
     else if sc_max_trades g < 1 then Inl (ConfigError ''max_trades_per_session must be >= 1'')
     else if \<not> (sc_allow_long g \<or> sc_allow_short g)
       then Inl (ConfigError ''at least one of allow_long/allow_short must be True'')
     else if sc_trend_mode g \<notin> {''off'', ''open'', ''structure'', ''both'', ''either''}
       then Inl (ConfigError ''trend_filter_mode must be off/open/structure/both/either'')
     else if sc_swing_lookback g < 1 then Inl (ConfigError ''swing_lookback must be >= 1'')
     else if sc_atr_period g < 1 then Inl (ConfigError ''atr_period must be >= 1'')
     else if sc_atr_mult g < 0 then Inl (ConfigError ''atr_stop_mult must be >= 0'')
     else if sc_breakeven g < 0 then Inl (ConfigError ''breakeven_at_r must be >= 0'')
     else if sc_block_open g < 0 \<or> sc_block_close g < 0
       then Inl (ConfigError ''block_open_min/block_close_min must be >= 0'')
     else if \<not> list_all killzone_ok (sc_killzones g)
       then Inl (ConfigError ''killzone must be (start_min, end_min) in [0,1440]'')
     else if sc_max_losses g < 0 then Inl (ConfigError ''max_consecutive_losses must be >= 0'')
     else if sc_session_len g < 2 then Inl (ConfigError ''session_len_min must be >= 2'')
     else if sc_bar_sec g < 1 then Inl (ConfigError ''expected_bar_sec must be >= 1'')
     else if sc_max_gap g < 0 then Inl (ConfigError ''max_gap_bars must be >= 0'')
     else Inr g)"

definition svp_config_ok :: "svp_config \<Rightarrow> bool" where
  "svp_config_ok g \<longleftrightarrow> svp_config_init g = Inr g \<and> 0 \<le> sc_session_open g
     \<and> sc_session_open g < us_day"

lemma svp_config_okD:
  assumes "svp_config_ok g"
  shows "1 \<le> sc_ticks_per_row g" "0 < sc_tick_size g" "0 < sc_va_pct g" "sc_va_pct g \<le> 1"
    "0 \<le> sc_buffer_ticks g" "1 \<le> sc_max_trades g" "1 \<le> sc_swing_lookback g"
    "1 \<le> sc_atr_period g" "0 \<le> sc_atr_mult g" "1 \<le> sc_absorb_lookback g"
    "2 \<le> sc_session_len g" "0 \<le> sc_session_open g" "sc_session_open g < us_day"
    "1 \<le> sc_max_rows g" "1 \<le> sc_min_bars g"
  using assms by (simp_all add: svp_config_ok_def svp_config_init_def not_less not_le split: if_splits)

definition row_size :: "svp_config \<Rightarrow> flt" where
  "row_size g = of_int (sc_ticks_per_row g) * sc_tick_size g"

definition svp_buffer :: "svp_config \<Rightarrow> flt" where
  "svp_buffer g = sc_buffer_ticks g * sc_tick_size g"

section \<open>Levels\<close>

datatype shape = ShapeD | ShapeP | ShapeLowB | ShapeB | ShapeI | ShapeNone

record levels =
  lv_poc :: flt
  lv_vah :: flt
  lv_val :: flt
  lv_hvns :: "flt list"
  lv_lvns :: "flt list"
  lv_shape :: shape
  lv_total :: flt

record prior_profile =
  pp_session :: int
  pp_poc :: flt
  pp_vah :: flt
  pp_val :: flt
  pp_shape :: shape

section \<open>Swing structure\<close>

record swing =
  sw_lookback :: nat
  sw_highs :: "flt list"
  sw_lows :: "flt list"
  sw_swing_highs :: "flt list"
  sw_swing_lows :: "flt list"

definition swing_new :: "nat \<Rightarrow> swing" where
  "swing_new n = \<lparr>sw_lookback = n, sw_highs = [], sw_lows = [], sw_swing_highs = [], sw_swing_lows = []\<rparr>"

definition swing_init :: "int \<Rightarrow> error + swing" where
  "swing_init n = (if n < 1 then Inl (ValueError ''lookback must be >= 1'') else Inr (swing_new (nat n)))"

definition others :: "nat \<Rightarrow> 'a list \<Rightarrow> 'a list" where
  "others c xs = take c xs @ drop (Suc c) xs"

definition swing_update :: "flt \<Rightarrow> flt \<Rightarrow> swing \<Rightarrow> swing" where
  "swing_update high low s =
     (let n = sw_lookback s; w = 2 * n + 1;
          hs = push w (sw_highs s) high; ls = push w (sw_lows s) low;
          s1 = s\<lparr>sw_highs := hs, sw_lows := ls\<rparr>
      in if length hs < w then s1
         else
           let ch = hs ! n; cl = ls ! n;
               s2 = (if list_all (\<lambda>x. ch > x) (others n hs)
                     then s1\<lparr>sw_swing_highs := push 2 (sw_swing_highs s1) ch\<rparr> else s1)
           in if list_all (\<lambda>x. cl < x) (others n ls)
              then s2\<lparr>sw_swing_lows := push 2 (sw_swing_lows s2) cl\<rparr> else s2)"

definition swing_bias :: "swing \<Rightarrow> direction option" where
  "swing_bias s = (case (sw_swing_highs s, sw_swing_lows s) of
       ([h1, h2], [l1, l2]) \<Rightarrow>
         if h2 > h1 \<and> l2 > l1 then Some LONG
         else if h2 < h1 \<and> l2 < l1 then Some SHORT else None
     | _ \<Rightarrow> None)"

definition swing_reset :: "swing \<Rightarrow> swing" where
  "swing_reset s = s\<lparr>sw_highs := [], sw_lows := [], sw_swing_highs := [], sw_swing_lows := []\<rparr>"

section \<open>The profile\<close>

text \<open>\<open>pr_span\<close> pairs \<open>_min_row\<close> and \<open>_max_row\<close>, which are set together.\<close>

record profile =
  pr_row_size :: flt
  pr_va_pct :: flt
  pr_hvn_frac :: flt
  pr_lvn_frac :: flt
  pr_min_bars :: int
  pr_max_rows :: int
  pr_tiebreak :: string
  pr_i_max_peak :: flt
  pr_tpo :: bool
  pr_anchor :: "flt option"
  pr_hist :: "(int \<times> flt) list"
  pr_span :: "(int \<times> int) option"
  pr_total :: flt
  pr_bars :: int

definition profile_init :: "profile \<Rightarrow> error + profile" where
  "profile_init p =
    (if pr_row_size p \<le> 0 then Inl (ValueError ''row_size must be > 0'')
     else if \<not> (0 < pr_va_pct p \<and> pr_va_pct p \<le> 1)
       then Inl (ValueError ''value_area_pct must be in (0, 1]'')
     else if pr_tiebreak p \<notin> {''up'', ''down''}
       then Inl (ValueError ''va_tiebreak must be up or down'')
     else Inr (p\<lparr>pr_anchor := None, pr_hist := [], pr_span := None, pr_total := 0, pr_bars := 0\<rparr>))"

definition profile_new :: "svp_config \<Rightarrow> profile" where
  "profile_new g = \<lparr>pr_row_size = row_size g, pr_va_pct = sc_va_pct g, pr_hvn_frac = sc_hvn_frac g,
     pr_lvn_frac = sc_lvn_frac g, pr_min_bars = sc_min_bars g, pr_max_rows = sc_max_rows g,
     pr_tiebreak = sc_tiebreak g, pr_i_max_peak = sc_i_max_peak g, pr_tpo = sc_tpo g,
     pr_anchor = None, pr_hist = [], pr_span = None, pr_total = 0, pr_bars = 0\<rparr>"

definition row_of :: "profile \<Rightarrow> flt \<Rightarrow> flt \<Rightarrow> int" where
  "row_of p anchor price = \<lfloor>(price - anchor) / pr_row_size p\<rfloor>"

definition row_price :: "profile \<Rightarrow> flt \<Rightarrow> int \<Rightarrow> flt" where
  "row_price p anchor row = anchor + (of_int row + 1 / 2) * pr_row_size p"

text \<open>\<open>h.get(r, 0.0)\<close>, and adding a share to each row of a range.\<close>

definition vol_at :: "(int \<times> flt) list \<Rightarrow> int \<Rightarrow> flt" where
  "vol_at h r = (case map_of h r of None \<Rightarrow> 0 | Some v \<Rightarrow> v)"

definition add_share :: "flt \<Rightarrow> int list \<Rightarrow> (int \<times> flt) list \<Rightarrow> (int \<times> flt) list" where
  "add_share share rows h = fold (\<lambda>r h. AList.update r (vol_at h r + share) h) rows h"

definition bar_weight :: "profile \<Rightarrow> candle \<Rightarrow> flt" where
  "bar_weight p c = (if c_volume c > 0 then c_volume c else if pr_tpo p then 1 else 0)"

definition profile_update :: "candle \<Rightarrow> profile \<Rightarrow> profile" where
  "profile_update c p0 =
     (let anchor = (case pr_anchor p0 of None \<Rightarrow> c_low c | Some a \<Rightarrow> a);
          p = p0\<lparr>pr_anchor := Some anchor, pr_bars := pr_bars p0 + 1\<rparr>;
          weight = bar_weight p c
      in if weight \<le> 0 then p
         else
           let a = row_of p anchor (c_low c); b = row_of p anchor (c_high c);
               lo = (if b < a then b else a); hi = (if b < a then a else b);
               n = hi - lo + 1
           in if n > pr_max_rows p then p
              else p\<lparr>pr_hist := add_share (weight / of_int n) [lo..hi] (pr_hist p),
                     pr_total := pr_total p + weight,
                     pr_span := Some (case pr_span p of None \<Rightarrow> (lo, hi)
                       | Some (mn, mx) \<Rightarrow> (min mn lo, max mx hi))\<rparr>)"

definition profile_reset :: "profile \<Rightarrow> profile" where
  "profile_reset p = p\<lparr>pr_anchor := None, pr_hist := [], pr_span := None, pr_total := 0, pr_bars := 0\<rparr>"

definition profile_ready :: "profile \<Rightarrow> bool" where
  "profile_ready p \<longleftrightarrow> pr_bars p \<ge> pr_min_bars p \<and> pr_total p > 0"

subsection \<open>Point of control and value area\<close>

text \<open>The ascending scan; ties keep the lower row.\<close>

definition poc_scan :: "(int \<times> flt) list \<Rightarrow> int list \<Rightarrow> int option \<times> flt" where
  "poc_scan h rows = foldl (\<lambda>(best, bv) r. if vol_at h r > bv then (Some r, vol_at h r) else (best, bv))
     (None, - 1) rows"

definition poc_row :: "profile \<Rightarrow> int option" where
  "poc_row p = fst (poc_scan (pr_hist p) (sort (map fst (pr_hist p))))"

text \<open>Which side to absorb next.\<close>

definition go_up :: "string \<Rightarrow> flt option \<Rightarrow> flt option \<Rightarrow> bool" where
  "go_up tie up_sum dn_sum = (case dn_sum of None \<Rightarrow> True
     | Some d \<Rightarrow> (case up_sum of None \<Rightarrow> False
        | Some u \<Rightarrow> if u > d then True else if d > u then False else tie = ''up''))"

function va_loop ::
  "(int \<Rightarrow> flt) \<Rightarrow> string \<Rightarrow> int \<Rightarrow> int \<Rightarrow> flt \<Rightarrow> flt \<Rightarrow> int \<Rightarrow> int \<Rightarrow> int \<Rightarrow> int \<Rightarrow> int \<times> int" where
  "va_loop h tie mn mx target va lo hi up dn =
     (if \<not> va < target then (lo, hi)
      else if \<not> up \<le> mx \<and> \<not> dn \<ge> mn then (lo, hi)
      else if go_up tie (if up \<le> mx then Some (h up + h (up + 1)) else None)
                        (if dn \<ge> mn then Some (h dn + h (dn - 1)) else None)
      then if up + 1 \<le> mx
           then va_loop h tie mn mx target (va + h up + h (up + 1)) lo (up + 1) (up + 2) dn
           else va_loop h tie mn mx target (va + h up) lo up (up + 1) dn
      else if dn - 1 \<ge> mn
           then va_loop h tie mn mx target (va + h dn + h (dn - 1)) (dn - 1) hi up (dn - 2)
           else va_loop h tie mn mx target (va + h dn) dn hi up (dn - 1))"
  by auto
termination
  by (relation "measure (\<lambda>(h, tie, mn, mx, target, va, lo, hi, up, dn).
        nat (mx - up + 1) + nat (dn - mn + 1))")
    (auto simp: go_up_def split: if_splits option.splits)

declare va_loop.simps [simp del]

definition value_area :: "profile \<Rightarrow> (int \<times> int) option" where
  "value_area p =
     (case poc_row p of None \<Rightarrow> None
      | Some poc \<Rightarrow>
        if pr_total p \<le> 0 then None
        else (case pr_span p of None \<Rightarrow> None
          | Some (mn, mx) \<Rightarrow>
              Some (va_loop (vol_at (pr_hist p)) (pr_tiebreak p) mn mx (pr_va_pct p * pr_total p)
                (vol_at (pr_hist p) poc) poc poc (poc + 1) (poc - 1))))"

subsection \<open>Nodes and shape\<close>

definition row_vols :: "profile \<Rightarrow> int \<Rightarrow> int \<Rightarrow> flt list" where
  "row_vols p mn mx = map (vol_at (pr_hist p)) [mn..mx]"

definition mean_of :: "flt list \<Rightarrow> flt" where
  "mean_of vols = (let occ = filter (\<lambda>v. v > 0) vols
     in if occ \<noteq> [] then sum_list occ / of_nat (length occ) else 0)"

text \<open>\<open>max(run, key=(volume, -row))\<close>: the heaviest row, the lower one on ties; rows ascend.\<close>

definition heaviest :: "(int \<Rightarrow> flt) \<Rightarrow> int list \<Rightarrow> int" where
  "heaviest h run = foldl (\<lambda>b r. if h r > h b \<or> h r = h b \<and> r < b then r else b) (hd run) (tl run)"

text \<open>\<open>_suppress_adjacent\<close>: \<open>run\<close> is the current run, reversed.\<close>

fun suppress_from :: "(int \<Rightarrow> flt) \<Rightarrow> int list \<Rightarrow> int list \<Rightarrow> int list" where
  "suppress_from h run [] = [heaviest h (rev run)]"
| "suppress_from h run (r # rs) =
     (if r = hd run + 1 then suppress_from h (r # run) rs
      else heaviest h (rev run) # suppress_from h [r] rs)"

definition suppress_adjacent :: "(int \<Rightarrow> flt) \<Rightarrow> int list \<Rightarrow> int list" where
  "suppress_adjacent h rows = (case rows of [] \<Rightarrow> [] | r # rs \<Rightarrow> suppress_from h [r] rs)"

definition peaks :: "flt list \<Rightarrow> flt \<Rightarrow> int \<Rightarrow> int list" where
  "peaks vols thresh mn = map (\<lambda>i. mn + int i) (filter (\<lambda>i.
     let v = vols ! i; left = (if i > 0 then vols ! (i - 1) else - 1);
         right = (if i < length vols - 1 then vols ! (i + 1) else - 1)
     in \<not> v < thresh \<and> v \<ge> left \<and> v \<ge> right) [0..<length vols])"

text \<open>The first row of least volume in a segment.\<close>

definition first_min :: "flt list \<Rightarrow> nat list \<Rightarrow> nat" where
  "first_min vols seg = foldl (\<lambda>b j. if vols ! j < vols ! b then j else b) (hd seg) (tl seg)"

definition lvn_rows :: "flt list \<Rightarrow> flt \<Rightarrow> int \<Rightarrow> int list \<Rightarrow> int list" where
  "lvn_rows vols thresh mn hvn = concat (map (\<lambda>(a, b).
     let seg = [nat (a - mn + 1)..<nat (b - mn)]
     in if seg = [] then []
        else (let j = first_min vols seg in if vols ! j \<le> thresh then [mn + int j] else []))
     (zip hvn (tl hvn)))"

definition nodes :: "profile \<Rightarrow> int list \<times> int list" where
  "nodes p = (case pr_span p of None \<Rightarrow> ([], [])
     | Some (mn, mx) \<Rightarrow>
       let vols = row_vols p mn mx; max_v = Max (set vols); mean_v = mean_of vols
       in if max_v \<le> 0 then ([], [])
          else
            let hvn = suppress_adjacent (vol_at (pr_hist p)) (peaks vols (pr_hvn_frac p * max_v) mn)
            in (hvn, if length hvn \<ge> 2 then lvn_rows vols (pr_lvn_frac p * mean_v) mn hvn else []))"

definition classify_shape :: "profile \<Rightarrow> shape" where
  "classify_shape p = (case (poc_row p, value_area p, pr_span p) of
       (Some poc, Some _, Some (mn, mx)) \<Rightarrow>
         if mx = mn then ShapeNone
         else
           let vols = row_vols p mn mx; max_v = Max (set vols); mean_v = mean_of vols
           in if mean_v > 0 \<and> max_v / mean_v < pr_i_max_peak p then ShapeI
              else (case nodes p of (hvn, lvn) \<Rightarrow>
                if length hvn \<ge> 2 \<and> length lvn \<ge> 1 then ShapeB
                else
                  let pos = of_int (poc - mn) / of_int (mx - mn) :: flt
                  in if pos \<ge> 66 / 100 then ShapeP
                     else if pos \<le> 34 / 100 then ShapeLowB else ShapeD)
     | _ \<Rightarrow> ShapeNone)"

definition profile_levels :: "profile \<Rightarrow> levels option" where
  "profile_levels p =
    (if \<not> profile_ready p then None
     else case (poc_row p, value_area p, pr_anchor p) of
       (Some poc, Some (lo, hi), Some anchor) \<Rightarrow>
         (case nodes p of (hvn, lvn) \<Rightarrow>
            Some \<lparr>lv_poc = row_price p anchor poc, lv_vah = row_price p anchor hi,
              lv_val = row_price p anchor lo, lv_hvns = map (row_price p anchor) hvn,
              lv_lvns = map (row_price p anchor) lvn, lv_shape = classify_shape p,
              lv_total = pr_total p\<rparr>)
     | _ \<Rightarrow> None)"

text \<open>The accessors of the profile, all empty until it is ready.\<close>

definition when_ready :: "profile \<Rightarrow> 'a \<Rightarrow> 'a \<Rightarrow> 'a" where
  "when_ready p none x = (if profile_ready p then x else none)"

definition at_price :: "profile \<Rightarrow> int \<Rightarrow> flt" where
  "at_price p r = row_price p (case pr_anchor p of None \<Rightarrow> 0 | Some a \<Rightarrow> a) r"

definition profile_poc :: "profile \<Rightarrow> flt option" where
  "profile_poc p = when_ready p None (map_option (at_price p) (poc_row p))"

definition profile_vah :: "profile \<Rightarrow> flt option" where
  "profile_vah p = when_ready p None (map_option (\<lambda>(lo, hi). at_price p hi) (value_area p))"

definition profile_val :: "profile \<Rightarrow> flt option" where
  "profile_val p = when_ready p None (map_option (\<lambda>(lo, hi). at_price p lo) (value_area p))"

definition profile_hvns :: "profile \<Rightarrow> flt list" where
  "profile_hvns p = when_ready p [] (map (at_price p) (fst (nodes p)))"

definition profile_lvns :: "profile \<Rightarrow> flt list" where
  "profile_lvns p = when_ready p [] (map (at_price p) (snd (nodes p)))"

definition profile_shape :: "profile \<Rightarrow> shape" where
  "profile_shape p = when_ready p ShapeNone (classify_shape p)"

end
