(* ===== verification/Svp_Engine.thy ===== *)
theory Svp_Engine
  imports Svp_Profile Engine_Interface
begin

text \<open>
  \<open>orb/svp/strategy.py\<close>: the edge-rotation engine over the developing session profile. The same
  surface as the ORB engine: \<open>on_candle\<close>, \<open>force_flat\<close>, callbacks logged in \<open>sv_out\<close>. Its levels are
  the ones established before the bar under test.
\<close>

section \<open>State\<close>

record svp_engine =
  sv_profile :: profile
  sv_vsma :: vsma
  sv_atr :: wilder
  sv_swing :: swing
  sv_open_px :: "flt option"
  sv_state :: state
  sv_pos :: "position option"
  sv_prior :: "prior_profile option"
  sv_traded :: int
  sv_prev_close :: "flt option"
  sv_last_ts :: "timestamp option"
  sv_session_id :: "int option"
  sv_out :: "emission list"

text \<open>The clock reads only the session fields of an \<open>OrbConfig\<close> with a one-minute range.\<close>

definition svp_clock :: "svp_config \<Rightarrow> orb_config" where
  "svp_clock g = orb_defaults\<lparr>oc_session_open := sc_session_open g,
     oc_session_len := sc_session_len g, oc_range_minutes := 1\<rparr>"

definition svp_fresh :: "svp_config \<Rightarrow> svp_engine \<Rightarrow> svp_engine" where
  "svp_fresh g e = e\<lparr>sv_profile := profile_new g,
     sv_vsma := vsma_new (nat (sc_absorb_lookback g)), sv_atr := wilder_new (nat (sc_atr_period g)),
     sv_swing := swing_new (nat (sc_swing_lookback g)), sv_open_px := None, sv_state := IDLE,
     sv_pos := None, sv_traded := 0, sv_prev_close := None\<rparr>"

definition svp_new :: "svp_config \<Rightarrow> svp_engine" where
  "svp_new g = \<lparr>sv_profile = profile_new g, sv_vsma = vsma_new (nat (sc_absorb_lookback g)),
     sv_atr = wilder_new (nat (sc_atr_period g)), sv_swing = swing_new (nat (sc_swing_lookback g)),
     sv_open_px = None, sv_state = IDLE, sv_pos = None, sv_prior = None, sv_traded = 0,
     sv_prev_close = None, sv_last_ts = None, sv_session_id = None, sv_out = []\<rparr>"

text \<open>\<open>reset()\<close>.\<close>

definition svp_reset :: "svp_config \<Rightarrow> svp_engine \<Rightarrow> svp_engine" where
  "svp_reset g e = (svp_fresh g e)\<lparr>sv_prior := None, sv_last_ts := None, sv_session_id := None\<rparr>"

section \<open>Emission\<close>

definition svp_transition ::
  "timestamp \<Rightarrow> state \<Rightarrow> state \<Rightarrow> string \<Rightarrow> detail \<Rightarrow> svp_engine \<Rightarrow> svp_engine" where
  "svp_transition ts from to ev d e = e\<lparr>sv_out := sv_out e
     @ [Trans \<lparr>t_ts = ts, t_from = from, t_to = to, t_event = ev, t_detail = d\<rparr>]\<rparr>"

definition svp_emit ::
  "timestamp \<Rightarrow> signal_kind \<Rightarrow> direction \<Rightarrow> flt \<Rightarrow> state \<Rightarrow> state \<Rightarrow> string \<Rightarrow> flt option
   \<Rightarrow> flt option \<Rightarrow> flt option \<Rightarrow> int option \<Rightarrow> svp_engine \<Rightarrow> signal \<times> svp_engine" where
  "svp_emit ts kind dir price from to reason stop hi lo bars e =
     (let sig = \<lparr>s_ts = ts, s_kind = kind, s_dir = dir, s_price = price, s_from = from, s_to = to,
         s_reason = reason, s_range_high = hi, s_range_low = lo, s_roc = None, s_rvol = None,
         s_atr = None, s_stop = stop, s_tp = None, s_qty = None, s_bars_held = bars\<rparr>
      in (sig, e\<lparr>sv_out := sv_out e @ [Sig sig]\<rparr>))"

section \<open>Filters\<close>

definition in_blackout :: "svp_config \<Rightarrow> candle \<Rightarrow> bool" where
  "in_blackout g c =
    (if sc_block_open g = 0 \<and> sc_block_close g = 0 \<and> sc_killzones g = [] then False
     else
       let t = c_ts c;
           open0 = date_of t * us_day + sc_session_open g;
           open_us = (if local_us t < open0 then open0 - us_day else open0);
           since = of_int (local_us t - open_us) / 1000000 / 60 :: flt;
           to_close = of_int (sc_session_len g) - since;
           m = minute_of_day t
       in if sc_block_open g \<noteq> 0 \<and> since < of_int (sc_block_open g) then True
          else if sc_block_close g \<noteq> 0 \<and> to_close < of_int (sc_block_close g) then True
          else sc_killzones g \<noteq> [] \<and> \<not> list_ex (\<lambda>(s, e). s \<le> m \<and> m < e) (sc_killzones g))"

definition bias_open :: "svp_engine \<Rightarrow> direction option" where
  "bias_open e = (case (sv_prior e, sv_open_px e) of
       (Some pp, Some px) \<Rightarrow> if px > pp_poc pp then Some LONG
          else if px < pp_poc pp then Some SHORT else None
     | _ \<Rightarrow> None)"

definition trend_ok :: "svp_config \<Rightarrow> direction \<Rightarrow> svp_engine \<Rightarrow> bool" where
  "trend_ok g dir e =
     (let a = bias_open e; b = swing_bias (sv_swing e); mode = sc_trend_mode g
      in if mode = ''off'' then True
         else if mode = ''open'' then a = Some dir
         else if mode = ''structure'' then b = Some dir
         else if mode = ''both'' then a = Some dir \<and> b = Some dir
         else a = Some dir \<or> b = Some dir)"

definition delta_confirms :: "svp_config \<Rightarrow> candle \<Rightarrow> svp_engine \<Rightarrow> bool" where
  "delta_confirms g c e =
     (if \<not> sc_delta g then True
      else if c_volume c \<le> 0 then True
      else (case vsma_value (sv_vsma e) of None \<Rightarrow> True
            | Some avg \<Rightarrow> if avg \<le> 0 then True else c_volume c < avg))"

definition entry_allowed :: "svp_config \<Rightarrow> candle \<Rightarrow> direction \<Rightarrow> svp_engine \<Rightarrow> bool" where
  "entry_allowed g c dir e \<longleftrightarrow> \<not> in_blackout g c \<and> trend_ok g dir e \<and> delta_confirms g c e"

definition risk_stop :: "svp_config \<Rightarrow> candle \<Rightarrow> direction \<Rightarrow> flt \<Rightarrow> svp_engine \<Rightarrow> flt" where
  "risk_stop g c dir structural e =
     (if sc_atr_mult g \<le> 0 then structural
      else (case w_atr (sv_atr e) of None \<Rightarrow> structural
        | Some atr \<Rightarrow>
          let dist = sc_atr_mult g * atr;
              atr_stop = (if dir = SHORT then c_close c + dist else c_close c - dist)
          in if sc_atr_floor g
             then (if dir = SHORT then max atr_stop structural else min atr_stop structural)
             else atr_stop))"

section \<open>Entries and exits\<close>

definition svp_enter ::
  "svp_config \<Rightarrow> candle \<Rightarrow> direction \<Rightarrow> flt \<Rightarrow> string \<Rightarrow> levels \<Rightarrow> svp_engine
   \<Rightarrow> signal option \<times> svp_engine" where
  "svp_enter g c dir structural reason lv e =
     (if \<not> entry_allowed g c dir e then (None, e)
      else
        let stop = risk_stop g c dir structural e;
            atr = (case w_atr (sv_atr e) of None \<Rightarrow> 0 | Some a \<Rightarrow> a);
            e1 = e\<lparr>sv_pos := Some \<lparr>p_dir = dir, p_entry_ts = c_ts c, p_entry = c_close c,
                     p_stop = stop, p_atr = atr, p_tp = None, p_bars = 0, p_mfe = 0, p_mae = 0\<rparr>,
                   sv_traded := sv_traded e + 1\<rparr>;
            e2 = (svp_transition (c_ts c) RANGE_DEFINED BREAKOUT
                    (if dir = LONG then ''ENTRY_LONG'' else ''ENTRY_SHORT'')
                    (EntryNote (c_close c) stop reason) e1)\<lparr>sv_state := BREAKOUT\<rparr>
        in case svp_emit (c_ts c) ENTRY dir (c_close c) RANGE_DEFINED BREAKOUT reason (Some stop)
                  (Some (lv_vah lv)) (Some (lv_val lv)) (Some 0) e2 of
             (sig, e3) \<Rightarrow> (Some sig, e3))"

definition edge_rotation ::
  "svp_config \<Rightarrow> candle \<Rightarrow> levels \<Rightarrow> svp_engine \<Rightarrow> signal option \<times> svp_engine" where
  "edge_rotation g c lv e =
     (if lv_shape lv \<noteq> ShapeD then (None, e)
      else
        let hi = (c_high c \<ge> lv_vah lv); lo = (c_low c \<le> lv_val lv);
            inside = (lv_val lv < c_close c \<and> c_close c < lv_vah lv)
        in if hi \<and> \<not> lo \<and> inside \<and> sc_allow_short g
           then svp_enter g c SHORT (lv_vah lv + svp_buffer g) ''edge_rot_vah_fade'' lv e
           else if lo \<and> \<not> hi \<and> inside \<and> sc_allow_long g
           then svp_enter g c LONG (lv_val lv - svp_buffer g) ''edge_rot_val_fade'' lv e
           else (None, e))"

text \<open>The loop over the low-volume nodes returns at the first one crossed, entry or veto.\<close>

fun lvn_scan ::
  "svp_config \<Rightarrow> candle \<Rightarrow> levels \<Rightarrow> flt \<Rightarrow> flt list \<Rightarrow> svp_engine \<Rightarrow> signal option \<times> svp_engine" where
  "lvn_scan g c lv prev [] e = (None, e)"
| "lvn_scan g c lv prev (n # ns) e =
     (if prev \<le> n \<and> n < c_close c \<and> sc_allow_long g
      then svp_enter g c LONG (n - svp_buffer g) ''lvn_break_long'' lv e
      else if prev \<ge> n \<and> n > c_close c \<and> sc_allow_short g
      then svp_enter g c SHORT (n + svp_buffer g) ''lvn_break_short'' lv e
      else lvn_scan g c lv prev ns e)"

definition lvn_break ::
  "svp_config \<Rightarrow> candle \<Rightarrow> levels \<Rightarrow> flt option \<Rightarrow> svp_engine \<Rightarrow> signal option \<times> svp_engine" where
  "lvn_break g c lv prev e = (case prev of None \<Rightarrow> (None, e)
     | Some p \<Rightarrow> lvn_scan g c lv p (lv_lvns lv) e)"

definition absorption_proxy ::
  "svp_config \<Rightarrow> candle \<Rightarrow> levels \<Rightarrow> flt option \<Rightarrow> svp_engine \<Rightarrow> signal option \<times> svp_engine" where
  "absorption_proxy g c lv avg e =
    (case avg of None \<Rightarrow> (None, e) | Some av \<Rightarrow>
     if av \<le> 0 \<or> c_volume c < sc_absorb_vol g * av then (None, e)
     else
       let body = \<bar>c_close c - c_open c\<bar>
       in if body > sc_absorb_body g * sc_tick_size g then (None, e)
          else if \<not> list_ex (\<lambda>h. \<bar>c_close c - h\<bar> \<le> row_size g) (lv_hvns lv) then (None, e)
          else
            let upper = c_high c - max (c_open c) (c_close c);
                lower = min (c_open c) (c_close c) - c_low c;
                wick = sc_absorb_wick g * max body (sc_tick_size g)
            in if lower \<ge> wick \<and> lower \<ge> upper \<and> sc_allow_long g
               then svp_enter g c LONG (c_low c - svp_buffer g) ''absorb_long'' lv e
               else if upper \<ge> wick \<and> upper > lower \<and> sc_allow_short g
               then svp_enter g c SHORT (c_high c + svp_buffer g) ''absorb_short'' lv e
               else (None, e))"

text \<open>Setups in order; the next is tried when the one before gave no signal.\<close>

definition orelse ::
  "(svp_engine \<Rightarrow> signal option \<times> svp_engine) \<Rightarrow> (svp_engine \<Rightarrow> signal option \<times> svp_engine)
   \<Rightarrow> svp_engine \<Rightarrow> signal option \<times> svp_engine" where
  "orelse f f' e = (case f e of (Some s, e1) \<Rightarrow> (Some s, e1) | (None, e1) \<Rightarrow> f' e1)"

definition detect_setup ::
  "svp_config \<Rightarrow> candle \<Rightarrow> levels \<Rightarrow> flt option \<Rightarrow> flt option \<Rightarrow> svp_engine
   \<Rightarrow> signal option \<times> svp_engine" where
  "detect_setup g c lv prev avg =
     orelse (\<lambda>e. if sc_edge g then edge_rotation g c lv e else (None, e))
       (orelse (\<lambda>e. if sc_lvn g then lvn_break g c lv prev e else (None, e))
          (\<lambda>e. if sc_absorb g then absorption_proxy g c lv avg e else (None, e)))"

definition svp_force_exit ::
  "candle \<Rightarrow> string \<Rightarrow> state \<Rightarrow> svp_engine \<Rightarrow> (error + signal option) \<times> svp_engine" where
  "svp_force_exit c reason to e =
    (case sv_pos e of None \<Rightarrow> (Inl AssertionError, e)
     | Some pos \<Rightarrow>
       (case svp_emit (c_ts c) EXIT_SIG (p_dir pos) (c_close c) BREAKOUT to reason
               (Some (p_stop pos)) None None (Some (p_bars pos))
               (svp_transition (c_ts c) BREAKOUT to ''EXIT_SESSION''
                  (ExitAt (c_close c) (p_bars pos)) e) of
          (sig, e1) \<Rightarrow> (Inr (Some sig), e1\<lparr>sv_pos := None, sv_state := to\<rparr>)))"

definition svp_force_flat :: "timestamp \<Rightarrow> svp_engine \<Rightarrow> signal option \<times> svp_engine" where
  "svp_force_flat ts e =
    (case sv_pos e of None \<Rightarrow> (None, e)
     | Some pos \<Rightarrow>
       (case svp_emit ts EXIT_SIG (p_dir pos) (p_stop pos) BREAKOUT RANGE_DEFINED ''broker_closed''
               (Some (p_stop pos)) None None (Some (p_bars pos))
               (svp_transition ts BREAKOUT RANGE_DEFINED ''EXIT_BROKER'' (BarsHeld (p_bars pos)) e) of
          (sig, e1) \<Rightarrow> (Some sig, e1\<lparr>sv_pos := None, sv_state := RANGE_DEFINED\<rparr>)))"

section \<open>State handlers\<close>

definition svp_idle :: "candle \<Rightarrow> session_info \<Rightarrow> svp_engine \<Rightarrow> svp_engine" where
  "svp_idle c info e =
     (if in_session (si_zone info)
      then (svp_transition (c_ts c) IDLE RANGE_DEFINED ''SESSION_OPEN'' (SessionId (si_id info)) e)
             \<lparr>sv_state := RANGE_DEFINED\<rparr>
      else e)"

definition svp_armed ::
  "svp_config \<Rightarrow> candle \<Rightarrow> flt option \<Rightarrow> levels option \<Rightarrow> flt option \<Rightarrow> svp_engine
   \<Rightarrow> signal option \<times> svp_engine" where
  "svp_armed g c prev lv avg e =
     (if sv_traded e \<ge> sc_max_trades g then (None, e)
      else (case lv of None \<Rightarrow> (None, e) | Some l \<Rightarrow> detect_setup g c l prev avg e))"

definition svp_in_position :: "svp_engine \<Rightarrow> svp_engine" where
  "svp_in_position e = (case sv_pos e of None \<Rightarrow> e
     | Some p \<Rightarrow> e\<lparr>sv_pos := Some (p\<lparr>p_bars := p_bars p + 1\<rparr>)\<rparr>)"

section \<open>Sessions\<close>

definition gap_ok :: "int \<Rightarrow> int \<Rightarrow> bool" where
  "gap_ok prev new \<longleftrightarrow> 0 < new - prev \<and> new - prev \<le> 3"

definition roll_session :: "svp_config \<Rightarrow> int \<Rightarrow> timestamp \<Rightarrow> svp_engine \<Rightarrow> svp_engine" where
  "roll_session g new_id ts e =
     (let e1 = (case sv_session_id e of None \<Rightarrow> e
        | Some old \<Rightarrow>
          svp_transition ts (sv_state e) IDLE ''SESSION_RESET'' (SessionId new_id)
            (e\<lparr>sv_prior := (case profile_levels (sv_profile e) of
                 Some lv \<Rightarrow> if gap_ok old new_id
                   then Some \<lparr>pp_session = old, pp_poc = lv_poc lv, pp_vah = lv_vah lv,
                     pp_val = lv_val lv, pp_shape = lv_shape lv\<rparr> else None
               | None \<Rightarrow> None)\<rparr>))
      in (svp_fresh g e1)\<lparr>sv_session_id := Some new_id\<rparr>)"

text \<open>\<open>on_candle\<close> up to the feed.\<close>

datatype svp_flow = SvpReturn "error + signal option" | SvpContinue

definition svp_front ::
  "svp_config \<Rightarrow> session_info \<Rightarrow> candle \<Rightarrow> svp_engine \<Rightarrow> svp_flow \<times> svp_engine" where
  "svp_front g info c e =
    (if Some (si_id info) \<noteq> sv_session_id e then
       (case (if sv_state e = BREAKOUT then svp_force_exit c ''session_end'' IDLE e
              else (Inr None, e)) of
          (Inl er, e1) \<Rightarrow> (SvpReturn (Inl er), e1)
        | (Inr sig, e1) \<Rightarrow>
            ((case sig of None \<Rightarrow> SvpContinue | Some s \<Rightarrow> SvpReturn (Inr (Some s))),
             (roll_session g (si_id info) (c_ts c) e1)\<lparr>sv_last_ts := Some (c_ts c)\<rparr>))
     else if si_zone info = AFTER then
       (let e1 = e\<lparr>sv_last_ts := Some (c_ts c)\<rparr>
        in if sv_state e1 = BREAKOUT then
             (case svp_force_exit c ''session_end'' IDLE e1 of (res, e2) \<Rightarrow> (SvpReturn res, e2))
           else if sv_state e1 \<noteq> IDLE then
             (SvpReturn (Inr None),
              (svp_transition (c_ts c) (sv_state e1) IDLE ''SESSION_DONE'' NoDetail e1)
                \<lparr>sv_state := IDLE\<rparr>)
           else (SvpReturn (Inr None), e1))
     else (SvpContinue, e\<lparr>sv_last_ts := Some (c_ts c)\<rparr>))"

definition svp_feed :: "session_info \<Rightarrow> candle \<Rightarrow> svp_engine \<Rightarrow> svp_engine" where
  "svp_feed info c e =
     (if in_session (si_zone info) then
        e\<lparr>sv_profile := profile_update c (sv_profile e),
          sv_vsma := vsma_update (c_volume c) (sv_vsma e),
          sv_atr := wilder_update (c_high c, c_low c, c_close c) (sv_atr e),
          sv_swing := swing_update (c_high c) (c_low c) (sv_swing e),
          sv_open_px := (case sv_open_px e of None \<Rightarrow> Some (c_open c) | Some x \<Rightarrow> Some x),
          sv_prev_close := Some (c_close c)\<rparr>
      else e)"

text \<open>The levels before the bar, absent outside the session.\<close>

definition pre_levels :: "session_info \<Rightarrow> svp_engine \<Rightarrow> levels option" where
  "pre_levels info e = (if in_session (si_zone info) then profile_levels (sv_profile e) else None)"

definition svp_dispatch ::
  "svp_config \<Rightarrow> candle \<Rightarrow> session_info \<Rightarrow> svp_engine \<Rightarrow> (error + signal option) \<times> svp_engine" where
  "svp_dispatch g c info e =
    (let prev = sv_prev_close e; lv = pre_levels info e; avg = vsma_value (sv_vsma e);
         e1 = svp_feed info c e
     in case sv_state e1 of
          IDLE \<Rightarrow> (Inr None, svp_idle c info e1)
        | RANGE_DEFINED \<Rightarrow> (case svp_armed g c prev lv avg e1 of (sig, e2) \<Rightarrow> (Inr sig, e2))
        | BREAKOUT \<Rightarrow> (Inr None, svp_in_position e1)
        | EXIT \<Rightarrow> (Inr None, e1))"

definition svp_step ::
  "svp_config \<Rightarrow> candle \<Rightarrow> svp_engine \<Rightarrow> (error + signal option) \<times> svp_engine" where
  "svp_step g c e =
    (if (case sv_last_ts e of None \<Rightarrow> False | Some t \<Rightarrow> utc (c_ts c) \<le> utc t) then
       (if sc_strict g then (Inl OutOfOrderError, e) else (Inr None, e))
     else
       let info = classify (svp_clock g) (c_ts c)
       in case svp_front g info c e of
            (SvpReturn res, e1) \<Rightarrow> (res, e1)
          | (SvpContinue, e1) \<Rightarrow> svp_dispatch g c info e1)"

definition svp_on_candle ::
  "svp_config \<Rightarrow> raw_candle \<Rightarrow> svp_engine \<Rightarrow> (error + signal option) \<times> svp_engine" where
  "svp_on_candle g r e = (case validate r of Inl er \<Rightarrow> (Inl er, e) | Inr c \<Rightarrow> svp_step g c e)"

end
