(* ===== verification/Svp_Profile_Properties.thy ===== *)
theory Svp_Profile_Properties
  imports Svp_Profile
begin

text \<open>
  What the session profile promises: no volume is lost or made up, the point of control is the
  heaviest row (the lowest of equals), and the value area is a band around it that holds the
  configured share of the volume and not much more than it must.
\<close>

section \<open>Mass\<close>

definition mass :: "(int \<times> flt) list \<Rightarrow> flt" where
  "mass h = (\<Sum>r \<in> fst ` set h. vol_at h r)"

lemma vol_at_update: "vol_at (AList.update r v h) = (vol_at h)(r := v)"
  by (auto simp: vol_at_def fun_eq_iff update_conv')

lemma keys_update: "fst ` set (AList.update r v h) = insert r (fst ` set h)"
  by (simp add: dom_update)

lemma vol_at_missing: "r \<notin> fst ` set h \<Longrightarrow> vol_at h r = 0"
  by (simp add: vol_at_def map_of_eq_None_iff [THEN iffD2] split: option.splits)

lemma mass_update: "mass (AList.update r (vol_at h r + s) h) = mass h + s"
proof (cases "r \<in> fst ` set h")
  case True
  have "mass (AList.update r (vol_at h r + s) h)
      = (\<Sum>x \<in> fst ` set h. ((vol_at h)(r := vol_at h r + s)) x)"
    using True by (simp add: mass_def keys_update vol_at_update insert_absorb)
  also have "\<dots> = (vol_at h r + s) + (\<Sum>x \<in> fst ` set h - {r}. vol_at h x)"
    using True by (simp add: sum.remove [of _ r])
  also have "\<dots> = mass h + s"
    using True by (simp add: mass_def sum.remove [of _ r "vol_at h"])
  finally show ?thesis .
next
  case False
  have "(\<Sum>x \<in> fst ` set h. ((vol_at h)(r := vol_at h r + s)) x) = mass h"
    unfolding mass_def by (rule sum.cong) (use False in auto)
  then show ?thesis using False
    by (simp add: mass_def keys_update vol_at_update vol_at_missing)
qed

definition keys_pos :: "(int \<times> flt) list \<Rightarrow> bool" where
  "keys_pos h \<longleftrightarrow> (\<forall>r \<in> fst ` set h. 0 < vol_at h r)"

lemma vol_at_nonneg: "keys_pos h \<Longrightarrow> 0 \<le> vol_at h r"
  by (cases "r \<in> fst ` set h") (auto simp: keys_pos_def vol_at_missing less_imp_le)

lemma add_share_step:
  assumes "0 < s" "keys_pos h"
  shows "keys_pos (AList.update r (vol_at h r + s) h)"
  using assms vol_at_nonneg [OF assms(2), of r]
  by (auto simp: keys_pos_def keys_update vol_at_update)

lemma add_share_ok:
  "0 < s \<Longrightarrow> keys_pos h \<Longrightarrow> keys_pos (add_share s rows h)
     \<and> mass (add_share s rows h) = mass h + of_nat (length rows) * s
     \<and> fst ` set (add_share s rows h) = fst ` set h \<union> set rows"
proof (induction rows arbitrary: h)
  case Nil
  then show ?case by (simp add: add_share_def)
next
  case (Cons r rows)
  have e: "add_share s (r # rows) h = add_share s rows (AList.update r (vol_at h r + s) h)"
    by (simp add: add_share_def)
  show ?case unfolding e
    using Cons.IH [OF Cons.prems(1) add_share_step [OF Cons.prems]]
    by (auto simp: mass_update keys_update distrib_right)
qed

section \<open>The invariant\<close>

definition prof_inv :: "profile \<Rightarrow> bool" where
  "prof_inv p \<longleftrightarrow> 0 < pr_row_size p \<and> 0 < pr_va_pct p \<and> pr_va_pct p \<le> 1
     \<and> keys_pos (pr_hist p) \<and> mass (pr_hist p) = pr_total p
     \<and> (case pr_span p of None \<Rightarrow> pr_hist p = []
        | Some (mn, mx) \<Rightarrow> pr_anchor p \<noteq> None \<and> pr_hist p \<noteq> []
            \<and> fst ` set (pr_hist p) \<subseteq> {mn..mx})"

lemma profile_new_inv: "svp_config_ok g \<Longrightarrow> prof_inv (profile_new g)"
  using svp_config_okD [of g]
  by (simp add: prof_inv_def profile_new_def row_size_def keys_pos_def mass_def)

lemma profile_update_inv:
  assumes inv: "prof_inv p" and c: "c_low c \<le> c_high c"
  shows "prof_inv (profile_update c p)"
proof -
  define anchor where "anchor = (case pr_anchor p of None \<Rightarrow> c_low c | Some a \<Rightarrow> a)"
  define p1 where "p1 = p\<lparr>pr_anchor := Some anchor, pr_bars := pr_bars p + 1\<rparr>"
  define w where "w = bar_weight p1 c"
  define a b where "a = row_of p1 anchor (c_low c)" and "b = row_of p1 anchor (c_high c)"
  have ab: "a \<le> b" unfolding a_def b_def row_of_def
    by (rule floor_mono, rule divide_right_mono) (use inv c in \<open>simp_all add: prof_inv_def p1_def\<close>)
  have i1: "prof_inv p1" using inv by (auto simp: prof_inv_def p1_def split: option.splits)
  show ?thesis
  proof (cases "w \<le> 0 \<or> b - a + 1 > pr_max_rows p1")
    case True
    then have "profile_update c p = p1" using ab
      by (auto simp: profile_update_def Let_def anchor_def [symmetric] p1_def [symmetric]
          w_def [symmetric] a_def [symmetric] b_def [symmetric])
    then show ?thesis using i1 by simp
  next
    case False
    then have w: "0 < w" and n: "0 < b - a + 1" using ab by auto
    define s where "s = w / of_int (b - a + 1)"
    have s: "0 < s" using w n by (simp add: s_def)
    define p2 where "p2 = p1\<lparr>pr_hist := add_share s [a..b] (pr_hist p1),
      pr_total := pr_total p1 + w, pr_span := Some (case pr_span p1 of None \<Rightarrow> (a, b)
        | Some (mn, mx) \<Rightarrow> (min mn a, max mx b))\<rparr>"
    have e: "profile_update c p = p2" using False ab
      by (simp add: profile_update_def Let_def anchor_def [symmetric] p1_def [symmetric]
          w_def [symmetric] a_def [symmetric] b_def [symmetric] p2_def s_def)
    have kp: "keys_pos (pr_hist p1)" using i1 by (simp add: prof_inv_def)
    note sh = add_share_ok [OF s kp, of "[a..b]"]
    have "of_nat (length [a..b]) * s = w" using n by (simp add: s_def)
    then have m: "mass (pr_hist p2) = pr_total p2" "keys_pos (pr_hist p2)"
      using sh i1 by (simp_all add: p2_def prof_inv_def)
    have k: "fst ` set (pr_hist p2) = fst ` set (pr_hist p1) \<union> {a..b}"
      using sh by (simp add: p2_def)
    have ne: "pr_hist p2 \<noteq> []" using k ab by force
    have cfg: "0 < pr_row_size p2" "0 < pr_va_pct p2" "pr_va_pct p2 \<le> 1" "pr_anchor p2 \<noteq> None"
      using i1 by (simp_all add: prof_inv_def p2_def p1_def)
    obtain mn mx where sp: "pr_span p2 = Some (mn, mx)" "mn \<le> a" "b \<le> mx"
        "fst ` set (pr_hist p1) \<subseteq> {mn..mx}"
    proof (cases "pr_span p1")
      case None
      then have "pr_hist p1 = []" using i1 by (simp add: prof_inv_def)
      then show thesis using that [of a b] None by (simp add: p2_def)
    next
      case (Some x)
      obtain mn0 mx0 where x: "x = (mn0, mx0)" by (cases x)
      have "fst ` set (pr_hist p1) \<subseteq> {mn0..mx0}" using i1 Some x by (simp add: prof_inv_def)
      also have "\<dots> \<subseteq> {min mn0 a..max mx0 b}" by auto
      finally show thesis using that [of "min mn0 a" "max mx0 b"] Some x by (simp add: p2_def)
    qed
    have "{a..b} \<subseteq> {mn..mx}" using sp(2,3) by auto
    then have "fst ` set (pr_hist p2) \<subseteq> {mn..mx}" using k sp(4) by simp
    then show ?thesis unfolding e prof_inv_def using m ne cfg sp(1) by simp
  qed
qed

lemma profile_fold_inv:
  "prof_inv p \<Longrightarrow> \<forall>c \<in> set cs. candle_ok c \<Longrightarrow> prof_inv (fold profile_update cs p)"
proof (induction cs arbitrary: p)
  case Nil
  then show ?case by simp
next
  case (Cons c cs)
  have "c_low c \<le> c_high c" using Cons.prems(2) by (auto simp: candle_ok_def)
  then have "prof_inv (profile_update c p)" by (rule profile_update_inv [OF Cons.prems(1)])
  then show ?case using Cons.IH Cons.prems(2) by simp
qed

section \<open>Point of control\<close>

lemma sort_eq_Nil: "sort xs = [] \<longleftrightarrow> xs = []"
  by (metis length_0_conv length_sort)


lemma poc_scan_spec:
  assumes "sorted rows" "keys_pos h" "set rows \<subseteq> fst ` set h" "rows \<noteq> []"
  shows "\<exists>r. poc_scan h rows = (Some r, vol_at h r) \<and> r \<in> set rows
     \<and> (\<forall>x \<in> set rows. vol_at h x \<le> vol_at h r \<and> (vol_at h x = vol_at h r \<longrightarrow> r \<le> x))"
  using assms
proof (induction rows rule: rev_induct)
  case Nil
  then show ?case by simp
next
  case (snoc y rows)
  have vy: "0 < vol_at h y" using snoc.prems by (auto simp: keys_pos_def)
  show ?case
  proof (cases "rows = []")
    case True
    then show ?thesis using vy by (simp add: poc_scan_def)
  next
    case False
    obtain r where r: "poc_scan h rows = (Some r, vol_at h r)" "r \<in> set rows"
      "\<forall>x \<in> set rows. vol_at h x \<le> vol_at h r \<and> (vol_at h x = vol_at h r \<longrightarrow> r \<le> x)"
      using snoc.IH snoc.prems False by (auto simp: sorted_append)
    have "r \<le> y" using snoc.prems(1) r(2) by (auto simp: sorted_append)
    moreover have "poc_scan h (rows @ [y]) = (if vol_at h y > vol_at h r then (Some y, vol_at h y)
        else (Some r, vol_at h r))"
      using r(1) by (simp add: poc_scan_def)
    ultimately show ?thesis using r(2,3) by (cases "vol_at h y > vol_at h r") force+
  qed
qed

lemma poc_row_spec:
  assumes "prof_inv p" "pr_hist p \<noteq> []"
  obtains r where "poc_row p = Some r" "r \<in> fst ` set (pr_hist p)"
    "\<And>x. vol_at (pr_hist p) x \<le> vol_at (pr_hist p) r"
    "\<And>x. vol_at (pr_hist p) x = vol_at (pr_hist p) r \<Longrightarrow> r \<le> x"
proof -
  have kp: "keys_pos (pr_hist p)" using assms(1) by (simp add: prof_inv_def)
  obtain r where r: "poc_row p = Some r" "r \<in> fst ` set (pr_hist p)"
    "\<forall>x \<in> fst ` set (pr_hist p). vol_at (pr_hist p) x \<le> vol_at (pr_hist p) r
       \<and> (vol_at (pr_hist p) x = vol_at (pr_hist p) r \<longrightarrow> r \<le> x)"
  proof -
    have "sort (map fst (pr_hist p)) \<noteq> []" "set (sort (map fst (pr_hist p))) = fst ` set (pr_hist p)"
      using assms(2) by (simp_all add: sort_eq_Nil)
    then show thesis using poc_scan_spec [OF sorted_sort kp, of "map fst (pr_hist p)"] that
      by (metis fst_conv order_refl poc_row_def)
  qed
  have pos: "0 < vol_at (pr_hist p) r" using kp r(2) unfolding keys_pos_def by blast
  show thesis
  proof (rule that [OF r(1,2)])
    fix x
    show "vol_at (pr_hist p) x \<le> vol_at (pr_hist p) r"
      using r(3) pos vol_at_missing [of x "pr_hist p"] by (cases "x \<in> fst ` set (pr_hist p)") auto
    show "vol_at (pr_hist p) x = vol_at (pr_hist p) r \<Longrightarrow> r \<le> x"
      using r(3) pos vol_at_missing [of x "pr_hist p"] by (cases "x \<in> fst ` set (pr_hist p)") auto
  qed
qed

section \<open>Value area\<close>

lemma sum_up: "(lo :: int) \<le> hi + 1 \<Longrightarrow> (\<Sum>r = lo..hi + 1. f r) = (\<Sum>r = lo..hi. f r) + f (hi + 1)"
proof -
  assume "lo \<le> hi + 1"
  then have "{lo..hi + 1} = insert (hi + 1) {lo..hi}" by auto
  then show ?thesis by (simp add: add.commute)
qed

lemma sum_down: "lo - 1 \<le> (hi :: int) \<Longrightarrow> (\<Sum>r = lo - 1..hi. f r) = (\<Sum>r = lo..hi. f r) + f (lo - 1)"
proof -
  assume "lo - 1 \<le> hi"
  then have "{lo - 1..hi} = insert (lo - 1) {lo..hi}" by auto
  then show ?thesis by (simp add: add.commute)
qed

definition tight :: "(int \<Rightarrow> flt) \<Rightarrow> flt \<Rightarrow> int \<Rightarrow> int \<Rightarrow> int \<Rightarrow> bool" where
  "tight h target poc l u \<longleftrightarrow> l = poc \<and> u = poc
     \<or> (\<exists>l' u'. l \<le> l' \<and> u' \<le> u \<and> (u - u') + (l' - l) \<le> 2 \<and> (\<Sum>r = l'..u'. h r) < target)"

lemma va_loop_spec:
  "va = (\<Sum>r = lo..hi. h r) \<Longrightarrow> up = hi + 1 \<Longrightarrow> dn = lo - 1 \<Longrightarrow> mn \<le> lo \<Longrightarrow> lo \<le> poc \<Longrightarrow> poc \<le> hi
   \<Longrightarrow> hi \<le> mx \<Longrightarrow> tight h target poc lo hi
   \<Longrightarrow> va_loop h tie mn mx target va lo hi up dn = (l, u)
   \<Longrightarrow> mn \<le> l \<and> l \<le> poc \<and> poc \<le> u \<and> u \<le> mx
     \<and> (target \<le> (\<Sum>r = l..u. h r) \<or> l = mn \<and> u = mx) \<and> tight h target poc l u"
proof (induction h tie mn mx target va lo hi up dn rule: va_loop.induct)
  case (1 h tie mn mx target va lo hi up dn)
  note prem = "1.prems"
  have lh: "lo \<le> hi" using prem(5,6) by simp
  let ?g = "go_up tie (if up \<le> mx then Some (h up + h (up + 1)) else None)
                   (if dn \<ge> mn then Some (h dn + h (dn - 1)) else None)"
  consider (enough) "\<not> va < target" | (full) "va < target" "\<not> up \<le> mx \<and> \<not> dn \<ge> mn"
    | (up2) "va < target" "\<not> (\<not> up \<le> mx \<and> \<not> dn \<ge> mn)" "?g" "up + 1 \<le> mx"
    | (up1) "va < target" "\<not> (\<not> up \<le> mx \<and> \<not> dn \<ge> mn)" "?g" "\<not> up + 1 \<le> mx"
    | (dn2) "va < target" "\<not> (\<not> up \<le> mx \<and> \<not> dn \<ge> mn)" "\<not> ?g" "dn - 1 \<ge> mn"
    | (dn1) "va < target" "\<not> (\<not> up \<le> mx \<and> \<not> dn \<ge> mn)" "\<not> ?g" "\<not> dn - 1 \<ge> mn"
    by blast
  then show ?case
  proof cases
    case enough
    then have "(l, u) = (lo, hi)" using prem(9) by (subst (asm) va_loop.simps) simp
    then show ?thesis using enough prem by simp
  next
    case full
    then have "(l, u) = (lo, hi)" using prem(9) by (subst (asm) va_loop.simps) simp
    then show ?thesis using full prem by simp
  next
    case up2
    have r: "va_loop h tie mn mx target (va + h up + h (up + 1)) lo (up + 1) (up + 2) dn = (l, u)"
      using prem(9) up2 by (subst (asm) va_loop.simps) simp
    have s: "va + h up + h (up + 1) = (\<Sum>r = lo..up + 1. h r)"
      using prem(1,2) lh sum_up [of lo hi h] sum_up [of lo "hi + 1" h] by simp
    have t: "tight h target poc lo (up + 1)" unfolding tight_def
      by (intro disjI2 exI [of _ lo] exI [of _ hi]) (use prem(1,2) up2(1) in simp)
    show ?thesis by (rule "1.IH"(1) [OF _ up2(2,3,4) s _ prem(3,4,5) _ _ t r])
        (use prem up2 in simp_all)
  next
    case up1
    have ok: "up \<le> mx" using up1 by (auto simp: go_up_def split: if_splits)
    have r: "va_loop h tie mn mx target (va + h up) lo up (up + 1) dn = (l, u)"
      using prem(9) up1 by (subst (asm) va_loop.simps) simp
    have s: "va + h up = (\<Sum>r = lo..up. h r)" using prem(1,2) lh sum_up [of lo hi h] by simp
    have t: "tight h target poc lo up" unfolding tight_def
      by (intro disjI2 exI [of _ lo] exI [of _ hi]) (use prem(1,2) up1(1) in simp)
    show ?thesis by (rule "1.IH"(2) [OF _ up1(2,3,4) s _ prem(3,4,5) _ _ t r])
        (use prem up1 ok in simp_all)
  next
    case dn2
    have r: "va_loop h tie mn mx target (va + h dn + h (dn - 1)) (dn - 1) hi up (dn - 2) = (l, u)"
      using prem(9) dn2 by (subst (asm) va_loop.simps) simp
    have s: "va + h dn + h (dn - 1) = (\<Sum>r = dn - 1..hi. h r)"
      using prem(1,3) lh sum_down [of lo hi h] sum_down [of "lo - 1" hi h] by simp
    have t: "tight h target poc (dn - 1) hi" unfolding tight_def
      by (intro disjI2 exI [of _ lo] exI [of _ hi]) (use prem(1,3) dn2(1) in simp)
    show ?thesis by (rule "1.IH"(3) [OF _ dn2(2,3,4) s prem(2) _ _ _ prem(6,7) t r])
        (use prem dn2 in simp_all)
  next
    case dn1
    have ok: "dn \<ge> mn" using dn1 by (auto simp: go_up_def split: if_splits)
    have r: "va_loop h tie mn mx target (va + h dn) dn hi up (dn - 1) = (l, u)"
      using prem(9) dn1 by (subst (asm) va_loop.simps) simp
    have s: "va + h dn = (\<Sum>r = dn..hi. h r)" using prem(1,3) lh sum_down [of lo hi h] by simp
    have t: "tight h target poc dn hi" unfolding tight_def
      by (intro disjI2 exI [of _ lo] exI [of _ hi]) (use prem(1,3) dn1(1) in simp)
    show ?thesis by (rule "1.IH"(4) [OF _ dn1(2,3,4) s prem(2) _ _ _ prem(6,7) t r])
        (use prem dn1 ok in simp_all)
  qed
qed

section \<open>Promises over a session\<close>

definition session_profile :: "svp_config \<Rightarrow> candle list \<Rightarrow> profile" where
  "session_profile g cs = fold profile_update cs (profile_new g)"

lemma session_profile_inv:
  "svp_config_ok g \<Longrightarrow> \<forall>c \<in> set cs. candle_ok c \<Longrightarrow> prof_inv (session_profile g cs)"
  unfolding session_profile_def by (rule profile_fold_inv [OF profile_new_inv])

lemma hist_nonempty:
  assumes "prof_inv p" "0 < pr_total p"
  obtains mn mx where "pr_span p = Some (mn, mx)" "pr_hist p \<noteq> []"
    "fst ` set (pr_hist p) \<subseteq> {mn..mx}" "pr_anchor p \<noteq> None"
  using assms by (cases "pr_span p") (auto simp: prof_inv_def mass_def)

lemma mass_span:
  assumes "fst ` set h \<subseteq> {mn..mx}"
  shows "(\<Sum>r = mn..mx. vol_at h r) = mass h"
  unfolding mass_def
  by (rule sum.mono_neutral_right) (use assms vol_at_missing in auto)

lemma profile_update_cfg:
  "pr_va_pct (profile_update c p) = pr_va_pct p" "pr_row_size (profile_update c p) = pr_row_size p"
  by (simp_all add: profile_update_def Let_def)

lemma session_profile_cfg:
  "pr_va_pct (session_profile g cs) = sc_va_pct g" "pr_row_size (session_profile g cs) = row_size g"
  by (induction cs rule: rev_induct)
    (simp_all add: session_profile_def profile_update_cfg profile_new_def)

text \<open>The reference, row by row and without a fold: rows are counted from the session's first low; a
  bar's volume (or one unit when it has none and the fallback is on) is shared evenly by the rows from
  its low to its high, unless these are more than \<open>max_rows_per_bar\<close>.\<close>

definition ref_row :: "svp_config \<Rightarrow> flt \<Rightarrow> flt \<Rightarrow> int" where
  "ref_row g a price = \<lfloor>(price - a) / row_size g\<rfloor>"

definition ref_rows :: "svp_config \<Rightarrow> flt \<Rightarrow> candle \<Rightarrow> int" where
  "ref_rows g a c = ref_row g a (c_high c) - ref_row g a (c_low c) + 1"

definition ref_volume :: "svp_config \<Rightarrow> flt \<Rightarrow> candle \<Rightarrow> flt" where
  "ref_volume g a c = (if sc_max_rows g < ref_rows g a c then 0
     else if 0 < c_volume c then c_volume c else if sc_tpo g then 1 else 0)"

definition ref_share :: "svp_config \<Rightarrow> flt \<Rightarrow> candle \<Rightarrow> int \<Rightarrow> flt" where
  "ref_share g a c r = (if ref_row g a (c_low c) \<le> r \<and> r \<le> ref_row g a (c_high c)
     then ref_volume g a c / of_int (ref_rows g a c) else 0)"

lemma vol_at_add_share:
  "distinct rows \<Longrightarrow> vol_at (add_share s rows h) r = vol_at h r + (if r \<in> set rows then s else 0)"
proof (induction rows arbitrary: h)
  case Nil
  then show ?case by (simp add: add_share_def)
next
  case (Cons x rows)
  have e: "add_share s (x # rows) h = add_share s rows (AList.update x (vol_at h x + s) h)"
    by (simp add: add_share_def)
  show ?case unfolding e using Cons by (auto simp: vol_at_update)
qed

definition profile_cfg :: "svp_config \<Rightarrow> profile \<Rightarrow> bool" where
  "profile_cfg g p \<longleftrightarrow> pr_row_size p = row_size g \<and> pr_max_rows p = sc_max_rows g \<and> pr_tpo p = sc_tpo g"

lemma profile_update_ref:
  assumes cfg: "profile_cfg g p" "0 < row_size g" and c: "c_low c \<le> c_high c"
    and a: "a = (case pr_anchor p of None \<Rightarrow> c_low c | Some x \<Rightarrow> x)"
  shows "profile_cfg g (profile_update c p)" "pr_anchor (profile_update c p) = Some a"
    "pr_total (profile_update c p) = pr_total p + ref_volume g a c"
    "vol_at (pr_hist (profile_update c p)) r = vol_at (pr_hist p) r + ref_share g a c r"
proof -
  define lo hi where "lo = ref_row g a (c_low c)" and "hi = ref_row g a (c_high c)"
  define p1 where "p1 = p\<lparr>pr_anchor := Some a, pr_bars := pr_bars p + 1\<rparr>"
  define w where "w = bar_weight p1 c"
  have lh: "lo \<le> hi" unfolding lo_def hi_def ref_row_def
    by (rule floor_mono, rule divide_right_mono) (use c cfg(2) in simp_all)
  have rows: "row_of p1 a (c_low c) = lo" "row_of p1 a (c_high c) = hi" "pr_max_rows p1 = sc_max_rows g"
    using cfg(1) by (simp_all add: row_of_def p1_def lo_def hi_def ref_row_def profile_cfg_def)
  have u: "profile_update c p = (if w \<le> 0 \<or> hi - lo + 1 > sc_max_rows g then p1
      else p1\<lparr>pr_hist := add_share (w / of_int (hi - lo + 1)) [lo..hi] (pr_hist p1),
        pr_total := pr_total p1 + w, pr_span := Some (case pr_span p1 of None \<Rightarrow> (lo, hi)
          | Some (mn, mx) \<Rightarrow> (min mn lo, max mx hi))\<rparr>)"
    using lh rows by (simp add: profile_update_def Let_def a [symmetric] p1_def [symmetric]
        w_def [symmetric] not_less [symmetric])
  have v: "ref_volume g a c = (if w \<le> 0 \<or> hi - lo + 1 > sc_max_rows g then 0 else w)"
    using cfg(1) by (auto simp: ref_volume_def ref_rows_def lo_def hi_def w_def bar_weight_def p1_def
        profile_cfg_def)
  have sh: "ref_share g a c r = (if lo \<le> r \<and> r \<le> hi then ref_volume g a c / of_int (hi - lo + 1) else 0)"
    by (simp add: ref_share_def ref_rows_def lo_def hi_def)
  show "profile_cfg g (profile_update c p)" using cfg(1) by (simp add: u p1_def profile_cfg_def)
  show "pr_anchor (profile_update c p) = Some a" by (simp add: u p1_def)
  show "pr_total (profile_update c p) = pr_total p + ref_volume g a c" by (simp add: u v p1_def)
  show "vol_at (pr_hist (profile_update c p)) r = vol_at (pr_hist p) r + ref_share g a c r"
    by (simp add: u v sh p1_def vol_at_add_share)
qed

lemma session_profile_ref:
  assumes "svp_config_ok g" and "\<forall>c \<in> set cs. candle_ok c"
  shows "profile_cfg g (session_profile g cs)
     \<and> pr_anchor (session_profile g cs) = (case cs of [] \<Rightarrow> None | c # _ \<Rightarrow> Some (c_low c))
     \<and> pr_total (session_profile g cs) = (\<Sum>c \<leftarrow> cs. ref_volume g (c_low (hd cs)) c)
     \<and> (\<forall>r. vol_at (pr_hist (session_profile g cs)) r = (\<Sum>c \<leftarrow> cs. ref_share g (c_low (hd cs)) c r))"
  using assms(2)
proof (induction cs rule: rev_induct)
  case Nil
  then show ?case by (simp add: session_profile_def profile_new_def profile_cfg_def vol_at_def)
next
  case (snoc c cs)
  have rs: "0 < row_size g" using svp_config_okD [OF assms(1)] by (simp add: row_size_def)
  have c: "c_low c \<le> c_high c" using snoc.prems by (auto simp: candle_ok_def)
  have ih: "profile_cfg g (session_profile g cs)"
    "pr_anchor (session_profile g cs) = (case cs of [] \<Rightarrow> None | c # _ \<Rightarrow> Some (c_low c))"
    "pr_total (session_profile g cs) = (\<Sum>c \<leftarrow> cs. ref_volume g (c_low (hd cs)) c)"
    "vol_at (pr_hist (session_profile g cs)) r = (\<Sum>c \<leftarrow> cs. ref_share g (c_low (hd cs)) c r)" for r
    using snoc by auto
  have a: "c_low (hd (cs @ [c]))
      = (case pr_anchor (session_profile g cs) of None \<Rightarrow> c_low c | Some x \<Rightarrow> x)"
    using ih(2) by (cases cs) simp_all
  have u: "session_profile g (cs @ [c]) = profile_update c (session_profile g cs)"
    by (simp add: session_profile_def)
  note step = profile_update_ref [OF ih(1) rs c a]
  have "(\<Sum>c \<leftarrow> cs. ref_volume g (c_low (hd (cs @ [c']))) c) = (\<Sum>c \<leftarrow> cs. ref_volume g (c_low (hd cs)) c)"
    "(\<Sum>c \<leftarrow> cs. ref_share g (c_low (hd (cs @ [c']))) c r) = (\<Sum>c \<leftarrow> cs. ref_share g (c_low (hd cs)) c r)"
    for c' r by (cases cs; simp)+
  then show ?case unfolding u using step ih by (cases cs) simp_all
qed

text \<open>C17: no volume is lost or made up. Over any session of valid bars the recorded total is the sum
  of the bars' volumes, a bar counting nothing exactly when it spans more than \<open>max_rows_per_bar\<close>
  rows or has no volume (with the fallback on, one unit instead); every row of the histogram holds
  exactly the even shares of the bars that cross it, as the reference gives them; the rows sum to the
  total, every row kept holds volume and none lies outside the recorded span.\<close>

theorem profile_conserves_volume:
  assumes "svp_config_ok g" and "\<forall>c \<in> set cs. candle_ok c"
  shows "pr_total (session_profile g cs) = (\<Sum>c \<leftarrow> cs. ref_volume g (c_low (hd cs)) c)
     \<and> (\<forall>r. vol_at (pr_hist (session_profile g cs)) r
          = (\<Sum>c \<leftarrow> cs. ref_share g (c_low (hd cs)) c r))
     \<and> mass (pr_hist (session_profile g cs)) = pr_total (session_profile g cs)
     \<and> (\<forall>r \<in> fst ` set (pr_hist (session_profile g cs)).
          0 < vol_at (pr_hist (session_profile g cs)) r
          \<and> (\<exists>mn mx. pr_span (session_profile g cs) = Some (mn, mx) \<and> mn \<le> r \<and> r \<le> mx))"
proof -
  have inv: "prof_inv (session_profile g cs)" by (rule session_profile_inv [OF assms])
  then show ?thesis using session_profile_ref [OF assms]
    by (cases "pr_span (session_profile g cs)") (auto simp: prof_inv_def keys_pos_def)
qed

definition pbar :: "flt \<Rightarrow> flt \<Rightarrow> flt \<Rightarrow> candle" where
  "pbar l h v = \<lparr>c_ts = utc_ts 0, c_open = l, c_high = h, c_low = l, c_close = h, c_volume = v\<rparr>"

definition small_svp :: svp_config where
  "small_svp = svp_defaults\<lparr>sc_ticks_per_row := 1, sc_tick_size := 1, sc_min_bars := 2\<rparr>"

lemma small_svp_ok: "svp_config_ok small_svp"
  by (simp add: svp_config_ok_def svp_config_init_def svp_defaults_def small_svp_def us_day_def)

text \<open>Three bars, the last of them spanning more rows than are allowed: it alone is left out.\<close>

theorem profile_conserves_volume_witness:
  "mass (pr_hist (session_profile (small_svp\<lparr>sc_max_rows := 4\<rparr>) [pbar 100 102 6, pbar 101 103 3, pbar 100 104 8]))
     = 9"
proof -
  define g where "g = small_svp\<lparr>sc_max_rows := 4\<rparr>"
  have g: "svp_config_ok g"
    by (simp add: g_def svp_config_ok_def svp_config_init_def svp_defaults_def small_svp_def us_day_def)
  have "(\<Sum>c \<leftarrow> [pbar 100 102 6, pbar 101 103 3, pbar 100 104 8]. ref_volume g (c_low (hd [pbar 100 102 6])) c)
      = 9" by (simp add: g_def small_svp_def svp_defaults_def pbar_def ref_volume_def ref_rows_def
        ref_row_def row_size_def)
  then show ?thesis
    using profile_conserves_volume [OF g, of "[pbar 100 102 6, pbar 101 103 3, pbar 100 104 8]"]
    by (simp add: candle_ok_def pbar_def g_def [symmetric])
qed

lemma row_price_mono: "0 < pr_row_size p \<Longrightarrow> r \<le> s \<Longrightarrow> row_price p a r \<le> row_price p a s"
  by (simp add: row_price_def mult_right_mono)

text \<open>C18: the value area is sound. Whenever a session's profile has levels, they come from rows
  \<open>lo \<le> poc \<le> hi\<close>: the point of control is the heaviest row and the lowest of the equally heavy,
  the band holds at least the configured share of the total, and it is not much wider than it must
  be (it is the single row, or dropping at most two of its edge rows falls short of the share).
  Hence the low of the area is at most the point of control and that at most the high.\<close>

theorem value_area_sound:
  assumes "svp_config_ok g" and "\<forall>c \<in> set cs. candle_ok c"
    and "profile_levels (session_profile g cs) = Some lv"
  defines "p \<equiv> session_profile g cs"
  shows "\<exists>a lo poc hi. lv_poc lv = row_price p a poc \<and> lv_val lv = row_price p a lo
     \<and> lv_vah lv = row_price p a hi \<and> lo \<le> poc \<and> poc \<le> hi
     \<and> (\<forall>r. vol_at (pr_hist p) r \<le> vol_at (pr_hist p) poc
          \<and> (vol_at (pr_hist p) r = vol_at (pr_hist p) poc \<longrightarrow> poc \<le> r))
     \<and> sc_va_pct g * lv_total lv \<le> (\<Sum>r = lo..hi. vol_at (pr_hist p) r)
     \<and> tight (vol_at (pr_hist p)) (sc_va_pct g * lv_total lv) poc lo hi
     \<and> lv_val lv \<le> lv_poc lv \<and> lv_poc lv \<le> lv_vah lv"
proof -
  have inv: "prof_inv p" unfolding p_def by (rule session_profile_inv [OF assms(1,2)])
  have lv: "profile_levels p = Some lv" using assms(3) by (simp add: p_def)
  have tot: "0 < pr_total p" using lv by (auto simp: profile_levels_def profile_ready_def split: if_splits)
  obtain mn mx where sp: "pr_span p = Some (mn, mx)" "pr_hist p \<noteq> []"
    "fst ` set (pr_hist p) \<subseteq> {mn..mx}" "pr_anchor p \<noteq> None"
    by (rule hist_nonempty [OF inv tot])
  obtain poc where poc: "poc_row p = Some poc" "poc \<in> fst ` set (pr_hist p)"
    "\<And>x. vol_at (pr_hist p) x \<le> vol_at (pr_hist p) poc"
    "\<And>x. vol_at (pr_hist p) x = vol_at (pr_hist p) poc \<Longrightarrow> poc \<le> x"
    by (rule poc_row_spec [OF inv sp(2)]) blast
  define T where "T = sc_va_pct g * pr_total p"
  obtain lo hi where va: "va_loop (vol_at (pr_hist p)) (pr_tiebreak p) mn mx T
      (vol_at (pr_hist p) poc) poc poc (poc + 1) (poc - 1) = (lo, hi)" by (meson surj_pair)
  have "mn \<le> poc" "poc \<le> mx" using poc(2) sp(3) by auto
  then have s: "mn \<le> lo \<and> lo \<le> poc \<and> poc \<le> hi \<and> hi \<le> mx
     \<and> (T \<le> (\<Sum>r = lo..hi. vol_at (pr_hist p) r) \<or> lo = mn \<and> hi = mx)
     \<and> tight (vol_at (pr_hist p)) T poc lo hi"
    by (intro va_loop_spec [OF _ _ _ _ _ _ _ _ va]) (simp_all add: tight_def)
  have "T \<le> pr_total p" using inv tot session_profile_cfg(1) [of g cs]
    by (simp add: T_def prof_inv_def p_def [symmetric] mult_left_le_one_le)
  moreover have "(\<Sum>r = mn..mx. vol_at (pr_hist p) r) = pr_total p"
    using mass_span [OF sp(3)] inv by (simp add: prof_inv_def)
  ultimately have share: "T \<le> (\<Sum>r = lo..hi. vol_at (pr_hist p) r)" using s by auto
  obtain a where a: "pr_anchor p = Some a" using sp(4) by auto
  have "value_area p = Some (lo, hi)"
    using va tot sp(1) poc(1) session_profile_cfg(1) [of g cs]
    by (simp add: value_area_def T_def p_def [symmetric])
  then have l: "lv_poc lv = row_price p a poc" "lv_val lv = row_price p a lo"
      "lv_vah lv = row_price p a hi" "lv_total lv = pr_total p"
    using lv poc(1) a by (auto simp: profile_levels_def split: if_splits prod.splits)
  have rs: "0 < pr_row_size p" using inv by (simp add: prof_inv_def)
  show ?thesis
    by (rule exI [of _ a], rule exI [of _ lo], rule exI [of _ poc], rule exI [of _ hi])
      (use l s share poc(3,4) row_price_mono [OF rs] in \<open>simp add: T_def\<close>)
qed

theorem value_area_sound_witness:
  "\<exists>lv. profile_levels (session_profile small_svp [pbar 100 102 6, pbar 101 103 3]) = Some lv
     \<and> lv_val lv \<le> lv_poc lv \<and> lv_poc lv \<le> lv_vah lv \<and> lv_poc lv = 203 / 2"
proof -
  have "(case profile_levels (session_profile small_svp [pbar 100 102 6, pbar 101 103 3]) of
      Some lv \<Rightarrow> lv_poc lv = 203 / 2 | None \<Rightarrow> False)" by code_simp
  then obtain lv where lv: "profile_levels (session_profile small_svp
      [pbar 100 102 6, pbar 101 103 3]) = Some lv" "lv_poc lv = 203 / 2"
    by (auto split: option.splits)
  from value_area_sound [OF small_svp_ok _ lv(1)] show ?thesis using lv
    by (auto simp: candle_ok_def pbar_def)
qed

end
