(* ===== verification/Svp_Correct.thy ===== *)
theory Svp_Correct
  imports Svp_Engine Svp_Profile_Properties
begin

text \<open>
  Correctness of the profile strategy's engine: its invariant, the contract of every operation,
  the interpretation of the shared engine contract, and what an entry rests on.
\<close>

section \<open>Invariant\<close>

definition svp_inv :: "svp_config \<Rightarrow> svp_engine \<Rightarrow> bool" where
  "svp_inv g e \<longleftrightarrow> svp_config_ok g
     \<and> wilder_wf (nat (sc_atr_period g)) (sv_atr e)
     \<and> prof_inv (sv_profile e)
     \<and> sv_state e \<noteq> EXIT
     \<and> (sv_state e = BREAKOUT \<longleftrightarrow> sv_pos e \<noteq> None)
     \<and> (sv_session_id e = None \<longrightarrow> sv_state e = IDLE)
     \<and> 0 \<le> sv_traded e \<and> sv_traded e \<le> sc_max_trades g"

definition view :: "svp_engine \<Rightarrow> position option \<times> state \<times> emission list" where
  "view e = (sv_pos e, sv_state e, sv_out e)"

definition svp_ok ::
  "svp_config \<Rightarrow> svp_engine \<Rightarrow> error + signal option \<Rightarrow> svp_engine \<Rightarrow> bool" where
  "svp_ok g e res e' \<longleftrightarrow> svp_inv g e' \<and> call_ok (view e) res (view e')"

lemma svp_ok_trans: "svp_ok g e1 (Inr None) e2 \<Longrightarrow> svp_ok g e2 res e3 \<Longrightarrow> svp_ok g e1 res e3"
  using call_ok_trans [of "sv_pos e1" "sv_state e1" "sv_out e1" "sv_pos e2" "sv_state e2"
      "sv_out e2" res "sv_pos e3" "sv_state e3" "sv_out e3"]
  by (simp add: svp_ok_def view_def)

lemma svp_ok_silent:
  "svp_inv g e' \<Longrightarrow> sv_out e' = sv_out e \<Longrightarrow> sv_state e' = sv_state e
   \<Longrightarrow> (sv_pos e' = None \<longleftrightarrow> sv_pos e = None) \<Longrightarrow> svp_ok g e (Inr None) e'"
  by (simp add: svp_ok_def view_def call_ok_silent)

lemma svp_okI:
  assumes "svp_inv g e'" "sv_out e' = sv_out e @ new" "sigs_in new = outcome_sigs res"
    "path_end (sv_state e) new = Some (sv_state e')"
    and "case res of
        Inr (Some sig) \<Rightarrow> kind_ok sig \<and> (s_from sig = BREAKOUT \<longleftrightarrow> sv_pos e \<noteq> None)
          \<and> (s_to sig = BREAKOUT \<longleftrightarrow> sv_pos e' \<noteq> None)
      | _ \<Rightarrow> sv_pos e' = None \<longleftrightarrow> sv_pos e = None"
  shows "svp_ok g e res e'"
  unfolding svp_ok_def view_def using assms(1) by (simp add: call_okI [OF assms(2-5)])

lemma svp_inv_cfg: "svp_inv g e \<Longrightarrow> svp_config_ok g"
  by (simp add: svp_inv_def)

lemma svp_inv_pos: "svp_inv g e \<Longrightarrow> sv_state e = BREAKOUT \<longleftrightarrow> sv_pos e \<noteq> None"
  by (simp add: svp_inv_def)

lemma svp_new_inv: "svp_config_ok g \<Longrightarrow> svp_inv g (svp_new g)"
  using svp_config_okD(6) [of g]
  by (simp add: svp_inv_def svp_new_def wilder_wf_new profile_new_inv)

lemmas svp_emission = svp_transition_def svp_emit_def Let_def

section \<open>Entries\<close>

text \<open>What a commit does, for any setup: nothing when a filter vetoes it, else one entry.\<close>

lemma svp_enter_cases:
  assumes "svp_enter g c dir st reason lv e = (sig, e')"
  obtains (veto) "sig = None" "e' = e" "\<not> entry_allowed g c dir e"
  | (entry) x where "sig = Some x" "entry_allowed g c dir e"
      "s_kind x = ENTRY" "s_from x = RANGE_DEFINED" "s_to x = BREAKOUT" "s_dir x = dir"
      "s_price x = c_close c" "s_stop x = Some (risk_stop g c dir st e)" "s_reason x = reason"
      "s_range_high x = Some (lv_vah lv)" "s_range_low x = Some (lv_val lv)"
      "sv_traded e' = sv_traded e + 1" "sv_state e' = BREAKOUT"
      "\<exists>p. sv_pos e' = Some p \<and> p_dir p = dir \<and> p_entry p = c_close c
         \<and> p_stop p = risk_stop g c dir st e \<and> p_bars p = 0"
      "sv_profile e' = sv_profile e" "sv_atr e' = sv_atr e" "sv_session_id e' = sv_session_id e"
      "\<exists>t. sv_out e' = sv_out e @ [Trans t, Sig x] \<and> t_from t = RANGE_DEFINED \<and> t_to t = BREAKOUT"
  using assms by (auto simp: svp_enter_def svp_emission split: if_splits)

definition armed_ok :: "svp_config \<Rightarrow> svp_engine \<Rightarrow> signal option \<Rightarrow> svp_engine \<Rightarrow> bool" where
  "armed_ok g e sig e' \<longleftrightarrow> svp_ok g e (Inr sig) e' \<and> sv_session_id e' = sv_session_id e
     \<and> sv_traded e' = sv_traded e + (if sig = None then 0 else 1)
     \<and> (sig = None \<longrightarrow> e' = e) \<and> (\<forall>x. sig = Some x \<longrightarrow> s_kind x = ENTRY)"

lemma svp_enter_ok:
  assumes inv: "svp_inv g e" and st: "sv_state e = RANGE_DEFINED"
    and room: "sv_traded e < sc_max_trades g"
    and run: "svp_enter g c dir s reason lv e = (sig, e')"
  shows "armed_ok g e sig e'"
  using run
proof (cases rule: svp_enter_cases)
  case veto
  then show ?thesis using inv by (simp add: armed_ok_def svp_ok_silent)
next
  case (entry x)
  then obtain t where t: "sv_out e' = sv_out e @ [Trans t, Sig x]" "t_from t = RANGE_DEFINED"
    "t_to t = BREAKOUT" by blast
  have "sv_pos e = None" using svp_inv_pos [OF inv] st by simp
  moreover have "svp_inv g e'" using inv st room entry by (auto simp: svp_inv_def)
  ultimately have "svp_ok g e (Inr sig) e'" using entry st t
    by (intro svp_okI [where new = "[Trans t, Sig x]"]) (auto simp: outcome_sigs_def kind_ok_def)
  then show ?thesis using entry by (simp add: armed_ok_def)
qed

section \<open>Setups\<close>

text \<open>The geometry of the three setups, with the structural stop each proposes.\<close>

definition edge_setup :: "svp_config \<Rightarrow> candle \<Rightarrow> levels \<Rightarrow> direction \<Rightarrow> flt \<Rightarrow> bool" where
  "edge_setup g c lv dir st \<longleftrightarrow> sc_edge g \<and> lv_shape lv = ShapeD
     \<and> lv_val lv < c_close c \<and> c_close c < lv_vah lv
     \<and> (if dir = LONG then c_low c \<le> lv_val lv \<and> c_high c < lv_vah lv \<and> st = lv_val lv - svp_buffer g
        else lv_vah lv \<le> c_high c \<and> lv_val lv < c_low c \<and> st = lv_vah lv + svp_buffer g)"

definition node_setup ::
  "svp_config \<Rightarrow> candle \<Rightarrow> levels \<Rightarrow> flt option \<Rightarrow> direction \<Rightarrow> flt \<Rightarrow> bool" where
  "node_setup g c lv prev dir st \<longleftrightarrow> sc_lvn g \<and> (\<exists>p n. prev = Some p \<and> n \<in> set (lv_lvns lv)
     \<and> (if dir = LONG then p \<le> n \<and> n < c_close c \<and> st = n - svp_buffer g
        else n \<le> p \<and> c_close c < n \<and> st = n + svp_buffer g))"

text \<open>Absorption: heavy volume, a tiny body, a close at a high-volume node, and a long rejection wick
  on the side faded, which is the dominant one (a tie goes to the buyer).\<close>

definition upper_wick :: "candle \<Rightarrow> flt" where
  "upper_wick c = c_high c - max (c_open c) (c_close c)"

definition lower_wick :: "candle \<Rightarrow> flt" where
  "lower_wick c = min (c_open c) (c_close c) - c_low c"

definition absorb_setup ::
  "svp_config \<Rightarrow> candle \<Rightarrow> levels \<Rightarrow> flt option \<Rightarrow> direction \<Rightarrow> flt \<Rightarrow> bool" where
  "absorb_setup g c lv avg dir st \<longleftrightarrow> sc_absorb g
     \<and> (\<exists>av. avg = Some av \<and> 0 < av \<and> sc_absorb_vol g * av \<le> c_volume c)
     \<and> \<bar>c_close c - c_open c\<bar> \<le> sc_absorb_body g * sc_tick_size g
     \<and> (\<exists>h \<in> set (lv_hvns lv). \<bar>c_close c - h\<bar> \<le> row_size g)
     \<and> (if dir = LONG
        then upper_wick c \<le> lower_wick c \<and> st = c_low c - svp_buffer g
          \<and> sc_absorb_wick g * max \<bar>c_close c - c_open c\<bar> (sc_tick_size g) \<le> lower_wick c
        else lower_wick c < upper_wick c \<and> st = c_high c + svp_buffer g
          \<and> sc_absorb_wick g * max \<bar>c_close c - c_open c\<bar> (sc_tick_size g) \<le> upper_wick c)"

definition setup_ok ::
  "svp_config \<Rightarrow> candle \<Rightarrow> levels \<Rightarrow> flt option \<Rightarrow> flt option \<Rightarrow> direction \<Rightarrow> flt \<Rightarrow> bool" where
  "setup_ok g c lv prev avg dir st \<longleftrightarrow>
     (if dir = LONG then sc_allow_long g else sc_allow_short g)
     \<and> (edge_setup g c lv dir st \<or> node_setup g c lv prev dir st \<or> absorb_setup g c lv avg dir st)"

text \<open>A setup either leaves the engine as it is or is one such geometry, committed.\<close>

definition commits ::
  "svp_config \<Rightarrow> candle \<Rightarrow> levels \<Rightarrow> (direction \<Rightarrow> flt \<Rightarrow> bool) \<Rightarrow> svp_engine
   \<Rightarrow> signal option \<times> svp_engine \<Rightarrow> bool" where
  "commits g c lv P e out \<longleftrightarrow> out = (None, e)
     \<or> (\<exists>dir st reason. P dir st \<and> out = svp_enter g c dir st reason lv e)"

lemma commits_none: "commits g c lv P e (None, e)"
  by (simp add: commits_def)

lemma commits_enter: "P dir st \<Longrightarrow> commits g c lv P e (svp_enter g c dir st reason lv e)"
  by (auto simp: commits_def)

lemma commits_quiet: "commits g c lv P e (None, e1) \<Longrightarrow> e1 = e"
  by (auto simp: commits_def elim: svp_enter_cases [OF sym])

lemma commits_orelse:
  assumes "commits g c lv P e (f e)" and "commits g c lv P e (f' e)"
  shows "commits g c lv P e (orelse f f' e)"
proof (cases "f e")
  case (Pair sig e1)
  then show ?thesis using assms commits_quiet [of g c lv P e e1]
    by (cases sig) (simp_all add: orelse_def)
qed

lemma edge_commits:
  "sc_edge g \<Longrightarrow> commits g c lv (setup_ok g c lv prev avg) e (edge_rotation g c lv e)"
  by (auto simp: edge_rotation_def Let_def setup_ok_def edge_setup_def commits_none
      intro!: commits_enter)

lemma scan_commits:
  "sc_lvn g \<Longrightarrow> set ns \<subseteq> set (lv_lvns lv)
   \<Longrightarrow> commits g c lv (setup_ok g c lv (Some p) avg) e (lvn_scan g c lv p ns e)"
proof (induction ns)
  case Nil
  then show ?case by (simp add: commits_none)
next
  case (Cons n ns)
  then show ?case
    by (auto simp: setup_ok_def node_setup_def intro!: commits_enter)
qed

lemma node_commits:
  "sc_lvn g \<Longrightarrow> commits g c lv (setup_ok g c lv prev avg) e (lvn_break g c lv prev e)"
  by (cases prev) (simp_all add: lvn_break_def commits_none scan_commits)

lemma absorb_commits:
  "sc_absorb g \<Longrightarrow> commits g c lv (setup_ok g c lv prev avg) e (absorption_proxy g c lv avg e)"
  by (auto simp: absorption_proxy_def Let_def setup_ok_def absorb_setup_def commits_none
      upper_wick_def lower_wick_def list_ex_iff not_less not_le
      split: option.splits intro!: commits_enter)

lemma detect_commits:
  "commits g c lv (setup_ok g c lv prev avg) e (detect_setup g c lv prev avg e)"
  unfolding detect_setup_def
  by (intro commits_orelse)
    (simp_all add: edge_commits node_commits absorb_commits commits_none)

lemma detect_cases:
  assumes "detect_setup g c lv prev avg e = (sig, e')"
  obtains (quiet) "sig = None" "e' = e"
  | (commit) dir st reason where "setup_ok g c lv prev avg dir st"
      "svp_enter g c dir st reason lv e = (sig, e')"
  using detect_commits [of g c lv prev avg e] assms by (auto simp: commits_def)

lemma svp_armed_ok:
  assumes inv: "svp_inv g e" and st: "sv_state e = RANGE_DEFINED"
    and run: "svp_armed g c prev lv avg e = (sig, e')"
  shows "armed_ok g e sig e'"
proof (cases "sv_traded e \<ge> sc_max_trades g \<or> lv = None")
  case True
  then have "sig = None" "e' = e" using run by (auto simp: svp_armed_def split: if_splits)
  then show ?thesis using inv by (simp add: armed_ok_def svp_ok_silent)
next
  case False
  then obtain l where l: "lv = Some l" "detect_setup g c l prev avg e = (sig, e')"
    "sv_traded e < sc_max_trades g" using run by (auto simp: svp_armed_def)
  from l(2) show ?thesis
  proof (cases rule: detect_cases)
    case quiet
    then show ?thesis using inv by (simp add: armed_ok_def svp_ok_silent)
  next
    case commit
    then show ?thesis using svp_enter_ok [OF inv st l(3)] by blast
  qed
qed

section \<open>Exits and sessions\<close>

lemma flat_case:
  assumes inv: "svp_inv g e" and pos: "sv_pos e = Some p" and to: "to \<noteq> BREAKOUT" "to \<noteq> EXIT"
    and sid: "sv_session_id e = None \<longrightarrow> to = IDLE"
    and e': "e' = e\<lparr>sv_out := sv_out e @ [Trans t, Sig x], sv_pos := None, sv_state := to\<rparr>"
    and t: "t_from t = BREAKOUT" "t_to t = to"
    and x: "s_kind x = EXIT_SIG" "s_from x = BREAKOUT" "s_to x = to"
  shows "svp_ok g e (Inr (Some x)) e'"
proof -
  have st: "sv_state e = BREAKOUT" using svp_inv_pos [OF inv] pos by simp
  show ?thesis
    by (rule svp_okI [where new = "[Trans t, Sig x]"])
      (use inv pos st to sid t x e' in
        \<open>auto simp: svp_inv_def outcome_sigs_def kind_ok_def\<close>)
qed

lemma svp_force_exit_ok:
  assumes inv: "svp_inv g e" and st: "sv_state e = BREAKOUT"
    and run: "svp_force_exit c reason IDLE e = (res, e')"
  obtains x where "res = Inr (Some x)" "svp_ok g e res e'" "s_kind x = EXIT_SIG" "sv_pos e' = None"
    "sv_state e' = IDLE" "sv_session_id e' = sv_session_id e" "sv_last_ts e' = sv_last_ts e"
    "sv_traded e' = sv_traded e"
proof -
  obtain p where p: "sv_pos e = Some p" using svp_inv_pos [OF inv] st by auto
  obtain t x where e': "e' = e\<lparr>sv_out := sv_out e @ [Trans t, Sig x], sv_pos := None,
      sv_state := IDLE\<rparr>" "res = Inr (Some x)" "t_from t = BREAKOUT" "t_to t = IDLE"
      "s_kind x = EXIT_SIG" "s_from x = BREAKOUT" "s_to x = IDLE"
    using run p by (auto simp: svp_force_exit_def svp_emission)
  show thesis
    using that flat_case [OF inv p _ _ _ e'(1,3-7)] e' by simp
qed

lemma svp_force_flat_ok:
  assumes inv: "svp_inv g e" and run: "svp_force_flat ts e = (sig, e')"
  shows "case sig of None \<Rightarrow> e' = e \<and> sv_pos e = None
     | Some x \<Rightarrow> svp_ok g e (Inr (Some x)) e' \<and> sv_pos e' = None \<and> s_kind x = EXIT_SIG
         \<and> sv_session_id e' = sv_session_id e \<and> sv_traded e' = sv_traded e"
proof (cases "sv_pos e")
  case None
  then show ?thesis using run by (auto simp: svp_force_flat_def)
next
  case (Some p)
  have st: "sv_state e = BREAKOUT" using svp_inv_pos [OF inv] Some by simp
  then have sid: "sv_session_id e \<noteq> None" using inv by (auto simp: svp_inv_def)
  obtain t x where e': "e' = e\<lparr>sv_out := sv_out e @ [Trans t, Sig x], sv_pos := None,
      sv_state := RANGE_DEFINED\<rparr>" "sig = Some x" "t_from t = BREAKOUT" "t_to t = RANGE_DEFINED"
      "s_kind x = EXIT_SIG" "s_from x = BREAKOUT" "s_to x = RANGE_DEFINED"
    using run Some by (auto simp: svp_force_flat_def svp_emission)
  show ?thesis
    using flat_case [OF inv Some _ _ _ e'(1,3-7)] e' sid by simp
qed

lemma svp_idle_ok:
  assumes inv: "svp_inv g e" and st: "sv_state e = IDLE" and sid: "sv_session_id e \<noteq> None"
  shows "svp_ok g e (Inr None) (svp_idle c info e)"
proof (cases "in_session (si_zone info)")
  case True
  have p: "sv_pos e = None" using svp_inv_pos [OF inv] st by simp
  show ?thesis
    by (rule svp_okI [where new = "[Trans \<lparr>t_ts = c_ts c, t_from = IDLE, t_to = RANGE_DEFINED,
          t_event = ''SESSION_OPEN'', t_detail = SessionId (si_id info)\<rparr>]"])
      (use inv st sid p True in \<open>auto simp: svp_inv_def svp_idle_def svp_transition_def
        outcome_sigs_def\<close>)
next
  case False
  then show ?thesis using inv by (simp add: svp_idle_def svp_ok_silent)
qed

lemma svp_in_position_ok: "svp_inv g e \<Longrightarrow> svp_ok g e (Inr None) (svp_in_position e)"
  by (rule svp_ok_silent) (auto simp: svp_in_position_def svp_inv_def split: option.splits)

lemma roll_session_ok:
  assumes inv: "svp_inv g e" and pos: "sv_pos e = None"
  shows "svp_ok g e (Inr None) ((roll_session g new ts e)\<lparr>sv_last_ts := l\<rparr>)"
proof -
  have i: "svp_inv g ((roll_session g new ts e)\<lparr>sv_last_ts := l\<rparr>)"
    using svp_config_okD(6) [OF svp_inv_cfg [OF inv]] svp_inv_cfg [OF inv]
    by (auto simp: svp_inv_def roll_session_def svp_fresh_def Let_def wilder_wf_new profile_new_inv)
  show ?thesis
  proof (cases "sv_session_id e")
    case None
    then have "sv_state e = IDLE" using inv by (simp add: svp_inv_def)
    then show ?thesis using i pos None
      by (intro svp_ok_silent) (simp_all add: roll_session_def svp_fresh_def)
  next
    case (Some old)
    then show ?thesis using i pos
      by (intro svp_okI [where new = "[Trans \<lparr>t_ts = ts, t_from = sv_state e, t_to = IDLE,
            t_event = ''SESSION_RESET'', t_detail = SessionId new\<rparr>]"])
        (simp_all add: roll_session_def svp_fresh_def svp_transition_def outcome_sigs_def)
  qed
qed

lemma roll_session_frame:
  "sv_pos (roll_session g new ts e) = None" "sv_session_id (roll_session g new ts e) = Some new"
  "sv_state (roll_session g new ts e) = IDLE" "sv_traded (roll_session g new ts e) = 0"
  by (simp_all add: roll_session_def svp_fresh_def Let_def)

section \<open>A whole bar\<close>

text \<open>The contract of a bar: the invariant, the callbacks, and a trade counter that moves by the
  entries as long as the session is the same.\<close>

definition bar_ok ::
  "svp_config \<Rightarrow> int \<Rightarrow> svp_engine \<Rightarrow> error + signal option \<Rightarrow> svp_engine \<Rightarrow> bool" where
  "bar_ok g sid e res e' \<longleftrightarrow> svp_ok g e res e' \<and> (sv_session_id e = Some sid \<longrightarrow>
     sv_session_id e' = Some sid \<and> sv_traded e' = sv_traded e + int (entries (outcome_sigs res)))"

lemma entries_simps: "entries [] = 0"
  "entries (x # xs) = (if s_kind x = ENTRY then 1 else 0) + entries xs"
  by (simp_all add: entries_def)

definition front_ok ::
  "svp_config \<Rightarrow> session_info \<Rightarrow> candle \<Rightarrow> svp_engine \<Rightarrow> svp_flow \<Rightarrow> svp_engine \<Rightarrow> bool" where
  "front_ok g info c e fl e1 \<longleftrightarrow> (case fl of
       SvpReturn res \<Rightarrow> bar_ok g (si_id info) e res e1
         \<and> (\<forall>x. res = Inr (Some x) \<longrightarrow> s_kind x = EXIT_SIG) \<and> (\<exists>s. res = Inr s)
     | SvpContinue \<Rightarrow> bar_ok g (si_id info) e (Inr None) e1 \<and> sv_session_id e1 = Some (si_id info)
         \<and> (if sv_session_id e = Some (si_id info) then e1 = e\<lparr>sv_last_ts := Some (c_ts c)\<rparr>
            else sv_state e1 = IDLE))"

lemma svp_inv_last [simp]: "svp_inv g (e\<lparr>sv_last_ts := l\<rparr>) = svp_inv g e"
  by (simp add: svp_inv_def)

lemma svp_ok_last: "svp_inv g e \<Longrightarrow> svp_ok g e (Inr None) (e\<lparr>sv_last_ts := l\<rparr>)"
  by (rule svp_ok_silent) simp_all

lemma svp_front_new:
  assumes inv: "svp_inv g e" and new: "sv_session_id e \<noteq> Some (si_id info)"
    and run: "svp_front g info c e = (fl, e1)"
  shows "front_ok g info c e fl e1"
proof (cases "sv_state e = BREAKOUT")
  case True
  obtain res e2 where x: "svp_force_exit c ''session_end'' IDLE e = (res, e2)" by (meson surj_pair)
  obtain s where s: "res = Inr (Some s)" "svp_ok g e res e2" "s_kind s = EXIT_SIG" "sv_pos e2 = None"
    by (rule svp_force_exit_ok [OF inv True x])
  define e3 where "e3 = (roll_session g (si_id info) (c_ts c) e2)\<lparr>sv_last_ts := Some (c_ts c)\<rparr>"
  have fl: "fl = SvpReturn (Inr (Some s))" "e1 = e3"
    using run new [symmetric] True x s(1) by (simp_all add: svp_front_def e3_def)
  have i2: "svp_inv g e2" using s(2) by (simp add: svp_ok_def)
  have "svp_ok g e2 (Inr None) e3" unfolding e3_def by (rule roll_session_ok [OF i2 s(4)])
  then have i3: "svp_inv g e3" "logged (sv_out e2) (sv_state e2) [] (sv_out e3) (sv_state e3)"
    by (simp_all add: svp_ok_def view_def call_ok_def outcome_sigs_def)
  have p3: "sv_pos e3 = None" by (simp add: e3_def roll_session_frame)
  have "logged (sv_out e) (sv_state e) [s] (sv_out e2) (sv_state e2)"
    using s(1,2) by (simp add: svp_ok_def view_def call_ok_def outcome_sigs_def)
  from logged_trans [OF this i3(2)]
  have "svp_ok g e (Inr (Some s)) e3" using s i3(1) p3
    by (simp add: svp_ok_def view_def call_ok_def outcome_sigs_def)
  then show ?thesis using fl s(3) new by (simp add: front_ok_def bar_ok_def)
next
  case False
  then have p: "sv_pos e = None" using svp_inv_pos [OF inv] by simp
  have "fl = SvpContinue"
    "e1 = (roll_session g (si_id info) (c_ts c) e)\<lparr>sv_last_ts := Some (c_ts c)\<rparr>"
    using run new [symmetric] False by (simp_all add: svp_front_def)
  then show ?thesis using new roll_session_ok [OF inv p]
    by (simp add: front_ok_def bar_ok_def roll_session_frame)
qed

lemma svp_front_ok:
  assumes inv: "svp_inv g e" and run: "svp_front g info c e = (fl, e1)"
  shows "front_ok g info c e fl e1"
proof (cases "sv_session_id e = Some (si_id info)")
  case False
  then show ?thesis by (rule svp_front_new [OF inv _ run])
next
  case same: True
  define e2 where "e2 = e\<lparr>sv_last_ts := Some (c_ts c)\<rparr>"
  have i2: "svp_inv g e2" "svp_ok g e (Inr None) e2" "sv_session_id e2 = Some (si_id info)"
    "sv_traded e2 = sv_traded e" "sv_state e2 = sv_state e"
    using inv svp_ok_last [OF inv] same by (simp_all add: e2_def)
  show ?thesis
  proof (cases "si_zone info = AFTER")
    case False
    then show ?thesis using run same i2
      by (auto simp: svp_front_def front_ok_def bar_ok_def e2_def outcome_sigs_def entries_simps)
  next
    case after: True
    show ?thesis
    proof (cases "sv_state e = BREAKOUT")
      case True
      obtain res e3 where x: "svp_force_exit c ''session_end'' IDLE e2 = (res, e3)"
        by (meson surj_pair)
      obtain s where s: "res = Inr (Some s)" "svp_ok g e2 res e3" "s_kind s = EXIT_SIG"
          "sv_session_id e3 = sv_session_id e2" "sv_traded e3 = sv_traded e2"
        using svp_force_exit_ok [OF i2(1) _ x] True i2(5) by metis
      have "fl = SvpReturn res" "e1 = e3"
        using run same after True x by (simp_all add: svp_front_def e2_def)
      then show ?thesis using s i2 svp_ok_trans [OF i2(2) s(2)]
        by (simp add: front_ok_def bar_ok_def outcome_sigs_def entries_simps)
    next
      case False
      then have p: "sv_pos e2 = None" using svp_inv_pos [OF i2(1)] i2(5) by simp
      define e3 where "e3 = (if sv_state e2 \<noteq> IDLE then
          (svp_transition (c_ts c) (sv_state e2) IDLE ''SESSION_DONE'' NoDetail e2)
                \<lparr>sv_state := IDLE\<rparr> else e2)"
      have r: "fl = SvpReturn (Inr None)" "e1 = e3" "sv_pos e3 = None"
        using run same after False i2(5) p
        by (auto simp: svp_front_def e3_def e2_def [symmetric] svp_transition_def Let_def
            split: if_splits)
      have i3: "svp_inv g e3" using i2(1) p False
        by (auto simp: svp_inv_def e3_def svp_transition_def)
      have "svp_ok g e2 (Inr None) e3"
      proof (cases "sv_state e2 = IDLE")
        case True
        then show ?thesis using i2(1) by (simp add: e3_def svp_ok_silent)
      next
        case False
        then show ?thesis using i3 p
          by (intro svp_okI [where new = "[Trans \<lparr>t_ts = c_ts c, t_from = sv_state e2, t_to = IDLE,
                t_event = ''SESSION_DONE'', t_detail = NoDetail\<rparr>]"])
            (simp_all add: e3_def svp_transition_def outcome_sigs_def)
      qed
      then show ?thesis using r i2 svp_ok_trans [OF i2(2)]
        by (auto simp: front_ok_def bar_ok_def outcome_sigs_def entries_simps e3_def
            svp_transition_def)
    qed
  qed
qed

lemma svp_feed_frame:
  "sv_state (svp_feed info c e) = sv_state e" "sv_pos (svp_feed info c e) = sv_pos e"
  "sv_out (svp_feed info c e) = sv_out e" "sv_traded (svp_feed info c e) = sv_traded e"
  "sv_session_id (svp_feed info c e) = sv_session_id e"
  by (simp_all add: svp_feed_def)

lemma svp_feed_inv:
  assumes "svp_inv g e" "candle_ok c"
  shows "svp_inv g (svp_feed info c e)"
proof -
  have "0 < nat (sc_atr_period g)" using svp_config_okD(8) [OF svp_inv_cfg [OF assms(1)]] by simp
  then have "wilder_wf (nat (sc_atr_period g)) (wilder_update (c_high c, c_low c, c_close c) (sv_atr e))"
    using assms candle_ok_high_low [OF assms(2)] by (intro wilder_wf_update) (simp_all add: svp_inv_def)
  then show ?thesis
    using assms profile_update_inv [OF _ candle_ok_high_low [OF assms(2)], of "sv_profile e"]
    by (auto simp: svp_feed_def svp_inv_def)
qed

lemma svp_dispatch_ok:
  assumes inv: "svp_inv g e" and c: "candle_ok c" and sid: "sv_session_id e = Some s"
    and run: "svp_dispatch g c info e = (res, e')"
  shows "bar_ok g s e res e'"
proof -
  define e1 where "e1 = svp_feed info c e"
  have i1: "svp_inv g e1" "sv_session_id e1 = Some s" "sv_traded e1 = sv_traded e"
    using svp_feed_inv [OF inv c] sid by (simp_all add: e1_def svp_feed_frame)
  have fed: "svp_ok g e (Inr None) e1"
    using i1(1) by (intro svp_ok_silent) (simp_all add: e1_def svp_feed_frame)
  have "svp_ok g e1 res e' \<and> sv_session_id e' = Some s
      \<and> sv_traded e' = sv_traded e1 + int (entries (outcome_sigs res))"
  proof (cases "sv_state e1")
    case IDLE
    then have "res = Inr None" "e' = svp_idle c info e1"
      using run by (simp_all add: svp_dispatch_def Let_def e1_def)
    then show ?thesis using svp_idle_ok [OF i1(1) IDLE] i1
      by (auto simp: svp_idle_def svp_transition_def outcome_sigs_def entries_simps)
  next
    case RANGE_DEFINED
    obtain sig e2 where a: "svp_armed g c (sv_prev_close e) (pre_levels info e)
        (vsma_value (sv_vsma e)) e1 = (sig, e2)" by (meson surj_pair)
    have "res = Inr sig" "e' = e2"
      using run RANGE_DEFINED a by (simp_all add: svp_dispatch_def Let_def e1_def)
    then show ?thesis using svp_armed_ok [OF i1(1) RANGE_DEFINED a] i1
      by (cases sig) (auto simp: armed_ok_def outcome_sigs_def entries_simps)
  next
    case BREAKOUT
    then have "res = Inr None" "e' = svp_in_position e1"
      using run by (simp_all add: svp_dispatch_def Let_def e1_def)
    then show ?thesis using svp_in_position_ok [OF i1(1)] i1
      by (auto simp: svp_in_position_def outcome_sigs_def entries_simps split: option.splits)
  next
    case EXIT
    then show ?thesis using i1(1) by (simp add: svp_inv_def)
  qed
  then show ?thesis using i1 svp_ok_trans [OF fed] by (simp add: bar_ok_def)
qed

definition svp_stale :: "candle \<Rightarrow> svp_engine \<Rightarrow> bool" where
  "svp_stale c e \<longleftrightarrow> (case sv_last_ts e of None \<Rightarrow> False | Some t \<Rightarrow> utc (c_ts c) \<le> utc t)"

lemma svp_step_ok:
  assumes inv: "svp_inv g e" and c: "candle_ok c" and fresh: "\<not> svp_stale c e"
    and run: "svp_step g c e = (res, e')"
  shows "bar_ok g (si_id (classify (svp_clock g) (c_ts c))) e res e' \<and> (\<exists>s. res = Inr s)"
proof -
  define info where "info = classify (svp_clock g) (c_ts c)"
  obtain fl e1 where f: "svp_front g info c e = (fl, e1)" by (meson surj_pair)
  note fr = svp_front_ok [OF inv f]
  show ?thesis
  proof (cases fl)
    case (SvpReturn r)
    then have "res = r" "e' = e1"
      using run f fresh by (auto simp: svp_step_def svp_stale_def info_def Let_def)
    then show ?thesis using fr SvpReturn by (simp add: front_ok_def info_def)
  next
    case SvpContinue
    then have d: "svp_dispatch g c info e1 = (res, e')"
      using run f fresh by (auto simp: svp_step_def svp_stale_def info_def Let_def)
    have i1: "svp_ok g e (Inr None) e1" "sv_session_id e1 = Some (si_id info)"
      "sv_session_id e = Some (si_id info) \<Longrightarrow> sv_traded e1 = sv_traded e"
      using fr SvpContinue by (auto simp: front_ok_def bar_ok_def outcome_sigs_def entries_simps)
    have "bar_ok g (si_id info) e1 res e'"
      by (rule svp_dispatch_ok [OF _ c i1(2) d]) (use i1(1) in \<open>simp add: svp_ok_def\<close>)
    then have "bar_ok g (si_id info) e res e'"
      using i1 svp_ok_trans [OF i1(1)] by (auto simp: bar_ok_def)
    moreover have "\<exists>s. res = Inr s"
      using d by (auto simp: svp_dispatch_def Let_def split: state.splits prod.splits)
    ultimately show ?thesis by (simp add: info_def)
  qed
qed

lemma svp_candle_cases:
  assumes inv: "svp_inv g e" and run: "svp_on_candle g r e = (res, e')"
  obtains (bad) f where "validate r = Inl (CandleError f)" "res = Inl (CandleError f)" "e' = e"
  | (late) c where "validate r = Inr c" "svp_stale c e" "e' = e"
      "res = (if sc_strict g then Inl OutOfOrderError else Inr None)"
  | (step) c s where "validate r = Inr c" "candle_ok c" "\<not> svp_stale c e" "res = Inr s"
      "svp_step g c e = (res, e')" "bar_ok g (si_id (classify (svp_clock g) (c_ts c))) e res e'"
proof (cases "validate r")
  case (Inl er)
  then obtain f where "er = CandleError f"
    by (auto simp: validate_def Let_def split: option.splits if_splits)
  then show ?thesis using bad Inl run by (simp add: svp_on_candle_def)
next
  case (Inr c)
  have st: "svp_step g c e = (res, e')" using run Inr by (simp add: svp_on_candle_def)
  show ?thesis
  proof (cases "svp_stale c e")
    case True
    then show ?thesis using late [OF Inr True] st True
      by (simp add: svp_step_def svp_stale_def split: if_splits)
  next
    case False
    then show ?thesis
      using step [OF Inr _ False] svp_step_ok [OF inv _ False st] st validate_InrD(2) [OF Inr]
      by blast
  qed
qed

lemma svp_on_candle_ok:
  assumes "svp_inv g e" and "svp_on_candle g r e = (res, e')"
  shows "svp_ok g e res e'"
  by (rule svp_candle_cases [OF assms])
    (use assms(1) in \<open>auto simp: svp_ok_def view_def call_ok_error call_ok_silent bar_ok_def\<close>)

section \<open>The engine contract\<close>

interpretation svp: observed_engine "svp_on_candle g" "svp_force_flat" sv_pos sv_state
  "svp_inv g" sv_out for g
proof (rule observed_engineI)
  show "svp_inv g e' \<and> call_ok (sv_pos e, sv_state e, sv_out e) res (sv_pos e', sv_state e', sv_out e')"
    if "svp_inv g e" "svp_on_candle g r e = (res, e')" for e r res e'
    using svp_on_candle_ok [OF that] by (simp add: svp_ok_def view_def)
  show "case sig of None \<Rightarrow> e' = e \<and> sv_pos e = None
      | Some x \<Rightarrow> svp_inv g e' \<and> sv_pos e' = None \<and> s_kind x = EXIT_SIG
          \<and> call_ok (sv_pos e, sv_state e, sv_out e) (Inr (Some x)) (sv_pos e', sv_state e', sv_out e')"
    if "svp_inv g e" "svp_force_flat ts e = (sig, e')" for e ts sig e'
    using svp_force_flat_ok [OF that] by (auto simp: svp_ok_def view_def split: option.splits)
  show "sv_state e = BREAKOUT \<longleftrightarrow> sv_pos e \<noteq> None" if "svp_inv g e" for e
    by (rule svp_inv_pos [OF that])
qed

end
