(* ===== verification/Svp_Properties.thy ===== *)
theory Svp_Properties
  imports Svp_Correct
begin

text \<open>
  Properties of the profile strategy over bars and streams: balanced books, complete callbacks,
  the cap on trades per session, and what every entry rests on.
\<close>

section \<open>Streams\<close>

text \<open>Over any stream of bars and hook decisions, from a fresh profile engine with a valid
  configuration, entries exceed full exits by exactly the open position, the callbacks see
  exactly the signals returned, and the reported transitions lead without a gap from the idle
  state to the engine's final state.\<close>

theorem svp_stream_sound:
  fixes bars :: "(raw_candle \<times> bool) list" and strict :: bool
  assumes "svp_config_ok g"
  defines "res \<equiv> stream_run (svp_on_candle g) svp_force_flat strict bars (svp_new g)"
  shows "entries (rr_signals res) = closings (rr_signals res)
       + (if sv_pos (rr_state res) = None then 0 else 1)
     \<and> sigs_in (sv_out (rr_state res)) = rr_signals res
     \<and> path_end IDLE (sv_out (rr_state res)) = Some (sv_state (rr_state res))"
  using svp.stream_balance [OF svp_new_inv [OF assms(1)], of strict bars]
    svp.stream_logged [OF svp_new_inv [OF assms(1)], of strict bars]
  unfolding res_def by (auto simp: logged_def svp_new_def)

text \<open>A bell-shaped session on one-unit rows.\<close>

definition sbar :: "int \<Rightarrow> flt \<Rightarrow> flt \<Rightarrow> flt \<Rightarrow> flt \<Rightarrow> raw_candle" where
  "sbar m l h c v = \<lparr>r_local = m * us_min, r_tz = Some 0, r_open = Fin l, r_high = Fin h,
     r_low = Fin l, r_close = Fin c, r_volume = Fin v\<rparr>"

definition bell :: svp_config where
  "bell = svp_defaults\<lparr>sc_ticks_per_row := 1, sc_tick_size := 1, sc_min_bars := 2,
     sc_va_pct := 9 / 10, sc_buffer_ticks := 2, sc_max_trades := 1\<rparr>"

lemma bell_ok: "svp_config_ok bell"
  by (simp add: svp_config_ok_def svp_config_init_def svp_defaults_def bell_def us_day_def)

definition bell_bars :: "(raw_candle \<times> bool) list" where
  "bell_bars = [(sbar 0 0 2 1 3, False), (sbar 1 1 1 1 9, False)]"

definition bell_day :: svp_engine where
  "bell_day = rr_state (stream_run (svp_on_candle bell) svp_force_flat True bell_bars (svp_new bell))"

lemma bell_day_inv: "svp_inv bell bell_day"
  unfolding bell_day_def by (rule svp.stream_inv [OF svp_new_inv [OF bell_ok]])

theorem svp_stream_sound_witness:
  "sigs_in (sv_out bell_day)
     = rr_signals (stream_run (svp_on_candle bell) svp_force_flat True bell_bars (svp_new bell))
   \<and> path_end IDLE (sv_out bell_day) = Some (sv_state bell_day)"
  using svp_stream_sound [OF bell_ok, of True bell_bars] by (simp add: bell_day_def)

section \<open>The cap on trades\<close>

definition same_session :: "svp_config \<Rightarrow> int \<Rightarrow> raw_candle \<Rightarrow> bool" where
  "same_session g sid r \<longleftrightarrow> (case validate r of Inl _ \<Rightarrow> True
     | Inr c \<Rightarrow> si_id (classify (svp_clock g) (c_ts c)) = sid)"

lemma entries_append: "entries (xs @ ys) = entries xs + entries ys"
  by (simp add: entries_def)

lemma hook_counts:
  assumes "svp_inv g e" "hook_flat svp_force_flat fl r e = (sigs, e')"
  shows "svp_inv g e' \<and> entries sigs = 0 \<and> sv_session_id e' = sv_session_id e
     \<and> sv_traded e' = sv_traded e"
proof -
  have "svp_inv g e'" using svp.hook_linked [OF assms] by blast
  moreover have "entries sigs = 0 \<and> sv_session_id e' = sv_session_id e \<and> sv_traded e' = sv_traded e"
    using assms(2) by (auto simp: hook_flat_def entries_simps split: if_splits prod.splits option.splits
        dest!: svp_force_flat_ok [OF assms(1)])
  ultimately show ?thesis by blast
qed

lemma candle_counts:
  assumes inv: "svp_inv g e" and run: "svp_on_candle g r e = (res, e')"
    and same: "same_session g sid r" and sid: "sv_session_id e = Some sid"
  shows "svp_inv g e' \<and> sv_session_id e' = Some sid
     \<and> sv_traded e' = sv_traded e + int (entries (outcome_sigs res))"
  by (rule svp_candle_cases [OF inv run])
    (use inv same sid in \<open>auto simp: outcome_sigs_def entries_simps bar_ok_def svp_ok_def
      same_session_def\<close>)

lemma stream_counts:
  "svp_inv g e \<Longrightarrow> sv_session_id e = Some sid \<Longrightarrow> \<forall>(r, fl) \<in> set bars. same_session g sid r
   \<Longrightarrow> sv_traded (rr_state (stream_run (svp_on_candle g) svp_force_flat strict bars e))
     = sv_traded e
       + int (entries (rr_signals (stream_run (svp_on_candle g) svp_force_flat strict bars e)))"
proof (induction bars arbitrary: e)
  case Nil
  then show ?case by (simp add: entries_simps)
next
  case (Cons bar bars)
  obtain r fl where bar: "bar = (r, fl)" by (cases bar) auto
  have same: "same_session g sid r" using Cons.prems(3) bar by auto
  obtain res e1 where step: "svp_on_candle g r e = (res, e1)" by (meson surj_pair)
  note c = candle_counts [OF Cons.prems(1) step same Cons.prems(2)]
  show ?case
  proof (cases res)
    case (Inl er)
    then show ?thesis using Cons.IH [of e1] Cons.prems(3) c
      by (auto simp: bar step outcome_sigs_def entries_simps)
  next
    case (Inr sig)
    obtain fs e2 where h: "hook_flat svp_force_flat fl r e1 = (fs, e2)" by (meson surj_pair)
    have "entries (outcome_sigs res) = entries (case sig of None \<Rightarrow> [] | Some x \<Rightarrow> [x])"
      using Inr by (cases sig) (simp_all add: outcome_sigs_def)
    then show ?thesis using Cons.IH [of e2] Cons.prems(3) c hook_counts [OF _ h, of g]
      by (simp add: bar step Inr h Let_def entries_append)
  qed
qed

text \<open>The cap on trades holds over every run within a session: the entries of any stream of
  bars of the engine's session, with any broker closings in between, never exceed what the cap
  leaves after the trades already taken.\<close>

theorem svp_trades_capped:
  assumes "svp_inv g e" and "sv_session_id e = Some sid"
    and "\<forall>(r, fl) \<in> set bars. same_session g sid r"
  shows "int (entries (rr_signals (stream_run (svp_on_candle g) svp_force_flat strict bars e)))
     \<le> sc_max_trades g - sv_traded e"
  using stream_counts [OF assms, of strict] svp.stream_inv [OF assms(1), of strict bars]
  by (simp add: svp_inv_def)


theorem svp_trades_capped_witness:
  "int (entries (rr_signals (stream_run (svp_on_candle bell) svp_force_flat True
     [(sbar 2 2 3 2 5, True), (sbar 3 2 3 2 5, True)] bell_day))) \<le> 1
   \<and> entries (rr_signals (stream_run (svp_on_candle bell) svp_force_flat True
     [(sbar 2 2 3 2 5, True), (sbar 3 2 3 2 5, True)] bell_day)) = 1"
proof -
  have "sv_session_id bell_day = Some 0 \<and> sv_traded bell_day = 0 \<and> sc_max_trades bell = 1
    \<and> same_session bell 0 (sbar 2 2 3 2 5) \<and> same_session bell 0 (sbar 3 2 3 2 5)
    \<and> entries (rr_signals (stream_run (svp_on_candle bell) svp_force_flat True
     [(sbar 2 2 3 2 5, True), (sbar 3 2 3 2 5, True)] bell_day)) = 1" by code_simp
  then show ?thesis
    using svp_trades_capped [OF bell_day_inv, of 0 "[(sbar 2 2 3 2 5, True),
      (sbar 3 2 3 2 5, True)]" True] by simp
qed

section \<open>What an entry rests on\<close>

lemma risk_stop_side:
  assumes inv: "svp_inv g e"
    and st: "if dir = LONG then st \<le> c_close c else c_close c \<le> st"
  defines "s \<equiv> risk_stop g c dir st e"
  shows "if dir = LONG then s \<le> c_close c else c_close c \<le> s"
    and "sc_atr_mult g = 0 \<or> sc_atr_floor g \<or> w_atr (sv_atr e) = None
      \<Longrightarrow> if dir = LONG then s \<le> st else st \<le> s"
    and "sc_atr_mult g = 0 \<or> w_atr (sv_atr e) = None \<Longrightarrow> s = st"
    and "0 < sc_atr_mult g \<Longrightarrow> \<not> sc_atr_floor g \<Longrightarrow> w_atr (sv_atr e) = Some a
      \<Longrightarrow> \<bar>c_close c - s\<bar> = sc_atr_mult g * a"
proof -
  have m: "0 \<le> sc_atr_mult g" using svp_config_okD(9) [OF svp_inv_cfg [OF inv]] .
  have a: "0 \<le> sc_atr_mult g * a" if "w_atr (sv_atr e) = Some a" for a
    using inv that m by (auto simp: svp_inv_def wilder_wf_def)
  show "if dir = LONG then s \<le> c_close c else c_close c \<le> s"
    using st a m by (cases dir) (auto simp: s_def risk_stop_def Let_def max_def min_def
        split: option.splits)
  show "if dir = LONG then s \<le> st else st \<le> s"
    if "sc_atr_mult g = 0 \<or> sc_atr_floor g \<or> w_atr (sv_atr e) = None"
    using st a m that by (cases dir) (auto simp: s_def risk_stop_def Let_def max_def min_def
        split: option.splits)
  show "s = st" if "sc_atr_mult g = 0 \<or> w_atr (sv_atr e) = None"
    using that by (auto simp: s_def risk_stop_def split: option.splits)
  show "\<bar>c_close c - s\<bar> = sc_atr_mult g * a"
    if "0 < sc_atr_mult g" "\<not> sc_atr_floor g" "w_atr (sv_atr e) = Some a" for a
    using that a [OF that(3)] by (cases dir) (simp_all add: s_def risk_stop_def Let_def)
qed

lemma setup_side:
  assumes "setup_ok g c lv prev avg dir st" "svp_config_ok g" "candle_ok c"
  shows "if dir = LONG then st \<le> c_close c else c_close c \<le> st"
proof -
  have b: "0 \<le> svp_buffer g"
    using svp_config_okD(2,5) [OF assms(2)] by (simp add: svp_buffer_def)
  show ?thesis
    using assms(1,3) b
    by (auto simp: setup_ok_def edge_setup_def node_setup_def absorb_setup_def candle_ok_def)
qed

lemma svp_feed_last:
  "svp_feed info c (e\<lparr>sv_last_ts := l\<rparr>) = (svp_feed info c e)\<lparr>sv_last_ts := l\<rparr>"
  by (simp add: svp_feed_def)

lemma bias_open_last [simp]: "bias_open (e\<lparr>sv_last_ts := l\<rparr>) = bias_open e"
  by (simp add: bias_open_def cong: option.case_cong)

lemma entry_allowed_last [simp]: "entry_allowed g c dir (e\<lparr>sv_last_ts := l\<rparr>) = entry_allowed g c dir e"
  by (simp add: entry_allowed_def trend_ok_def delta_confirms_def Let_def cong: option.case_cong)

text \<open>An entry comes from the armed state of the running session, through a setup on the levels
  established before the bar.\<close>

lemma svp_step_entry:
  assumes inv: "svp_inv g e" and c: "candle_ok c" and fresh: "\<not> svp_stale c e"
    and run: "svp_step g c e = (Inr (Some x), e')" and k: "s_kind x = ENTRY"
  defines "info \<equiv> classify (svp_clock g) (c_ts c)"
  obtains lv st reason where "sv_state e = RANGE_DEFINED" "sv_traded e < sc_max_trades g"
    "in_session (si_zone info)" "profile_levels (sv_profile e) = Some lv"
    "setup_ok g c lv (sv_prev_close e) (vsma_value (sv_vsma e)) (s_dir x) st"
    "svp_enter g c (s_dir x) st reason lv (svp_feed info c (e\<lparr>sv_last_ts := Some (c_ts c)\<rparr>))
       = (Some x, e')"
proof -
  obtain fl e1 where f: "svp_front g info c e = (fl, e1)" by (meson surj_pair)
  note fr = svp_front_ok [OF inv f]
  have "fl = SvpContinue"
    using fr f run k fresh
    by (cases fl) (auto simp: front_ok_def svp_step_def svp_stale_def info_def Let_def)
  then have d: "svp_dispatch g c info e1 = (Inr (Some x), e')"
    using run f fresh by (auto simp: svp_step_def svp_stale_def info_def Let_def)
  then have st1: "sv_state e1 = RANGE_DEFINED"
    by (auto simp: svp_dispatch_def Let_def svp_feed_frame split: state.splits prod.splits)
  then have e1: "e1 = e\<lparr>sv_last_ts := Some (c_ts c)\<rparr>"
    using fr \<open>fl = SvpContinue\<close> by (auto simp: front_ok_def split: if_splits)
  have a: "svp_armed g c (sv_prev_close e) (pre_levels info e) (vsma_value (sv_vsma e))
      (svp_feed info c e1) = (Some x, e')"
    using d st1 by (auto simp: svp_dispatch_def Let_def svp_feed_frame e1 pre_levels_def
        split: prod.splits)
  then obtain lv where lv: "pre_levels info e = Some lv" "sv_traded e < sc_max_trades g"
      "detect_setup g c lv (sv_prev_close e) (vsma_value (sv_vsma e)) (svp_feed info c e1)
        = (Some x, e')"
    by (auto simp: svp_armed_def svp_feed_frame e1 split: if_splits option.splits)
  from lv(3) show thesis
  proof (cases rule: detect_cases)
    case (commit dir st reason)
    then have "s_dir x = dir" by (auto elim: svp_enter_cases)
    then show thesis
      using that [of lv st reason] commit lv st1 by (simp add: e1 pre_levels_def split: if_splits)
  qed simp
qed

text \<open>C19: what every entry of the profile strategy rests on, judged only on levels established
  before the entry bar: the engine was armed with trades left, one of the enabled setups holds at
  those levels (the whole pattern of the setup, with its structural stop), all filters pass, and the
  engine now holds the signalled position. The stop is never on the wrong side of the close. It is
  the structural stop without an ATR stop or before the ATR is ready, never tighter than the
  structural one when the ATR stop is floored, and exactly the configured multiple of the ATR away
  from the close (possibly tighter) when it is not.\<close>

theorem svp_entry_sound:
  assumes "svp_inv g e" and "validate r = Inr c"
    and "svp_on_candle g r e = (Inr (Some x), e')" and "s_kind x = ENTRY"
  shows "\<exists>lv st p atr. profile_levels (sv_profile e) = Some lv
     \<and> sv_state e = RANGE_DEFINED \<and> sv_traded e < sc_max_trades g
     \<and> setup_ok g c lv (sv_prev_close e) (vsma_value (sv_vsma e)) (s_dir x) st
     \<and> entry_allowed g c (s_dir x) (svp_feed (classify (svp_clock g) (c_ts c)) c e)
     \<and> s_price x = c_close c \<and> sv_pos e' = Some p \<and> p_dir p = s_dir x
     \<and> p_entry p = c_close c \<and> s_stop x = Some (p_stop p)
     \<and> (if s_dir x = LONG then p_stop p \<le> c_close c else c_close c \<le> p_stop p)
     \<and> atr = w_atr (wilder_update (c_high c, c_low c, c_close c) (sv_atr e))
     \<and> (sc_atr_mult g = 0 \<or> atr = None \<longrightarrow> p_stop p = st)
     \<and> (sc_atr_mult g = 0 \<or> atr = None \<or> sc_atr_floor g \<longrightarrow>
          (if s_dir x = LONG then p_stop p \<le> st else st \<le> p_stop p))
     \<and> (0 < sc_atr_mult g \<and> \<not> sc_atr_floor g \<longrightarrow>
          (\<forall>a. atr = Some a \<longrightarrow> \<bar>c_close c - p_stop p\<bar> = sc_atr_mult g * a))"
proof (rule svp_candle_cases [OF assms(1,3)])
  fix d assume d: "validate r = Inr d" "candle_ok d" "\<not> svp_stale d e"
    "svp_step g d e = (Inr (Some x), e')"
  have cd: "d = c" using d(1) assms(2) by simp
  define e2 where "e2 = svp_feed (classify (svp_clock g) (c_ts c)) c (e\<lparr>sv_last_ts := Some (c_ts c)\<rparr>)"
  obtain lv st reason where a: "sv_state e = RANGE_DEFINED" "sv_traded e < sc_max_trades g"
    "profile_levels (sv_profile e) = Some lv"
    and on: "in_session (si_zone (classify (svp_clock g) (c_ts c)))"
    and b: "setup_ok g c lv (sv_prev_close e) (vsma_value (sv_vsma e)) (s_dir x) st"
    "svp_enter g c (s_dir x) st reason lv e2 = (Some x, e')"
    by (rule svp_step_entry [OF assms(1) d(2,3,4) assms(4)]) (use cd in \<open>simp add: e2_def\<close>)
  have i2: "svp_inv g e2" using assms(1) d(2) cd by (simp add: e2_def svp_feed_inv)
  note side = setup_side [OF b(1) svp_inv_cfg [OF assms(1)] d(2) [unfolded cd]]
  note stop = risk_stop_side [OF i2 side]
  from b(2) show ?thesis
  proof (cases rule: svp_enter_cases)
    case (entry y)
    then obtain p where p: "sv_pos e' = Some p" "p_dir p = s_dir x" "p_entry p = c_close c"
      "p_stop p = risk_stop g c (s_dir x) st e2" by blast
    have "entry_allowed g c (s_dir x) (svp_feed (classify (svp_clock g) (c_ts c)) c e)"
      using entry(2) by (simp add: e2_def svp_feed_last)
    moreover have "w_atr (sv_atr e2) = w_atr (wilder_update (c_high c, c_low c, c_close c) (sv_atr e))"
      by (simp add: e2_def svp_feed_def on)
    ultimately show ?thesis using a b(1) entry(1,7,8) p stop by auto
  qed simp
qed (use assms(2) in \<open>simp_all split: if_splits\<close>)

theorem svp_entry_sound_witness:
  "\<exists>x e' p. svp_on_candle bell (sbar 2 2 3 2 5) bell_day = (Inr (Some x), e') \<and> s_dir x = SHORT
     \<and> sv_pos e' = Some p \<and> p_stop p = 9 / 2 \<and> p_entry p = 2 \<and> p_entry p \<le> p_stop p"
proof -
  define c where "c = \<lparr>c_ts = utc_ts (2 * us_min), c_open = 2, c_high = 3, c_low = 2,
    c_close = 2, c_volume = 5\<rparr>"
  have v: "validate (sbar 2 2 3 2 5) = Inr c"
    by (simp add: validate_def sbar_def c_def utc_ts_def max_def min_def)
  have "case svp_on_candle bell (sbar 2 2 3 2 5) bell_day of
      (Inr (Some x), e') \<Rightarrow> s_kind x = ENTRY \<and> s_dir x = SHORT \<and> s_stop x = Some (9 / 2)
    | _ \<Rightarrow> False" by code_simp
  then obtain x e' where x: "svp_on_candle bell (sbar 2 2 3 2 5) bell_day = (Inr (Some x), e')"
    "s_kind x = ENTRY" "s_dir x = SHORT" "s_stop x = Some (9 / 2)"
    by (auto split: prod.splits sum.splits option.splits)
  from svp_entry_sound [OF bell_day_inv v x(1,2)] x show ?thesis by (auto simp: c_def)
qed

end
