(* ===== verification/Smc_Market.thy ===== *)
theory Smc_Market
  imports Svp_Profile
begin

text \<open>
  The parts the Smart Money strategy reads the market with: \<open>orb/smc/config.py\<close>,
  \<open>orb/smc/mtf.py\<close> (one-minute bars folded into higher timeframes), \<open>orb/smc/structure.py\<close>
  (swings and structure breaks) and \<open>orb/smc/orderblocks.py\<close>. Python's bounded deques are lists
  kept with \<open>push\<close>; the per-direction dictionaries are records of two sides.
\<close>

section \<open>Configuration\<close>

record smc_config =
  mc_trigger :: int
  mc_htf :: int
  mc_d1 :: int
  mc_swing_lookback :: int
  mc_max_swings :: int
  mc_body_frac :: flt
  mc_atr_mult :: flt
  mc_confirm :: int
  mc_max_blocks :: int
  mc_expiry :: int
  mc_atr_period :: int
  mc_poc_tol :: flt
  mc_ticks_per_row :: int
  mc_tick_size :: flt
  mc_min_profile :: int
  mc_min_conf :: int
  mc_vol_mult :: flt
  mc_vol_period :: int
  mc_risk_pct :: flt
  mc_stop_buffer :: flt
  mc_stop_max :: flt
  mc_max_trades :: int
  mc_partials :: "(flt \<times> flt) list"
  mc_final_tp :: flt
  mc_stage1 :: flt
  mc_stage2 :: flt
  mc_min_lock :: flt
  mc_comm :: flt
  mc_strict :: bool

definition smc_defaults :: smc_config where
  "smc_defaults = \<lparr>mc_trigger = 30, mc_htf = 240, mc_d1 = 1440, mc_swing_lookback = 2,
     mc_max_swings = 50, mc_body_frac = 1 / 2, mc_atr_mult = 6 / 5, mc_confirm = 10,
     mc_max_blocks = 20, mc_expiry = 180, mc_atr_period = 14, mc_poc_tol = 2,
     mc_ticks_per_row = 100, mc_tick_size = 1 / 100, mc_min_profile = 60, mc_min_conf = 3,
     mc_vol_mult = 3 / 2, mc_vol_period = 20, mc_risk_pct = 2, mc_stop_buffer = 1 / 2,
     mc_stop_max = 15, mc_max_trades = 2, mc_partials = [(5, 4 / 10), (7, 3 / 10)],
     mc_final_tp = 10, mc_stage1 = 1, mc_stage2 = 2, mc_min_lock = 1, mc_comm = 7,
     mc_strict = True\<rparr>"

text \<open>The loop over the integer fields: the first one below 1 is named.\<close>

fun first_small :: "(string \<times> int) list \<Rightarrow> string option" where
  "first_small [] = None"
| "first_small ((nm, v) # rest) = (if v < 1 then Some nm else first_small rest)"

definition counted_fields :: "smc_config \<Rightarrow> (string \<times> int) list" where
  "counted_fields g = [(''trigger_tf_min'', mc_trigger g), (''htf_min'', mc_htf g),
     (''d1_min'', mc_d1 g), (''swing_lookback'', mc_swing_lookback g),
     (''max_swings'', mc_max_swings g), (''ob_confirm_bars'', mc_confirm g),
     (''max_blocks'', mc_max_blocks g), (''ob_expiry_bars'', mc_expiry g),
     (''atr_period'', mc_atr_period g), (''ticks_per_row'', mc_ticks_per_row g),
     (''min_profile_bars'', mc_min_profile g), (''vol_sma_period'', mc_vol_period g),
     (''max_trades_per_day'', mc_max_trades g)]"

text \<open>The loop over the partial targets: the last R and the sum of fractions.\<close>

fun partials_check :: "flt \<Rightarrow> flt \<Rightarrow> (flt \<times> flt) list \<Rightarrow> error + flt \<times> flt" where
  "partials_check prev sm [] = Inr (prev, sm)"
| "partials_check prev sm ((r, fr) # rest) =
     (if r \<le> prev then Inl (ConfigError ''partial_levels r must be > 0 and strictly ascending'')
      else if \<not> (0 < fr \<and> fr < 1) then Inl (ConfigError ''partial_levels frac must be in (0, 1)'')
      else partials_check r (sm + fr) rest)"

definition smc_config_init :: "smc_config \<Rightarrow> error + smc_config" where
  "smc_config_init g =
    (case first_small (counted_fields g) of
       Some nm \<Rightarrow> Inl (ConfigError (nm @ '' must be >= 1''))
     | None \<Rightarrow>
     if mc_tick_size g \<le> 0 then Inl (ConfigError ''tick_size must be > 0'')
     else if mc_poc_tol g < 0 then Inl (ConfigError ''poc_tol must be >= 0'')
     else if \<not> (0 < mc_body_frac g \<and> mc_body_frac g < 1)
       then Inl (ConfigError ''disp_body_frac must be in (0, 1)'')
     else if mc_atr_mult g \<le> 0 then Inl (ConfigError ''disp_atr_mult must be > 0'')
     else if mc_vol_mult g \<le> 0 then Inl (ConfigError ''vol_mult must be > 0'')
     else if \<not> (0 < mc_risk_pct g \<and> mc_risk_pct g \<le> 10)
       then Inl (ConfigError ''risk_pct must be in (0, 10]'')
     else if \<not> (mc_trigger g < mc_htf g \<and> mc_htf g < mc_d1 g)
       then Inl (ConfigError ''timeframes must satisfy trigger_tf_min < htf_min < d1_min'')
     else if mc_d1 g \<noteq> 1440 then Inl (ConfigError ''d1_min must be 1440 (daily)'')
     else (case partials_check 0 0 (mc_partials g) of Inl er \<Rightarrow> Inl er
     | Inr (prev, sm) \<Rightarrow>
       if sm > 1 then Inl (ConfigError ''partial_levels fractions must sum to <= 1.0'')
       else if mc_final_tp g \<noteq> 0 \<and> mc_final_tp g \<le> prev
         then Inl (ConfigError ''final_tp_r must be 0 (off) or > the last partial r'')
       else if mc_final_tp g < 0 then Inl (ConfigError ''final_tp_r must be >= 0'')
       else if mc_stage1 g \<le> 0 then Inl (ConfigError ''stage1_at_r must be > 0'')
       else if mc_stage2 g \<le> mc_stage1 g then Inl (ConfigError ''stage2_at_r must be > stage1_at_r'')
       else if mc_min_lock g \<le> 0 then Inl (ConfigError ''stage2_min_lock_r must be > 0'')
       else if mc_comm g < 0 then Inl (ConfigError ''comm_per_lot must be >= 0'')
       else if mc_stop_buffer g \<le> 0 then Inl (ConfigError ''stop_buffer must be > 0'')
       else if mc_stop_max g \<le> mc_stop_buffer g
         then Inl (ConfigError ''stop_max_dist must be > stop_buffer'')
       else if \<not> (1 \<le> mc_min_conf g \<and> mc_min_conf g \<le> 6)
         then Inl (ConfigError ''min_confluences must be in 1..6'')
       else Inr g))"

definition smc_row_size :: "smc_config \<Rightarrow> flt" where
  "smc_row_size g = of_int (mc_ticks_per_row g) * mc_tick_size g"

definition smc_config_ok :: "smc_config \<Rightarrow> bool" where
  "smc_config_ok g \<longleftrightarrow> smc_config_init g = Inr g"

lemma smc_config_okD:
  assumes "smc_config_ok g"
  shows "1 \<le> mc_trigger g" "1 \<le> mc_swing_lookback g" "1 \<le> mc_max_swings g" "1 \<le> mc_confirm g"
    "1 \<le> mc_max_blocks g" "1 \<le> mc_expiry g" "1 \<le> mc_atr_period g" "1 \<le> mc_ticks_per_row g"
    "1 \<le> mc_max_trades g" "0 < mc_tick_size g" "0 < mc_stop_buffer g"
    "mc_stop_buffer g < mc_stop_max g" "mc_d1 g = 1440" "mc_trigger g < mc_htf g" "mc_htf g < 1440"
    "1 \<le> mc_min_conf g" "mc_min_conf g \<le> 6"
  using assms by (simp_all add: smc_config_ok_def smc_config_init_def counted_fields_def not_le not_less
      split: if_splits option.splits sum.splits prod.splits)

section \<open>Timeframes\<close>

text \<open>\<open>TimeframeAggregator\<close>. The bucket key and the running bar are set together; the key of a
  daily bucket is the date alone, here with minute 0. A bucket's time is its date and minute
  relabelled as UTC.\<close>

record agg =
  ag_minutes :: int
  ag_dev :: "((int \<times> int) \<times> candle) option"

definition agg_new :: "int \<Rightarrow> agg" where
  "agg_new m = \<lparr>ag_minutes = m, ag_dev = None\<rparr>"

definition agg_init :: "int \<Rightarrow> error + agg" where
  "agg_init m = (if \<not> (1 \<le> m \<and> m \<le> 1440) then Inl (ValueError ''minutes must be an int in 1..1440'')
     else if m < 1440 \<and> 1440 mod m \<noteq> 0 then Inl (ValueError ''intraday minutes must divide 1440'')
     else Inr (agg_new m))"

definition bucket_key :: "int \<Rightarrow> timestamp \<Rightarrow> int \<times> int" where
  "bucket_key m t = (date_of t,
     if m = 1440 then 0 else minute_of_day t - minute_of_day t mod m)"

definition bucket_open :: "int \<times> int \<Rightarrow> timestamp" where
  "bucket_open k = utc_ts (fst k * us_day + snd k * us_min)"

definition bucket_start :: "int \<times> int \<Rightarrow> candle \<Rightarrow> candle" where
  "bucket_start k c = c\<lparr>c_ts := bucket_open k\<rparr>"

definition bucket_fold :: "candle \<Rightarrow> candle \<Rightarrow> candle" where
  "bucket_fold b c = b\<lparr>c_high := max (c_high b) (c_high c), c_low := min (c_low b) (c_low c),
     c_close := c_close c, c_volume := c_volume b + c_volume c\<rparr>"

definition agg_update :: "candle \<Rightarrow> agg \<Rightarrow> candle option \<times> agg" where
  "agg_update c a =
     (let k = bucket_key (ag_minutes a) (c_ts c)
      in case ag_dev a of
           None \<Rightarrow> (None, a\<lparr>ag_dev := Some (k, bucket_start k c)\<rparr>)
         | Some (k', b) \<Rightarrow>
             if k = k' then (None, a\<lparr>ag_dev := Some (k', bucket_fold b c)\<rparr>)
             else (Some b, a\<lparr>ag_dev := Some (k, bucket_start k c)\<rparr>))"

definition developing :: "agg \<Rightarrow> candle option" where
  "developing a = map_option snd (ag_dev a)"

definition agg_reset :: "agg \<Rightarrow> agg" where
  "agg_reset a = a\<lparr>ag_dev := None\<rparr>"

section \<open>Market structure\<close>

record swing_point =
  sp_ts :: timestamp
  sp_price :: flt

datatype break_kind = BOS | CHOCH

record structure_event =
  se_ts :: timestamp
  se_kind :: break_kind
  se_dir :: direction
  se_level :: flt

record tracker =
  tk_lookback :: nat
  tk_max :: nat
  tk_window :: "(timestamp \<times> flt \<times> flt) list"
  tk_highs :: "swing_point list"
  tk_lows :: "swing_point list"
  tk_ref_high :: "swing_point option"
  tk_ref_low :: "swing_point option"
  tk_trend :: "direction option"

definition tracker_new :: "nat \<Rightarrow> nat \<Rightarrow> tracker" where
  "tracker_new n m = \<lparr>tk_lookback = n, tk_max = m, tk_window = [], tk_highs = [], tk_lows = [],
     tk_ref_high = None, tk_ref_low = None, tk_trend = None\<rparr>"

definition tracker_init :: "int \<Rightarrow> int \<Rightarrow> error + tracker" where
  "tracker_init n m = (if n < 1 then Inl (ValueError ''lookback must be >= 1'')
     else if m < 1 then Inl (ValueError ''max_swings must be >= 1'')
     else Inr (tracker_new (nat n) (nat m)))"

text \<open>The bar in the centre of a full window becomes a swing when it is the strict extreme.\<close>

definition confirm_swings :: "candle \<Rightarrow> tracker \<Rightarrow> tracker" where
  "confirm_swings c t =
     (let k = tk_lookback t; w = 2 * k + 1;
          win = push w (tk_window t) (c_ts c, c_high c, c_low c);
          t1 = t\<lparr>tk_window := win\<rparr>
      in if length win \<noteq> w then t1
         else (case win ! k of (ts, hi, lo) \<Rightarrow>
           let t2 = (if list_all (\<lambda>(_, h, _). hi > h) (others k win)
                     then t1\<lparr>tk_highs := push (tk_max t) (tk_highs t1) \<lparr>sp_ts = ts, sp_price = hi\<rparr>,
                             tk_ref_high := Some \<lparr>sp_ts = ts, sp_price = hi\<rparr>\<rparr>
                     else t1)
           in if list_all (\<lambda>(_, _, l). lo < l) (others k win)
              then t2\<lparr>tk_lows := push (tk_max t) (tk_lows t2) \<lparr>sp_ts = ts, sp_price = lo\<rparr>,
                      tk_ref_low := Some \<lparr>sp_ts = ts, sp_price = lo\<rparr>\<rparr>
              else t2))"

definition break_check :: "candle \<Rightarrow> tracker \<Rightarrow> structure_event option \<times> tracker" where
  "break_check c t =
     (let up0 = (case tk_ref_high t of None \<Rightarrow> False | Some s \<Rightarrow> c_close c > sp_price s);
          dn0 = (case tk_ref_low t of None \<Rightarrow> False | Some s \<Rightarrow> c_close c < sp_price s);
          up = (if up0 \<and> dn0 \<and> c_close c < c_open c then False else up0);
          dn = (if up0 \<and> dn0 \<and> c_close c \<ge> c_open c then False else dn0)
      in case (up, tk_ref_high t) of
           (True, Some s) \<Rightarrow>
             (Some \<lparr>se_ts = c_ts c, se_kind = (if tk_trend t = Some SHORT then CHOCH else BOS),
                    se_dir = LONG, se_level = sp_price s\<rparr>,
              t\<lparr>tk_ref_high := None, tk_trend := Some LONG\<rparr>)
         | _ \<Rightarrow>
           (case (dn, tk_ref_low t) of
              (True, Some s) \<Rightarrow>
                (Some \<lparr>se_ts = c_ts c, se_kind = (if tk_trend t = Some LONG then CHOCH else BOS),
                       se_dir = SHORT, se_level = sp_price s\<rparr>,
                 t\<lparr>tk_ref_low := None, tk_trend := Some SHORT\<rparr>)
            | _ \<Rightarrow> (None, t)))"

definition tracker_update :: "candle \<Rightarrow> tracker \<Rightarrow> structure_event option \<times> tracker" where
  "tracker_update c t = break_check c (confirm_swings c t)"

definition last_swing :: "swing_point list \<Rightarrow> swing_point option" where
  "last_swing xs = (if xs = [] then None else Some (last xs))"

definition swept_low :: "candle \<Rightarrow> tracker \<Rightarrow> flt option" where
  "swept_low c t = (case last_swing (tk_lows t) of None \<Rightarrow> None
     | Some s \<Rightarrow> if c_low c < sp_price s \<and> c_close c > sp_price s then Some (sp_price s) else None)"

definition swept_high :: "candle \<Rightarrow> tracker \<Rightarrow> flt option" where
  "swept_high c t = (case last_swing (tk_highs t) of None \<Rightarrow> None
     | Some s \<Rightarrow> if c_high c > sp_price s \<and> c_close c < sp_price s then Some (sp_price s) else None)"

definition tracker_reset :: "tracker \<Rightarrow> tracker" where
  "tracker_reset t = t\<lparr>tk_window := [], tk_highs := [], tk_lows := [], tk_ref_high := None,
     tk_ref_low := None, tk_trend := None\<rparr>"

section \<open>Order blocks\<close>

record order_block =
  ob_ts :: timestamp
  ob_dir :: direction
  ob_top :: flt
  ob_bottom :: flt
  ob_mitigated :: bool
  ob_born :: int

text \<open>A dictionary with one entry per direction.\<close>

record 'a by_dir =
  on_long :: 'a
  on_short :: 'a

definition side :: "direction \<Rightarrow> 'a by_dir \<Rightarrow> 'a" where
  "side d x = (case d of LONG \<Rightarrow> on_long x | SHORT \<Rightarrow> on_short x)"

definition set_side :: "direction \<Rightarrow> 'a \<Rightarrow> 'a by_dir \<Rightarrow> 'a by_dir" where
  "set_side d v x = (case d of LONG \<Rightarrow> x\<lparr>on_long := v\<rparr> | SHORT \<Rightarrow> x\<lparr>on_short := v\<rparr>)"

definition map_sides :: "(direction \<Rightarrow> 'a \<Rightarrow> 'a) \<Rightarrow> 'a by_dir \<Rightarrow> 'a by_dir" where
  "map_sides f x = \<lparr>on_long = f LONG (on_long x), on_short = f SHORT (on_short x)\<rparr>"

record ob_tracker =
  ot_body :: flt
  ot_mult :: flt
  ot_confirm :: int
  ot_max :: nat
  ot_expiry :: int
  ot_atr_period :: nat
  ot_atr :: wilder
  ot_recent :: "candle list"
  ot_bar :: int
  ot_pending :: "order_block list by_dir"
  ot_active :: "order_block list by_dir"

definition ob_new :: "flt \<Rightarrow> flt \<Rightarrow> int \<Rightarrow> nat \<Rightarrow> int \<Rightarrow> nat \<Rightarrow> ob_tracker" where
  "ob_new body mult confirm mx expiry period = \<lparr>ot_body = body, ot_mult = mult,
     ot_confirm = confirm, ot_max = mx, ot_expiry = expiry, ot_atr_period = period,
     ot_atr = wilder_new period, ot_recent = [], ot_bar = 0,
     ot_pending = \<lparr>on_long = [], on_short = []\<rparr>, ot_active = \<lparr>on_long = [], on_short = []\<rparr>\<rparr>"

definition ob_init :: "flt \<Rightarrow> flt \<Rightarrow> int \<Rightarrow> int \<Rightarrow> int \<Rightarrow> int \<Rightarrow> error + ob_tracker" where
  "ob_init body mult confirm mx expiry period =
    (if \<not> (0 < body \<and> body \<le> 1) then Inl (ValueError ''disp_body_frac must be in (0, 1]'')
     else if mult \<le> 0 then Inl (ValueError ''disp_atr_mult must be > 0'')
     else if confirm < 0 then Inl (ValueError ''confirm_bars must be >= 0'')
     else if mx < 1 then Inl (ValueError ''max_blocks must be >= 1'')
     else if expiry < 1 then Inl (ValueError ''expiry_bars must be >= 1'')
     else case wilder_init period of Inl er \<Rightarrow> Inl er
       | Inr _ \<Rightarrow> Inr (ob_new body mult confirm (nat mx) expiry (nat period)))"

text \<open>Step 1: what a bar does to a block that was active before it.\<close>

definition age_block ::
  "int \<Rightarrow> int \<Rightarrow> candle \<Rightarrow> direction \<Rightarrow> order_block \<Rightarrow> order_block option" where
  "age_block bar expiry c d ob =
     (if bar - ob_born ob \<ge> expiry then None
      else if (if d = LONG then c_close c < ob_bottom ob else c_close c > ob_top ob) then None
      else if \<not> ob_mitigated ob \<and> c_low c \<le> ob_top ob \<and> c_high c \<ge> ob_bottom ob
      then Some (ob\<lparr>ob_mitigated := True\<rparr>) else Some ob)"

text \<open>Step 2: a displacement bar makes the last opposite candle a candidate.\<close>

definition displaced :: "candle \<Rightarrow> ob_tracker \<Rightarrow> bool" where
  "displaced c t =
     (let rng = c_high c - c_low c
      in case w_atr (ot_atr t) of None \<Rightarrow> False
         | Some atr \<Rightarrow> rng > 0 \<and> c_close c \<noteq> c_open c
             \<and> \<bar>c_close c - c_open c\<bar> / rng \<ge> ot_body t \<and> rng \<ge> ot_mult t * atr)"

definition opposite :: "direction \<Rightarrow> candle \<Rightarrow> bool" where
  "opposite d p = (if d = LONG then c_close p < c_open p else c_close p > c_open p)"

definition add_candidate :: "candle \<Rightarrow> ob_tracker \<Rightarrow> ob_tracker" where
  "add_candidate c t =
     (if \<not> displaced c t then t
      else
        let d = (if c_close c > c_open c then LONG else SHORT)
        in case find (opposite d) (rev (ot_recent t)) of
             None \<Rightarrow> t
           | Some p \<Rightarrow> t\<lparr>ot_pending := set_side d (push 5 (side d (ot_pending t))
                 \<lparr>ob_ts = c_ts p, ob_dir = d, ob_top = c_high p, ob_bottom = c_low p,
                  ob_mitigated = False, ob_born = ot_bar t\<rparr>) (ot_pending t)\<rparr>)"

text \<open>Step 3: a structure break promotes the candidates of its direction.\<close>

definition promote :: "structure_event option \<Rightarrow> ob_tracker \<Rightarrow> ob_tracker" where
  "promote ev t = (case ev of None \<Rightarrow> t
     | Some e \<Rightarrow>
       let d = se_dir e;
           ripe = filter (\<lambda>ob. ot_bar t - ob_born ob \<le> ot_confirm t) (side d (ot_pending t))
       in t\<lparr>ot_active := set_side d (foldl (push (ot_max t)) (side d (ot_active t)) ripe)
                            (ot_active t),
            ot_pending := set_side d [] (ot_pending t)\<rparr>)"

definition ob_update :: "candle \<Rightarrow> structure_event option \<Rightarrow> ob_tracker \<Rightarrow> ob_tracker" where
  "ob_update c ev t =
     (let bar = ot_bar t + 1;
          t1 = t\<lparr>ot_bar := bar, ot_active :=
                 map_sides (\<lambda>d. List.map_filter (age_block bar (ot_expiry t) c d)) (ot_active t)\<rparr>;
          t2 = promote ev (add_candidate c t1)
      in t2\<lparr>ot_pending := map_sides (\<lambda>_. dropWhile (\<lambda>ob. bar - ob_born ob > ot_confirm t))
                            (ot_pending t2),
            ot_atr := wilder_update (c_high c, c_low c, c_close c) (ot_atr t2),
            ot_recent := push 10 (ot_recent t2) c\<rparr>)"

text \<open>The scan of \<open>poi_at\<close>, on the reversed list: the first match is marked and returned.\<close>

fun take_first :: "(order_block \<Rightarrow> bool) \<Rightarrow> order_block list \<Rightarrow> order_block option \<times> order_block list"
where
  "take_first P [] = (None, [])"
| "take_first P (ob # obs) =
     (if P ob then (Some (ob\<lparr>ob_mitigated := True\<rparr>), ob\<lparr>ob_mitigated := True\<rparr> # obs)
      else (case take_first P obs of (r, rest) \<Rightarrow> (r, ob # rest)))"

definition poi_at :: "flt \<Rightarrow> flt \<Rightarrow> direction \<Rightarrow> ob_tracker \<Rightarrow> order_block option \<times> ob_tracker" where
  "poi_at lo hi d t =
     (case take_first (\<lambda>ob. \<not> ob_mitigated ob \<and> ob_bottom ob \<le> hi \<and> ob_top ob \<ge> lo)
             (rev (side d (ot_active t))) of
        (r, obs) \<Rightarrow> (r, t\<lparr>ot_active := set_side d (rev obs) (ot_active t)\<rparr>))"

definition ob_reset :: "ob_tracker \<Rightarrow> ob_tracker" where
  "ob_reset t = t\<lparr>ot_atr := wilder_new (ot_atr_period t), ot_recent := [], ot_bar := 0,
     ot_pending := \<lparr>on_long = [], on_short = []\<rparr>, ot_active := \<lparr>on_long = [], on_short = []\<rparr>\<rparr>"

end
