(* ===== verification/Smc_Market_Properties.thy ===== *)
theory Smc_Market_Properties
  imports Smc_Market
begin

text \<open>
  Properties of the market readers of the Smart Money strategy: the aggregator against its
  reference definition, the events of the structure tracker, the order-block registers.
\<close>

section \<open>The aggregator refines grouping by bucket\<close>

fun agg_run :: "candle list \<Rightarrow> agg \<Rightarrow> candle list \<times> agg" where
  "agg_run [] a = ([], a)"
| "agg_run (c # cs) a = (case agg_update c a of (r, a1) \<Rightarrow>
     (case agg_run cs a1 of (out, a2) \<Rightarrow> ((case r of None \<Rightarrow> out | Some b \<Rightarrow> b # out), a2)))"

text \<open>The reference: cut the bars into maximal runs with the same key, and summarise each.\<close>

fun chunk :: "('a \<Rightarrow> 'k) \<Rightarrow> 'a list \<Rightarrow> 'a list list" where
  "chunk f [] = []"
| "chunk f (x # xs) = (case chunk f xs of [] \<Rightarrow> [[x]]
     | g # gs \<Rightarrow> if f x = f (hd g) then (x # g) # gs else [x] # g # gs)"

definition summarise :: "int \<Rightarrow> candle list \<Rightarrow> candle" where
  "summarise m g = \<lparr>c_ts = bucket_open (bucket_key m (c_ts (hd g))), c_open = c_open (hd g),
     c_high = Max (set (map c_high g)), c_low = Min (set (map c_low g)),
     c_close = c_close (last g), c_volume = sum_list (map c_volume g)\<rparr>"

lemma chunk_hd: "xs \<noteq> [] \<Longrightarrow> \<exists>g gs. chunk f xs = g # gs \<and> g \<noteq> [] \<and> hd g = hd xs"
  by (cases xs) (auto split: list.splits)

lemma chunk_same: "p \<noteq> [] \<Longrightarrow> \<forall>x \<in> set p. f x = k \<Longrightarrow> chunk f p = [p]"
proof (induction p)
  case (Cons x p)
  then show ?case by (cases p) (auto split: list.splits)
qed simp

lemma chunk_split:
  "p \<noteq> [] \<Longrightarrow> \<forall>x \<in> set p. f x = k \<Longrightarrow> xs \<noteq> [] \<Longrightarrow> f (hd xs) \<noteq> k
   \<Longrightarrow> chunk f (p @ xs) = p # chunk f xs"
proof (induction p)
  case (Cons x p)
  obtain g gs where g: "chunk f xs = g # gs" "g \<noteq> []" "hd g = hd xs"
    using chunk_hd [OF Cons.prems(3)] by blast
  show ?case
  proof (cases p)
    case Nil
    then show ?thesis using g Cons.prems by simp
  next
    case (Cons y ys)
    then show ?thesis using Cons.IH Cons.prems by simp
  qed
qed simp

lemma summarise_fold:
  assumes "p \<noteq> []"
  shows "bucket_fold (summarise m p) c = summarise m (p @ [c])"
proof -
  have "Max (insert (c_high c) (c_high ` set p)) = max (Max (c_high ` set p)) (c_high c)"
    "Min (insert (c_low c) (c_low ` set p)) = min (Min (c_low ` set p)) (c_low c)"
    using assms by (simp_all add: max.commute min.commute)
  then show ?thesis using assms by (simp add: bucket_fold_def summarise_def)
qed

lemma summarise_start: "summarise m [c] = bucket_start (bucket_key m (c_ts c)) c"
  by (simp add: summarise_def bucket_start_def)

lemma agg_run_from:
  fixes m :: int
  defines "key \<equiv> \<lambda>c. bucket_key m (c_ts c)"
  assumes "p \<noteq> []" and "\<forall>x \<in> set p. key x = k"
  shows "agg_run cs \<lparr>ag_minutes = m, ag_dev = Some (k, summarise m p)\<rparr>
    = (map (summarise m) (butlast (chunk key (p @ cs))),
       \<lparr>ag_minutes = m, ag_dev = Some (key (last (p @ cs)), summarise m (last (chunk key (p @ cs))))\<rparr>)"
  using assms(2,3)
proof (induction cs arbitrary: p k)
  case Nil
  then show ?case using chunk_same [of p key k] by simp
next
  case (Cons c cs)
  show ?case
  proof (cases "key c = k")
    case True
    then show ?thesis using Cons.IH [of "p @ [c]" k] Cons.prems
      by (simp add: agg_update_def key_def summarise_fold)
  next
    case False
    have s: "chunk key (p @ c # cs) = p # chunk key (c # cs)"
      using chunk_split [of p key k "c # cs"] Cons.prems False by simp
    have ne: "chunk key (c # cs) \<noteq> []" using chunk_hd [of "c # cs" key] by auto
    have "agg_run cs \<lparr>ag_minutes = m, ag_dev = Some (key c, summarise m [c])\<rparr>
      = (map (summarise m) (butlast (chunk key (c # cs))),
         \<lparr>ag_minutes = m, ag_dev = Some (key (last (c # cs)), summarise m (last (chunk key (c # cs))))\<rparr>)"
      using Cons.IH [of "[c]" "key c"] by simp
    moreover have "agg_update c \<lparr>ag_minutes = m, ag_dev = Some (k, summarise m p)\<rparr>
      = (Some (summarise m p), \<lparr>ag_minutes = m, ag_dev = Some (key c, summarise m [c])\<rparr>)"
      using False by (simp add: agg_update_def key_def summarise_start Let_def)
    ultimately show ?thesis using Cons.prems s ne by (simp del: chunk.simps)
  qed
qed

text \<open>C20: the streaming aggregator refines the reference that cuts the bars into maximal runs of
  one bucket: the candles it emits are the summaries (first open, highest high, lowest low, last
  close, total volume, bucket time) of all runs but the last, in order, and its developing candle
  is the summary of the last run.\<close>

theorem agg_refines_grouping:
  fixes m :: int and cs :: "candle list"
  defines "gs \<equiv> chunk (\<lambda>c. bucket_key m (c_ts c)) cs"
  shows "fst (agg_run cs (agg_new m)) = map (summarise m) (butlast gs)
     \<and> developing (snd (agg_run cs (agg_new m))) = (if gs = [] then None else Some (summarise m (last gs)))"
proof (cases cs)
  case Nil
  then show ?thesis by (simp add: gs_def developing_def agg_new_def)
next
  case (Cons c cs')
  define key :: "candle \<Rightarrow> int \<times> int" where "key = (\<lambda>c. bucket_key m (c_ts c))"
  have ne: "gs \<noteq> []" using chunk_hd [of cs key] Cons by (auto simp: gs_def key_def)
  have "agg_run cs (agg_new m) = agg_run cs' \<lparr>ag_minutes = m, ag_dev = Some (key c, summarise m [c])\<rparr>"
    using Cons by (simp add: agg_update_def agg_new_def summarise_start key_def Let_def split: prod.split)
  also have "\<dots> = (map (summarise m) (butlast gs), \<lparr>ag_minutes = m,
      ag_dev = Some (key (last ([c] @ cs')), summarise m (last gs))\<rparr>)"
    using agg_run_from [of "[c]" m "key c" cs'] Cons by (simp add: gs_def key_def)
  finally show ?thesis using ne by (simp add: developing_def)
qed

section \<open>Structure events\<close>

fun track_run :: "candle list \<Rightarrow> tracker \<Rightarrow> (candle \<times> structure_event) list \<times> tracker" where
  "track_run [] t = ([], t)"
| "track_run (c # cs) t = (case tracker_update c t of (r, t1) \<Rightarrow>
     (case track_run cs t1 of (out, t2) \<Rightarrow>
        ((case r of None \<Rightarrow> out | Some ev \<Rightarrow> (c, ev) # out), t2)))"

text \<open>The kinds a sequence of break directions must have: a change of character exactly where the
  direction turns.\<close>

fun kinds :: "direction option \<Rightarrow> direction list \<Rightarrow> break_kind list" where
  "kinds prev [] = []"
| "kinds prev (d # ds) = (case prev of None \<Rightarrow> BOS | Some p \<Rightarrow> if p = d then BOS else CHOCH)
     # kinds (Some d) ds"

definition seen :: "candle list \<Rightarrow> tracker \<Rightarrow> bool" where
  "seen cs t \<longleftrightarrow> (\<forall>(_, h, l) \<in> set (tk_window t). h \<in> c_high ` set cs \<and> l \<in> c_low ` set cs)
     \<and> (\<forall>s. tk_ref_high t = Some s \<longrightarrow> sp_price s \<in> c_high ` set cs)
     \<and> (\<forall>s. tk_ref_low t = Some s \<longrightarrow> sp_price s \<in> c_low ` set cs)"

lemma confirm_trend: "tk_trend (confirm_swings c t) = tk_trend t"
  by (simp add: confirm_swings_def Let_def split: prod.splits)

lemma confirm_seen:
  assumes "seen cs t"
  shows "seen (cs @ [c]) (confirm_swings c t)"
proof -
  define w where "w = push (2 * tk_lookback t + 1) (tk_window t) (c_ts c, c_high c, c_low c)"
  have sub: "set w \<subseteq> insert (c_ts c, c_high c, c_low c) (set (tk_window t))"
    unfolding w_def by (rule set_push_subset)
  have win: "\<forall>(_, h, l) \<in> set w. h \<in> c_high ` set (cs @ [c]) \<and> l \<in> c_low ` set (cs @ [c])"
    using sub assms by (fastforce simp: seen_def)
  have mid: "h \<in> c_high ` set (cs @ [c]) \<and> l \<in> c_low ` set (cs @ [c])"
    if "w ! tk_lookback t = (x, h, l)" "length w = 2 * tk_lookback t + 1" for x h l
  proof -
    have "(x, h, l) \<in> set w" using that nth_mem [of "tk_lookback t" w] by simp
    then show ?thesis using win by blast
  qed
  have old: "x \<in> c_high ` set cs \<Longrightarrow> x \<in> c_high ` set (cs @ [c])"
    "x \<in> c_low ` set cs \<Longrightarrow> x \<in> c_low ` set (cs @ [c])" for x by auto
  obtain x h l where m: "w ! tk_lookback t = (x, h, l)" by (metis prod_cases3)
  show ?thesis
    using assms win mid [OF m] unfolding confirm_swings_def Let_def w_def [symmetric] m seen_def
    by (simp add: old del: set_append)
qed

definition event_ok :: "candle list \<Rightarrow> candle \<Rightarrow> structure_event \<Rightarrow> bool" where
  "event_ok cs c ev \<longleftrightarrow> (if se_dir ev = LONG then se_level ev < c_close c \<and> se_level ev \<in> c_high ` set cs
     else c_close c < se_level ev \<and> se_level ev \<in> c_low ` set cs)"

lemma break_check_split:
  assumes "break_check c t = (r, t')"
  obtains (none) "r = None" "t' = t"
  | (up) s where "tk_ref_high t = Some s" "sp_price s < c_close c"
      "r = Some \<lparr>se_ts = c_ts c, se_kind = (if tk_trend t = Some SHORT then CHOCH else BOS),
         se_dir = LONG, se_level = sp_price s\<rparr>"
      "t' = t\<lparr>tk_ref_high := None, tk_trend := Some LONG\<rparr>"
  | (dn) s where "tk_ref_low t = Some s" "c_close c < sp_price s"
      "r = Some \<lparr>se_ts = c_ts c, se_kind = (if tk_trend t = Some LONG then CHOCH else BOS),
         se_dir = SHORT, se_level = sp_price s\<rparr>"
      "t' = t\<lparr>tk_ref_low := None, tk_trend := Some SHORT\<rparr>"
proof -
  define k1 k2 where "k1 = (if tk_trend t = Some SHORT then CHOCH else BOS)"
    and "k2 = (if tk_trend t = Some LONG then CHOCH else BOS)"
  define up0 dn0 where "up0 = (case tk_ref_high t of None \<Rightarrow> False | Some s \<Rightarrow> c_close c > sp_price s)"
    and "dn0 = (case tk_ref_low t of None \<Rightarrow> False | Some s \<Rightarrow> c_close c < sp_price s)"
  note eq = assms [unfolded break_check_def, folded k1_def k2_def up0_def dn0_def, unfolded Let_def]
  have h: "\<exists>s. tk_ref_high t = Some s \<and> sp_price s < c_close c" if up0
    using that by (simp add: up0_def split: option.splits)
  have l: "\<exists>s. tk_ref_low t = Some s \<and> c_close c < sp_price s" if dn0
    using that by (simp add: dn0_def split: option.splits)
  consider "\<not> up0" "\<not> dn0" | "up0" "dn0 \<longrightarrow> c_close c \<ge> c_open c" | "dn0" "up0 \<longrightarrow> c_close c < c_open c"
    by linarith
  then show thesis
  proof cases
    case 1
    then show thesis using none eq by simp
  next
    case 2
    then obtain s where s: "tk_ref_high t = Some s" "sp_price s < c_close c" using h by blast
    have u: "(if up0 \<and> dn0 \<and> c_close c < c_open c then False else up0) = True" using 2 by auto
    show thesis using eq [unfolded u s(1)] by (intro up [OF s]) (simp_all add: k1_def)
  next
    case 3
    then obtain s where s: "tk_ref_low t = Some s" "c_close c < sp_price s" using l by blast
    have u: "(if up0 \<and> dn0 \<and> c_close c < c_open c then False else up0) = False"
      "(if up0 \<and> dn0 \<and> c_open c \<le> c_close c then False else dn0) = True" using 3 by auto
    show thesis using eq [unfolded u s(1)] by (intro dn [OF s]) (simp_all add: k2_def)
  qed
qed

lemma break_check_cases:
  assumes "break_check c t = (r, t')" and "seen cs t"
  shows "seen cs t' \<and> (case r of None \<Rightarrow> t' = t
     | Some ev \<Rightarrow> event_ok cs c ev \<and> tk_trend t' = Some (se_dir ev)
         \<and> [se_kind ev] = kinds (tk_trend t) [se_dir ev])"
  using assms(1)
proof (cases rule: break_check_split)
  case none
  then show ?thesis using assms(2) by simp
next
  case (up s)
  have "se_kind (the r) = (case tk_trend t of None \<Rightarrow> BOS | Some p \<Rightarrow> if p = LONG then BOS else CHOCH)"
    using up(3) by (cases "tk_trend t"; cases "the (tk_trend t)") simp_all
  then show ?thesis using up assms(2) by (simp add: seen_def event_ok_def)
next
  case (dn s)
  have "se_kind (the r) = (case tk_trend t of None \<Rightarrow> BOS | Some p \<Rightarrow> if p = SHORT then BOS else CHOCH)"
    using dn(3) by (cases "tk_trend t"; cases "the (tk_trend t)") simp_all
  then show ?thesis using dn assms(2) by (simp add: seen_def event_ok_def)
qed

lemma event_ok_mono: "event_ok cs c ev \<Longrightarrow> event_ok (cs @ ds) c ev"
  by (auto simp: event_ok_def)

lemma track_run_sound:
  "seen cs t \<Longrightarrow> track_run ds t = (evs, t') \<Longrightarrow>
   map (se_kind \<circ> snd) evs = kinds (tk_trend t) (map (se_dir \<circ> snd) evs)
   \<and> tk_trend t' = (if evs = [] then tk_trend t else Some (se_dir (snd (last evs))))
   \<and> (\<forall>(c, ev) \<in> set evs. event_ok (cs @ ds) c ev)"
proof (induction ds arbitrary: cs t evs t')
  case Nil
  then show ?case by simp
next
  case (Cons c ds)
  obtain r t1 where u: "tracker_update c t = (r, t1)" by (meson surj_pair)
  obtain out t2 where o: "track_run ds t1 = (out, t2)" by (meson surj_pair)
  have e: "evs = (case r of None \<Rightarrow> out | Some ev \<Rightarrow> (c, ev) # out)" "t' = t2"
    using Cons.prems(2) u o by simp_all
  have b: "seen (cs @ [c]) t1" "case r of None \<Rightarrow> tk_trend t1 = tk_trend t
     | Some ev \<Rightarrow> event_ok (cs @ [c]) c ev \<and> tk_trend t1 = Some (se_dir ev)
         \<and> [se_kind ev] = kinds (tk_trend t) [se_dir ev]"
    using break_check_cases [OF u [unfolded tracker_update_def] confirm_seen [OF Cons.prems(1)]]
    by (auto simp: confirm_trend split: option.splits)
  note ih = Cons.IH [OF b(1) o]
  show ?case
  proof (cases r)
    case None
    then show ?thesis using ih b(2) e by simp
  next
    case (Some ev)
    have "event_ok (cs @ c # ds) c ev" using b(2) Some event_ok_mono [of "cs @ [c]" c ev ds] by simp
    then show ?thesis using ih b(2) e Some by auto
  qed
qed

text \<open>The structure tracker's events, over any run of bars from a fresh tracker: every event is
  a close strictly beyond the high (long) or low (short) of a bar of the run; an event is a change
  of character exactly when its direction differs from the event before it, the first being a
  break of structure; and the trend is the direction of the last event.\<close>

theorem structure_events_sound:
  fixes n mx :: nat and cs :: "candle list"
  defines "run \<equiv> track_run cs (tracker_new n mx)"
  shows "map (se_kind \<circ> snd) (fst run) = kinds None (map (se_dir \<circ> snd) (fst run))
     \<and> tk_trend (snd run) = (if fst run = [] then None else Some (se_dir (snd (last (fst run)))))
     \<and> list_all (\<lambda>(c, ev). event_ok cs c ev) (fst run)"
proof -
  have "seen [] (tracker_new n mx)" by (simp add: seen_def tracker_new_def)
  from track_run_sound [OF this, of cs "fst run" "snd run"] show ?thesis
    by (simp add: run_def tracker_new_def list_all_iff)
qed

section \<open>Order blocks\<close>

lemma side_simps [simp]: "side d (set_side d' v x) = (if d = d' then v else side d x)"
  "side d (map_sides f x) = f d (side d x)"
  by (cases d; cases d'; simp add: side_def set_side_def) (cases d; simp add: side_def map_sides_def)

lemma take_first_some:
  "take_first P xs = (Some ob, ys) \<Longrightarrow> \<exists>i < length xs. P (xs ! i)
     \<and> ob = (xs ! i)\<lparr>ob_mitigated := True\<rparr> \<and> ys = xs[i := ob] \<and> (\<forall>j < i. \<not> P (xs ! j))"
proof (induction xs arbitrary: ys)
  case (Cons x xs)
  show ?case
  proof (cases "P x")
    case True
    then show ?thesis using Cons.prems by (intro exI [of _ 0]) auto
  next
    case False
    obtain r rest where r: "take_first P xs = (r, rest)" by (meson surj_pair)
    then have e: "r = Some ob" "ys = x # rest" using Cons.prems False by simp_all
    obtain i where "i < length xs" "P (xs ! i)" "ob = (xs ! i)\<lparr>ob_mitigated := True\<rparr>"
      "rest = xs[i := ob]" "\<forall>j < i. \<not> P (xs ! j)" using Cons.IH [of rest] r e by auto
    then show ?thesis using False e
      by (intro exI [of _ "Suc i"]) (auto simp: nth_Cons split: nat.splits)
  qed
qed simp

lemma take_first_none: "take_first P xs = (None, ys) \<Longrightarrow> ys = xs \<and> (\<forall>x \<in> set xs. \<not> P x)"
  by (induction xs arbitrary: ys) (auto split: if_splits prod.splits)

definition eligible :: "flt \<Rightarrow> flt \<Rightarrow> order_block \<Rightarrow> bool" where
  "eligible lo hi ob \<longleftrightarrow> \<not> ob_mitigated ob \<and> ob_bottom ob \<le> hi \<and> lo \<le> ob_top ob"

definition unspent :: "order_block list \<Rightarrow> nat" where
  "unspent obs = length (filter (\<lambda>ob. \<not> ob_mitigated ob) obs)"

lemma unspent_update:
  "i < length obs \<Longrightarrow> \<not> ob_mitigated (obs ! i) \<Longrightarrow> ob_mitigated b
   \<Longrightarrow> unspent (obs[i := b]) + 1 = unspent obs"
proof (induction obs arbitrary: i)
  case (Cons x xs)
  then show ?case by (cases i) (auto simp: unspent_def)
qed simp

lemma poi_cases:
  assumes "poi_at lo hi d t = (r, t')"
  obtains (none) "r = None" "t' = t" "list_all (\<lambda>ob. \<not> eligible lo hi ob) (side d (ot_active t))"
  | (taken) i ob where "r = Some ob" "i < length (side d (ot_active t))"
      "eligible lo hi (side d (ot_active t) ! i)"
      "list_all (\<lambda>b. \<not> eligible lo hi b) (drop (Suc i) (side d (ot_active t)))"
      "ob = (side d (ot_active t) ! i)\<lparr>ob_mitigated := True\<rparr>"
      "t' = t\<lparr>ot_active := set_side d ((side d (ot_active t))[i := ob]) (ot_active t)\<rparr>"
proof -
  define P where "P = (\<lambda>ob :: order_block. \<not> ob_mitigated ob \<and> ob_bottom ob \<le> hi \<and> ob_top ob \<ge> lo)"
  have P: "P ob = eligible lo hi ob" for ob by (simp add: P_def eligible_def)
  define act where "act = side d (ot_active t)"
  obtain r' obs where tf: "take_first P (rev act) = (r', obs)" by (meson surj_pair)
  have p: "r = r'" "t' = t\<lparr>ot_active := set_side d (rev obs) (ot_active t)\<rparr>"
    using tf assms by (simp_all add: poi_at_def act_def P_def)
  have same: "set_side d (side d x) x = x" for x :: "order_block list by_dir"
    by (cases d) (simp_all add: side_def set_side_def)
  show thesis
  proof (cases r')
    case None
    then have "obs = rev act" "list_all (\<lambda>ob. \<not> eligible lo hi ob) act"
      using take_first_none [of P "rev act" obs] tf P by (auto simp: list_all_iff)
    then show thesis using none None p by (simp add: act_def same)
  next
    case (Some ob)
    obtain i where i: "i < length act" "P (rev act ! i)" "ob = (rev act ! i)\<lparr>ob_mitigated := True\<rparr>"
      "obs = (rev act)[i := ob]" "\<forall>j < i. \<not> P (rev act ! j)"
      using take_first_some [of P "rev act" ob obs] tf Some by auto
    define k where "k = length act - Suc i"
    have k: "k < length act" "rev act ! i = act ! k" using i(1) by (simp_all add: k_def rev_nth)
    have "rev (act[k := ob]) = obs" using i(1,4) rev_update [OF k(1), of ob] by (simp add: k_def)
    then have "rev obs = act[k := ob]" by (metis rev_rev_ident)
    then have up: "t' = t\<lparr>ot_active := set_side d (act[k := ob]) (ot_active t)\<rparr>" using p by simp
    have "\<not> P (act ! j)" if "k < j" "j < length act" for j
    proof -
      have "length act - Suc j < i" "length act - Suc j < length act" using that i(1) by (auto simp: k_def)
      moreover have "rev act ! (length act - Suc j) = act ! j"
        using calculation(2) that(2) by (simp add: rev_nth)
      ultimately show ?thesis using i(5) by metis
    qed
    then have "list_all (\<lambda>b. \<not> eligible lo hi b) (drop (Suc k) act)"
      by (auto simp: list_all_length P)
    then show thesis using taken [of ob k] Some p(1) up k i(2,3) by (simp add: P act_def)
  qed
qed

text \<open>A point of interest is spent once. \<open>poi_at\<close> returns the most recent untouched block of
  the asked direction overlapping the range, marks exactly that block and leaves one untouched
  block fewer; when it returns nothing there was no such block and nothing changed.\<close>

theorem poi_spent_once:
  fixes lo hi :: flt and d :: direction and t :: ob_tracker
  defines "act \<equiv> side d (ot_active t)" and "act' \<equiv> side d (ot_active (snd (poi_at lo hi d t)))"
  shows "case fst (poi_at lo hi d t) of
      None \<Rightarrow> act' = act \<and> list_all (\<lambda>ob. \<not> eligible lo hi ob) act
    | Some ob \<Rightarrow> (\<exists>i < length act. eligible lo hi (act ! i)
          \<and> list_all (\<lambda>b. \<not> eligible lo hi b) (drop (Suc i) act)
          \<and> ob = (act ! i)\<lparr>ob_mitigated := True\<rparr> \<and> act' = act[i := ob])
        \<and> unspent act' + 1 = unspent act"
proof -
  obtain r t' where p: "poi_at lo hi d t = (r, t')" by (meson surj_pair)
  then show ?thesis
  proof (cases rule: poi_cases)
    case none
    then show ?thesis by (simp add: p act_def act'_def)
  next
    case (taken i ob)
    have a: "act' = act[i := ob]" using taken(6) by (simp add: act'_def act_def p)
    have "unspent act' + 1 = unspent act"
      unfolding a using taken(2,3,5) by (intro unspent_update) (simp_all add: act_def eligible_def)
    then show ?thesis using taken(1-5) a by (auto simp: p act_def)
  qed
qed

subsection \<open>The registers stay small and well formed\<close>

lemma foldl_push_le: "length xs \<le> n \<Longrightarrow> length (foldl (push n) xs ys) \<le> n"
  by (induction ys arbitrary: xs) (simp_all add: length_push_le)

lemma foldl_push_set: "set (foldl (push n) xs ys) \<subseteq> set xs \<union> set ys"
proof (induction ys arbitrary: xs)
  case (Cons y ys)
  then show ?case using set_push_subset [of n xs y] by fastforce
qed simp

definition block_ok :: "direction \<Rightarrow> order_block \<Rightarrow> bool" where
  "block_ok d ob \<longleftrightarrow> ob_dir ob = d \<and> ob_bottom ob \<le> ob_top ob"

definition ob_inv :: "ob_tracker \<Rightarrow> bool" where
  "ob_inv t \<longleftrightarrow> length (ot_recent t) \<le> 10 \<and> list_all (\<lambda>c. c_low c \<le> c_high c) (ot_recent t)
     \<and> (\<forall>d. length (side d (ot_pending t)) \<le> 5 \<and> length (side d (ot_active t)) \<le> ot_max t
          \<and> list_all (block_ok d) (side d (ot_pending t))
          \<and> list_all (block_ok d) (side d (ot_active t)))"

lemma age_block_ok: "age_block bar x c d ob = Some ob' \<Longrightarrow> block_ok d' ob \<Longrightarrow> block_ok d' ob'"
  by (auto simp: age_block_def block_ok_def split: if_splits)

lemma map_filter_facts:
  "length (List.map_filter f xs) \<le> length xs"
  "(\<And>x y. f x = Some y \<Longrightarrow> P x \<Longrightarrow> Q y) \<Longrightarrow> list_all P xs \<Longrightarrow> list_all Q (List.map_filter f xs)"
  by (induction xs) (auto simp: List.map_filter_simps split: option.splits)

lemma candidate_inv:
  assumes "ob_inv t"
  shows "ob_inv (add_candidate c t)"
proof (cases "displaced c t")
  case True
  define d where "d = (if c_close c > c_open c then LONG else SHORT)"
  show ?thesis
  proof (cases "find (opposite d) (rev (ot_recent t))")
    case None
    then show ?thesis using assms True by (simp add: add_candidate_def d_def [symmetric])
  next
    case (Some p)
    then have "p \<in> set (ot_recent t)" by (metis find_Some_iff nth_mem set_rev)
    then have "c_low p \<le> c_high p" using assms by (simp add: ob_inv_def list_all_iff)
    moreover define b where "b = \<lparr>ob_ts = c_ts p, ob_dir = d, ob_top = c_high p, ob_bottom = c_low p,
        ob_mitigated = False, ob_born = ot_bar t\<rparr>"
    ultimately have b: "block_ok d b" by (simp add: block_ok_def)
    have n: "add_candidate c t = t\<lparr>ot_pending := set_side d (push 5 (side d (ot_pending t)) b) (ot_pending t)\<rparr>"
      using True Some by (simp add: add_candidate_def d_def [symmetric] b_def Let_def)
    have "list_all (block_ok d) (push 5 (side d (ot_pending t)) b)"
      using set_push_subset [of 5 "side d (ot_pending t)" b] b assms
      by (auto simp: ob_inv_def list_all_iff)
    then show ?thesis using assms unfolding n by (simp add: ob_inv_def length_push_le)
  qed
qed (use assms in \<open>simp add: add_candidate_def\<close>)

lemma promote_inv:
  assumes "ob_inv t"
  shows "ob_inv (promote ev t)"
proof (cases ev)
  case (Some e)
  define d where "d = se_dir e"
  define ripe where "ripe = filter (\<lambda>ob. ot_bar t - ob_born ob \<le> ot_confirm t) (side d (ot_pending t))"
  have "list_all (block_ok d) (foldl (push (ot_max t)) (side d (ot_active t)) ripe)"
    using foldl_push_set [of "ot_max t" "side d (ot_active t)" ripe] assms
    by (auto simp: ob_inv_def list_all_iff ripe_def)
  then show ?thesis
    using assms foldl_push_le [of "side d (ot_active t)" "ot_max t" ripe]
    by (simp add: promote_def Some Let_def d_def [symmetric] ripe_def [symmetric] ob_inv_def)
qed (use assms in \<open>simp add: promote_def\<close>)

lemma ob_update_inv:
  assumes inv: "ob_inv t" and c: "c_low c \<le> c_high c"
  shows "ob_inv (ob_update c ev t)"
proof -
  define t1 where "t1 = t\<lparr>ot_bar := ot_bar t + 1, ot_active :=
    map_sides (\<lambda>d. List.map_filter (age_block (ot_bar t + 1) (ot_expiry t) c d)) (ot_active t)\<rparr>"
  have "list_all (block_ok d) (List.map_filter (age_block b x c d) (side d (ot_active t)))"
    "length (List.map_filter (age_block b x c d) (side d (ot_active t))) \<le> ot_max t" for d b x
    using inv map_filter_facts(2) [of "age_block b x c d" "block_ok d" "block_ok d", OF age_block_ok]
      order_trans [OF map_filter_facts(1), of "side d (ot_active t)" "ot_max t"]
    by (auto simp: ob_inv_def)
  then have "ob_inv t1" using inv by (simp add: ob_inv_def t1_def)
  then have i2: "ob_inv (promote ev (add_candidate c t1))" by (intro promote_inv candidate_inv)
  define t2 where "t2 = promote ev (add_candidate c t1)"
  have dw: "length (dropWhile P xs) \<le> length xs" "list_all Q xs \<Longrightarrow> list_all Q (dropWhile P xs)"
    for P Q and xs :: "order_block list"
    by (auto simp: length_dropWhile_le list_all_iff dest: set_dropWhileD)
  have "list_all (\<lambda>c. c_low c \<le> c_high c) (push 10 (ot_recent t2) c)"
    using i2 c set_push_subset [of 10 "ot_recent t2" c] by (auto simp: ob_inv_def t2_def list_all_iff)
  then show ?thesis
    using i2 unfolding ob_update_def Let_def t1_def [symmetric] t2_def [symmetric]
    by (auto simp: ob_inv_def length_push_le dw(2) intro: order_trans [OF dw(1)])
qed

lemma poi_at_inv:
  assumes "ob_inv t" and "poi_at lo hi d t = (r, t')"
  shows "ob_inv t'"
  using assms(2)
proof (cases rule: poi_cases)
  case none
  then show ?thesis using assms(1) by simp
next
  case (taken i ob)
  have "block_ok d (side d (ot_active t) ! i)"
    using assms(1) taken(2) by (simp add: ob_inv_def list_all_length)
  then have "block_ok d ob" using taken(5) by (simp add: block_ok_def)
  then have "list_all (block_ok d) ((side d (ot_active t))[i := ob])"
    using assms(1) set_update_subset_insert [of "side d (ot_active t)" i ob]
    by (auto simp: ob_inv_def list_all_iff)
  then show ?thesis using assms(1) taken(6) by (simp add: ob_inv_def)
qed

text \<open>What a tracker is asked to do over its life: bars with their structure events, and queries.\<close>

datatype ob_op = Bar candle "structure_event option" | Query flt flt direction

definition ob_exec :: "ob_op \<Rightarrow> ob_tracker \<Rightarrow> ob_tracker" where
  "ob_exec op t = (case op of Bar c ev \<Rightarrow> ob_update c ev t
     | Query lo hi d \<Rightarrow> snd (poi_at lo hi d t))"

definition op_ok :: "ob_op \<Rightarrow> bool" where
  "op_ok op = (case op of Bar c _ \<Rightarrow> c_low c \<le> c_high c | Query _ _ _ \<Rightarrow> True)"

lemma ob_exec_inv: "ob_inv t \<Longrightarrow> op_ok op \<Longrightarrow> ob_inv (ob_exec op t)"
  by (cases op) (auto simp: ob_exec_def op_ok_def ob_update_inv intro: poi_at_inv [OF _ surjective_pairing])

text \<open>The order-block tracker runs in bounded memory and keeps its registers well formed: after
  any sequence of bars and queries on a fresh tracker there are at most ten recent candles, five
  candidates and the configured number of blocks per direction, and every candidate or block
  supports the direction it is filed under with its bottom not above its top.\<close>

theorem order_blocks_bounded:
  assumes "list_all op_ok ops"
  shows "ob_inv (fold ob_exec ops (ob_new body mult confirm mx expiry period))"
proof -
  have "ob_inv (ob_new body mult confirm mx expiry period)"
    by (auto simp: ob_inv_def ob_new_def side_def split: direction.splits)
  then show ?thesis using assms
    by (induction ops arbitrary: body rule: rev_induct) (auto simp: ob_exec_inv)
qed

theorem order_blocks_bounded_witness:
  "ob_inv (fold ob_exec [Bar \<lparr>c_ts = utc_ts 0, c_open = 2, c_high = 3, c_low = 1, c_close = 1, c_volume = 0\<rparr> None,
     Query 1 2 LONG] (ob_new (1 / 2) 1 10 20 180 14))"
  using order_blocks_bounded [of "[Bar \<lparr>c_ts = utc_ts 0, c_open = 2, c_high = 3, c_low = 1, c_close = 1, c_volume = 0\<rparr> None,
     Query 1 2 LONG]"] by (simp add: op_ok_def)

end
