(* ===== verification/Smc_Engine.thy ===== *)
theory Smc_Engine
  imports Smc_Market Engine_Interface
begin

text \<open>
  \<open>orb/smc/strategy.py\<close>: the Smart Money engine. It folds one-minute bars into three timeframes,
  decides on every completed trigger bar and enters on a confluence of checks. The digits of the
  point-of-control price inside the reason text are left out; everything else of it is kept.
\<close>

section \<open>State\<close>

record smc_engine =
  me_m15 :: agg
  me_h4 :: agg
  me_d1 :: agg
  me_s15 :: tracker
  me_sh4 :: tracker
  me_sd1 :: tracker
  me_obh4 :: ob_tracker
  me_obd1 :: ob_tracker
  me_atr :: wilder
  me_vsma :: vsma
  me_profile :: profile
  me_prior :: "prior_profile option"
  me_hist :: "candle list"
  me_h4_high :: "flt option"
  me_h4_low :: "flt option"
  me_state :: state
  me_pos :: "position option"
  me_last_ts :: "timestamp option"
  me_traded :: int
  me_date :: "int option"
  me_out :: "emission list"

definition smc_ob :: "smc_config \<Rightarrow> ob_tracker" where
  "smc_ob g = ob_new (mc_body_frac g) (mc_atr_mult g) (mc_confirm g) (nat (mc_max_blocks g))
     (mc_expiry g) (nat (mc_atr_period g))"

definition smc_profile :: "smc_config \<Rightarrow> profile" where
  "smc_profile g = \<lparr>pr_row_size = smc_row_size g, pr_va_pct = 7 / 10, pr_hvn_frac = 7 / 10,
     pr_lvn_frac = 3 / 10, pr_min_bars = mc_min_profile g, pr_max_rows = 5000,
     pr_tiebreak = ''up'', pr_i_max_peak = 3 / 2, pr_tpo = True,
     pr_anchor = None, pr_hist = [], pr_span = None, pr_total = 0, pr_bars = 0\<rparr>"

definition smc_tracker :: "smc_config \<Rightarrow> tracker" where
  "smc_tracker g = tracker_new (nat (mc_swing_lookback g)) (nat (mc_max_swings g))"

definition smc_new :: "smc_config \<Rightarrow> smc_engine" where
  "smc_new g = \<lparr>me_m15 = agg_new (mc_trigger g), me_h4 = agg_new (mc_htf g),
     me_d1 = agg_new (mc_d1 g), me_s15 = smc_tracker g, me_sh4 = smc_tracker g,
     me_sd1 = smc_tracker g, me_obh4 = smc_ob g, me_obd1 = smc_ob g,
     me_atr = wilder_new (nat (mc_atr_period g)), me_vsma = vsma_new (nat (mc_vol_period g)),
     me_profile = smc_profile g, me_prior = None, me_hist = [], me_h4_high = None,
     me_h4_low = None, me_state = IDLE, me_pos = None, me_last_ts = None, me_traded = 0,
     me_date = None, me_out = []\<rparr>"

text \<open>The constructor: the aggregators check the timeframes the configuration let through.\<close>

definition smc_init :: "smc_config \<Rightarrow> error + smc_engine" where
  "smc_init g = (case agg_init (mc_trigger g) of Inl er \<Rightarrow> Inl er | Inr _ \<Rightarrow>
     (case agg_init (mc_htf g) of Inl er \<Rightarrow> Inl er | Inr _ \<Rightarrow>
     (case agg_init (mc_d1 g) of Inl er \<Rightarrow> Inl er | Inr _ \<Rightarrow> Inr (smc_new g))))"

text \<open>\<open>reset()\<close>: everything but the callbacks.\<close>

definition smc_reset :: "smc_config \<Rightarrow> smc_engine \<Rightarrow> smc_engine" where
  "smc_reset g e = (smc_new g)\<lparr>me_out := me_out e\<rparr>"

section \<open>Emission\<close>

definition smc_transition ::
  "timestamp \<Rightarrow> state \<Rightarrow> state \<Rightarrow> string \<Rightarrow> detail \<Rightarrow> smc_engine \<Rightarrow> smc_engine" where
  "smc_transition ts from to ev d e = e\<lparr>me_out := me_out e
     @ [Trans \<lparr>t_ts = ts, t_from = from, t_to = to, t_event = ev, t_detail = d\<rparr>]\<rparr>"

definition smc_emit ::
  "timestamp \<Rightarrow> signal_kind \<Rightarrow> direction \<Rightarrow> flt \<Rightarrow> state \<Rightarrow> state \<Rightarrow> string \<Rightarrow> flt option
   \<Rightarrow> flt option \<Rightarrow> int option \<Rightarrow> smc_engine \<Rightarrow> signal \<times> smc_engine" where
  "smc_emit ts kind dir price from to reason stop atr bars e =
     (let sig = \<lparr>s_ts = ts, s_kind = kind, s_dir = dir, s_price = price, s_from = from, s_to = to,
         s_reason = reason, s_range_high = None, s_range_low = None, s_roc = None, s_rvol = None,
         s_atr = atr, s_stop = stop, s_tp = None, s_qty = None, s_bars_held = bars\<rparr>
      in (sig, e\<lparr>me_out := me_out e @ [Sig sig]\<rparr>))"

section \<open>Bias and checks\<close>

definition htf_bias :: "smc_engine \<Rightarrow> direction option" where
  "htf_bias e = (case tk_trend (me_sh4 e) of None \<Rightarrow> None
     | Some base \<Rightarrow> (case tk_trend (me_sd1 e) of None \<Rightarrow> Some base
         | Some d1 \<Rightarrow> if d1 \<noteq> base then None else Some base))"

definition check_sweep :: "candle \<Rightarrow> direction \<Rightarrow> smc_engine \<Rightarrow> bool \<times> flt option" where
  "check_sweep m bias e =
     (if bias = LONG then
        (case swept_low m (me_s15 e) of Some l \<Rightarrow> (True, Some l)
         | None \<Rightarrow> (case me_h4_low e of None \<Rightarrow> (False, None)
             | Some plo \<Rightarrow> if c_low m < plo \<and> c_close m > plo then (True, Some plo)
                 else (False, None)))
      else
        (case swept_high m (me_s15 e) of Some l \<Rightarrow> (True, Some l)
         | None \<Rightarrow> (case me_h4_high e of None \<Rightarrow> (False, None)
             | Some phi \<Rightarrow> if c_high m > phi \<and> c_close m < phi then (True, Some phi)
                 else (False, None))))"

definition check_displacement :: "smc_config \<Rightarrow> candle \<Rightarrow> smc_engine \<Rightarrow> bool" where
  "check_displacement g m e =
     (let rng = c_high m - c_low m; body = \<bar>c_close m - c_open m\<bar>
      in if rng \<le> 0 then False
         else if body / rng < mc_body_frac g then False
         else (case w_atr (me_atr e) of None \<Rightarrow> False
           | Some atr \<Rightarrow>
             if rng < mc_atr_mult g * atr then False
             else if c_volume m > 0 \<and> vsma_ready (me_vsma e) \<and> truthy (vsma_value (me_vsma e))
               then (case vsma_value (me_vsma e) of None \<Rightarrow> True
                 | Some v \<Rightarrow> \<not> c_volume m < mc_vol_mult g * v)
             else True))"

definition check_cisd :: "candle \<Rightarrow> direction \<Rightarrow> smc_engine \<Rightarrow> bool" where
  "check_cisd m bias e = (case rev (me_hist e) of
       prev # prev2 # _ \<Rightarrow>
         if bias = LONG
         then c_close prev < c_open prev \<and> c_close m > c_open prev \<and> c_close prev2 \<le> c_open prev
         else c_close prev > c_open prev \<and> c_close m < c_open prev \<and> c_close prev2 \<ge> c_open prev
     | _ \<Rightarrow> False)"

definition check_alignment :: "structure_event option \<Rightarrow> direction \<Rightarrow> smc_engine \<Rightarrow> bool" where
  "check_alignment ev bias e = (if tk_trend (me_s15 e) = Some bias then True
     else (case ev of None \<Rightarrow> False | Some x \<Rightarrow> se_kind x = CHOCH \<and> se_dir x = bias))"

definition day_equilibrium :: "smc_engine \<Rightarrow> flt option" where
  "day_equilibrium e = (case profile_levels (me_profile e) of None \<Rightarrow> None
     | Some lv \<Rightarrow> Some ((lv_vah lv + lv_val lv) / 2))"

definition check_premium :: "candle \<Rightarrow> direction \<Rightarrow> smc_engine \<Rightarrow> bool" where
  "check_premium m bias e =
     (case (case day_equilibrium e of Some q \<Rightarrow> Some q | None \<Rightarrow> profile_poc (me_profile e)) of
        None \<Rightarrow> True
      | Some q \<Rightarrow> if bias = LONG then c_close m \<le> q else c_close m \<ge> q)"

text \<open>\<open>_resolve_poi\<close>: what was found, with the order block it consumed.\<close>

definition resolve_poi ::
  "smc_config \<Rightarrow> candle \<Rightarrow> direction \<Rightarrow> smc_engine
   \<Rightarrow> (string \<times> order_block option) option \<times> smc_engine" where
  "resolve_poi g m bias e =
     (let near = (\<lambda>p. \<bar>c_close m - p\<bar> \<le> mc_poc_tol g)
      in if (case profile_poc (me_profile e) of None \<Rightarrow> False | Some p \<Rightarrow> near p)
         then (Some (''poc'', None), e)
         else if (case me_prior e of None \<Rightarrow> False | Some pp \<Rightarrow> near (pp_poc pp))
         then (Some (''prior_poc'', None), e)
         else (case poi_at (c_low m) (c_high m) bias (me_obd1 e) of
             (Some ob, t) \<Rightarrow> (Some (''d1_ob'', Some ob), e\<lparr>me_obd1 := t\<rparr>)
           | (None, t) \<Rightarrow>
             (case poi_at (c_low m) (c_high m) bias (me_obh4 e) of
                (Some ob, t') \<Rightarrow> (Some (''h4_ob'', Some ob), e\<lparr>me_obd1 := t, me_obh4 := t'\<rparr>)
              | (None, t') \<Rightarrow> (None, e\<lparr>me_obd1 := t, me_obh4 := t'\<rparr>))))"

section \<open>Entry\<close>

definition smc_stop ::
  "smc_config \<Rightarrow> candle \<Rightarrow> direction \<Rightarrow> order_block option \<Rightarrow> flt option \<Rightarrow> flt" where
  "smc_stop g m dir ob sweep =
     (if dir = LONG then
        let f0 = c_low m;
            f1 = (case ob of None \<Rightarrow> f0 | Some b \<Rightarrow> min f0 (ob_bottom b));
            f2 = (case sweep of None \<Rightarrow> f1 | Some s \<Rightarrow> min f1 s)
        in f2 - mc_stop_buffer g
      else
        let f0 = c_high m;
            f1 = (case ob of None \<Rightarrow> f0 | Some b \<Rightarrow> max f0 (ob_top b));
            f2 = (case sweep of None \<Rightarrow> f1 | Some s \<Rightarrow> max f1 s)
        in f2 + mc_stop_buffer g)"

fun plus_join :: "string list \<Rightarrow> string" where
  "plus_join [] = ''''"
| "plus_join [x] = x"
| "plus_join (x # y # xs) = x @ ''+'' @ plus_join (y # xs)"

definition smc_reason :: "direction \<Rightarrow> string list \<Rightarrow> string \<Rightarrow> string" where
  "smc_reason dir fired poi = ''smc_'' @ direction_str dir @ '' conf='' @ plus_join fired @ '' ''
     @ [''0123456'' ! length fired] @ ''/6 poi='' @ poi"

definition smc_enter ::
  "smc_config \<Rightarrow> candle \<Rightarrow> direction \<Rightarrow> string list \<Rightarrow> string \<Rightarrow> order_block option \<Rightarrow> flt option
   \<Rightarrow> smc_engine \<Rightarrow> signal option \<times> smc_engine" where
  "smc_enter g m dir fired poi ob sweep e =
     (let stop = smc_stop g m dir ob sweep; dist = \<bar>c_close m - stop\<bar>
      in if dist \<le> 0 \<or> dist > mc_stop_max g then (None, e)
         else
           let atr = (case w_atr (me_atr e) of None \<Rightarrow> 0 | Some a \<Rightarrow> a);
               reason = smc_reason dir fired poi;
               e1 = e\<lparr>me_pos := Some \<lparr>p_dir = dir, p_entry_ts = c_ts m, p_entry = c_close m,
                        p_stop = stop, p_atr = atr, p_tp = None, p_bars = 0, p_mfe = 0, p_mae = 0\<rparr>,
                      me_traded := me_traded e + 1\<rparr>;
               e2 = (smc_transition (c_ts m) RANGE_DEFINED BREAKOUT
                       (if dir = LONG then ''ENTRY_LONG'' else ''ENTRY_SHORT'')
                       (EntryNote (c_close m) stop reason) e1)\<lparr>me_state := BREAKOUT\<rparr>
           in case smc_emit (c_ts m) ENTRY dir (c_close m) RANGE_DEFINED BREAKOUT reason (Some stop)
                     (Some atr) (Some 0) e2 of (sig, e3) \<Rightarrow> (Some sig, e3))"

text \<open>The five checks other than the point of interest, by name, in order.\<close>

definition fired_checks ::
  "smc_config \<Rightarrow> candle \<Rightarrow> structure_event option \<Rightarrow> direction \<Rightarrow> smc_engine \<Rightarrow> string list" where
  "fired_checks g m ev bias e =
     (if fst (check_sweep m bias e) then [''sweep''] else [])
     @ (if check_displacement g m e then [''disp''] else [])
     @ (if check_cisd m bias e then [''cisd''] else [])
     @ (if check_alignment ev bias e then [''align''] else [])
     @ (if check_premium m bias e then [''pd''] else [])"

definition confluence ::
  "smc_config \<Rightarrow> candle \<Rightarrow> structure_event option \<Rightarrow> direction \<Rightarrow> smc_engine
   \<Rightarrow> signal option \<times> smc_engine" where
  "confluence g m ev bias e =
     (let fired = fired_checks g m ev bias e
      in if int (length fired) + 1 < mc_min_conf g then (None, e)
         else (case resolve_poi g m bias e of
             (None, e1) \<Rightarrow> (None, e1)
           | (Some (poi, ob), e1) \<Rightarrow>
               let all = fired @ [''poi'']
               in if int (length all) < mc_min_conf g then (None, e1)
                  else smc_enter g m bias all poi ob (snd (check_sweep m bias e)) e1))"

definition on_decision ::
  "smc_config \<Rightarrow> candle \<Rightarrow> structure_event option \<Rightarrow> smc_engine \<Rightarrow> signal option \<times> smc_engine" where
  "on_decision g m ev e =
     (if me_pos e \<noteq> None then (None, e)
      else case htf_bias e of
        None \<Rightarrow> (None, if me_state e \<noteq> IDLE
           then (smc_transition (c_ts m) (me_state e) IDLE ''DISARM'' (Note ''no_bias'') e)
                  \<lparr>me_state := IDLE\<rparr> else e)
      | Some bias \<Rightarrow>
          let e1 = (if me_state e \<noteq> RANGE_DEFINED
            then (smc_transition (c_ts m) (me_state e) RANGE_DEFINED ''ARM'' (BiasNote bias) e)
                   \<lparr>me_state := RANGE_DEFINED\<rparr> else e)
          in if me_traded e1 \<ge> mc_max_trades g then (None, e1) else confluence g m ev bias e1)"

section \<open>A bar\<close>

text \<open>Step 2 and 3: the day's rollover, then the profile.\<close>

definition roll_day :: "smc_config \<Rightarrow> candle \<Rightarrow> smc_engine \<Rightarrow> smc_engine" where
  "roll_day g c e =
     (let d = date_of (c_ts c)
      in if me_date e = Some d then e
         else e\<lparr>me_prior := (case me_date e of None \<Rightarrow> me_prior e
               | Some old \<Rightarrow> if profile_ready (me_profile e)
                   then (case profile_levels (me_profile e) of None \<Rightarrow> None
                     | Some lv \<Rightarrow> Some \<lparr>pp_session = old, pp_poc = lv_poc lv, pp_vah = lv_vah lv,
                         pp_val = lv_val lv, pp_shape = lv_shape lv\<rparr>)
                   else me_prior e),
             me_profile := smc_profile g, me_traded := 0, me_date := Some d\<rparr>)"

text \<open>Step 4: the higher timeframes.\<close>

definition feed_d1 :: "candle \<Rightarrow> smc_engine \<Rightarrow> smc_engine" where
  "feed_d1 c e = (case agg_update c (me_d1 e) of
       (None, a) \<Rightarrow> e\<lparr>me_d1 := a\<rparr>
     | (Some b, a) \<Rightarrow> (case tracker_update b (me_sd1 e) of
         (ev, t) \<Rightarrow> e\<lparr>me_d1 := a, me_sd1 := t, me_obd1 := ob_update b ev (me_obd1 e)\<rparr>))"

definition feed_h4 :: "candle \<Rightarrow> smc_engine \<Rightarrow> smc_engine" where
  "feed_h4 c e = (case agg_update c (me_h4 e) of
       (None, a) \<Rightarrow> e\<lparr>me_h4 := a\<rparr>
     | (Some b, a) \<Rightarrow> (case tracker_update b (me_sh4 e) of
         (ev, t) \<Rightarrow> e\<lparr>me_h4 := a, me_sh4 := t, me_obh4 := ob_update b ev (me_obh4 e),
                     me_h4_high := Some (c_high b), me_h4_low := Some (c_low b)\<rparr>))"

definition decide :: "smc_config \<Rightarrow> candle \<Rightarrow> smc_engine \<Rightarrow> signal option \<times> smc_engine" where
  "decide g c e = (case agg_update c (me_m15 e) of
       (None, a) \<Rightarrow> (None, e\<lparr>me_m15 := a\<rparr>)
     | (Some b, a) \<Rightarrow> (case tracker_update b (me_s15 e) of
         (ev, t) \<Rightarrow>
           let e1 = e\<lparr>me_m15 := a, me_s15 := t,
                 me_atr := wilder_update (c_high b, c_low b, c_close b) (me_atr e),
                 me_vsma := (if c_volume b > 0 then vsma_update (c_volume b) (me_vsma e)
                             else me_vsma e)\<rparr>
           in case on_decision g b ev e1 of
                (sig, e2) \<Rightarrow> (sig, e2\<lparr>me_hist := push 3 (me_hist e2) b\<rparr>)))"

definition hold_position :: "smc_engine \<Rightarrow> smc_engine" where
  "hold_position e = (case me_pos e of None \<Rightarrow> e
     | Some p \<Rightarrow> e\<lparr>me_pos := Some (p\<lparr>p_bars := p_bars p + 1\<rparr>)\<rparr>)"

definition smc_feed :: "smc_config \<Rightarrow> candle \<Rightarrow> smc_engine \<Rightarrow> smc_engine" where
  "smc_feed g c e =
     (let e1 = roll_day g c (e\<lparr>me_last_ts := Some (c_ts c)\<rparr>)
      in feed_h4 c (feed_d1 c (e1\<lparr>me_profile := profile_update c (me_profile e1)\<rparr>)))"

definition smc_step ::
  "smc_config \<Rightarrow> candle \<Rightarrow> smc_engine \<Rightarrow> (error + signal option) \<times> smc_engine" where
  "smc_step g c e =
    (if (case me_last_ts e of None \<Rightarrow> False | Some t \<Rightarrow> utc (c_ts c) \<le> utc t) then
       (if mc_strict g then (Inl OutOfOrderError, e) else (Inr None, e))
     else case decide g c (smc_feed g c e) of (sig, e1) \<Rightarrow> (Inr sig, hold_position e1))"

definition smc_on_candle ::
  "smc_config \<Rightarrow> raw_candle \<Rightarrow> smc_engine \<Rightarrow> (error + signal option) \<times> smc_engine" where
  "smc_on_candle g r e = (case validate r of Inl er \<Rightarrow> (Inl er, e) | Inr c \<Rightarrow> smc_step g c e)"

definition smc_force_flat :: "timestamp \<Rightarrow> smc_engine \<Rightarrow> signal option \<times> smc_engine" where
  "smc_force_flat ts e =
    (case me_pos e of None \<Rightarrow> (None, e)
     | Some pos \<Rightarrow>
       (case smc_emit ts EXIT_SIG (p_dir pos) (p_stop pos) BREAKOUT RANGE_DEFINED ''broker_closed''
               (Some (p_stop pos)) None (Some (p_bars pos))
               (smc_transition ts BREAKOUT RANGE_DEFINED ''EXIT_BROKER'' (BarsHeld (p_bars pos)) e) of
          (sig, e1) \<Rightarrow> (Some sig, e1\<lparr>me_pos := None, me_state := RANGE_DEFINED\<rparr>)))"

end
