(* ===== verification/Smc_Correct.thy ===== *)
theory Smc_Correct
  imports Smc_Engine
begin

text \<open>
  Correctness of the Smart Money engine: its invariant, the contract of every operation and the
  interpretation of the shared engine contract.
\<close>

section \<open>Invariant\<close>

definition agg_ok :: "agg \<Rightarrow> bool" where
  "agg_ok a \<longleftrightarrow> (case developing a of None \<Rightarrow> True | Some b \<Rightarrow> candle_ok b)"

definition smc_inv :: "smc_config \<Rightarrow> smc_engine \<Rightarrow> bool" where
  "smc_inv g e \<longleftrightarrow> smc_config_ok g
     \<and> wilder_wf (nat (mc_atr_period g)) (me_atr e)
     \<and> agg_ok (me_m15 e)
     \<and> me_state e \<noteq> EXIT
     \<and> (me_state e = BREAKOUT \<longleftrightarrow> me_pos e \<noteq> None)
     \<and> 0 \<le> me_traded e \<and> me_traded e \<le> mc_max_trades g"

definition smc_view :: "smc_engine \<Rightarrow> position option \<times> state \<times> emission list" where
  "smc_view e = (me_pos e, me_state e, me_out e)"

definition smc_ok ::
  "smc_config \<Rightarrow> smc_engine \<Rightarrow> error + signal option \<Rightarrow> smc_engine \<Rightarrow> bool" where
  "smc_ok g e res e' \<longleftrightarrow> smc_inv g e' \<and> call_ok (smc_view e) res (smc_view e')"

lemma smc_ok_trans: "smc_ok g e1 (Inr None) e2 \<Longrightarrow> smc_ok g e2 res e3 \<Longrightarrow> smc_ok g e1 res e3"
  using call_ok_trans [of "me_pos e1" "me_state e1" "me_out e1" "me_pos e2" "me_state e2"
      "me_out e2" res "me_pos e3" "me_state e3" "me_out e3"]
  by (simp add: smc_ok_def smc_view_def)

lemma smc_ok_silent:
  "smc_inv g e' \<Longrightarrow> me_out e' = me_out e \<Longrightarrow> me_state e' = me_state e
   \<Longrightarrow> (me_pos e' = None \<longleftrightarrow> me_pos e = None) \<Longrightarrow> smc_ok g e (Inr None) e'"
  by (simp add: smc_ok_def smc_view_def call_ok_silent)

lemma smc_ok_view:
  "smc_ok g e res e' \<Longrightarrow> smc_view e2 = smc_view e' \<Longrightarrow> smc_inv g e2 \<Longrightarrow> smc_ok g e res e2"
  by (simp add: smc_ok_def)

lemma smc_okI:
  assumes "smc_inv g e'" "me_out e' = me_out e @ new" "sigs_in new = outcome_sigs res"
    "path_end (me_state e) new = Some (me_state e')"
    and "case res of
        Inr (Some sig) \<Rightarrow> kind_ok sig \<and> (s_from sig = BREAKOUT \<longleftrightarrow> me_pos e \<noteq> None)
          \<and> (s_to sig = BREAKOUT \<longleftrightarrow> me_pos e' \<noteq> None)
      | _ \<Rightarrow> me_pos e' = None \<longleftrightarrow> me_pos e = None"
  shows "smc_ok g e res e'"
  unfolding smc_ok_def smc_view_def using assms(1) by (simp add: call_okI [OF assms(2-5)])

lemma smc_inv_cfg: "smc_inv g e \<Longrightarrow> smc_config_ok g"
  by (simp add: smc_inv_def)

lemma smc_inv_pos: "smc_inv g e \<Longrightarrow> me_state e = BREAKOUT \<longleftrightarrow> me_pos e \<noteq> None"
  by (simp add: smc_inv_def)

lemma smc_new_inv: "smc_config_ok g \<Longrightarrow> smc_inv g (smc_new g)"
  using smc_config_okD(9) [of g]
  by (simp add: smc_inv_def smc_new_def wilder_wf_new agg_ok_def agg_new_def developing_def)

section \<open>Candles of the higher timeframes\<close>

lemma bucket_ok: "candle_ok c \<Longrightarrow> candle_ok (bucket_start k c)"
  "candle_ok b \<Longrightarrow> candle_ok c \<Longrightarrow> candle_ok (bucket_fold b c)"
  by (auto simp: candle_ok_def bucket_start_def bucket_fold_def max_def min_def)

lemma agg_update_ok:
  assumes "agg_ok a" "candle_ok c" "agg_update c a = (r, a')"
  shows "agg_ok a' \<and> (\<forall>b. r = Some b \<longrightarrow> candle_ok b \<and> developing a = Some b)"
  using assms
  by (auto simp: agg_update_def Let_def agg_ok_def developing_def bucket_ok split: option.splits if_splits)

section \<open>The entry\<close>

lemma smc_enter_cases:
  assumes "smc_enter g m dir fired poi ob sweep e = (sig, e')"
  obtains (skip) "sig = None" "e' = e"
  | (entry) x p where "sig = Some x" "s_kind x = ENTRY" "s_from x = RANGE_DEFINED"
      "s_to x = BREAKOUT" "s_dir x = dir" "s_price x = c_close m"
      "s_stop x = Some (smc_stop g m dir ob sweep)" "s_reason x = smc_reason dir fired poi"
      "\<bar>c_close m - smc_stop g m dir ob sweep\<bar> \<le> mc_stop_max g"
      "me_pos e' = Some p" "p_dir p = dir" "p_entry p = c_close m"
      "p_stop p = smc_stop g m dir ob sweep" "p_bars p = 0"
      "me_traded e' = me_traded e + 1" "me_state e' = BREAKOUT" "me_atr e' = me_atr e"
      "me_m15 e' = me_m15 e"
      "\<exists>t. me_out e' = me_out e @ [Trans t, Sig x] \<and> t_from t = RANGE_DEFINED \<and> t_to t = BREAKOUT"
  using assms
  by (auto simp: smc_enter_def smc_emit_def smc_transition_def Let_def not_less not_le split: if_splits)

lemma resolve_poi_frame:
  "resolve_poi g m bias e = (r, e') \<Longrightarrow> e' = e\<lparr>me_obd1 := me_obd1 e', me_obh4 := me_obh4 e'\<rparr>"
  by (auto simp: resolve_poi_def Let_def split: if_splits option.splits prod.splits)

text \<open>A confluence either ends silently, at most consuming order blocks, or enters.\<close>

lemma confluence_cases:
  assumes "confluence g m ev bias e = (sig, e')"
  obtains (quiet) t t' where "sig = None" "e' = e\<lparr>me_obd1 := t, me_obh4 := t'\<rparr>"
  | (enter) x t t' fired poi ob sweep where "sig = Some x"
      "smc_enter g m bias (fired @ [''poi'']) poi ob sweep (e\<lparr>me_obd1 := t, me_obh4 := t'\<rparr>)
        = (Some x, e')"
      "mc_min_conf g \<le> int (length fired) + 1" "fired = fired_checks g m ev bias e"
      "resolve_poi g m bias e = (Some (poi, ob), e\<lparr>me_obd1 := t, me_obh4 := t'\<rparr>)"
      "sweep = snd (check_sweep m bias e)"
proof -
  define fired where "fired = fired_checks g m ev bias e"
  obtain r e1 where r: "resolve_poi g m bias e = (r, e1)" by (meson surj_pair)
  obtain t t' where e1: "e1 = e\<lparr>me_obd1 := t, me_obh4 := t'\<rparr>" using resolve_poi_frame [OF r] that by blast
  have same: "e = e\<lparr>me_obd1 := me_obd1 e, me_obh4 := me_obh4 e\<rparr>" by simp
  show thesis
  proof (cases "int (length fired) + 1 < mc_min_conf g")
    case True
    then have "sig = None" "e' = e" using assms by (simp_all add: confluence_def fired_def)
    then show thesis using quiet same by metis
  next
    case False
    show thesis
    proof (cases r)
      case None
      then have "sig = None" "e' = e1" using assms False r by (simp_all add: confluence_def fired_def)
      then show thesis using quiet e1 by blast
    next
      case (Some x)
      obtain poi ob where x: "x = (poi, ob)" by (cases x)
      have en: "smc_enter g m bias (fired @ [''poi'']) poi ob (snd (check_sweep m bias e)) e1
          = (sig, e')" using assms False r Some x by (simp add: confluence_def fired_def [symmetric] Let_def)
      show thesis
      proof (cases sig)
        case None
        then have "e' = e1" using en by (auto elim: smc_enter_cases)
        then show thesis using quiet None e1 by blast
      next
        case (Some y)
        then show thesis using enter en e1 False r \<open>r = Some x\<close> x by (auto simp: fired_def)
      qed
    qed
  qed
qed

definition decision_ok :: "smc_config \<Rightarrow> smc_engine \<Rightarrow> signal option \<Rightarrow> smc_engine \<Rightarrow> bool" where
  "decision_ok g e sig e' \<longleftrightarrow> smc_ok g e (Inr sig) e' \<and> (\<forall>x. sig = Some x \<longrightarrow> s_kind x = ENTRY)"

lemma smc_inv_ob [simp]: "smc_inv g (e\<lparr>me_obd1 := t, me_obh4 := t'\<rparr>) = smc_inv g e"
  by (simp add: smc_inv_def)

lemma confluence_ok:
  assumes inv: "smc_inv g e" and st: "me_state e = RANGE_DEFINED"
    and room: "me_traded e < mc_max_trades g"
    and run: "confluence g m ev bias e = (sig, e')"
  shows "decision_ok g e sig e'"
  using run
proof (cases rule: confluence_cases)
  case (quiet t t')
  then show ?thesis using inv by (simp add: decision_ok_def smc_ok_silent)
next
  case (enter x t t' fired poi ob sweep)
  have pos: "me_pos e = None" using smc_inv_pos [OF inv] st by simp
  from enter(2) show ?thesis
  proof (cases rule: smc_enter_cases)
    case (entry y p)
    then obtain tr where tr: "me_out e' = me_out e @ [Trans tr, Sig x]" "t_from tr = RANGE_DEFINED"
      "t_to tr = BREAKOUT" by auto
    have "smc_inv g e'" using inv room entry by (auto simp: smc_inv_def)
    then have "smc_ok g e (Inr sig) e'" using entry st tr pos enter(1)
      by (intro smc_okI [where new = "[Trans tr, Sig x]"]) (auto simp: outcome_sigs_def kind_ok_def)
    then show ?thesis using entry enter(1) by (simp add: decision_ok_def)
  qed simp
qed

section \<open>A decision and a bar\<close>

lemma arm_ok:
  fixes ts :: timestamp and ev :: string and d :: detail
  assumes inv: "smc_inv g e" and flat: "me_pos e = None" and to: "to = IDLE \<or> to = RANGE_DEFINED"
  defines "e1 \<equiv> (if me_state e \<noteq> to
      then (smc_transition ts (me_state e) to ev d e)\<lparr>me_state := to\<rparr> else e)"
  shows "smc_ok g e (Inr None) e1 \<and> me_state e1 = to \<and> me_pos e1 = None
     \<and> me_traded e1 = me_traded e \<and> me_m15 e1 = me_m15 e \<and> me_sh4 e1 = me_sh4 e
     \<and> me_sd1 e1 = me_sd1 e"
proof (cases "me_state e = to")
  case True
  then show ?thesis using inv flat by (simp add: e1_def smc_ok_silent)
next
  case False
  have "smc_inv g e1" using inv flat to False by (auto simp: smc_inv_def e1_def smc_transition_def)
  then show ?thesis using False flat
    by (intro conjI smc_okI [where new = "[Trans \<lparr>t_ts = ts, t_from = me_state e, t_to = to,
          t_event = ev, t_detail = d\<rparr>]"])
      (simp_all add: e1_def smc_transition_def outcome_sigs_def)
qed

lemma on_decision_ok:
  assumes inv: "smc_inv g e" and run: "on_decision g m ev e = (sig, e')"
  shows "decision_ok g e sig e'"
proof (cases "me_pos e")
  case (Some p)
  then show ?thesis using inv run by (simp add: on_decision_def decision_ok_def smc_ok_silent)
next
  case flat: None
  show ?thesis
  proof (cases "htf_bias e")
    case None
    then have "sig = None" "e' = (if me_state e \<noteq> IDLE
        then (smc_transition (c_ts m) (me_state e) IDLE ''DISARM'' (Note ''no_bias'') e)
          \<lparr>me_state := IDLE\<rparr> else e)" using run flat by (simp_all add: on_decision_def)
    then show ?thesis
      using arm_ok [OF inv flat, of IDLE "c_ts m" "''DISARM''" "Note ''no_bias''"]
      by (simp add: decision_ok_def split del: if_split)
  next
    case (Some bias)
    define e1 where "e1 = (if me_state e \<noteq> RANGE_DEFINED
        then (smc_transition (c_ts m) (me_state e) RANGE_DEFINED ''ARM'' (BiasNote bias) e)
          \<lparr>me_state := RANGE_DEFINED\<rparr> else e)"
    have a: "smc_ok g e (Inr None) e1" "me_state e1 = RANGE_DEFINED" "me_traded e1 = me_traded e"
      using arm_ok [OF inv flat, of RANGE_DEFINED "c_ts m" "''ARM''" "BiasNote bias"]
      unfolding e1_def by blast+
    have i1: "smc_inv g e1" using a(1) by (simp add: smc_ok_def)
    have r: "(if me_traded e1 \<ge> mc_max_trades g then (None, e1) else confluence g m ev bias e1)
        = (sig, e')" using run flat Some by (simp add: on_decision_def Let_def e1_def [symmetric])
    have "decision_ok g e1 sig e'"
    proof (cases "me_traded e1 \<ge> mc_max_trades g")
      case True
      then show ?thesis using r i1 by (simp add: decision_ok_def smc_ok_silent)
    next
      case False
      then show ?thesis using r confluence_ok [OF i1 a(2)] by simp
    qed
    then show ?thesis using smc_ok_trans [OF a(1)] by (simp add: decision_ok_def)
  qed
qed

lemma decide_ok:
  assumes inv: "smc_inv g e" and c: "candle_ok c" and run: "decide g c e = (sig, e')"
  shows "decision_ok g e sig e'"
proof -
  obtain r a where u: "agg_update c (me_m15 e) = (r, a)" by (meson surj_pair)
  have au: "agg_ok a" "\<And>b. r = Some b \<Longrightarrow> candle_ok b"
    using agg_update_ok [OF _ c u] inv by (simp_all add: smc_inv_def)
  show ?thesis
  proof (cases r)
    case None
    have "smc_inv g (e\<lparr>me_m15 := a\<rparr>)" using inv au(1) by (simp add: smc_inv_def)
    then show ?thesis using run u None by (auto simp: decide_def decision_ok_def intro!: smc_ok_silent)
  next
    case (Some b)
    obtain ev t where t: "tracker_update b (me_s15 e) = (ev, t)" by (meson surj_pair)
    define e1 where "e1 = e\<lparr>me_m15 := a, me_s15 := t,
      me_atr := wilder_update (c_high b, c_low b, c_close b) (me_atr e),
      me_vsma := (if c_volume b > 0 then vsma_update (c_volume b) (me_vsma e) else me_vsma e)\<rparr>"
    have "0 < nat (mc_atr_period g)" using smc_config_okD(7) [OF smc_inv_cfg [OF inv]] by simp
    then have "wilder_wf (nat (mc_atr_period g)) (me_atr e1)"
      using inv candle_ok_high_low [OF au(2) [OF Some]] unfolding e1_def
      by (simp add: wilder_wf_update smc_inv_def)
    then have i1: "smc_inv g e1" using inv au(1) by (simp add: smc_inv_def e1_def)
    obtain s e2 where d: "on_decision g b ev e1 = (s, e2)" by (meson surj_pair)
    have r: "sig = s" "e' = e2\<lparr>me_hist := push 3 (me_hist e2) b\<rparr>"
      using run u Some t d by (simp_all add: decide_def e1_def)
    have "smc_ok g e (Inr None) e1" using i1 by (intro smc_ok_silent) (simp_all add: e1_def)
    from smc_ok_trans [OF this] have "decision_ok g e s e2"
      using on_decision_ok [OF i1 d] by (simp add: decision_ok_def)
    then show ?thesis using r by (auto simp: decision_ok_def smc_ok_def smc_view_def smc_inv_def)
  qed
qed

lemma feed_d1_frame:
  "me_pos (feed_d1 c e) = me_pos e" "me_state (feed_d1 c e) = me_state e"
  "me_out (feed_d1 c e) = me_out e" "me_atr (feed_d1 c e) = me_atr e"
  "me_m15 (feed_d1 c e) = me_m15 e" "me_s15 (feed_d1 c e) = me_s15 e"
  "me_traded (feed_d1 c e) = me_traded e"
  by (simp_all add: feed_d1_def split: prod.splits option.splits)

lemma feed_h4_frame:
  "me_pos (feed_h4 c e) = me_pos e" "me_state (feed_h4 c e) = me_state e"
  "me_out (feed_h4 c e) = me_out e" "me_atr (feed_h4 c e) = me_atr e"
  "me_m15 (feed_h4 c e) = me_m15 e" "me_s15 (feed_h4 c e) = me_s15 e"
  "me_traded (feed_h4 c e) = me_traded e"
  by (simp_all add: feed_h4_def split: prod.splits option.splits)

lemma roll_day_frame:
  "me_pos (roll_day g c e) = me_pos e" "me_state (roll_day g c e) = me_state e"
  "me_out (roll_day g c e) = me_out e" "me_atr (roll_day g c e) = me_atr e"
  "me_m15 (roll_day g c e) = me_m15 e" "me_s15 (roll_day g c e) = me_s15 e"
  "me_traded (roll_day g c e) = me_traded e \<or> me_traded (roll_day g c e) = 0"
  by (simp_all add: roll_day_def Let_def)

lemma smc_feed_frame:
  "me_pos (smc_feed g c e) = me_pos e" "me_state (smc_feed g c e) = me_state e"
  "me_out (smc_feed g c e) = me_out e" "me_atr (smc_feed g c e) = me_atr e"
  "me_m15 (smc_feed g c e) = me_m15 e" "me_s15 (smc_feed g c e) = me_s15 e"
  "me_traded (smc_feed g c e) = me_traded e \<or> me_traded (smc_feed g c e) = 0"
  using roll_day_frame(7) [of g c "e\<lparr>me_last_ts := Some (c_ts c)\<rparr>"]
  by (simp_all add: smc_feed_def Let_def feed_h4_frame feed_d1_frame roll_day_frame(1-6))

lemma smc_feed_ok:
  assumes "smc_inv g e"
  shows "smc_ok g e (Inr None) (smc_feed g c e)"
proof -
  have "smc_inv g (smc_feed g c e)"
    using assms smc_feed_frame [of g c e] smc_config_okD(9) [OF smc_inv_cfg [OF assms]]
    by (auto simp: smc_inv_def)
  then show ?thesis by (intro smc_ok_silent) (simp_all add: smc_feed_frame)
qed

lemma hold_position_ok: "smc_inv g e \<Longrightarrow> smc_inv g (hold_position e)"
  "me_out (hold_position e) = me_out e" "me_state (hold_position e) = me_state e"
  "me_pos (hold_position e) = None \<longleftrightarrow> me_pos e = None"
  by (auto simp: hold_position_def smc_inv_def split: option.splits)

definition smc_stale :: "candle \<Rightarrow> smc_engine \<Rightarrow> bool" where
  "smc_stale c e \<longleftrightarrow> (case me_last_ts e of None \<Rightarrow> False | Some t \<Rightarrow> utc (c_ts c) \<le> utc t)"

lemma smc_step_ok:
  assumes inv: "smc_inv g e" and c: "candle_ok c" and fresh: "\<not> smc_stale c e"
    and run: "smc_step g c e = (res, e')"
  obtains sig e1 where "res = Inr sig" "decide g c (smc_feed g c e) = (sig, e1)"
    "e' = hold_position e1" "smc_ok g e res e'" "\<forall>x. sig = Some x \<longrightarrow> s_kind x = ENTRY"
proof -
  obtain sig e1 where d: "decide g c (smc_feed g c e) = (sig, e1)" by (meson surj_pair)
  have r: "res = Inr sig" "e' = hold_position e1"
    using run fresh d by (auto simp: smc_step_def smc_stale_def)
  note fed = smc_feed_ok [OF inv, of c]
  have ok: "decision_ok g (smc_feed g c e) sig e1"
    by (rule decide_ok [OF _ c d]) (use fed in \<open>simp add: smc_ok_def\<close>)
  then have "smc_ok g e (Inr sig) e1" using smc_ok_trans [OF fed] by (simp add: decision_ok_def)
  then have "smc_ok g e res e'" using r hold_position_ok(1) [of g e1] hold_position_ok(2-4) [of e1]
    by (cases sig) (auto simp: smc_ok_def smc_view_def call_ok_def)
  then show thesis using that r d ok by (simp add: decision_ok_def)
qed

lemma smc_candle_cases:
  assumes inv: "smc_inv g e" and run: "smc_on_candle g r e = (res, e')"
  obtains (bad) f where "validate r = Inl (CandleError f)" "res = Inl (CandleError f)" "e' = e"
  | (late) c where "validate r = Inr c" "smc_stale c e" "e' = e"
      "res = (if mc_strict g then Inl OutOfOrderError else Inr None)"
  | (step) c sig e1 where "validate r = Inr c" "candle_ok c" "\<not> smc_stale c e" "res = Inr sig"
      "decide g c (smc_feed g c e) = (sig, e1)" "e' = hold_position e1" "smc_ok g e res e'"
      "\<forall>x. sig = Some x \<longrightarrow> s_kind x = ENTRY"
proof (cases "validate r")
  case (Inl er)
  then obtain f where "er = CandleError f"
    by (auto simp: validate_def Let_def split: option.splits if_splits)
  then show ?thesis using bad Inl run by (simp add: smc_on_candle_def)
next
  case (Inr c)
  have st: "smc_step g c e = (res, e')" using run Inr by (simp add: smc_on_candle_def)
  show ?thesis
  proof (cases "smc_stale c e")
    case True
    then show ?thesis using late [OF Inr True] st True
      by (simp add: smc_step_def smc_stale_def split: if_splits)
  next
    case False
    show ?thesis
      by (rule smc_step_ok [OF inv validate_InrD(2) [OF Inr] False st])
        (use step [OF Inr validate_InrD(2) [OF Inr] False] in blast)
  qed
qed

lemma smc_on_candle_ok:
  assumes "smc_inv g e" and "smc_on_candle g r e = (res, e')"
  shows "smc_ok g e res e'"
  by (rule smc_candle_cases [OF assms])
    (use assms(1) in \<open>auto simp: smc_ok_def smc_view_def call_ok_error call_ok_silent\<close>)

lemma smc_force_flat_ok:
  assumes inv: "smc_inv g e" and run: "smc_force_flat ts e = (sig, e')"
  shows "case sig of None \<Rightarrow> e' = e \<and> me_pos e = None
     | Some x \<Rightarrow> smc_ok g e (Inr (Some x)) e' \<and> me_pos e' = None \<and> s_kind x = EXIT_SIG"
proof (cases "me_pos e")
  case None
  then show ?thesis using run by (auto simp: smc_force_flat_def)
next
  case (Some p)
  have st: "me_state e = BREAKOUT" using smc_inv_pos [OF inv] Some by simp
  obtain t x where e': "e' = e\<lparr>me_out := me_out e @ [Trans t, Sig x], me_pos := None,
      me_state := RANGE_DEFINED\<rparr>" "sig = Some x" "t_from t = BREAKOUT" "t_to t = RANGE_DEFINED"
      "s_kind x = EXIT_SIG" "s_from x = BREAKOUT" "s_to x = RANGE_DEFINED"
    using run Some by (auto simp: smc_force_flat_def smc_emit_def smc_transition_def Let_def)
  have "smc_inv g e'" using inv e'(1) by (simp add: smc_inv_def)
  then have "smc_ok g e (Inr (Some x)) e'" using e' st Some
    by (intro smc_okI [where new = "[Trans t, Sig x]"]) (simp_all add: outcome_sigs_def kind_ok_def)
  then show ?thesis using e' by simp
qed

section \<open>The engine contract\<close>

interpretation smc: observed_engine "smc_on_candle g" "smc_force_flat" me_pos me_state
  "smc_inv g" me_out for g
proof (rule observed_engineI)
  show "smc_inv g e' \<and> call_ok (me_pos e, me_state e, me_out e) res (me_pos e', me_state e', me_out e')"
    if "smc_inv g e" "smc_on_candle g r e = (res, e')" for e r res e'
    using smc_on_candle_ok [OF that] by (simp add: smc_ok_def smc_view_def)
  show "case sig of None \<Rightarrow> e' = e \<and> me_pos e = None
      | Some x \<Rightarrow> smc_inv g e' \<and> me_pos e' = None \<and> s_kind x = EXIT_SIG
          \<and> call_ok (me_pos e, me_state e, me_out e) (Inr (Some x)) (me_pos e', me_state e', me_out e')"
    if "smc_inv g e" "smc_force_flat ts e = (sig, e')" for e ts sig e'
    using smc_force_flat_ok [OF that] by (auto simp: smc_ok_def smc_view_def split: option.splits)
  show "me_state e = BREAKOUT \<longleftrightarrow> me_pos e \<noteq> None" if "smc_inv g e" for e
    by (rule smc_inv_pos [OF that])
qed

end
