(* ===== verification/Smc_Properties.thy ===== *)
theory Smc_Properties
  imports Smc_Correct
begin

text \<open>
  Properties of the Smart Money engine over bars and streams: balanced books, what every entry
  rests on, which configurations can be built, and the order block lost on a refused entry.
\<close>

section \<open>Construction\<close>

lemma agg_init_iff: "agg_init m = Inr a \<longleftrightarrow> 1 \<le> m \<and> m \<le> 1440 \<and> 1440 mod m = 0 \<and> a = agg_new m"
  by (auto simp: agg_init_def)

text \<open>The engine can be built from an accepted configuration exactly when both intraday
  timeframes divide the day; otherwise the constructor raises the aggregator's value error, which
  the configuration's own checks, fatal at construction time, do not foresee.\<close>

theorem smc_init_iff:
  assumes "smc_config_ok g"
  shows "smc_init g = (if 1440 mod mc_trigger g = 0 \<and> 1440 mod mc_htf g = 0 then Inr (smc_new g)
     else Inl (ValueError ''intraday minutes must divide 1440''))"
  using smc_config_okD(1,13,14,15) [OF assms]
  by (auto simp: smc_init_def agg_init_def)

definition odd_config :: smc_config where
  "odd_config = smc_defaults\<lparr>mc_trigger := 7\<rparr>"

lemma smc_defaults_ok: "smc_config_ok smc_defaults"
  by (simp add: smc_config_ok_def smc_config_init_def smc_defaults_def counted_fields_def)

lemma odd_config_ok: "smc_config_ok odd_config"
  by (simp add: smc_config_ok_def smc_config_init_def smc_defaults_def counted_fields_def
      odd_config_def)

theorem smc_init_iff_witness:
  "smc_config_init odd_config = Inr odd_config
   \<and> smc_init odd_config = Inl (ValueError ''intraday minutes must divide 1440'')
   \<and> smc_init smc_defaults = Inr (smc_new smc_defaults)"
  using smc_init_iff [OF odd_config_ok] smc_init_iff [OF smc_defaults_ok] odd_config_ok
  by (simp add: odd_config_def smc_defaults_def smc_config_ok_def)

section \<open>Streams\<close>

text \<open>Over any stream of bars and hook decisions, from a fresh Smart Money engine with a valid
  configuration, entries exceed full exits by exactly the open position, the callbacks see
  exactly the signals returned, and the reported transitions lead without a gap from the idle
  state to the engine's final state.\<close>

theorem smc_stream_sound:
  fixes bars :: "(raw_candle \<times> bool) list" and strict :: bool
  assumes "smc_config_ok g"
  defines "res \<equiv> stream_run (smc_on_candle g) smc_force_flat strict bars (smc_new g)"
  shows "entries (rr_signals res) = closings (rr_signals res)
       + (if me_pos (rr_state res) = None then 0 else 1)
     \<and> sigs_in (me_out (rr_state res)) = rr_signals res
     \<and> path_end IDLE (me_out (rr_state res)) = Some (me_state (rr_state res))"
  using smc.stream_balance [OF smc_new_inv [OF assms(1)], of strict bars]
    smc.stream_logged [OF smc_new_inv [OF assms(1)], of strict bars]
  unfolding res_def by (auto simp: logged_def smc_new_def)

definition mbar :: "int \<Rightarrow> flt \<Rightarrow> flt \<Rightarrow> flt \<Rightarrow> flt \<Rightarrow> raw_candle" where
  "mbar m o' h l c = \<lparr>r_local = m * us_min, r_tz = Some 0, r_open = Fin o', r_high = Fin h,
     r_low = Fin l, r_close = Fin c, r_volume = Fin 0\<rparr>"

theorem smc_stream_sound_witness:
  "sigs_in (me_out (rr_state (stream_run (smc_on_candle smc_defaults) smc_force_flat True
       [(mbar 0 10 12 9 11, False), (mbar 1 11 12 10 11, True)] (smc_new smc_defaults))))
   = rr_signals (stream_run (smc_on_candle smc_defaults) smc_force_flat True
       [(mbar 0 10 12 9 11, False), (mbar 1 11 12 10 11, True)] (smc_new smc_defaults))"
  using smc_stream_sound [OF smc_defaults_ok, of True "[(mbar 0 10 12 9 11, False),
    (mbar 1 11 12 10 11, True)]"] by blast

section \<open>What an entry rests on\<close>




























text \<open>A state with a rising higher timeframe, a nearly complete trigger bar and one daily block.\<close>

definition smc_demo :: smc_config where
  "smc_demo = smc_defaults\<lparr>mc_min_conf := 1\<rparr>"

lemma smc_demo_ok: "smc_config_ok smc_demo"
  by (simp add: smc_config_ok_def smc_config_init_def smc_defaults_def counted_fields_def smc_demo_def)

definition demo_block :: "flt \<Rightarrow> order_block" where
  "demo_block bottom = \<lparr>ob_ts = utc_ts 0, ob_dir = LONG, ob_top = 110, ob_bottom = bottom,
     ob_mitigated = False, ob_born = 0\<rparr>"

definition demo_state :: "flt \<Rightarrow> smc_engine" where
  "demo_state bottom = (smc_new smc_demo)\<lparr>
     me_sh4 := (smc_tracker smc_demo)\<lparr>tk_trend := Some LONG\<rparr>,
     me_m15 := (agg_new 30)\<lparr>ag_dev := Some ((0, 0), \<lparr>c_ts = utc_ts 0, c_open = 110, c_high = 111,
       c_low = 109, c_close = 110, c_volume = 0\<rparr>)\<rparr>,
     me_obd1 := (smc_ob smc_demo)\<lparr>ot_active := \<lparr>on_long = [demo_block bottom], on_short = []\<rparr>\<rparr>,
     me_last_ts := Some (utc_ts (29 * us_min)), me_date := Some 0\<rparr>"

lemma demo_state_inv: "smc_inv smc_demo (demo_state bottom)"
proof -
  have "smc_inv smc_demo (smc_new smc_demo)" by (rule smc_new_inv [OF smc_demo_ok])
  then show ?thesis
    by (simp add: smc_inv_def demo_state_def agg_ok_def developing_def candle_ok_def smc_new_def)
qed


text \<open>An order block can be spent on a trade that does not happen: \<open>poi_at\<close> marks the block
  before the entry checks the stop distance, so when the stop beyond the block is wider than the
  maximum the bar ends without a signal or position, and yet the only block is mitigated for
  good.\<close>

theorem smc_wasted_block:
  "smc_inv smc_demo (demo_state 60)
   \<and> side LONG (ot_active (me_obd1 (demo_state 60))) = [demo_block 60]
   \<and> (case smc_on_candle smc_demo (mbar 30 110 110 110 110) (demo_state 60) of (res, e') \<Rightarrow>
        (case res of Inr None \<Rightarrow> True | _ \<Rightarrow> False) \<and> me_pos e' = None \<and> me_traded e' = 0
        \<and> side LONG (ot_active (me_obd1 e')) = [(demo_block 60)\<lparr>ob_mitigated := True\<rparr>])"
proof -
  have "side LONG (ot_active (me_obd1 (demo_state 60))) = [demo_block 60]
   \<and> (case smc_on_candle smc_demo (mbar 30 110 110 110 110) (demo_state 60) of (res, e') \<Rightarrow>
        (case res of Inr None \<Rightarrow> True | _ \<Rightarrow> False) \<and> me_pos e' = None \<and> me_traded e' = 0
        \<and> side LONG (ot_active (me_obd1 e')) = [(demo_block 60)\<lparr>ob_mitigated := True\<rparr>])"
    by code_simp
  then show ?thesis using demo_state_inv by blast
qed

end
