(* ===== verification/Market_Clock.thy ===== *)
theory Market_Clock
  imports Models
begin

text \<open>
  The New York clocks: \<open>orb/quarters.py\<close> (quarters of the trading day and of six-hour sessions, with
  their true opens) and \<open>orb/trueopen.py\<close> (true day, session, week and cycle opens). The time-zone
  database is not part of the repository: \<open>ny\<close> gives New York's offset, in microseconds, at a UTC
  instant. As in Python, datetimes of the one zone are compared by their wall clocks.
\<close>

section \<open>Wall clock\<close>

definition ny_local :: "(int \<Rightarrow> int) \<Rightarrow> timestamp \<Rightarrow> int" where
  "ny_local ny ts = utc ts + ny (utc ts)"

definition wall_date :: "int \<Rightarrow> int" where "wall_date t = t div us_day"

definition wall_minute :: "int \<Rightarrow> int" where "wall_minute t = t mod us_day div us_min"

definition wall_hour :: "int \<Rightarrow> int" where "wall_hour t = wall_minute t div 60"

text \<open>Monday is 0; the epoch was a Thursday.\<close>

definition weekday :: "int \<Rightarrow> int" where "weekday t = (wall_date t + 3) mod 7"

lemma wall_minute_bounds: "0 \<le> wall_minute t \<and> wall_minute t < 1440"
proof -
  define m where "m = t mod us_day"
  have m: "0 \<le> m" "m \<le> 86399999999"
    using pos_mod_bound [of us_day t] by (simp_all add: m_def us_day_def)
  have "m div us_min \<le> 86399999999 div us_min" by (rule zdiv_mono1) (use m in \<open>simp_all add: us_min_def\<close>)
  moreover have "0 \<le> m div us_min" using m by (simp add: us_min_def pos_imp_zdiv_nonneg_iff)
  ultimately show ?thesis by (simp add: wall_minute_def us_min_def m_def)
qed

lemma wall_hour_bounds: "0 \<le> wall_hour t \<and> wall_hour t < 24"
  using wall_minute_bounds [of t] by (auto simp: wall_hour_def)

section \<open>Quarters\<close>

datatype quarter = Q1 | Q2 | Q3 | Q4

definition day_quarter :: "(int \<Rightarrow> int) \<Rightarrow> timestamp \<Rightarrow> quarter" where
  "day_quarter ny ts = (let h = wall_hour (ny_local ny ts)
     in if h \<ge> 18 then Q1 else if h < 6 then Q2 else if h < 12 then Q3 else Q4)"

definition nth_quarter :: "int \<Rightarrow> quarter" where
  "nth_quarter n = (if n = 0 then Q1 else if n = 1 then Q2 else if n = 2 then Q3 else Q4)"

definition m90_quarter :: "(int \<Rightarrow> int) \<Rightarrow> timestamp \<Rightarrow> quarter" where
  "m90_quarter ny ts = (let t = ny_local ny ts
     in nth_quarter (((wall_hour t mod 6) * 60 + wall_minute t mod 60) div 90))"

definition quarters :: "(int \<Rightarrow> int) \<Rightarrow> timestamp \<Rightarrow> quarter \<times> quarter" where
  "quarters ny ts = (day_quarter ny ts, m90_quarter ny ts)"

definition day_cycle :: "(int \<Rightarrow> int) \<Rightarrow> timestamp \<Rightarrow> int" where
  "day_cycle ny ts = (let t = ny_local ny ts
     in if wall_hour t \<ge> 18 then wall_date (t + us_day) else wall_date t)"

definition m90_cycle :: "(int \<Rightarrow> int) \<Rightarrow> timestamp \<Rightarrow> int \<times> int" where
  "m90_cycle ny ts = (let t = ny_local ny ts in (wall_date t, (wall_hour t div 6) * 6))"

record quarter_tracker =
  qt_day_open :: "flt option"
  qt_m90_open :: "flt option"
  qt_day_id :: "int option"
  qt_m90_id :: "(int \<times> int) option"

definition quarter_new :: quarter_tracker where
  "quarter_new = \<lparr>qt_day_open = None, qt_m90_open = None, qt_day_id = None, qt_m90_id = None\<rparr>"

definition keep_first :: "flt option \<Rightarrow> bool \<Rightarrow> flt \<Rightarrow> flt option" where
  "keep_first old due x = (case old of None \<Rightarrow> if due then Some x else None | Some y \<Rightarrow> Some y)"

definition quarter_update :: "(int \<Rightarrow> int) \<Rightarrow> candle \<Rightarrow> quarter_tracker \<Rightarrow> quarter_tracker" where
  "quarter_update ny c q =
     (let d = day_cycle ny (c_ts c); m = m90_cycle ny (c_ts c);
          day0 = (if Some d \<noteq> qt_day_id q then None else qt_day_open q);
          m0 = (if Some m \<noteq> qt_m90_id q then None else qt_m90_open q)
      in \<lparr>qt_day_open = keep_first day0 (day_quarter ny (c_ts c) \<noteq> Q1) (c_open c),
          qt_m90_open = keep_first m0 (m90_quarter ny (c_ts c) \<noteq> Q1) (c_open c),
          qt_day_id = Some d, qt_m90_id = Some m\<rparr>)"

definition value_zone :: "flt \<Rightarrow> string \<Rightarrow> quarter_tracker \<Rightarrow> string option" where
  "value_zone close cycle q =
     (case (if cycle = ''day'' then qt_day_open q else qt_m90_open q) of None \<Rightarrow> None
      | Some ref \<Rightarrow> Some (if close > ref then ''premium'' else ''discount''))"

section \<open>True opens\<close>

record true_opens =
  to_tdo :: "flt option"
  to_session :: "flt option"
  to_name :: "string option"
  to_week :: "flt option"
  to_cycle :: "flt option"
  to_prev :: "int option"

definition trueopen_new :: true_opens where
  "trueopen_new = \<lparr>to_tdo = None, to_session = None, to_name = None, to_week = None,
     to_cycle = None, to_prev = None\<rparr>"

definition at_time :: "int \<Rightarrow> int \<Rightarrow> int" where "at_time h m = (h * 60 + m) * us_min"

definition session_slots :: "(int \<times> string) list" where
  "session_slots = [(at_time 1 30, ''london''), (at_time 7 30, ''new_york''), (at_time 13 30, ''pm'')]"

definition cycle_slots :: "int list" where
  "cycle_slots = [at_time 3 23, at_time 9 23, at_time 15 23]"

definition crossed :: "int \<Rightarrow> int \<Rightarrow> int \<Rightarrow> bool" where
  "crossed prev cur slot = (let target = wall_date cur * us_day + slot in prev < target \<and> target \<le> cur)"

definition trueopen_update :: "(int \<Rightarrow> int) \<Rightarrow> candle \<Rightarrow> true_opens \<Rightarrow> true_opens" where
  "trueopen_update ny c l =
     (let cur = ny_local ny (c_ts c);
          prev = (case to_prev l of None \<Rightarrow> cur - us_min | Some p \<Rightarrow> p);
          l1 = l\<lparr>to_prev := Some cur\<rparr>;
          l2 = (if crossed prev cur 0 then l1\<lparr>to_tdo := Some (c_open c)\<rparr> else l1);
          l3 = fold (\<lambda>(s, nm) x. if crossed prev cur s
                 then x\<lparr>to_session := Some (c_open c), to_name := Some nm\<rparr> else x) session_slots l2;
          l4 = fold (\<lambda>s x. if crossed prev cur s then x\<lparr>to_cycle := Some (c_open c)\<rparr> else x)
                 cycle_slots l3
      in if weekday cur = 0 \<and> crossed prev cur (at_time 18 0)
         then l4\<lparr>to_week := Some (c_open c)\<rparr> else l4)"

definition to_bias :: "flt \<Rightarrow> true_opens \<Rightarrow> string option" where
  "to_bias close l = (case to_session l of None \<Rightarrow> None
     | Some so \<Rightarrow> Some (if close > so then ''bullish'' else ''bearish''))"

definition to_zone :: "flt \<Rightarrow> true_opens \<Rightarrow> string option" where
  "to_zone close l =
     (case (to_tdo l, to_session l, to_week l) of
        (Some a, Some b, Some w) \<Rightarrow>
          Some (if close > a \<and> close > b \<and> close > w then ''premium''
                else if \<not> close > a \<and> \<not> close > b \<and> \<not> close > w then ''discount''
                else ''dead_zone'')
      | _ \<Rightarrow> None)"

section \<open>Properties\<close>

text \<open>The reference: the open of the first bar of the current trading day past its first quarter.\<close>

definition day_bars :: "(int \<Rightarrow> int) \<Rightarrow> candle list \<Rightarrow> candle list" where
  "day_bars ny cs = rev (takeWhile (\<lambda>c. day_cycle ny (c_ts c) = day_cycle ny (c_ts (last cs))) (rev cs))"

definition first_past_q1 :: "(int \<Rightarrow> int) \<Rightarrow> candle list \<Rightarrow> flt option" where
  "first_past_q1 ny cs = map_option c_open (find (\<lambda>c. day_quarter ny (c_ts c) \<noteq> Q1) cs)"

lemma find_snoc: "find P (xs @ [x]) = (case find P xs of None \<Rightarrow> if P x then Some x else None | Some y \<Rightarrow> Some y)"
  by (induction xs) auto

lemma day_bars_snoc:
  assumes "cs \<noteq> []"
  shows "day_bars ny (cs @ [c]) = (if day_cycle ny (c_ts (last cs)) = day_cycle ny (c_ts c)
     then day_bars ny cs @ [c] else [c])"
  using assms by (cases cs rule: rev_cases) (auto simp: day_bars_def)

lemma quarter_day:
  "cs \<noteq> [] \<Longrightarrow> qt_day_id (fold (quarter_update ny) cs quarter_new) = Some (day_cycle ny (c_ts (last cs)))
   \<and> qt_day_open (fold (quarter_update ny) cs quarter_new) = first_past_q1 ny (day_bars ny cs)"
proof (induction cs rule: rev_induct)
  case (snoc c cs)
  show ?case
  proof (cases "cs = []")
    case True
    then show ?thesis
      by (simp add: quarter_update_def quarter_new_def Let_def keep_first_def day_bars_def first_past_q1_def)
  next
    case False
    then show ?thesis using snoc.IH
      by (simp add: quarter_update_def Let_def keep_first_def day_bars_snoc first_past_q1_def find_snoc
          split: option.splits)
  qed
qed simp

text \<open>The day's true open is found across gaps: after any bars the tracker holds the open of the
  first bar of the current New York trading day that lies past its first quarter, and nothing as
  long as there is none.\<close>

theorem day_true_open_reference:
  assumes "cs \<noteq> []"
  shows "qt_day_open (fold (quarter_update ny) cs quarter_new) = first_past_q1 ny (day_bars ny cs)"
  using quarter_day [OF assms] by blast

definition nybar :: "int \<Rightarrow> flt \<Rightarrow> candle" where
  "nybar m o' = \<lparr>c_ts = utc_ts (m * us_min), c_open = o', c_high = o', c_low = o', c_close = o', c_volume = 1\<rparr>"

theorem day_true_open_reference_witness:
  "qt_day_open (fold (quarter_update (\<lambda>_. 0)) [nybar 1100 5, nybar 1900 7, nybar 2000 8] quarter_new) = Some 7"
proof -
  have "first_past_q1 (\<lambda>_. 0) (day_bars (\<lambda>_. 0) [nybar 1100 5, nybar 1900 7, nybar 2000 8]) = Some 7"
    by code_simp
  then show ?thesis
    using day_true_open_reference [of "[nybar 1100 5, nybar 1900 7, nybar 2000 8]" "\<lambda>_. 0"] by simp
qed

text \<open>A feed gap over midnight loses a slot: a slot is looked for only on the current bar's New
  York date, so when the feed stops before the afternoon slot and resumes after midnight, the bar
  whose time crosses the slot does not set its level.\<close>

theorem trueopen_misses_slot:
  "to_session (fold (trueopen_update (\<lambda>_. 0)) [nybar 780 5, nybar 1445 9] trueopen_new) = None
   \<and> to_session (fold (trueopen_update (\<lambda>_. 0)) [nybar 780 5, nybar 1435 9] trueopen_new) = Some 9"
  by code_simp

end
