(* ===== verification/Macro_Guard.thy ===== *)
theory Macro_Guard
  imports Models
begin

text \<open>
  \<open>orb/macroguard.py\<close>: the consumer of the macro layer's state file. A parsed JSON document is a
  value of \<open>json\<close>; \<open>from_dict\<close> reads it with Python's own rules, so every exception it can raise
  is a branch. Python's parsing of number and date texts and its printing of arbitrary values are
  the record \<open>pytext\<close>. The file is observed through \<open>file_obs\<close>: missing, or a modification time
  with a content that does or does not parse as JSON. Asset keys are upper-cased on ASCII letters;
  the two formatted numbers of a reason are kept as values.
\<close>

section \<open>JSON values\<close>

datatype json =
    JNull
  | JBool bool
  | JInt int
  | JFloat pyfloat
  | JStr string
  | JArr "json list"
  | JObj "(string \<times> json) list"

text \<open>\<open>d.get(k, default)\<close>: only a dict has it. A loaded dict has each key once.\<close>

definition jget :: "json \<Rightarrow> string \<Rightarrow> json \<Rightarrow> error + json" where
  "jget d k dflt = (case d of
       JObj kvs \<Rightarrow> Inr (case map_of kvs k of None \<Rightarrow> dflt | Some v \<Rightarrow> v)
     | _ \<Rightarrow> Inl AttributeError)"

definition jtrue :: "json \<Rightarrow> bool" where
  "jtrue j = (case j of JNull \<Rightarrow> False | JBool b \<Rightarrow> b | JInt n \<Rightarrow> n \<noteq> 0 | JFloat x \<Rightarrow> x \<noteq> Fin 0
     | JStr s \<Rightarrow> s \<noteq> [] | JArr xs \<Rightarrow> xs \<noteq> [] | JObj kvs \<Rightarrow> kvs \<noteq> [])"

definition jor :: "json \<Rightarrow> json \<Rightarrow> json" where "jor a b = (if jtrue a then a else b)"

definition and_then :: "error + 'a \<Rightarrow> ('a \<Rightarrow> error + 'b) \<Rightarrow> error + 'b" where
  "and_then x f = (case x of Inl e \<Rightarrow> Inl e | Inr v \<Rightarrow> f v)"

section \<open>Conversions\<close>

text \<open>\<open>tx_iso\<close> is \<open>datetime.fromisoformat\<close>: local microseconds and the offset, if any.\<close>

record pytext =
  tx_float :: "string \<Rightarrow> pyfloat option"
  tx_int :: "string \<Rightarrow> int option"
  tx_iso :: "string \<Rightarrow> (int \<times> int option) option"
  tx_str :: "json \<Rightarrow> string"

definition py_float :: "pytext \<Rightarrow> json \<Rightarrow> error + pyfloat" where
  "py_float tx j = (case j of
       JBool b \<Rightarrow> Inr (Fin (if b then 1 else 0))
     | JInt n \<Rightarrow> Inr (Fin (of_int n))
     | JFloat x \<Rightarrow> Inr x
     | JStr s \<Rightarrow> (case tx_float tx s of None \<Rightarrow> Inl (ValueError ''could not convert string to float'')
                 | Some x \<Rightarrow> Inr x)
     | _ \<Rightarrow> Inl TypeError)"

definition trunc_int :: "flt \<Rightarrow> int" where
  "trunc_int x = (if x < 0 then \<lceil>x\<rceil> else \<lfloor>x\<rfloor>)"

definition py_int :: "pytext \<Rightarrow> json \<Rightarrow> error + int" where
  "py_int tx j = (case j of
       JBool b \<Rightarrow> Inr (if b then 1 else 0)
     | JInt n \<Rightarrow> Inr n
     | JFloat x \<Rightarrow> (case x of Fin v \<Rightarrow> Inr (trunc_int v)
         | NaN \<Rightarrow> Inl (ValueError ''cannot convert float NaN to integer'') | _ \<Rightarrow> Inl OverflowError)
     | JStr s \<Rightarrow> (case tx_int tx s of None \<Rightarrow> Inl (ValueError ''invalid literal for int()'')
                 | Some n \<Rightarrow> Inr n)
     | _ \<Rightarrow> Inl TypeError)"

definition py_str :: "pytext \<Rightarrow> json \<Rightarrow> string" where
  "py_str tx j = (case j of JStr s \<Rightarrow> s | _ \<Rightarrow> tx_str tx j)"

text \<open>\<open>tuple(x)\<close> of a value that is iterable.\<close>

definition py_tuple :: "json \<Rightarrow> error + json list" where
  "py_tuple j = (case j of
       JArr xs \<Rightarrow> Inr xs
     | JStr s \<Rightarrow> Inr (map (\<lambda>c. JStr [c]) s)
     | JObj kvs \<Rightarrow> Inr (map (\<lambda>kv. JStr (fst kv)) kvs)
     | _ \<Rightarrow> Inl TypeError)"

definition upper_char :: "char \<Rightarrow> char" where
  "upper_char c = (let n = (of_char c :: nat) in if 97 \<le> n \<and> n \<le> 122 then char_of (n - 32) else c)"

definition upper :: "string \<Rightarrow> string" where "upper s = map upper_char s"

definition replace_z :: "string \<Rightarrow> string" where
  "replace_z s = concat (map (\<lambda>c. if c = CHR ''Z'' then ''+00:00'' else [c]) s)"

definition parse_ts :: "pytext \<Rightarrow> string \<Rightarrow> error + timestamp" where
  "parse_ts tx raw = (case tx_iso tx (replace_z raw) of
       None \<Rightarrow> Inl (ValueError ''Invalid isoformat string'')
     | Some (_, None) \<Rightarrow> Inl (ValueError ''generated_at not tz-aware'')
     | Some (t, Some off) \<Rightarrow> Inr (utc_ts (t - off)))"

section \<open>The parsed state\<close>

record blackout =
  bo_active :: bool
  bo_until :: json
  bo_reason :: json

record asset_view =
  av_bias :: string
  av_score :: pyfloat
  av_horizon :: string
  av_drivers :: "json list"

record macro_state =
  ms_schema :: int
  ms_generated :: timestamp
  ms_ttl :: int
  ms_regime :: string
  ms_risk :: pyfloat
  ms_conf :: pyfloat
  ms_blackout :: blackout
  ms_assets :: "string \<rightharpoonup> asset_view"

definition asset_of :: "pytext \<Rightarrow> json \<Rightarrow> error + asset_view" where
  "asset_of tx av =
     and_then (jget av ''bias'' (JStr ''neutral'')) (\<lambda>bias.
     and_then (and_then (jget av ''score'' (JFloat (Fin 0))) (py_float tx)) (\<lambda>sc.
     and_then (jget av ''horizon'' (JStr ''intraday'')) (\<lambda>hz.
     and_then (and_then (jget av ''drivers'' (JArr [])) (\<lambda>d. py_tuple (jor d (JArr [])))) (\<lambda>dr.
       Inr \<lparr>av_bias = py_str tx bias, av_score = sc, av_horizon = py_str tx hz, av_drivers = dr\<rparr>))))"

fun assets_of :: "pytext \<Rightarrow> (string \<times> json) list \<Rightarrow> (string \<rightharpoonup> asset_view)
   \<Rightarrow> error + (string \<rightharpoonup> asset_view)" where
  "assets_of tx [] acc = Inr acc"
| "assets_of tx ((key, av) # rest) acc =
     and_then (asset_of tx av) (\<lambda>v. assets_of tx rest (acc(upper key \<mapsto> v)))"

definition items :: "json \<Rightarrow> error + (string \<times> json) list" where
  "items j = (case j of JObj kvs \<Rightarrow> Inr kvs | _ \<Rightarrow> Inl AttributeError)"

definition index_of :: "json \<Rightarrow> string \<Rightarrow> error + json" where
  "index_of d k = (case d of
       JObj kvs \<Rightarrow> (case map_of kvs k of None \<Rightarrow> Inl KeyError | Some v \<Rightarrow> Inr v)
     | _ \<Rightarrow> Inl TypeError)"

definition from_dict :: "pytext \<Rightarrow> json \<Rightarrow> error + macro_state" where
  "from_dict tx d =
     and_then (jget d ''global'' (JObj [])) (\<lambda>g.
     and_then (jget g ''blackout'' (JObj [])) (\<lambda>b0. let b = jor b0 (JObj []) in
     and_then (and_then (jget d ''assets'' (JObj [])) (\<lambda>a. items (jor a (JObj [])))) (\<lambda>kvs.
     and_then (assets_of tx kvs (\<lambda>_. None)) (\<lambda>assets.
     and_then (and_then (jget d ''schema_version'' (JInt 0)) (py_int tx)) (\<lambda>ver.
     and_then (and_then (index_of d ''generated_at'') (\<lambda>t. parse_ts tx (py_str tx t))) (\<lambda>gen.
     and_then (and_then (jget d ''ttl_sec'' (JInt 0)) (py_int tx)) (\<lambda>ttl.
     and_then (jget g ''risk_regime'' (JStr ''neutral'')) (\<lambda>regime.
     and_then (and_then (jget g ''risk_score'' (JFloat (Fin 0))) (py_float tx)) (\<lambda>risk.
     and_then (and_then (jget g ''confidence'' (JFloat (Fin 0))) (py_float tx)) (\<lambda>conf.
     and_then (jget b ''active'' (JBool False)) (\<lambda>act.
     and_then (jget b ''until'' JNull) (\<lambda>until.
     and_then (jget b ''reason'' JNull) (\<lambda>why.
       Inr \<lparr>ms_schema = ver, ms_generated = gen, ms_ttl = ttl, ms_regime = py_str tx regime,
            ms_risk = risk, ms_conf = conf,
            ms_blackout = \<lparr>bo_active = jtrue act, bo_until = until, bo_reason = why\<rparr>,
            ms_assets = assets\<rparr>)))))))))))))"

definition age_sec :: "macro_state \<Rightarrow> timestamp \<Rightarrow> flt" where
  "age_sec st now = secs_between now (ms_generated st)"

definition is_stale :: "macro_state \<Rightarrow> timestamp \<Rightarrow> bool" where
  "is_stale st now \<longleftrightarrow> ms_ttl st \<le> 0 \<or> age_sec st now > of_int (ms_ttl st)"

section \<open>Decisions\<close>

datatype macro_reason =
    AbsentPolicy
  | StalePolicy
  | BlackoutFor json
  | BiasConflict pyfloat pyfloat
  | MacroOk string string

record decision =
  d_veto :: bool
  d_qty :: "flt option"
  d_reason :: macro_reason

definition bare_key :: "string \<Rightarrow> string" where
  "bare_key symbol = upper (takeWhile (\<lambda>c. c \<noteq> CHR ''.'') symbol)"

definition stale_decision :: "flt option \<Rightarrow> string \<Rightarrow> macro_reason \<Rightarrow> decision" where
  "stale_decision qty policy tag = \<lparr>d_veto = (policy = ''block''), d_qty = qty, d_reason = tag\<rparr>"

definition blackout_why :: "blackout \<Rightarrow> macro_reason" where
  "blackout_why b = BlackoutFor (jor (bo_reason b) (JStr ''unknown''))"

text \<open>The float comparisons of the code; a NaN makes each of them false.\<close>

definition beyond_eps :: "pyfloat \<Rightarrow> bool" where
  "beyond_eps x = (case x of Fin v \<Rightarrow> \<bar>v\<bar> > 1 / 10 ^ 9 | NaN \<Rightarrow> False | _ \<Rightarrow> True)"

definition above_zero :: "pyfloat \<Rightarrow> bool" where
  "above_zero x = (case x of Fin v \<Rightarrow> v > 0 | PosInf \<Rightarrow> True | _ \<Rightarrow> False)"

definition at_least :: "pyfloat \<Rightarrow> flt \<Rightarrow> bool" where
  "at_least x m = (case x of Fin v \<Rightarrow> v \<ge> m | PosInf \<Rightarrow> True | _ \<Rightarrow> False)"

definition opposes :: "macro_state \<Rightarrow> string \<Rightarrow> direction \<Rightarrow> flt \<Rightarrow> asset_view option" where
  "opposes st key dir conf_min = (case ms_assets st key of None \<Rightarrow> None
     | Some a \<Rightarrow> if beyond_eps (av_score a) \<and> at_least (ms_conf st) conf_min
          \<and> (dir = LONG \<and> \<not> above_zero (av_score a) \<or> dir = SHORT \<and> above_zero (av_score a))
        then Some a else None)"

definition decide_entry ::
  "macro_state option \<Rightarrow> string \<Rightarrow> direction \<Rightarrow> flt option \<Rightarrow> timestamp \<Rightarrow> flt \<Rightarrow> string \<Rightarrow> decision" where
  "decide_entry state key dir qty now conf_min policy =
    (case state of
       None \<Rightarrow> stale_decision qty policy AbsentPolicy
     | Some st \<Rightarrow>
       if is_stale st now then stale_decision qty policy StalePolicy
       else if bo_active (ms_blackout st)
         then \<lparr>d_veto = True, d_qty = qty, d_reason = blackout_why (ms_blackout st)\<rparr>
       else case opposes st key dir conf_min of
         Some a \<Rightarrow> \<lparr>d_veto = True, d_qty = qty, d_reason = BiasConflict (av_score a) (ms_conf st)\<rparr>
       | None \<Rightarrow> \<lparr>d_veto = False, d_qty = qty, d_reason = MacroOk (ms_regime st)
            (case ms_assets st key of None \<Rightarrow> ''none'' | Some a \<Rightarrow> av_bias a)\<rparr>)"

definition decide_risk_off :: "macro_state option \<Rightarrow> timestamp \<Rightarrow> macro_reason option" where
  "decide_risk_off state now = (case state of None \<Rightarrow> None
     | Some st \<Rightarrow> if \<not> is_stale st now \<and> bo_active (ms_blackout st)
         then Some (blackout_why (ms_blackout st)) else None)"

section \<open>The guard\<close>

record macro_cfg =
  gk_key :: string
  gk_policy :: string
  gk_conf_min :: flt

record macro_guard =
  mg_mtime :: "int option"
  mg_state :: "macro_state option"

definition macro_init :: "string \<Rightarrow> string \<Rightarrow> flt \<Rightarrow> error + macro_cfg \<times> macro_guard" where
  "macro_init symbol policy conf_min =
     (if policy \<notin> {''allow'', ''block''}
      then Inl (ValueError ''default_when_stale must be allow or block'')
      else Inr (\<lparr>gk_key = bare_key symbol, gk_policy = policy, gk_conf_min = conf_min\<rparr>,
                \<lparr>mg_mtime = None, mg_state = None\<rparr>))"

datatype file_obs = Missing | File int "json option"

text \<open>The exceptions \<open>read\<close> catches.\<close>

definition parse_caught :: "error \<Rightarrow> bool" where
  "parse_caught e = (case e of ValueError _ \<Rightarrow> True | KeyError \<Rightarrow> True | TypeError \<Rightarrow> True | _ \<Rightarrow> False)"

definition macro_read ::
  "pytext \<Rightarrow> file_obs \<Rightarrow> macro_guard \<Rightarrow> (error + macro_state option) \<times> macro_guard" where
  "macro_read tx obs g = (case obs of
       Missing \<Rightarrow> (Inr None, g)
     | File mtime content \<Rightarrow>
       if mg_mtime g = Some mtime \<and> mg_state g \<noteq> None then (Inr (mg_state g), g)
       else (case content of
           None \<Rightarrow> (Inr (mg_state g), g)
         | Some raw \<Rightarrow> (case from_dict tx raw of
               Inl e \<Rightarrow> (if parse_caught e then Inr (mg_state g) else Inl e, g)
             | Inr st \<Rightarrow> (Inr (Some st), \<lparr>mg_mtime = Some mtime, mg_state = Some st\<rparr>))))"

definition evaluate_entry ::
  "pytext \<Rightarrow> macro_cfg \<Rightarrow> file_obs \<Rightarrow> timestamp \<Rightarrow> signal \<Rightarrow> macro_guard
   \<Rightarrow> (error + decision) \<times> macro_guard" where
  "evaluate_entry tx k obs now s g = (case macro_read tx obs g of
       (Inl e, g') \<Rightarrow> (Inl e, g')
     | (Inr st, g') \<Rightarrow>
         (Inr (decide_entry st (gk_key k) (s_dir s) (s_qty s) now (gk_conf_min k) (gk_policy k)), g'))"

definition risk_off_now ::
  "pytext \<Rightarrow> file_obs \<Rightarrow> timestamp \<Rightarrow> macro_guard \<Rightarrow> (error + macro_reason option) \<times> macro_guard" where
  "risk_off_now tx obs now g = (case macro_read tx obs g of
       (Inl e, g') \<Rightarrow> (Inl e, g') | (Inr st, g') \<Rightarrow> (Inr (decide_risk_off st now), g'))"

end
