(* ===== verification/Macro_Properties.thy ===== *)
theory Macro_Properties
  imports Macro_Guard
begin

text \<open>
  What the macro guard promises: its cache is transparent, a veto or a risk-off always rests on a
  fresh state that was really read, and one corrupt document that is not caught.
\<close>

section \<open>Reads over time\<close>

definition macro_fresh :: macro_guard where
  "macro_fresh = \<lparr>mg_mtime = None, mg_state = None\<rparr>"

definition reads :: "pytext \<Rightarrow> file_obs list \<Rightarrow> macro_guard \<Rightarrow> macro_guard" where
  "reads tx obss g = fold (\<lambda>obs g. snd (macro_read tx obs g)) obss g"

text \<open>The state an observation holds, if it holds one, and the last such state of a history.\<close>

definition good :: "pytext \<Rightarrow> file_obs \<Rightarrow> macro_state option" where
  "good tx obs = (case obs of File m (Some raw) \<Rightarrow>
       (case from_dict tx raw of Inr st \<Rightarrow> Some st | Inl _ \<Rightarrow> None) | _ \<Rightarrow> None)"

definition last_good :: "pytext \<Rightarrow> file_obs list \<Rightarrow> macro_state option" where
  "last_good tx obss = fold (\<lambda>obs acc. case good tx obs of None \<Rightarrow> acc | Some st \<Rightarrow> Some st) obss None"

text \<open>What caching on the modification time relies on: documents read under one time agree.\<close>

definition mtime_faithful :: "pytext \<Rightarrow> file_obs list \<Rightarrow> bool" where
  "mtime_faithful tx obss \<longleftrightarrow> (\<forall>m c c' st st'. File m c \<in> set obss \<longrightarrow> File m c' \<in> set obss \<longrightarrow>
     good tx (File m c) = Some st \<longrightarrow> good tx (File m c') = Some st' \<longrightarrow> st = st')"

text \<open>The cache: a document of the history with its time.\<close>

definition cached_from :: "pytext \<Rightarrow> file_obs list \<Rightarrow> macro_guard \<Rightarrow> bool" where
  "cached_from tx obss g \<longleftrightarrow> (case mg_state g of None \<Rightarrow> True
     | Some st \<Rightarrow> \<exists>m c. mg_mtime g = Some m \<and> File m c \<in> set obss \<and> good tx (File m c) = Some st)"

lemma read_cases:
  assumes "macro_read tx obs g = (r, g')"
  obtains (missing) "obs = Missing" "r = Inr None" "g' = g"
  | (hit) m c st where "obs = File m c" "mg_mtime g = Some m" "mg_state g = Some st"
      "r = Inr (Some st)" "g' = g"
  | (keep) m c where "obs = File m c" "good tx obs = None" "g' = g"
      "r = Inr (mg_state g) \<or> (\<exists>e. r = Inl e)"
  | (parse) m c st where "obs = File m c" "good tx obs = Some st" "r = Inr (Some st)"
      "g' = \<lparr>mg_mtime = Some m, mg_state = Some st\<rparr>"
proof (cases obs)
  case Missing
  then show ?thesis using assms missing by (simp add: macro_read_def)
next
  case (File m c)
  show ?thesis
  proof (cases "mg_mtime g = Some m \<and> mg_state g \<noteq> None")
    case True
    then obtain st where st: "mg_mtime g = Some m" "mg_state g = Some st" by auto
    then have "r = Inr (Some st)" "g' = g" using assms by (simp_all add: macro_read_def File)
    then show ?thesis using hit [OF File st] by blast
  next
    case False
    show ?thesis
    proof (cases "good tx obs")
      case None
      then have "g' = g" "r = Inr (mg_state g) \<or> (\<exists>e. r = Inl e)"
        using assms False by (auto simp: macro_read_def File good_def split: option.splits sum.splits if_splits)
      then show ?thesis using keep File None by blast
    next
      case (Some st)
      obtain raw where c: "c = Some raw" "from_dict tx raw = Inr st"
        using Some by (auto simp: File good_def split: option.splits sum.splits)
      have "r = Inr (Some st)" "g' = \<lparr>mg_mtime = Some m, mg_state = Some st\<rparr>"
        using assms False by (simp_all add: macro_read_def File c split: if_splits)
      then show ?thesis using parse File Some by blast
    qed
  qed
qed

lemma cached_grows: "cached_from tx obss g \<Longrightarrow> set obss \<subseteq> set obss' \<Longrightarrow> cached_from tx obss' g"
  by (auto simp: cached_from_def split: option.splits)

lemma read_cached:
  assumes "cached_from tx obss g" "macro_read tx obs g = (r, g')"
  shows "cached_from tx (obss @ [obs]) g'"
proof (cases rule: read_cases [OF assms(2)])
  case (4 m c st)
  then show ?thesis by (auto simp: cached_from_def)
qed (use cached_grows [OF assms(1), of "obss @ [obs]"] in auto)

lemma reads_snoc: "reads tx (obss @ [obs]) g = snd (macro_read tx obs (reads tx obss g))"
  by (simp add: reads_def)

lemma reads_cached: "cached_from tx obss (reads tx obss macro_fresh)"
proof (induction obss rule: rev_induct)
  case Nil
  then show ?case by (simp add: reads_def macro_fresh_def cached_from_def)
next
  case (snoc obs obss)
  then show ?case using read_cached [OF snoc] by (simp add: reads_snoc prod_eq_iff)
qed

lemma last_good_snoc: "last_good tx (obss @ [obs])
    = (case good tx obs of None \<Rightarrow> last_good tx obss | Some st \<Rightarrow> Some st)"
  by (cases "good tx obs") (simp_all add: last_good_def)

lemma mtime_faithful_init: "mtime_faithful tx (obss @ [obs]) \<Longrightarrow> mtime_faithful tx obss"
  unfolding mtime_faithful_def set_append by blast

lemma hit_good:
  assumes "cached_from tx obss g" "mtime_faithful tx (obss @ [File m c])"
    and "mg_mtime g = Some m" "mg_state g = Some st" "good tx (File m c) = Some st'"
  shows "st' = st"
proof -
  obtain c0 where "File m c0 \<in> set (obss @ [File m c])" "good tx (File m c0) = Some st"
    using assms(1,3,4) by (auto simp: cached_from_def)
  moreover have "File m c \<in> set (obss @ [File m c])" by simp
  ultimately show ?thesis using assms(2,5) unfolding mtime_faithful_def by blast
qed

lemma read_state:
  assumes "cached_from tx obss g" "mtime_faithful tx (obss @ [obs])" "macro_read tx obs g = (r, g')"
  shows "mg_state g' = (case good tx obs of None \<Rightarrow> mg_state g | Some st \<Rightarrow> Some st)
    \<and> (\<forall>v. r = Inr v \<longrightarrow> v = (if obs = Missing then None else mg_state g'))"
proof (cases rule: read_cases [OF assms(3)])
  case (2 m c st)
  have "good tx (File m c) = Some st' \<Longrightarrow> st' = st" for st'
    using hit_good [OF assms(1) _ 2(2,3)] assms(2) 2(1) by blast
  then show ?thesis using 2 by (cases "good tx (File m c)") auto
qed (auto simp: good_def)

lemma reads_last_good:
  "mtime_faithful tx obss \<Longrightarrow> mg_state (reads tx obss macro_fresh) = last_good tx obss"
proof (induction obss rule: rev_induct)
  case Nil
  then show ?case by (simp add: reads_def macro_fresh_def last_good_def)
next
  case (snoc obs obss)
  obtain r g' where r: "macro_read tx obs (reads tx obss macro_fresh) = (r, g')" by (meson surj_pair)
  from read_state [OF reads_cached snoc.prems r] snoc.IH [OF mtime_faithful_init [OF snoc.prems]]
  show ?case by (cases "good tx obs") (simp_all add: reads_snoc r last_good_snoc)
qed

text \<open>C22: the guard's cache is transparent. If documents read under one modification time agree, then
  after any history of missing, unreadable, corrupt and good files a read that returns yields nothing
  for a missing file and otherwise the last good state of the whole history, the present file's own
  when it is good.\<close>

theorem macro_read_reference:
  assumes "mtime_faithful tx (obss @ [obs])"
    and "fst (macro_read tx obs (reads tx obss macro_fresh)) = Inr v"
  shows "v = (if obs = Missing then None else last_good tx (obss @ [obs]))"
proof -
  obtain r g' where r: "macro_read tx obs (reads tx obss macro_fresh) = (r, g')" by (meson surj_pair)
  have "mg_state g' = last_good tx (obss @ [obs])"
    using reads_last_good [OF assms(1)] by (simp add: reads_snoc r)
  then show ?thesis using read_state [OF reads_cached assms(1) r] assms(2) by (simp add: r)
qed

definition demo_text :: pytext where
  "demo_text = \<lparr>tx_float = (\<lambda>_. None), tx_int = (\<lambda>_. None), tx_iso = (\<lambda>s. Some (0, Some 0)),
     tx_str = (\<lambda>_. ''?'')\<rparr>"

definition demo_doc :: "bool \<Rightarrow> flt \<Rightarrow> json" where
  "demo_doc hard sc = JObj [(''generated_at'', JStr ''1970-01-01T00:00:00Z''), (''ttl_sec'', JInt 300),
     (''global'', JObj [(''confidence'', JFloat (Fin (7 / 10))),
        (''blackout'', JObj [(''active'', JBool hard)])]),
     (''assets'', JObj [(''xauusd'', JObj [(''score'', JFloat (Fin sc))])])]"

lemma good_simps [simp]: "good tx Missing = None" "good tx (File m None) = None"
  by (simp_all add: good_def)

theorem macro_read_reference_witness:
  "\<exists>st. fst (macro_read demo_text (File 2 None) (reads demo_text [File 1 (Some (demo_doc True 0)), Missing]
       macro_fresh)) = Inr (Some st) \<and> ms_ttl st = 300
     \<and> last_good demo_text [File 1 (Some (demo_doc True 0)), Missing, File 2 None] = Some st"
proof -
  have "mtime_faithful demo_text ([File 1 (Some (demo_doc True 0)), Missing] @ [File 2 None])"
    by (auto simp: mtime_faithful_def)
  moreover have "case fst (macro_read demo_text (File 2 None) (reads demo_text
      [File 1 (Some (demo_doc True 0)), Missing] macro_fresh)) of
        Inr (Some st) \<Rightarrow> ms_ttl st = 300 | _ \<Rightarrow> False" by code_simp
  then obtain st where st: "fst (macro_read demo_text (File 2 None) (reads demo_text
      [File 1 (Some (demo_doc True 0)), Missing] macro_fresh)) = Inr (Some st)" "ms_ttl st = 300"
    by (auto split: sum.splits option.splits)
  ultimately have "last_good demo_text [File 1 (Some (demo_doc True 0)), Missing, File 2 None] = Some st"
    using macro_read_reference [OF _ st(1)] by simp
  then show ?thesis using st by blast
qed

section \<open>Fail-safe\<close>

definition fresh_in :: "pytext \<Rightarrow> file_obs list \<Rightarrow> timestamp \<Rightarrow> macro_state \<Rightarrow> bool" where
  "fresh_in tx obss now st \<longleftrightarrow> (\<exists>obs \<in> set obss. good tx obs = Some st) \<and> \<not> is_stale st now"

lemma read_from_history:
  assumes "macro_read tx obs (reads tx obss macro_fresh) = (Inr (Some st), g')"
  shows "\<exists>o' \<in> set (obss @ [obs]). good tx o' = Some st"
proof -
  define g where "g = reads tx obss macro_fresh"
  have h: "\<exists>o' \<in> set obss. good tx o' = Some st" if "mg_state g = Some st"
    using reads_cached [of tx obss] that by (auto simp: cached_from_def g_def)
  have r: "macro_read tx obs g = (Inr (Some st), g')" using assms by (simp add: g_def)
  show ?thesis
  proof (cases rule: read_cases [OF r])
    case (4 m c st')
    then show ?thesis by simp
  qed (use h in auto)
qed

lemma decide_entry_veto:
  "d_veto (decide_entry (Some st) key dir qty now conf_min policy) \<longleftrightarrow>
     (if is_stale st now then policy = ''block''
      else bo_active (ms_blackout st) \<or> opposes st key dir conf_min \<noteq> None)"
  by (auto simp: decide_entry_def stale_decision_def split: option.splits)

text \<open>C23: the macro layer fails safe. Whatever files were seen, an entry is vetoed under the \<open>allow\<close>
  policy only on a state that one of them really held and that is fresh now, and then only because
  its blackout is active or its confident score for the asset opposes the trade; positions are closed
  only on such a fresh state with an active blackout.\<close>

theorem macro_fail_safe:
  assumes "gk_policy k = ''allow''"
  shows "(\<forall>d g'. evaluate_entry tx k obs now s (reads tx obss macro_fresh) = (Inr d, g') \<longrightarrow> d_veto d \<longrightarrow>
       (\<exists>st. fresh_in tx (obss @ [obs]) now st
          \<and> (bo_active (ms_blackout st) \<or> opposes st (gk_key k) (s_dir s) (gk_conf_min k) \<noteq> None)))
     \<and> (\<forall>why g'. risk_off_now tx obs now (reads tx obss macro_fresh) = (Inr (Some why), g') \<longrightarrow>
       (\<exists>st. fresh_in tx (obss @ [obs]) now st \<and> bo_active (ms_blackout st)))"
proof -
  obtain r g1 where r: "macro_read tx obs (reads tx obss macro_fresh) = (r, g1)" by (meson surj_pair)
  have h: "\<exists>st. v = Some st \<and> fresh_in tx (obss @ [obs]) now st"
    if "r = Inr v" "v = Some st" "\<not> is_stale st now" for v st
    using read_from_history r that by (auto simp: fresh_in_def)
  show ?thesis
  proof (intro conjI allI impI)
    fix d g' assume e: "evaluate_entry tx k obs now s (reads tx obss macro_fresh) = (Inr d, g')" "d_veto d"
    then obtain v where v: "r = Inr v" "d = decide_entry v (gk_key k) (s_dir s) (s_qty s) now
        (gk_conf_min k) (gk_policy k)" by (auto simp: evaluate_entry_def r split: sum.splits)
    obtain st where st: "v = Some st"
      using v(2) e(2) assms by (cases v) (auto simp: decide_entry_def stale_decision_def)
    have "\<not> is_stale st now \<and> (bo_active (ms_blackout st)
        \<or> opposes st (gk_key k) (s_dir s) (gk_conf_min k) \<noteq> None)"
      using e(2) assms unfolding v(2) st decide_entry_veto by (simp split: if_splits)
    then show "\<exists>st. fresh_in tx (obss @ [obs]) now st \<and> (bo_active (ms_blackout st)
        \<or> opposes st (gk_key k) (s_dir s) (gk_conf_min k) \<noteq> None)"
      using h [OF v(1) st] st by auto
  next
    fix why g' assume e: "risk_off_now tx obs now (reads tx obss macro_fresh) = (Inr (Some why), g')"
    then obtain v where v: "r = Inr v" "decide_risk_off v now = Some why"
      by (auto simp: risk_off_now_def r split: sum.splits)
    then obtain st where st: "v = Some st" "\<not> is_stale st now" "bo_active (ms_blackout st)"
      by (auto simp: decide_risk_off_def split: option.splits if_splits)
    then show "\<exists>st. fresh_in tx (obss @ [obs]) now st \<and> bo_active (ms_blackout st)"
      using h [OF v(1) st(1,2)] by auto
  qed
qed

definition demo_macro :: macro_cfg where
  "demo_macro = \<lparr>gk_key = bare_key ''XAUUSD.ecn'', gk_policy = ''allow'', gk_conf_min = 6 / 10\<rparr>"

definition macro_long :: signal where
  "macro_long = \<lparr>s_ts = utc_ts 0, s_kind = ENTRY, s_dir = LONG, s_price = 100, s_from = RANGE_DEFINED,
     s_to = BREAKOUT, s_reason = ''entry'', s_range_high = None, s_range_low = None,
     s_roc = None, s_rvol = None, s_atr = None, s_stop = Some 97, s_tp = None, s_qty = None,
     s_bars_held = None\<rparr>"

theorem macro_fail_safe_witness:
  "\<exists>st. fresh_in demo_text [File 1 (Some (demo_doc False (-1 / 2)))] (utc_ts 0) st
     \<and> (bo_active (ms_blackout st) \<or> (\<exists>a. opposes st ''XAUUSD'' LONG (6 / 10) = Some a))"
proof -
  define res where "res = evaluate_entry demo_text demo_macro (File 1 (Some (demo_doc False (-1 / 2))))
     (utc_ts 0) macro_long (reads demo_text [] macro_fresh)"
  have "case fst res of Inr d \<Rightarrow> d_veto d | Inl _ \<Rightarrow> False" unfolding res_def by code_simp
  then obtain d g' where d: "res = (Inr d, g')" "d_veto d" by (cases res) (auto split: sum.splits)
  have p: "gk_policy demo_macro = ''allow''" "gk_conf_min demo_macro = 6 / 10" "s_dir macro_long = LONG"
    by (simp_all add: demo_macro_def macro_long_def)
  have k: "gk_key demo_macro = ''XAUUSD''" by code_simp
  show ?thesis
    using macro_fail_safe [OF p(1), of demo_text "File 1 (Some (demo_doc False (-1 / 2)))" "utc_ts 0"
        macro_long "[]"] d unfolding res_def p k by auto
qed

text \<open>A corrupt document can still escape. The reader catches value, key and type errors, but a
  document whose \<open>global\<close> is not an object raises an attribute error, which no handler of the
  reader catches even when a good state is cached.\<close>

theorem macro_null_global_escapes:
  "\<forall>tx g. fst (macro_read tx (File (case mg_mtime g of None \<Rightarrow> 0 | Some m \<Rightarrow> m + 1)
       (Some (JObj [(''global'', JNull)]))) g) = Inl AttributeError"
  by (auto simp: macro_read_def from_dict_def jget_def and_then_def parse_caught_def split: option.splits)

end
