(* ===== verification/Live_Engine.thy ===== *)
theory Live_Engine
  imports Orb_Correct Svp_Correct Smc_Correct Broker
begin

text \<open>
  What \<open>orb live\<close> runs on: one of the three engines behind the surface \<open>CandleStream\<close> drives, as the
  union \<open>engine\<close>, which satisfies the engines' shared contract because each of them does; and
  \<open>orb/brokerstate.py\<close>, the snapshot of the account the handlers read instead of the terminal.
\<close>

section \<open>One of three engines\<close>

datatype engine = EOrb orb_config orb_engine | ESvp svp_config svp_engine | ESmc smc_config smc_engine

definition eng_candle :: "raw_candle \<Rightarrow> engine \<Rightarrow> (error + signal option) \<times> engine" where
  "eng_candle r x = (case x of
       EOrb g e \<Rightarrow> (case on_candle g r e of (res, e') \<Rightarrow> (res, EOrb g e'))
     | ESvp g e \<Rightarrow> (case svp_on_candle g r e of (res, e') \<Rightarrow> (res, ESvp g e'))
     | ESmc g e \<Rightarrow> (case smc_on_candle g r e of (res, e') \<Rightarrow> (res, ESmc g e')))"

definition eng_flat :: "timestamp \<Rightarrow> engine \<Rightarrow> signal option \<times> engine" where
  "eng_flat ts x = (case x of
       EOrb g e \<Rightarrow> (case force_flat g ts e of (s, e') \<Rightarrow> (s, EOrb g e'))
     | ESvp g e \<Rightarrow> (case svp_force_flat ts e of (s, e') \<Rightarrow> (s, ESvp g e'))
     | ESmc g e \<Rightarrow> (case smc_force_flat ts e of (s, e') \<Rightarrow> (s, ESmc g e')))"

definition eng_pos :: "engine \<Rightarrow> position option" where
  "eng_pos x = (case x of EOrb _ e \<Rightarrow> e_pos e | ESvp _ e \<Rightarrow> sv_pos e | ESmc _ e \<Rightarrow> me_pos e)"

definition eng_state :: "engine \<Rightarrow> state" where
  "eng_state x = (case x of EOrb _ e \<Rightarrow> e_state e | ESvp _ e \<Rightarrow> sv_state e | ESmc _ e \<Rightarrow> me_state e)"

definition eng_out :: "engine \<Rightarrow> emission list" where
  "eng_out x = (case x of EOrb _ e \<Rightarrow> e_out e | ESvp _ e \<Rightarrow> sv_out e | ESmc _ e \<Rightarrow> me_out e)"

definition eng_inv :: "engine \<Rightarrow> bool" where
  "eng_inv x = (case x of EOrb g e \<Rightarrow> orb_inv g e | ESvp g e \<Rightarrow> svp_inv g e | ESmc g e \<Rightarrow> smc_inv g e)"

lemmas eng_defs = eng_candle_def eng_flat_def eng_pos_def eng_state_def eng_out_def eng_inv_def

interpretation eng: observed_engine eng_candle eng_flat eng_pos eng_state eng_inv eng_out
proof unfold_locales
  show "eng_inv s'" if "eng_inv s" "eng_candle r s = (res, s')" for s r res s'
    using that by (cases s) (auto simp: eng_defs split: prod.splits
        dest: orb.inv_candle svp.inv_candle smc.inv_candle)
  show "eng_inv s'" if "eng_inv s" "eng_flat ts s = (sg, s')" for s ts sg s'
    using that by (cases s) (auto simp: eng_defs split: prod.splits
        dest: orb.inv_flat svp.inv_flat smc.inv_flat)
  show "eng_state s = BREAKOUT \<longleftrightarrow> eng_pos s \<noteq> None" if "eng_inv s" for s
    using that by (cases s) (simp_all add: eng_defs orb.inv_state svp.inv_state smc.inv_state)
  show "kind_ok sig \<and> (s_from sig = BREAKOUT \<longleftrightarrow> eng_pos s \<noteq> None)
      \<and> (s_to sig = BREAKOUT \<longleftrightarrow> eng_pos s' \<noteq> None)"
    if "eng_inv s" "eng_candle r s = (Inr (Some sig), s')" for s r sig s'
    using that by (cases s) (auto simp: eng_defs split: prod.splits
        dest: orb.candle_signal svp.candle_signal smc.candle_signal)
  show "eng_pos s' = None \<longleftrightarrow> eng_pos s = None"
    if "eng_inv s" "eng_candle r s = (Inr None, s')" for s r s'
    using that by (cases s) (auto simp: eng_defs split: prod.splits
        dest: orb.candle_silent svp.candle_silent smc.candle_silent)
  show "eng_pos s' = None \<longleftrightarrow> eng_pos s = None"
    if "eng_inv s" "eng_candle r s = (Inl er, s')" for s r er s'
    using that by (cases s) (auto simp: eng_defs split: prod.splits
        dest: orb.candle_error svp.candle_error smc.candle_error)
  show "s_kind sig = EXIT_SIG \<and> s_from sig = BREAKOUT \<and> s_to sig \<noteq> BREAKOUT
      \<and> eng_pos s \<noteq> None \<and> eng_pos s' = None"
    if "eng_inv s" "eng_flat ts s = (Some sig, s')" for s ts sig s'
    using that by (cases s) (auto simp: eng_defs split: prod.splits
        dest: orb.flat_signal svp.flat_signal smc.flat_signal)
  show "s' = s \<and> eng_pos s = None" if "eng_inv s" "eng_flat ts s = (None, s')" for s ts s'
    using that by (cases s) (auto simp: eng_defs split: prod.splits
        dest: orb.flat_silent svp.flat_silent smc.flat_silent)
  show "logged (eng_out s) (eng_state s) (outcome_sigs res) (eng_out s') (eng_state s')"
    if "eng_inv s" "eng_candle r s = (res, s')" for s r res s'
    using that by (cases s) (auto simp: eng_defs split: prod.splits
        dest: orb.candle_logged svp.candle_logged smc.candle_logged)
  show "logged (eng_out s) (eng_state s) [sig] (eng_out s') (eng_state s')"
    if "eng_inv s" "eng_flat ts s = (Some sig, s')" for s ts sig s'
    using that by (cases s) (auto simp: eng_defs split: prod.splits
        dest: orb.flat_logged svp.flat_logged smc.flat_logged)
qed

section \<open>The snapshot cache\<close>

record cache =
  ch_balance :: "flt option"
  ch_positions :: "term_pos list option"
  ch_updated :: "flt option"

definition cache_new :: cache where
  "cache_new = \<lparr>ch_balance = None, ch_positions = None, ch_updated = None\<rparr>"

definition cache_age :: "flt \<Rightarrow> cache \<Rightarrow> flt option" where
  "cache_age now ch = map_option (\<lambda>t. now - t) (ch_updated ch)"

definition cache_fresh :: "flt \<Rightarrow> flt option \<Rightarrow> cache \<Rightarrow> bool" where
  "cache_fresh now max_age ch = (case ch_updated ch of None \<Rightarrow> False
     | Some t \<Rightarrow> (case max_age of None \<Rightarrow> True | Some m \<Rightarrow> now - t \<le> m))"

definition cache_balance ::
  "'w terminal \<Rightarrow> flt \<Rightarrow> flt option \<Rightarrow> cache \<Rightarrow> 'w broker \<Rightarrow> (error + flt) \<times> cache \<times> 'w broker" where
  "cache_balance m now max_age ch b =
    (case (ch_balance ch, cache_fresh now max_age ch) of
       (Some v, True) \<Rightarrow> (Inr v, ch, b)
     | _ \<Rightarrow> (case balance m b of
         (Inl e, b1) \<Rightarrow> (Inl e, ch, b1)
       | (Inr v, b1) \<Rightarrow> (Inr v, ch\<lparr>ch_balance := Some v\<rparr>, b1)))"

definition cache_positions ::
  "'w terminal \<Rightarrow> broker_cfg \<Rightarrow> flt \<Rightarrow> flt option \<Rightarrow> cache \<Rightarrow> 'w broker
   \<Rightarrow> term_pos list \<times> cache \<times> 'w broker" where
  "cache_positions m k now max_age ch b =
    (case (ch_positions ch, cache_fresh now max_age ch) of
       (Some ps, True) \<Rightarrow> (ps, ch, b)
     | _ \<Rightarrow> (case my_positions m k b of (ps, b1) \<Rightarrow> (ps, ch\<lparr>ch_positions := Some ps\<rparr>, b1)))"

text \<open>One round of the background task: a failing read leaves the snapshot as it is.\<close>

definition cache_refresh ::
  "'w terminal \<Rightarrow> broker_cfg \<Rightarrow> flt \<Rightarrow> cache \<Rightarrow> 'w broker \<Rightarrow> cache \<times> 'w broker" where
  "cache_refresh m k now ch b = (case balance m b of
       (Inl e, b1) \<Rightarrow> (ch, b1)
     | (Inr v, b1) \<Rightarrow> (case my_positions m k b1 of (ps, b2) \<Rightarrow>
         (\<lparr>ch_balance = Some v, ch_positions = Some ps, ch_updated = Some now\<rparr>, b2)))"

end
