(* ===== verification/Live.thy ===== *)
theory Live
  imports Live_Engine Guards Market_Clock Macro_Guard
begin

text \<open>
  \<open>orb live\<close> (\<open>cmd_live\<close> of \<open>orb/cli.py\<close>): the handlers \<open>on_signal\<close> and \<open>on_bar\<close> around the engine,
  with the guards, the macro layer, the sizing, the exit manager and the broker adapter they call.
  Command-line values are the record \<open>live_args\<close>; the handlers' shared variables are \<open>live\<close>.
  What happens outside a bar is the bar's input \<open>feed\<close>: the clocks, the state of the macro file,
  whether the background task refreshed the snapshot, and the spreads the ladder reads. An
  exception a handler lets through ends the run. Console output is left out, but for the signals
  printed to the tradable log.
\<close>

section \<open>Arguments and state\<close>

text \<open>\<open>la_hub\<close>: a trade log, a broadcast or the loss guard is asked for, so the adapter has an event
  sink; \<open>la_point\<close>: the symbol's point; \<open>la_quarters\<close>, \<open>la_killzones\<close>: the filters, parsed;
  \<open>la_macro\<close>: the guard of a mode other than \<open>off\<close>.\<close>

record live_args =
  la_mt5 :: bool
  la_live :: bool
  la_entry :: string
  la_start :: timestamp
  la_risk_pct :: "flt option"
  la_max_slippage :: "flt option"
  la_rr_floor :: "flt option"
  la_slip_close :: bool
  la_limit_ttl :: "flt option"
  la_retry :: "retry_policy option"
  la_hub :: bool
  la_point :: flt
  la_trueopen :: bool
  la_quarters :: "quarter list option"
  la_killzones :: "(int \<times> int) list option"
  la_spread :: "flt option"
  la_macro :: "macro_cfg option"
  la_macro_mode :: string
  la_text :: pytext
  la_ny :: "int \<Rightarrow> int"

datatype sitter =
    NoSitter
  | Sit sitter_config "int \<rightharpoonup> trade_state"
  | Lad ladder_config ladder

record 'w live =
  ls_engine :: engine
  ls_broker :: "'w broker"
  ls_cache :: cache
  ls_breaker :: "breaker option"
  ls_consec :: "loss_guard option"
  ls_spike :: "spike option"
  ls_true :: true_opens
  ls_macro :: macro_guard
  ls_risk_off :: bool
  ls_warm :: bool
  ls_sitter :: sitter
  ls_printed :: "signal list"

record feed =
  fd_raw :: raw_candle
  fd_refresh :: bool
  fd_clock :: flt
  fd_now_sig :: timestamp
  fd_obs_sig :: file_obs
  fd_now_bar :: timestamp
  fd_obs_bar :: file_obs
  fd_quote :: "int \<Rightarrow> flt"

text \<open>\<open>OrbError\<close> and its subclasses: what the handlers catch around the broker.\<close>

definition orb_error :: "error \<Rightarrow> bool" where
  "orb_error e = (case e of CandleError _ \<Rightarrow> True | OutOfOrderError \<Rightarrow> True | ConfigError _ \<Rightarrow> True
     | IndicatorError _ \<Rightarrow> True | BrokerError _ \<Rightarrow> True | _ \<Rightarrow> False)"

definition swallow :: "error \<Rightarrow> error + unit" where
  "swallow e = (if orb_error e then Inr () else Inl e)"

definition caught :: "error + 'a \<Rightarrow> error + unit" where
  "caught r = (case r of Inl e \<Rightarrow> swallow e | Inr _ \<Rightarrow> Inr ())"

section \<open>Setting up\<close>

definition dynamic :: "engine \<Rightarrow> bool" where
  "dynamic x = (case x of EOrb _ _ \<Rightarrow> False | _ \<Rightarrow> True)"

definition slip_deviation :: "flt option \<Rightarrow> flt \<Rightarrow> int" where
  "slip_deviation mx point = (case mx of None \<Rightarrow> 20
     | Some s \<Rightarrow> if point > 0 then round_even (s / point) else 20)"

definition broker_of :: "live_args \<Rightarrow> engine \<Rightarrow> broker_cfg" where
  "broker_of a x =
    \<lparr>k_default_qty = (case x of EOrb g _ \<Rightarrow> if oc_qty g = 0 then 1 / 100 else oc_qty g | _ \<Rightarrow> 1 / 100),
     k_allow_live = la_live a,
     k_magic = (case x of EOrb _ _ \<Rightarrow> 20260610 | ESvp _ _ \<Rightarrow> 20260620 | ESmc _ _ \<Rightarrow> 20260621),
     k_deviation = slip_deviation (la_max_slippage a) (la_point a),
     k_server_tp = (case x of EOrb g _ \<Rightarrow> oc_tp_frac g \<ge> 1 | _ \<Rightarrow> False),
     k_mode = (if dynamic x then ''market'' else la_entry a),
     k_addon = 8 / 10, k_events = la_hub a, k_retry = la_retry a\<rparr>"

definition sitter_of :: "live_args \<Rightarrow> specs \<Rightarrow> engine \<Rightarrow> error + sitter" where
  "sitter_of a sp x =
    (if \<not> la_mt5 a then Inr NoSitter
     else case x of
       EOrb g _ \<Rightarrow> Inr (if la_entry a = ''limit''
          then Sit (sitter_defaults\<lparr>bs_partial_frac := (if oc_tp_frac g < 1 then oc_tp_frac g else 7 / 10),
                 bs_partial_at_r := (case nonzero (oc_tp_rrr g) of None \<Rightarrow> 2 | Some r \<Rightarrow> r)\<rparr>) (\<lambda>_. None)
          else NoSitter)
     | ESvp g _ \<Rightarrow> Inr (Sit (sitter_defaults\<lparr>bs_partial_frac := sc_partial_frac g,
            bs_partial_at_r := sc_partial_at_r g\<rparr>) (\<lambda>_. None))
     | ESmc g _ \<Rightarrow> (case ladder_init (ladder_defaults\<lparr>lc_levels := mc_partials g,
            lc_final_r := mc_final_tp g, lc_stage1_r := mc_stage1 g, lc_stage2_r := mc_stage2 g,
            lc_min_lock_r := mc_min_lock g, lc_buffer := mc_stop_buffer g, lc_comm := mc_comm g,
            lc_value_per_move := sp_value_per_move sp, lc_spread_fn := True,
            lc_vol_min := sp_vol_min sp, lc_vol_step := sp_vol_step sp\<rparr>) of
          Inl e \<Rightarrow> Inl e | Inr lc \<Rightarrow> Inr (Lad lc ladder_new)))"

text \<open>The warm-up gate.\<close>

definition bar_grace :: int where "bar_grace = 3 * us_min"

definition sig_grace :: "engine \<Rightarrow> int" where
  "sig_grace x = ((case x of ESmc g _ \<Rightarrow> mc_trigger g | _ \<Rightarrow> 1) + 2) * us_min"

definition stale :: "timestamp \<Rightarrow> timestamp \<Rightarrow> int \<Rightarrow> bool" where
  "stale ts start grace \<longleftrightarrow> utc ts < utc start - grace"

section \<open>Broker calls in the handlers\<close>

text \<open>Every close the adapter reports is fed to the loss guard as it happens; nothing reads the guard
  while a broker call runs, so it is fed when the call returns.\<close>

definition note_event :: "event \<Rightarrow> loss_guard \<Rightarrow> loss_guard" where
  "note_event ev g = (if ev_action ev \<in> {''close'', ''partial_close''}
     then (case ev_pnl ev of None \<Rightarrow> g | Some p \<Rightarrow> record_pnl p g) else g)"

definition put_broker :: "'w broker \<Rightarrow> 'w live \<Rightarrow> 'w live" where
  "put_broker b l = l\<lparr>ls_broker := b, ls_consec := map_option
     (fold note_event (drop (length (bk_events (ls_broker l))) (bk_events b))) (ls_consec l)\<rparr>"

section \<open>Signals\<close>

text \<open>The entry filters that ask nobody: the reason to skip, if any.\<close>

definition entry_filter :: "live_args \<Rightarrow> signal \<Rightarrow> 'w live \<Rightarrow> string option" where
  "entry_filter a s l =
    (if (case ls_breaker l of None \<Rightarrow> False | Some b \<Rightarrow> db_halted b) then Some ''HALTED''
     else if (case ls_consec l of None \<Rightarrow> False | Some g \<Rightarrow> blocked g) then Some ''CONSEC_SKIP''
     else if la_trueopen a \<and> to_zone (s_price s) (ls_true l) = Some ''dead_zone''
       then Some ''TRUEOPEN_SKIP''
     else if (case la_quarters a of None \<Rightarrow> False
              | Some qs \<Rightarrow> day_quarter (la_ny a) (s_ts s) \<notin> set qs) then Some ''QUARTER_SKIP''
     else if (case la_killzones a of None \<Rightarrow> False
              | Some ws \<Rightarrow> \<not> session_allows ws (local_us (s_ts s)) (Some (tz_off (s_ts s))))
       then Some ''KILLZONE_SKIP''
     else None)"

definition macro_acts :: "live_args \<Rightarrow> bool" where
  "macro_acts a \<longleftrightarrow> la_macro_mode a \<in> {''filter'', ''guard''}"

definition rescaled :: "decision \<Rightarrow> signal \<Rightarrow> signal" where
  "rescaled d s = (case (d_qty d, s_qty s) of
     (Some x, Some y) \<Rightarrow> if \<bar>x - y\<bar> > 1 / 10 ^ 9 then s\<lparr>s_qty := Some x\<rparr> else s | _ \<Rightarrow> s)"

definition macro_filter ::
  "live_args \<Rightarrow> feed \<Rightarrow> signal \<Rightarrow> 'w live \<Rightarrow> (error + signal option) \<times> 'w live" where
  "macro_filter a f s l = (case la_macro a of None \<Rightarrow> (Inr (Some s), l)
     | Some k \<Rightarrow> (case evaluate_entry (la_text a) k (fd_obs_sig f) (fd_now_sig f) s (ls_macro l) of
         (Inl e, g) \<Rightarrow> (Inl e, l\<lparr>ls_macro := g\<rparr>)
       | (Inr d, g) \<Rightarrow>
           (Inr (if d_veto d then (if macro_acts a then None else Some s)
                 else Some (if macro_acts a then rescaled d s else s)), l\<lparr>ls_macro := g\<rparr>)))"

text \<open>The loss budget the day has left. \<open>orb live\<close> builds the breaker with a flat limit.\<close>

definition day_budget :: "breaker \<Rightarrow> flt" where
  "day_budget b = max 0 ((case db_max b of None \<Rightarrow> 0 | Some m \<Rightarrow> m) + day_pnl b)"

definition sizing_pct :: "live_args \<Rightarrow> engine \<Rightarrow> flt option" where
  "sizing_pct a x = (case x of EOrb _ _ \<Rightarrow> la_risk_pct a | ESvp g _ \<Rightarrow> Some (sc_risk_pct g)
     | ESmc g _ \<Rightarrow> Some (mc_risk_pct g))"

definition size_entry ::
  "live_args \<Rightarrow> 'w terminal \<Rightarrow> signal \<Rightarrow> 'w live \<Rightarrow> (error + signal option) \<times> 'w broker" where
  "size_entry a m s l =
    (case sizing_pct a (ls_engine l) of None \<Rightarrow> (Inr (Some s), ls_broker l)
     | Some pct \<Rightarrow> (case s_stop s of None \<Rightarrow> (Inr None, ls_broker l)
     | Some st \<Rightarrow> (case symbol_specs m (ls_broker l) of (Inl e, b1) \<Rightarrow> (Inl e, b1)
     | (Inr sp, b1) \<Rightarrow> (case balance m b1 of (Inl e, b2) \<Rightarrow> (Inl e, b2)
     | (Inr bal, b2) \<Rightarrow>
         let lot = compute_lot bal pct (s_price s) st (sp_value_per_move sp) (sp_vol_min sp)
                     (sp_vol_step sp) (sp_vol_max sp) (map_option day_budget (ls_breaker l))
         in (Inr (if lot \<le> 0 then None else Some (s\<lparr>s_qty := Some lot\<rparr>)), b2)))))"

definition spread_filter :: "live_args \<Rightarrow> 'w terminal \<Rightarrow> 'w broker \<Rightarrow> bool \<times> 'w broker" where
  "spread_filter a m b = (case la_spread a of None \<Rightarrow> (True, b)
     | Some mx \<Rightarrow> (case current_spread m b of
         (Inl e, b1) \<Rightarrow> (False, b1)
       | (Inr (bid, ask', _), b1) \<Rightarrow> (fst (spread_allows mx bid ask'), b1)))"

text \<open>The check of a market fill against the signal's own levels.\<close>

definition bad_fill :: "live_args \<Rightarrow> broker_cfg \<Rightarrow> signal \<Rightarrow> send_out \<Rightarrow> bool" where
  "bad_fill a k s out \<longleftrightarrow> k_mode k = ''market'' \<and> o_price out \<noteq> 0
     \<and> (la_max_slippage a \<noteq> None \<or> la_rr_floor a \<noteq> None)
     \<and> (let fa = assess_fill (s_price s) (o_price out) (s_stop s) (s_tp s)
                   (la_max_slippage a) (la_rr_floor a) in fa_breach fa \<or> fa_degraded fa)"

definition place_order ::
  "live_args \<Rightarrow> 'w terminal \<Rightarrow> broker_cfg \<Rightarrow> signal \<Rightarrow> 'w live \<Rightarrow> (error + unit) \<times> 'w live" where
  "place_order a m k s l =
    (case execute m k s (ls_broker l) of (res, b) \<Rightarrow>
     let l1 = put_broker b l in
     (case res of
        Inl e \<Rightarrow> (swallow e, l1)
      | Inr None \<Rightarrow> (Inr (), l1)
      | Inr (Some out) \<Rightarrow>
          if s_kind s = ENTRY \<and> bad_fill a k s out \<and> la_slip_close a
          then (case close_all m k ''slippage_abort'' b of (r, b') \<Rightarrow> (caught r, put_broker b' l1))
          else (Inr (), l1)))"

definition enter_order ::
  "live_args \<Rightarrow> 'w terminal \<Rightarrow> broker_cfg \<Rightarrow> feed \<Rightarrow> signal \<Rightarrow> 'w live \<Rightarrow> (error + unit) \<times> 'w live" where
  "enter_order a m k f s l =
    (if entry_filter a s l \<noteq> None then (Inr (), l)
     else case macro_filter a f s l of
       (Inl e, l1) \<Rightarrow> (Inl e, l1)
     | (Inr None, l1) \<Rightarrow> (Inr (), l1)
     | (Inr (Some s1), l1) \<Rightarrow> (case size_entry a m s1 l1 of
         (Inl e, b) \<Rightarrow> (Inl e, put_broker b l1)
       | (Inr None, b) \<Rightarrow> (Inr (), put_broker b l1)
       | (Inr (Some s2), b) \<Rightarrow> (case spread_filter a m b of (ok, b1) \<Rightarrow>
           if ok then place_order a m k s2 (put_broker b1 l1) else (Inr (), put_broker b1 l1))))"

definition on_signal ::
  "live_args \<Rightarrow> 'w terminal \<Rightarrow> broker_cfg \<Rightarrow> feed \<Rightarrow> signal \<Rightarrow> 'w live \<Rightarrow> (error + unit) \<times> 'w live" where
  "on_signal a m k f s l =
    (if ls_warm l \<and> stale (s_ts s) (la_start a) (sig_grace (ls_engine l)) then (Inr (), l)
     else let l1 = l\<lparr>ls_printed := ls_printed l @ [s]\<rparr> in
       if \<not> la_mt5 a then (Inr (), l1)
       else if s_kind s = ENTRY then enter_order a m k f s l1
       else place_order a m k s l1)"

section \<open>Bars\<close>

type_synonym 'w handler = "'w live \<Rightarrow> (error + unit) \<times> 'w live"

definition and_next :: "'w handler \<Rightarrow> 'w handler \<Rightarrow> 'w handler" where
  "and_next f g l = (case f l of (Inl e, l1) \<Rightarrow> (Inl e, l1) | (Inr _, l1) \<Rightarrow> g l1)"

definition spike_part :: "'w terminal \<Rightarrow> broker_cfg \<Rightarrow> candle \<Rightarrow> 'w handler" where
  "spike_part m k c l = (case ls_spike l of None \<Rightarrow> (Inr (), l)
     | Some sp \<Rightarrow> (case spike_update (c_high c) (c_low c) sp of (hit, sp') \<Rightarrow>
         let l1 = l\<lparr>ls_spike := Some sp'\<rparr> in
         if \<not> hit then (Inr (), l1)
         else case has_pending m k (ls_broker l1) of (pending, b) \<Rightarrow>
           if \<not> pending then (Inr (), put_broker b l1)
           else (case cancel_pending m k 120 b of (r, b') \<Rightarrow> (caught r, put_broker b' (put_broker b l1)))))"

text \<open>\<open>close_all\<close>, then in limit mode the resting orders too.\<close>

definition close_out ::
  "'w terminal \<Rightarrow> broker_cfg \<Rightarrow> string \<Rightarrow> 'w broker \<Rightarrow> (error + unit) \<times> 'w broker" where
  "close_out m k why b = (case close_all m k why b of
       (Inl e, b1) \<Rightarrow> (Inl e, b1)
     | (Inr _, b1) \<Rightarrow> if k_mode k = ''limit''
         then (case cancel_pending m k 0 b1 of (Inl e, b2) \<Rightarrow> (Inl e, b2) | (Inr _, b2) \<Rightarrow> (Inr (), b2))
         else (Inr (), b1))"

definition breaker_part :: "'w terminal \<Rightarrow> broker_cfg \<Rightarrow> feed \<Rightarrow> candle \<Rightarrow> 'w handler" where
  "breaker_part m k f c l = (case ls_breaker l of None \<Rightarrow> (Inr (), l)
     | Some br \<Rightarrow> (case cache_balance m (fd_clock f) None (ls_cache l) (ls_broker l) of
         (Inl e, ch, b) \<Rightarrow> (swallow e, put_broker b (l\<lparr>ls_cache := ch\<rparr>))
       | (Inr bal, ch, b) \<Rightarrow> (case breaker_update (date_of (c_ts c)) bal br of (halt, br') \<Rightarrow>
           let l1 = put_broker b (l\<lparr>ls_cache := ch, ls_breaker := Some br'\<rparr>) in
           if halt \<and> \<not> db_halted br
           then (case close_out m k ''daily_loss_halt'' (ls_broker l1) of
                   (r, b') \<Rightarrow> (caught r, put_broker b' l1))
           else (Inr (), l1))))"

definition risk_off_text :: "pytext \<Rightarrow> macro_reason \<Rightarrow> string" where
  "risk_off_text tx why = (case why of
     BlackoutFor j \<Rightarrow> ''macro_risk_off:blackout:'' @ py_str tx j | _ \<Rightarrow> ''macro_risk_off:'')"

definition macro_part :: "live_args \<Rightarrow> 'w terminal \<Rightarrow> broker_cfg \<Rightarrow> feed \<Rightarrow> 'w handler" where
  "macro_part a m k f l = (if la_macro a = None \<or> la_macro_mode a \<noteq> ''guard'' then (Inr (), l)
     else case risk_off_now (la_text a) (fd_obs_bar f) (fd_now_bar f) (ls_macro l) of
       (Inl e, g) \<Rightarrow> (swallow e, l\<lparr>ls_macro := g\<rparr>)
     | (Inr (Some why), g) \<Rightarrow>
         if ls_risk_off l then (Inr (), l\<lparr>ls_macro := g\<rparr>)
         else (case close_out m k (risk_off_text (la_text a) why) (ls_broker l) of
           (r, b) \<Rightarrow> (caught r, put_broker b (l\<lparr>ls_macro := g, ls_risk_off := True\<rparr>)))
     | (Inr None, g) \<Rightarrow> (Inr (), l\<lparr>ls_macro := g, ls_risk_off := False\<rparr>))"

definition ttl_part :: "live_args \<Rightarrow> 'w terminal \<Rightarrow> broker_cfg \<Rightarrow> 'w handler" where
  "ttl_part a m k l = (case (if k_mode k = ''limit'' then nonzero (la_limit_ttl a) else None) of
       None \<Rightarrow> (Inr (), l)
     | Some ttl \<Rightarrow> (case cancel_expired m k (trunc_int (ttl * 60)) (ls_broker l) of
         (r, b) \<Rightarrow> (caught r, put_broker b l)))"

definition sit_bar ::
  "candle \<Rightarrow> (int \<Rightarrow> flt) \<Rightarrow> broker_pos list \<Rightarrow> sitter \<Rightarrow> action list \<times> sitter" where
  "sit_bar c quote ps st = (case st of NoSitter \<Rightarrow> ([], NoSitter)
     | Sit g tr \<Rightarrow> (case babysit g ps (c_close c) tr of (acts, tr') \<Rightarrow> (acts, Sit g tr'))
     | Lad g ld \<Rightarrow> (case ladder_on_bar g ps (c, quote) ld of (acts, ld') \<Rightarrow> (acts, Lad g ld')))"

text \<open>The actions, in order, up to the first that fails.\<close>

fun run_acts ::
  "'w terminal \<Rightarrow> broker_cfg \<Rightarrow> action list \<Rightarrow> 'w broker \<Rightarrow> (error + unit) \<times> 'w broker" where
  "run_acts m k [] b = (Inr (), b)"
| "run_acts m k (act # acts) b =
    (case (case act of PartialClose t v \<Rightarrow> close_ticket m k t v b | UpdateSl t sl \<Rightarrow> modify_sl m k t sl b) of
       (Inl e, b1) \<Rightarrow> (Inl e, b1) | (Inr _, b1) \<Rightarrow> run_acts m k acts b1)"

definition sitter_part :: "'w terminal \<Rightarrow> broker_cfg \<Rightarrow> feed \<Rightarrow> candle \<Rightarrow> 'w handler" where
  "sitter_part m k f c l =
    (case cache_positions m k (fd_clock f) None (ls_cache l) (ls_broker l) of (ps, ch, b) \<Rightarrow>
     case sit_bar c (fd_quote f) (map broker_pos.truncate ps) (ls_sitter l) of (acts, st) \<Rightarrow>
     case run_acts m k acts b of (r, b') \<Rightarrow>
       (caught r, put_broker b' (l\<lparr>ls_cache := ch, ls_sitter := st\<rparr>)))"

definition has_position :: "'w terminal \<Rightarrow> broker_cfg \<Rightarrow> 'w broker \<Rightarrow> bool \<times> 'w broker" where
  "has_position m k b = (case my_positions m k b of (ps, b1) \<Rightarrow> (ps \<noteq> [], b1))"

text \<open>The engine follows a flat broker.\<close>

definition flatten :: "timestamp \<Rightarrow> 'w live \<Rightarrow> 'w live" where
  "flatten ts l = (case eng_flat ts (ls_engine l) of (sig, x) \<Rightarrow>
     l\<lparr>ls_engine := x, ls_printed := ls_printed l @ (case sig of None \<Rightarrow> [] | Some s \<Rightarrow> [s])\<rparr>)"

definition sync_managed :: "'w terminal \<Rightarrow> broker_cfg \<Rightarrow> candle \<Rightarrow> 'w handler" where
  "sync_managed m k c l =
    (if eng_state (ls_engine l) \<noteq> BREAKOUT then (Inr (), l)
     else case has_position m k (ls_broker l) of (held, b1) \<Rightarrow>
       if held then (Inr (), put_broker b1 l)
       else case has_pending m k b1 of (pending, b2) \<Rightarrow>
         (Inr (), if pending then put_broker b2 l else flatten (c_ts c) (put_broker b2 l)))"

definition sync_market :: "'w terminal \<Rightarrow> broker_cfg \<Rightarrow> candle \<Rightarrow> 'w handler" where
  "sync_market m k c l =
    (if eng_state (ls_engine l) \<noteq> BREAKOUT then (Inr (), l)
     else case has_position m k (ls_broker l) of (held, b1) \<Rightarrow>
       if \<not> held then (Inr (), flatten (c_ts c) (put_broker b1 l))
       else case eng_pos (ls_engine l) of
         None \<Rightarrow> (Inr (), put_broker b1 l)
       | Some pos \<Rightarrow> (case update_stop m k (p_stop pos) b1 of
           (r, b2) \<Rightarrow> (caught r, put_broker b2 l)))"

definition broker_bar ::
  "live_args \<Rightarrow> 'w terminal \<Rightarrow> broker_cfg \<Rightarrow> feed \<Rightarrow> candle \<Rightarrow> 'w handler" where
  "broker_bar a m k f c =
    and_next (spike_part m k c) (and_next (breaker_part m k f c) (and_next (macro_part a m k f)
      (\<lambda>l. if k_mode k = ''limit'' \<or> dynamic (ls_engine l)
           then and_next (ttl_part a m k) (and_next (sitter_part m k f c) (sync_managed m k c)) l
           else sync_market m k c l)))"

definition clock_part :: "live_args \<Rightarrow> candle \<Rightarrow> 'w live \<Rightarrow> 'w live" where
  "clock_part a c l = l\<lparr>ls_true := (if la_trueopen a then trueopen_update (la_ny a) c (ls_true l) else ls_true l),
     ls_consec := map_option (on_period (date_of (c_ts c))) (ls_consec l)\<rparr>"

definition on_bar ::
  "live_args \<Rightarrow> 'w terminal \<Rightarrow> broker_cfg \<Rightarrow> feed \<Rightarrow> candle \<Rightarrow> 'w handler" where
  "on_bar a m k f c l0 =
    (let l = clock_part a c l0 in
     if ls_warm l \<and> stale (c_ts c) (la_start a) bar_grace
     then (Inr (), l\<lparr>ls_spike := map_option (\<lambda>sp. snd (spike_update (c_high c) (c_low c) sp)) (ls_spike l)\<rparr>)
     else let l1 = l\<lparr>ls_warm := False\<rparr> in
       if \<not> la_mt5 a then (Inr (), l1) else broker_bar a m k f c l1)"

section \<open>The run\<close>

text \<open>One bar through \<open>CandleStream.run\<close>, the snapshot refreshed before it or not.\<close>

definition refresh_part :: "'w terminal \<Rightarrow> broker_cfg \<Rightarrow> feed \<Rightarrow> 'w live \<Rightarrow> 'w live" where
  "refresh_part m k f l = (if fd_refresh f
     then (case cache_refresh m k (fd_clock f) (ls_cache l) (ls_broker l) of
             (ch, b) \<Rightarrow> put_broker b (l\<lparr>ls_cache := ch\<rparr>)) else l)"

definition live_bar ::
  "live_args \<Rightarrow> 'w terminal \<Rightarrow> broker_cfg \<Rightarrow> feed \<Rightarrow> 'w handler" where
  "live_bar a m k f l0 =
    (let l = refresh_part m k f l0 in
     case eng_candle (fd_raw f) (ls_engine l) of
       (Inl er, x) \<Rightarrow> (if skippable er then Inr () else Inl er, l\<lparr>ls_engine := x\<rparr>)
     | (Inr sig, x) \<Rightarrow>
         and_next (case sig of None \<Rightarrow> (\<lambda>l. (Inr (), l)) | Some s \<Rightarrow> on_signal a m k f s)
           (case validate (fd_raw f) of Inl _ \<Rightarrow> (\<lambda>l. (Inr (), l)) | Inr c \<Rightarrow> on_bar a m k f c)
           (l\<lparr>ls_engine := x\<rparr>))"

fun live_run ::
  "live_args \<Rightarrow> 'w terminal \<Rightarrow> broker_cfg \<Rightarrow> feed list \<Rightarrow> 'w handler" where
  "live_run a m k [] l = (Inr (), l)"
| "live_run a m k (f # fs) l =
    (case live_bar a m k f l of (Inl e, l1) \<Rightarrow> (Inl e, l1) | (Inr _, l1) \<Rightarrow> live_run a m k fs l1)"

end
