(* ===== verification/Live_Correct.thy ===== *)
theory Live_Correct
  imports Live Broker_Properties Guard_Properties
begin

text \<open>
  Lemmas behind the properties of \<open>orb live\<close>: which requests each handler can hand to the
  terminal, which of the handlers' variables it can change, and how the engine moves.
\<close>

section \<open>Requests that open nothing\<close>

definition opens_trade :: "order_req \<Rightarrow> bool" where
  "opens_trade q \<longleftrightarrow> q_action q = PENDING \<or> q_action q = DEAL \<and> q_position q = None"

definition tame :: "'w broker \<Rightarrow> 'w broker \<Rightarrow> bool" where
  "tame b b' \<longleftrightarrow> only_sends (\<lambda>q. \<not> opens_trade q) (bk_sent b) b'"

lemma tame_refl [simp]: "tame b b"
  by (simp add: tame_def)

lemma tame_same: "bk_sent b' = bk_sent b \<Longrightarrow> tame b b'"
  by (simp add: tame_def only_sends_def)

lemma tame_trans [trans]: "tame b b1 \<Longrightarrow> tame b1 b2 \<Longrightarrow> tame b b2"
  unfolding tame_def by (rule only_sends_trans)

lemma tame_then: "tame b b1 \<Longrightarrow> bk_sent b2 = bk_sent b1 \<Longrightarrow> tame b b2"
  using tame_trans tame_same by blast

lemma send_plain_tame:
  assumes "\<not> opens_trade q" "send_plain m k q b = (r, q', b')"
  shows "tame b b'"
proof -
  have "kept (\<lambda>q. \<not> opens_trade q) None" by (simp add: kept_def quiet_refresh_def opens_trade_def)
  from send_only [OF this assms(1)] assms(2) show ?thesis
    unfolding tame_def send_plain_def by (metis only_sends_refl)
qed

lemma pick_filling_sent: "pick_filling m b = (x, b') \<Longrightarrow> bk_sent b' = bk_sent b"
  by (auto simp: pick_filling_def Let_def split: prod.splits dest: ask_sent)

lemma round_volume_sent: "round_volume m v b = (x, b') \<Longrightarrow> bk_sent b' = bk_sent b"
  by (auto simp: round_volume_def Let_def split: prod.splits dest: ask_sent)

lemma deal_profit_sent: "deal_profit m d b = (x, b') \<Longrightarrow> bk_sent b' = bk_sent b"
  by (auto simp: deal_profit_def split: prod.splits if_splits list.splits dest: ask_sent)

lemma has_pending_sent: "has_pending m k b = (x, b') \<Longrightarrow> bk_sent b' = bk_sent b"
  by (auto simp: has_pending_def split: prod.splits dest: ask_sent)

lemma has_position_sent: "has_position m k b = (x, b') \<Longrightarrow> bk_sent b' = bk_sent b"
  by (auto simp: has_position_def split: prod.splits dest: positions_sent)

lemma balance_sent: "balance m b = (x, b') \<Longrightarrow> bk_sent b' = bk_sent b"
  by (auto simp: balance_def split: prod.splits option.splits dest: ask_sent)

lemma specs_sent: "symbol_specs m b = (x, b') \<Longrightarrow> bk_sent b' = bk_sent b"
  by (auto simp: symbol_specs_def Let_def split: prod.splits option.splits dest: ask_sent)

lemma spread_sent: "current_spread m b = (x, b') \<Longrightarrow> bk_sent b' = bk_sent b"
  by (auto simp: current_spread_def split: prod.splits option.splits dest: ask_sent)

lemma cache_balance_sent: "cache_balance m now age ch b = (x, ch', b') \<Longrightarrow> bk_sent b' = bk_sent b"
  by (auto simp: cache_balance_def split: option.splits bool.splits sum.splits prod.splits
      dest: balance_sent)

lemma cache_positions_sent: "cache_positions m k now age ch b = (x, ch', b') \<Longrightarrow> bk_sent b' = bk_sent b"
  by (auto simp: cache_positions_def split: option.splits bool.splits prod.splits dest: positions_sent)

lemma cache_refresh_sent: "cache_refresh m k now ch b = (ch', b') \<Longrightarrow> bk_sent b' = bk_sent b"
  by (auto simp: cache_refresh_def split: sum.splits prod.splits dest!: positions_sent balance_sent)

lemmas read_sent = pick_filling_sent round_volume_sent deal_profit_sent has_pending_sent
  has_position_sent balance_sent specs_sent spread_sent cache_balance_sent cache_positions_sent
  cache_refresh_sent ask_sent positions_sent

lemma close_position_tame:
  assumes "close_position m k p v why b = (r, b')"
  shows "tame b b'"
proof -
  obtain t b1 where t: "ask (tm_tick m) b = (t, b1)" by (meson surj_pair)
  have s1: "bk_sent b1 = bk_sent b" using ask_sent [OF t] .
  show ?thesis
  proof (cases t)
    case None
    then show ?thesis using assms t s1 by (auto simp: close_position_def intro: tame_same)
  next
    case (Some tk)
    obtain fill b2 where f: "pick_filling m b1 = (fill, b2)" by (meson surj_pair)
    define q where "q = (blank_req DEAL)\<lparr>q_volume := Some v,
               q_type := Some (if b_type p = 0 then SELL else BUY), q_position := Some (b_ticket p),
               q_price := Some (if b_type p = 0 then k_bid tk else k_ask tk),
               q_deviation := Some (k_deviation k), q_magic := Some (k_magic k),
               q_comment := Some (''orb:'' @ why), q_filling := Some fill\<rparr>"
    obtain r1 q1 b3 where s: "send_plain m k q b2 = (r1, q1, b3)" by (meson prod_cases3)
    have "\<not> opens_trade q" by (simp add: q_def opens_trade_def blank_req_def)
    then have "tame b2 b3" using send_plain_tame s by blast
    then have t3: "tame b b3" using s1 read_sent(1) [OF f] by (simp add: tame_def)
    have e: "close_position m k p v why b = (case r1 of Inl er \<Rightarrow> (Inl er, b3)
        | Inr out \<Rightarrow> if \<not> k_events k then (Inr out, b3)
            else case deal_profit m (o_deal out) b3 of (pnl, b4) \<Rightarrow> (Inr out,
              emit m k (if v < b_volume p - 1 / 10 ^ 9 then ''partial_close'' else ''close'')
                q1 out (Some why) pnl b4))"
      by (simp only: close_position_def t Some f s q_def [symmetric] option.case prod.case)
    have "bk_sent b' = bk_sent b3"
      using assms unfolding e
      by (auto split: sum.splits if_splits prod.splits dest: deal_profit_sent)
    then show ?thesis using t3 tame_then by blast
  qed
qed

lemma close_each_tame: "close_each m k why ps res b = (r, b') \<Longrightarrow> tame b b'"
proof (induction ps arbitrary: res b)
  case (Cons p ps)
  obtain r1 b1 where c: "close_position m k p (b_volume p) why b = (r1, b1)" by (meson surj_pair)
  have "tame b b1" using close_position_tame [OF c] .
  then show ?case using Cons c by (cases r1) (auto intro: tame_trans [of b b1])
qed simp

lemma close_all_tame: "close_all m k why b = (r, b') \<Longrightarrow> tame b b'"
  unfolding close_all_def
  by (auto split: prod.splits dest!: close_each_tame positions_sent simp: tame_def)

lemma close_ticket_tame:
  assumes "close_ticket m k t v b = (r, b')"
  shows "tame b b'"
proof -
  obtain ps b1 where p: "my_positions m k b = (ps, b1)" by (meson surj_pair)
  have s1: "bk_sent b1 = bk_sent b" using positions_sent [OF p] .
  show ?thesis
  proof (cases "filter (\<lambda>p. b_ticket p = t) ps")
    case Nil
    then show ?thesis using assms p s1 by (auto simp: close_ticket_def intro: tame_same)
  next
    case (Cons x xs)
    obtain vol b2 where v: "round_volume m (min v (b_volume x)) b1 = (vol, b2)" by (meson surj_pair)
    have s2: "bk_sent b2 = bk_sent b" using round_volume_sent [OF v] s1 by simp
    obtain r3 b3 where c: "close_position m k x vol ''partial_2r'' b2 = (r3, b3)" by (meson surj_pair)
    have "tame b b3" using close_position_tame [OF c] s2 by (simp add: tame_def)
    then show ?thesis using assms p Cons v c s2
      by (auto simp: close_ticket_def split: if_splits sum.splits intro: tame_same)
  qed
qed

lemma sl_req_tame: "\<not> opens_trade (sl_req p sl)"
  by (simp add: opens_trade_def sl_req_def blank_req_def)

lemma modify_sl_tame:
  assumes "modify_sl m k t sl b = (r, b')"
  shows "tame b b'"
proof -
  obtain ps b1 where p: "my_positions m k b = (ps, b1)" by (meson surj_pair)
  have s1: "bk_sent b1 = bk_sent b" using positions_sent [OF p] .
  show ?thesis
  proof (cases "filter (\<lambda>p. b_ticket p = t) ps")
    case Nil
    then show ?thesis using assms p s1 by (auto simp: modify_sl_def intro: tame_same)
  next
    case (Cons x xs)
    obtain r3 q b3 where c: "send_plain m k (sl_req x sl) b1 = (r3, q, b3)" by (meson prod_cases3)
    have "tame b b3" using send_plain_tame [OF sl_req_tame c] s1 by (simp add: tame_def)
    then show ?thesis using assms p Cons c s1
      by (auto simp: modify_sl_def split: if_splits sum.splits intro: tame_same tame_then)
  qed
qed

lemma update_each_tame: "update_each m k sl ps res b = (r, b') \<Longrightarrow> tame b b'"
proof (induction ps arbitrary: res b)
  case (Cons p ps)
  obtain r1 q b1 where c: "send_plain m k (sl_req p sl) b = (r1, q, b1)" by (meson prod_cases3)
  have t: "tame b b1" using send_plain_tame [OF sl_req_tame c] .
  show ?case
  proof (cases "same_sl p sl")
    case True
    then show ?thesis using Cons by simp
  next
    case False
    show ?thesis
    proof (cases r1)
      case (Inl e)
      then show ?thesis using Cons.prems False c t by simp
    next
      case (Inr out)
      let ?b2 = "emit m k ''modify_sl'' q out (Some ''trail_sync'') None b1"
      have "tame b ?b2" using t tame_then emit_sent by blast
      moreover have "tame ?b2 b'" using Cons False c Inr by simp
      ultimately show ?thesis by (rule tame_trans)
    qed
  qed
qed simp

lemma update_stop_tame: "update_stop m k sl b = (r, b') \<Longrightarrow> tame b b'"
  unfolding update_stop_def
  by (auto split: prod.splits dest!: update_each_tame positions_sent simp: tame_def)

lemma cancel_each_tame: "cancel_each m k why spare pos n b = (r, b') \<Longrightarrow> tame b b'"
proof (induction pos arbitrary: n b)
  case (Cons po pos)
  define q where "q = (blank_req REMOVE)\<lparr>q_order := Some (po_ticket po)\<rparr>"
  obtain r1 q1 b1 where c: "send_plain m k q b = (r1, q1, b1)" by (meson prod_cases3)
  have "\<not> opens_trade q" by (simp add: q_def opens_trade_def blank_req_def)
  then have t: "tame b b1" using send_plain_tame c by blast
  show ?case
  proof (cases "po_magic po \<noteq> k_magic k \<or> spare po")
    case True
    then show ?thesis using Cons by simp
  next
    case False
    show ?thesis
    proof (cases r1)
      case (Inl e)
      then show ?thesis using Cons.prems False c t by (simp add: q_def)
    next
      case (Inr out)
      let ?b2 = "emit m k ''cancel_pending'' q1 out (Some why) None b1"
      have "tame b ?b2" using t tame_then emit_sent by blast
      moreover have "tame ?b2 b'" using Cons False c Inr by (simp add: q_def)
      ultimately show ?thesis by (rule tame_trans)
    qed
  qed
qed simp

lemma cancel_expired_tame: "cancel_expired m k age b = (r, b') \<Longrightarrow> tame b b'"
  unfolding cancel_expired_def
  by (auto split: prod.splits option.splits dest!: cancel_each_tame ask_sent
      simp: tame_def intro: only_sendsI)

lemma cancel_pending_tame: "cancel_pending m k age b = (r, b') \<Longrightarrow> tame b b'"
  unfolding cancel_pending_def
  by (auto split: prod.splits if_splits dest!: cancel_each_tame ask_sent simp: tame_def)

lemma close_out_tame:
  assumes "close_out m k why b = (r, b')"
  shows "tame b b'"
proof -
  obtain r1 b1 where c: "close_all m k why b = (r1, b1)" by (meson surj_pair)
  obtain r2 b2 where d: "cancel_pending m k 0 b1 = (r2, b2)" by (meson surj_pair)
  have "tame b b1" "tame b b2"
    using close_all_tame [OF c] cancel_pending_tame [OF d] tame_trans by blast+
  then show ?thesis using assms c d by (auto simp: close_out_def split: sum.splits if_splits)
qed

lemma run_acts_tame: "run_acts m k acts b = (r, b') \<Longrightarrow> tame b b'"
proof (induction acts arbitrary: b)
  case (Cons act acts)
  obtain r1 b1 where c: "(case act of PartialClose t v \<Rightarrow> close_ticket m k t v b
      | UpdateSl t sl \<Rightarrow> modify_sl m k t sl b) = (r1, b1)" by (meson surj_pair)
  have "tame b b1" using c close_ticket_tame modify_sl_tame by (cases act) auto
  then show ?case using Cons c by (cases r1) (auto intro: tame_trans [of b b1])
qed simp

lemma close_signal_each_tame: "close_signal_each m k s ps res b = (r, b') \<Longrightarrow> tame b b'"
proof (induction ps arbitrary: res b)
  case (Cons p ps)
  define x where "x = (case nonzero (s_qty s) of
             Some q \<Rightarrow> if s_reason s = ''take_profit_partial'' \<and> q < b_volume p
                      then (case round_volume m q b of (v, b1) \<Rightarrow> (v, v \<le> 0, b1))
                      else (b_volume p, False, b)
           | None \<Rightarrow> (b_volume p, False, b))"
  obtain vol none b1 where x: "x = (vol, none, b1)" by (meson prod_cases3)
  have s1: "bk_sent b1 = bk_sent b"
    using x by (auto simp: x_def split: option.splits if_splits prod.splits dest: round_volume_sent)
  obtain r2 b2 where c: "close_position m k p vol (s_reason s) b1 = (r2, b2)" by (meson surj_pair)
  have t2: "tame b b2" using close_position_tame [OF c] s1 by (simp add: tame_def)
  have e: "close_signal_each m k s (p # ps) res b = (if none then (Inr None, b1)
      else case r2 of Inl er \<Rightarrow> (Inl er, b2) | Inr out \<Rightarrow> close_signal_each m k s ps (Some out) b2)"
    using c by (simp add: x_def [symmetric] x)
  show ?case
  proof (cases none)
    case True
    then show ?thesis using Cons.prems s1 unfolding e by (auto intro: tame_same)
  next
    case False
    then show ?thesis using Cons.prems Cons.IH t2 unfolding e
      by (cases r2) (auto intro: tame_trans [of b b2])
  qed
qed simp

lemma execute_tame:
  assumes "s_kind s \<noteq> ENTRY" "execute m k s b = (r, b')"
  shows "tame b b'"
proof -
  obtain ps b1 where p: "my_positions m k b = (ps, b1)" by (meson surj_pair)
  have s1: "bk_sent b1 = bk_sent b" using positions_sent [OF p] .
  show ?thesis using assms p s1
    by (auto simp: execute_def close_signal_def tame_def split: if_splits
        dest!: close_signal_each_tame intro: only_sendsI)
qed

section \<open>What the handlers change\<close>

lemma put_broker_simps [simp]:
  "ls_broker (put_broker b l) = b" "ls_engine (put_broker b l) = ls_engine l"
  "ls_cache (put_broker b l) = ls_cache l" "ls_breaker (put_broker b l) = ls_breaker l"
  "ls_spike (put_broker b l) = ls_spike l" "ls_true (put_broker b l) = ls_true l"
  "ls_macro (put_broker b l) = ls_macro l" "ls_risk_off (put_broker b l) = ls_risk_off l"
  "ls_warm (put_broker b l) = ls_warm l" "ls_sitter (put_broker b l) = ls_sitter l"
  "ls_printed (put_broker b l) = ls_printed l"
  by (simp_all add: put_broker_def)

text \<open>A part of a handler that opens nothing and leaves the engine alone.\<close>

definition steady :: "'w live \<Rightarrow> 'w live \<Rightarrow> bool" where
  "steady l l' \<longleftrightarrow> tame (ls_broker l) (ls_broker l') \<and> ls_engine l' = ls_engine l
     \<and> ls_true l' = ls_true l \<and> ls_warm l' = ls_warm l \<and> ls_printed l' = ls_printed l"

text \<open>The breaker moves by updates of one day only.\<close>

definition breaker_step :: "int \<Rightarrow> 'w live \<Rightarrow> 'w live \<Rightarrow> bool" where
  "breaker_step day l l' \<longleftrightarrow> ls_breaker l' = ls_breaker l
     \<or> (\<exists>bal br. ls_breaker l = Some br \<and> ls_breaker l' = Some (snd (breaker_update day bal br)))"

lemma steady_refl [simp]: "steady l l"
  by (simp add: steady_def)

lemma steady_trans: "steady l l1 \<Longrightarrow> steady l1 l2 \<Longrightarrow> steady l l2"
  by (auto simp: steady_def intro: tame_trans)

lemma steady_put: "tame (ls_broker l) b \<Longrightarrow> steady l (put_broker b l)"
  by (simp add: steady_def)

lemma spike_part_ok:
  assumes "spike_part m k c l = (r, l')"
  shows "steady l l'" "ls_breaker l' = ls_breaker l"
proof -
  have "steady l l' \<and> ls_breaker l' = ls_breaker l"
  proof (cases "ls_spike l")
    case None
    then show ?thesis using assms by (simp add: spike_part_def)
  next
    case (Some sp)
    obtain hit sp' where h: "spike_update (c_high c) (c_low c) sp = (hit, sp')" by (meson surj_pair)
    obtain pending b where p: "has_pending m k (ls_broker l) = (pending, b)" by (meson surj_pair)
    obtain r1 b1 where x: "cancel_pending m k 120 b = (r1, b1)" by (meson surj_pair)
    have "tame (ls_broker l) b" "tame (ls_broker l) b1"
      using has_pending_sent [OF p] cancel_pending_tame [OF x] tame_same tame_trans by blast+
    then show ?thesis using assms
      by (auto simp: spike_part_def Some h p x Let_def steady_def split: if_splits)
  qed
  then show "steady l l'" "ls_breaker l' = ls_breaker l" by blast+
qed

lemma breaker_part_ok:
  assumes "breaker_part m k f c l = (r, l')"
  shows "steady l l'" "breaker_step (date_of (c_ts c)) l l'"
proof -
  have "steady l l' \<and> breaker_step (date_of (c_ts c)) l l'"
  proof (cases "ls_breaker l")
    case None
    then show ?thesis using assms by (simp add: breaker_part_def breaker_step_def)
  next
    case (Some br)
    obtain rb ch b where x: "cache_balance m (fd_clock f) None (ls_cache l) (ls_broker l) = (rb, ch, b)"
      by (meson prod_cases3)
    have t: "tame (ls_broker l) b" using cache_balance_sent [OF x] by (rule tame_same)
    show ?thesis
    proof (cases rb)
      case (Inl e)
      then show ?thesis using assms t
        by (auto simp: breaker_part_def Some x steady_def breaker_step_def)
    next
      case (Inr bal)
      obtain halt br' where u: "breaker_update (date_of (c_ts c)) bal br = (halt, br')" by (meson surj_pair)
      obtain r1 b1 where o: "close_out m k ''daily_loss_halt'' b = (r1, b1)" by (meson surj_pair)
      have "tame (ls_broker l) b1" using close_out_tame [OF o] t tame_trans by blast
      then have "steady l l'" "ls_breaker l' = Some br'" using assms t
        by (auto simp: breaker_part_def Some x Inr u o Let_def steady_def split: if_splits)
      moreover have "br' = snd (breaker_update (date_of (c_ts c)) bal br)" by (simp add: u)
      ultimately show ?thesis by (auto simp: breaker_step_def Some)
    qed
  qed
  then show "steady l l'" "breaker_step (date_of (c_ts c)) l l'" by blast+
qed

lemma macro_part_ok:
  assumes "macro_part a m k f l = (r, l')"
  shows "steady l l'" "ls_breaker l' = ls_breaker l"
proof -
  obtain ro g where x: "risk_off_now (la_text a) (fd_obs_bar f) (fd_now_bar f) (ls_macro l) = (ro, g)"
    by (meson surj_pair)
  have o: "tame b b1" if "close_out m k why b = (r1, b1)" for why b r1 b1
    using close_out_tame that by blast
  have "steady l l' \<and> ls_breaker l' = ls_breaker l"
    using assms unfolding macro_part_def x
    by (auto simp: steady_def dest: o split: if_splits sum.splits option.splits prod.splits)
  then show "steady l l'" "ls_breaker l' = ls_breaker l" by blast+
qed

lemma ttl_part_ok:
  assumes "ttl_part a m k l = (r, l')"
  shows "steady l l'" "ls_breaker l' = ls_breaker l"
  using assms cancel_expired_tame
  by (auto simp: ttl_part_def steady_def split: option.splits prod.splits if_splits)

lemma sitter_part_ok:
  assumes "sitter_part m k f c l = (r, l')"
  shows "steady l l'" "ls_breaker l' = ls_breaker l"
proof -
  obtain ps ch b where p: "cache_positions m k (fd_clock f) None (ls_cache l) (ls_broker l) = (ps, ch, b)"
    by (meson prod_cases3)
  obtain acts st where s: "sit_bar c (fd_quote f) (map broker_pos.truncate ps) (ls_sitter l) = (acts, st)"
    by (meson surj_pair)
  obtain r1 b1 where a: "run_acts m k acts b = (r1, b1)" by (meson surj_pair)
  have "tame (ls_broker l) b1"
    using cache_positions_sent [OF p] run_acts_tame [OF a] by (simp add: tame_def)
  then show "steady l l'" "ls_breaker l' = ls_breaker l"
    using assms by (auto simp: sitter_part_def p s a steady_def)
qed

section \<open>Following the broker\<close>

text \<open>What the synchronisation does to the engine: nothing, or one \<open>force_flat\<close>.\<close>

definition synced :: "timestamp \<Rightarrow> 'w live \<Rightarrow> 'w live \<Rightarrow> bool" where
  "synced ts l l' \<longleftrightarrow> tame (ls_broker l) (ls_broker l') \<and> ls_breaker l' = ls_breaker l
     \<and> ls_warm l' = ls_warm l
     \<and> (ls_engine l' = ls_engine l \<or> ls_engine l' = snd (eng_flat ts (ls_engine l)))"

lemma flatten_simps [simp]:
  "ls_broker (flatten ts l) = ls_broker l" "ls_breaker (flatten ts l) = ls_breaker l"
  "ls_warm (flatten ts l) = ls_warm l" "ls_engine (flatten ts l) = snd (eng_flat ts (ls_engine l))"
  by (simp_all add: flatten_def split: prod.splits)

lemma sync_managed_ok:
  assumes "sync_managed m k c l = (r, l')"
  shows "synced (c_ts c) l l'"
proof -
  obtain held b1 where h: "has_position m k (ls_broker l) = (held, b1)" by (meson surj_pair)
  obtain pending b2 where p: "has_pending m k b1 = (pending, b2)" by (meson surj_pair)
  have "tame (ls_broker l) b1" "tame (ls_broker l) b2"
    using has_position_sent [OF h] has_pending_sent [OF p] by (simp_all add: tame_same)
  then show ?thesis using assms
    by (auto simp: sync_managed_def h p synced_def split: if_splits)
qed

lemma sync_market_ok:
  assumes "sync_market m k c l = (r, l')"
  shows "synced (c_ts c) l l'"
proof -
  obtain held b1 where h: "has_position m k (ls_broker l) = (held, b1)" by (meson surj_pair)
  have t1: "tame (ls_broker l) b1" using has_position_sent [OF h] by (rule tame_same)
  have t2: "tame (ls_broker l) b2" if "update_stop m k sl b1 = (r2, b2)" for sl r2 b2
    using update_stop_tame [OF that] t1 tame_trans by blast
  show ?thesis using assms t1
    by (auto simp: sync_market_def h synced_def split: if_splits option.splits prod.splits dest: t2)
qed

lemma and_next_cases:
  assumes "and_next f g l = (r, l')"
  obtains (stop) e where "f l = (Inl e, l')" "r = Inl e"
  | (next') l1 where "f l = (Inr (), l1)" "g l1 = (r, l')"
proof (cases "f l")
  case (Pair r1 l1)
  then show thesis using assms stop next' by (cases r1) (auto simp: and_next_def)
qed

lemma synced_steady: "steady l l1 \<Longrightarrow> ls_breaker l1 = ls_breaker l \<Longrightarrow> synced ts l1 l2 \<Longrightarrow> synced ts l l2"
  by (auto simp: synced_def steady_def intro: tame_trans)

lemma synced_end: "steady l l' \<Longrightarrow> ls_breaker l' = ls_breaker l \<Longrightarrow> synced ts l l'"
  by (auto simp: synced_def steady_def)

lemma synced_and_next:
  assumes "\<And>r l1. f l = (r, l1) \<Longrightarrow> steady l l1 \<and> ls_breaker l1 = ls_breaker l"
    and "\<And>r l1 l2. g l1 = (r, l2) \<Longrightarrow> synced ts l1 l2"
    and "and_next f g l = (r, l')"
  shows "synced ts l l'"
proof (rule and_next_cases [OF assms(3)])
  fix e assume "f l = (Inl e, l')"
  then show ?thesis using assms(1) synced_end by blast
next
  fix l1 assume x: "f l = (Inr (), l1)" "g l1 = (r, l')"
  then show ?thesis using assms(1) [OF x(1)] assms(2) [OF x(2)] synced_steady by blast
qed

lemma sync_part_ok:
  assumes "(if k_mode k = ''limit'' \<or> dynamic (ls_engine l)
           then and_next (ttl_part a m k) (and_next (sitter_part m k f c) (sync_managed m k c)) l
           else sync_market m k c l) = (r, l')"
  shows "synced (c_ts c) l l'"
proof (cases "k_mode k = ''limit'' \<or> dynamic (ls_engine l)")
  case True
  have s: "synced (c_ts c) l1 l2" if "and_next (sitter_part m k f c) (sync_managed m k c) l1 = (r1, l2)"
    for r1 l1 l2
    by (rule synced_and_next [OF _ _ that]) (use sitter_part_ok sync_managed_ok in blast)+
  have "and_next (ttl_part a m k) (and_next (sitter_part m k f c) (sync_managed m k c)) l = (r, l')"
    using assms True by simp
  then show ?thesis by (rule synced_and_next [rotated 2]) (use ttl_part_ok s in blast)+
next
  case False
  then show ?thesis using assms sync_market_ok by simp
qed

text \<open>A whole bar: nothing is opened, the breaker sees this day only, the engine is at most flattened.\<close>

definition barred :: "timestamp \<Rightarrow> 'w live \<Rightarrow> 'w live \<Rightarrow> bool" where
  "barred ts l l' \<longleftrightarrow> tame (ls_broker l) (ls_broker l') \<and> breaker_step (date_of ts) l l'
     \<and> (ls_engine l' = ls_engine l \<or> ls_engine l' = snd (eng_flat ts (ls_engine l)))"

lemma broker_bar_ok:
  assumes "broker_bar a m k f c l = (r, l')"
  shows "barred (c_ts c) l l'"
proof -
  define rest where "rest = and_next (macro_part a m k f)
      (\<lambda>l. if k_mode k = ''limit'' \<or> dynamic (ls_engine l)
           then and_next (ttl_part a m k) (and_next (sitter_part m k f c) (sync_managed m k c)) l
           else sync_market m k c l)"
  have rest: "synced (c_ts c) l1 l2" if "rest l1 = (r1, l2)" for r1 l1 l2
    using that unfolding rest_def
    by (rule synced_and_next [rotated 2]) (use macro_part_ok in blast, erule sync_part_ok)
  have br: "barred (c_ts c) l1 l2" if "and_next (breaker_part m k f c) rest l1 = (r1, l2)" for r1 l1 l2
  proof (rule and_next_cases [OF that])
    fix e assume "breaker_part m k f c l1 = (Inl e, l2)"
    from breaker_part_ok [OF this] show ?thesis by (auto simp: barred_def steady_def)
  next
    fix l3 assume x: "breaker_part m k f c l1 = (Inr (), l3)" "rest l3 = (r1, l2)"
    from breaker_part_ok [OF x(1)] rest [OF x(2)] show ?thesis
      by (auto simp: barred_def steady_def synced_def breaker_step_def intro: tame_trans)
  qed
  have "and_next (spike_part m k c) (and_next (breaker_part m k f c) rest) l = (r, l')"
    using assms by (simp only: broker_bar_def rest_def)
  then show ?thesis
  proof (rule and_next_cases)
    fix e assume "spike_part m k c l = (Inl e, l')"
    from spike_part_ok [OF this] show ?thesis by (auto simp: barred_def steady_def breaker_step_def)
  next
    fix l1 assume x: "spike_part m k c l = (Inr (), l1)" "and_next (breaker_part m k f c) rest l1 = (r, l')"
    from spike_part_ok [OF x(1)] br [OF x(2)] show ?thesis
      by (auto simp: barred_def steady_def breaker_step_def intro: tame_trans)
  qed
qed

lemma clock_part_simps [simp]:
  "ls_broker (clock_part a c l) = ls_broker l" "ls_engine (clock_part a c l) = ls_engine l"
  "ls_breaker (clock_part a c l) = ls_breaker l" "ls_warm (clock_part a c l) = ls_warm l"
  by (simp_all add: clock_part_def)

lemma on_bar_ok:
  assumes "on_bar a m k f c l = (r, l')"
  shows "barred (c_ts c) l l'"
proof -
  have b: "barred (c_ts c) l l2" if "broker_bar a m k f c ((clock_part a c l)\<lparr>ls_warm := False\<rparr>) = (r2, l2)"
    for r2 l2
    using broker_bar_ok [OF that] by (simp add: barred_def breaker_step_def)
  show ?thesis using assms b
    by (auto simp: on_bar_def Let_def barred_def breaker_step_def split: if_splits)
qed

section \<open>Signals\<close>

lemma place_order_ok:
  assumes "place_order a m k s l = (r, l')"
  shows "ls_engine l' = ls_engine l \<and> ls_breaker l' = ls_breaker l \<and> ls_warm l' = ls_warm l
     \<and> ls_true l' = ls_true l"
    and "s_kind s \<noteq> ENTRY \<Longrightarrow> tame (ls_broker l) (ls_broker l')"
proof -
  obtain res b where x: "execute m k s (ls_broker l) = (res, b)" by (meson surj_pair)
  obtain r1 b1 where c: "close_all m k ''slippage_abort'' b = (r1, b1)" by (meson surj_pair)
  show "ls_engine l' = ls_engine l \<and> ls_breaker l' = ls_breaker l \<and> ls_warm l' = ls_warm l
     \<and> ls_true l' = ls_true l"
    using assms by (auto simp: place_order_def x c Let_def split: sum.splits option.splits if_splits)
  show "tame (ls_broker l) (ls_broker l')" if k: "s_kind s \<noteq> ENTRY"
    using assms execute_tame [OF k x] k
    by (auto simp: place_order_def x Let_def split: sum.splits option.splits if_splits)
qed

lemma macro_filter_ok:
  assumes "macro_filter a f s l = (r, l')"
  shows "l' = l\<lparr>ls_macro := ls_macro l'\<rparr>"
  using assms by (auto simp: macro_filter_def split: option.splits prod.splits sum.splits)

lemma size_entry_sent: "size_entry a m s l = (r, b) \<Longrightarrow> bk_sent b = bk_sent (ls_broker l)"
  by (auto simp: size_entry_def Let_def split: option.splits prod.splits sum.splits
      dest!: specs_sent balance_sent)

lemma spread_filter_sent: "spread_filter a m b = (r, b') \<Longrightarrow> bk_sent b' = bk_sent b"
  by (auto simp: spread_filter_def split: option.splits prod.splits sum.splits dest: spread_sent)

text \<open>An entry either reaches the adapter, every filter having let it pass, or opens nothing.\<close>

lemma enter_order_cases:
  assumes "enter_order a m k f s l = (r, l')"
  obtains (refused) "steady l l'" "ls_breaker l' = ls_breaker l"
  | (placed) s1 l1 s2 b b1 where "entry_filter a s l = None" "macro_filter a f s l = (Inr (Some s1), l1)"
      "size_entry a m s1 l1 = (Inr (Some s2), b)" "spread_filter a m b = (True, b1)"
      "place_order a m k s2 (put_broker b1 l1) = (r, l')"
proof -
  obtain r1 l1 where m: "macro_filter a f s l = (r1, l1)" by (meson surj_pair)
  have l1: "steady l l1" "ls_breaker l1 = ls_breaker l" "ls_broker l1 = ls_broker l"
    using arg_cong [OF macro_filter_ok [OF m], of ls_engine] arg_cong [OF macro_filter_ok [OF m], of ls_breaker]
      arg_cong [OF macro_filter_ok [OF m], of ls_broker] arg_cong [OF macro_filter_ok [OF m], of ls_true]
      arg_cong [OF macro_filter_ok [OF m], of ls_warm] arg_cong [OF macro_filter_ok [OF m], of ls_printed]
    by (simp_all add: steady_def)
  have put: "steady l (put_broker b l1)" "ls_breaker (put_broker b l1) = ls_breaker l"
    if "bk_sent b = bk_sent (ls_broker l1)" for b
    using l1 that by (simp_all add: steady_def tame_same)
  show thesis
  proof (cases "entry_filter a s l = None")
    case False
    then show thesis using assms refused by (simp add: enter_order_def)
  next
    case True
    show thesis
    proof (cases r1)
      case (Inl e)
      then show thesis using assms refused l1 True by (simp add: enter_order_def m)
    next
      case (Inr o1)
      show thesis
      proof (cases o1)
        case None
        then show thesis using assms refused l1 True Inr by (simp add: enter_order_def m)
      next
        case (Some s1)
        obtain r2 b where z: "size_entry a m s1 l1 = (r2, b)" by (meson surj_pair)
        note zb = size_entry_sent [OF z]
        obtain ok b1 where sp: "spread_filter a m b = (ok, b1)" by (meson surj_pair)
        note sb = spread_filter_sent [OF sp]
        have e: "enter_order a m k f s l = (case r2 of Inl e \<Rightarrow> (Inl e, put_broker b l1)
            | Inr None \<Rightarrow> (Inr (), put_broker b l1)
            | Inr (Some s2) \<Rightarrow> if ok then place_order a m k s2 (put_broker b1 l1) else (Inr (), put_broker b1 l1))"
          using True by (simp add: enter_order_def m Inr Some z sp split: sum.splits option.splits)
        show thesis
        proof (cases "\<exists>s2. r2 = Inr (Some s2) \<and> ok")
          case True
          then show thesis using placed [OF \<open>entry_filter a s l = None\<close>, of s1 l1] m Inr Some z sp e assms
            by auto
        next
          case False
          then show thesis using e assms put [OF zb] put [of b1] zb sb refused
            by (auto split: sum.splits option.splits if_splits)
        qed
      qed
    qed
  qed
qed

text \<open>\<open>on_signal\<close>: it opens a trade only for an entry that got through.\<close>

lemma on_signal_ok:
  assumes "on_signal a m k f s l = (r, l')"
  shows "ls_engine l' = ls_engine l" "ls_breaker l' = ls_breaker l" "ls_warm l' = ls_warm l"
proof -
  have e: "ls_engine l2 = ls_engine l1 \<and> ls_breaker l2 = ls_breaker l1 \<and> ls_warm l2 = ls_warm l1"
    if x: "enter_order a m k f s l1 = (r, l2)" for l1 l2
  proof (rule enter_order_cases [OF x])
    assume "steady l1 l2" "ls_breaker l2 = ls_breaker l1"
    then show ?thesis by (simp add: steady_def)
  next
    fix s1 l3 s2 b b1
    assume y: "macro_filter a f s l1 = (Inr (Some s1), l3)" "place_order a m k s2 (put_broker b1 l3) = (r, l2)"
    show ?thesis
      using place_order_ok(1) [OF y(2)] arg_cong [OF macro_filter_ok [OF y(1)], of ls_engine]
        arg_cong [OF macro_filter_ok [OF y(1)], of ls_breaker]
        arg_cong [OF macro_filter_ok [OF y(1)], of ls_warm] by simp
  qed
  have "ls_engine l' = ls_engine l \<and> ls_breaker l' = ls_breaker l \<and> ls_warm l' = ls_warm l"
    using assms e place_order_ok(1)
    by (fastforce simp: on_signal_def Let_def split: if_splits)
  then show "ls_engine l' = ls_engine l" "ls_breaker l' = ls_breaker l" "ls_warm l' = ls_warm l" by blast+
qed

lemma on_signal_opens:
  assumes "on_signal a m k f s l = (r, l')" and "\<not> tame (ls_broker l) (ls_broker l')"
  obtains s1 l1 s2 b b1 where "s_kind s = ENTRY" "la_mt5 a"
    "\<not> (ls_warm l \<and> stale (s_ts s) (la_start a) (sig_grace (ls_engine l)))"
    "entry_filter a s (l\<lparr>ls_printed := ls_printed l @ [s]\<rparr>) = None"
    "macro_filter a f s (l\<lparr>ls_printed := ls_printed l @ [s]\<rparr>) = (Inr (Some s1), l1)"
    "size_entry a m s1 l1 = (Inr (Some s2), b)" "spread_filter a m b = (True, b1)"
    "place_order a m k s2 (put_broker b1 l1) = (r, l')"
proof -
  let ?l = "l\<lparr>ls_printed := ls_printed l @ [s]\<rparr>"
  have w: "\<not> (ls_warm l \<and> stale (s_ts s) (la_start a) (sig_grace (ls_engine l)))" and mt: "la_mt5 a"
    using assms by (auto simp: on_signal_def Let_def split: if_splits)
  have ent: "s_kind s = ENTRY"
  proof (rule ccontr)
    assume k: "s_kind s \<noteq> ENTRY"
    then have "place_order a m k s ?l = (r, l')" using assms(1) w mt by (simp add: on_signal_def)
    from place_order_ok(2) [OF this k] assms(2) show False by simp
  qed
  have x: "enter_order a m k f s ?l = (r, l')" using assms(1) w mt ent by (simp add: on_signal_def)
  show thesis
  proof (rule enter_order_cases [OF x])
    assume "steady ?l l'"
    then show thesis using assms(2) by (simp add: steady_def)
  qed (use that [OF ent mt w] in blast)
qed

section \<open>A bar\<close>

lemma balance_events: "balance m b = (x, b') \<Longrightarrow> bk_events b' = bk_events b"
  by (auto simp: balance_def split: prod.splits option.splits dest: ask_frame(3))

lemma positions_events: "my_positions m k b = (x, b') \<Longrightarrow> bk_events b' = bk_events b"
  by (auto simp: my_positions_def split: prod.splits dest: ask_frame(3))

lemma cache_refresh_events: "cache_refresh m k now ch b = (ch', b') \<Longrightarrow> bk_events b' = bk_events b"
  by (auto simp: cache_refresh_def split: sum.splits prod.splits dest!: positions_events balance_events)

lemma refresh_part_simps [simp]:
  "ls_engine (refresh_part m k f l) = ls_engine l" "ls_breaker (refresh_part m k f l) = ls_breaker l"
  "ls_true (refresh_part m k f l) = ls_true l" "ls_warm (refresh_part m k f l) = ls_warm l"
  "ls_macro (refresh_part m k f l) = ls_macro l" "ls_consec (refresh_part m k f l) = ls_consec l"
  by (auto simp: refresh_part_def put_broker_def option.map_id0 split: prod.splits
      dest!: cache_refresh_events)

lemma refresh_part_sent: "bk_sent (ls_broker (refresh_part m k f l)) = bk_sent (ls_broker l)"
  by (auto simp: refresh_part_def split: prod.splits dest: cache_refresh_sent)

text \<open>An accepted bar is one candle, the signal's handler, then the bar's.\<close>

lemma eng_candle_valid: "eng_candle r x = (Inr sig, x') \<Longrightarrow> \<exists>c. validate r = Inr c"
  by (cases "validate r")
    (auto simp: eng_candle_def on_candle_def svp_on_candle_def smc_on_candle_def
      split: engine.splits prod.splits)

lemma live_bar_cases:
  assumes "live_bar a m k f l = (r, l')"
  obtains (rejected) er x where "eng_candle (fd_raw f) (ls_engine l) = (Inl er, x)"
      "l' = (refresh_part m k f l)\<lparr>ls_engine := x\<rparr>" "r = (if skippable er then Inr () else Inl er)"
  | (failed) s x e where "eng_candle (fd_raw f) (ls_engine l) = (Inr (Some s), x)"
      "on_signal a m k f s ((refresh_part m k f l)\<lparr>ls_engine := x\<rparr>) = (Inl e, l')" "r = Inl e"
  | (taken) sig x c l1 where "eng_candle (fd_raw f) (ls_engine l) = (Inr sig, x)" "validate (fd_raw f) = Inr c"
      "case sig of None \<Rightarrow> l1 = (refresh_part m k f l)\<lparr>ls_engine := x\<rparr>
       | Some s \<Rightarrow> on_signal a m k f s ((refresh_part m k f l)\<lparr>ls_engine := x\<rparr>) = (Inr (), l1)"
      "on_bar a m k f c l1 = (r, l')"
proof (cases "eng_candle (fd_raw f) (ls_engine l)")
  case (Pair res x)
  show thesis
  proof (cases res)
    case (Inl er)
    then show thesis using assms rejected Pair by (simp add: live_bar_def)
  next
    case (Inr sig)
    obtain c where c: "validate (fd_raw f) = Inr c" using eng_candle_valid Pair Inr by blast
    have n: "and_next (case sig of None \<Rightarrow> (\<lambda>l. (Inr (), l)) | Some s \<Rightarrow> on_signal a m k f s)
        (on_bar a m k f c) ((refresh_part m k f l)\<lparr>ls_engine := x\<rparr>) = (r, l')"
      using assms by (simp add: live_bar_def Let_def Pair Inr c)
    show thesis
    proof (rule and_next_cases [OF n])
      fix e assume "(case sig of None \<Rightarrow> (\<lambda>l. (Inr (), l)) | Some s \<Rightarrow> on_signal a m k f s)
          ((refresh_part m k f l)\<lparr>ls_engine := x\<rparr>) = (Inl e, l')" "r = Inl e"
      then show thesis using failed Pair Inr by (cases sig) auto
    next
      fix l1 assume "(case sig of None \<Rightarrow> (\<lambda>l. (Inr (), l)) | Some s \<Rightarrow> on_signal a m k f s)
          ((refresh_part m k f l)\<lparr>ls_engine := x\<rparr>) = (Inr (), l1)" "on_bar a m k f c l1 = (r, l')"
      then show thesis using taken [of sig x c l1] Pair Inr c by (cases sig) auto
    qed
  qed
qed

text \<open>A bar opens a trade only through its signal.\<close>

lemma live_bar_opens:
  assumes "live_bar a m k f l = (r, l')" and "\<not> tame (ls_broker l) (ls_broker l')"
  obtains s x r1 l1 where "eng_candle (fd_raw f) (ls_engine l) = (Inr (Some s), x)"
    "on_signal a m k f s ((refresh_part m k f l)\<lparr>ls_engine := x\<rparr>) = (r1, l1)"
    "\<not> tame (ls_broker ((refresh_part m k f l)\<lparr>ls_engine := x\<rparr>)) (ls_broker l1)"
proof -
  have t: "tame (ls_broker l) (ls_broker (refresh_part m k f l))" by (simp add: tame_same refresh_part_sent)
  have pull: "\<not> tame (ls_broker ((refresh_part m k f l)\<lparr>ls_engine := x\<rparr>)) b" if "\<not> tame (ls_broker l) b" for b x
    using that t tame_trans by auto
  show thesis
  proof (rule live_bar_cases [OF assms(1)])
    fix er x assume "l' = (refresh_part m k f l)\<lparr>ls_engine := x\<rparr>"
    then show thesis using assms(2) t by simp
  next
    fix s x e assume "eng_candle (fd_raw f) (ls_engine l) = (Inr (Some s), x)"
      "on_signal a m k f s ((refresh_part m k f l)\<lparr>ls_engine := x\<rparr>) = (Inl e, l')"
    then show thesis using that pull [OF assms(2)] by blast
  next
    fix sig x c l1
    assume y: "eng_candle (fd_raw f) (ls_engine l) = (Inr sig, x)"
      "case sig of None \<Rightarrow> l1 = (refresh_part m k f l)\<lparr>ls_engine := x\<rparr>
       | Some s \<Rightarrow> on_signal a m k f s ((refresh_part m k f l)\<lparr>ls_engine := x\<rparr>) = (Inr (), l1)"
      "on_bar a m k f c l1 = (r, l')"
    have "tame (ls_broker l1) (ls_broker l')" using on_bar_ok [OF y(3)] by (simp add: barred_def)
    then have n: "\<not> tame (ls_broker l) (ls_broker l1)" using assms(2) tame_trans by blast
    show thesis
    proof (cases sig)
      case None
      then show thesis using y(2) n t by simp
    next
      case (Some s)
      then show thesis using that [of s x "Inr ()" l1] y(1,2) pull [OF n] by simp
    qed
  qed
qed

end
