(* ===== verification/Live_Properties.thy ===== *)
theory Live_Properties
  imports Live_Correct Orb_Properties Smc_Properties
begin

text \<open>
  What \<open>orb live\<close> promises: no trade opens past a guard, a halted day stays shut, the engine never
  keeps a position the broker does not have, the loop drives the engine as a candle stream, and
  dynamic sizes stay within budget; and where it falls short.
\<close>

section \<open>Entries pass every guard\<close>

lemma entry_filter_None:
  assumes "entry_filter a s l = None"
  shows "\<forall>b. ls_breaker l = Some b \<longrightarrow> \<not> db_halted b" "\<forall>g. ls_consec l = Some g \<longrightarrow> \<not> blocked g"
    "la_trueopen a \<longrightarrow> to_zone (s_price s) (ls_true l) \<noteq> Some ''dead_zone''"
    "\<forall>qs. la_quarters a = Some qs \<longrightarrow> day_quarter (la_ny a) (s_ts s) \<in> set qs"
    "\<forall>ws. la_killzones a = Some ws \<longrightarrow> session_allows ws (local_us (s_ts s)) (Some (tz_off (s_ts s)))"
proof -
  have c: "\<not> (case ls_breaker l of None \<Rightarrow> False | Some b \<Rightarrow> db_halted b)"
    "\<not> (case ls_consec l of None \<Rightarrow> False | Some g \<Rightarrow> blocked g)"
    "\<not> (la_trueopen a \<and> to_zone (s_price s) (ls_true l) = Some ''dead_zone'')"
    "\<not> (case la_quarters a of None \<Rightarrow> False | Some qs \<Rightarrow> day_quarter (la_ny a) (s_ts s) \<notin> set qs)"
    "\<not> (case la_killzones a of None \<Rightarrow> False
       | Some ws \<Rightarrow> \<not> session_allows ws (local_us (s_ts s)) (Some (tz_off (s_ts s))))"
    using assms unfolding entry_filter_def by (metis option.distinct(1))+
  show "\<forall>b. ls_breaker l = Some b \<longrightarrow> \<not> db_halted b" "\<forall>g. ls_consec l = Some g \<longrightarrow> \<not> blocked g"
    "la_trueopen a \<longrightarrow> to_zone (s_price s) (ls_true l) \<noteq> Some ''dead_zone''"
    "\<forall>qs. la_quarters a = Some qs \<longrightarrow> day_quarter (la_ny a) (s_ts s) \<in> set qs"
    "\<forall>ws. la_killzones a = Some ws \<longrightarrow> session_allows ws (local_us (s_ts s)) (Some (tz_off (s_ts s)))"
    using c by auto
qed

lemma macro_filter_passes:
  assumes "macro_filter a f s l = (Inr (Some s1), l1)"
  shows "\<forall>k. la_macro a = Some k \<and> macro_acts a \<longrightarrow> (\<exists>d g. evaluate_entry (la_text a) k (fd_obs_sig f)
     (fd_now_sig f) s (ls_macro l) = (Inr d, g) \<and> \<not> d_veto d)"
  using assms by (auto simp: macro_filter_def split: prod.splits sum.splits if_splits)

lemma spread_filter_passes:
  assumes "spread_filter a m b = (True, b1)"
  shows "\<forall>mx. la_spread a = Some mx \<longrightarrow> (\<exists>bid ask' sp. current_spread m b = (Inr (bid, ask', sp), b1)
     \<and> round_dp 10 (ask' - bid) \<le> mx)"
  using assms by (auto simp: spread_filter_def spread_allows_def Let_def split: prod.splits sum.splits)

text \<open>The requests a bar hands to the terminal.\<close>

definition sent_in :: "'w live \<Rightarrow> 'w live \<Rightarrow> order_req list" where
  "sent_in l l' = drop (length (bk_sent (ls_broker l))) (bk_sent (ls_broker l'))"

lemma tame_sent_in: "tame (ls_broker l) (ls_broker l') \<Longrightarrow> \<forall>q \<in> set (sent_in l l'). \<not> opens_trade q"
  by (auto simp: tame_def only_sends_def sent_in_def)

definition passed :: "live_args \<Rightarrow> 'w terminal \<Rightarrow> feed \<Rightarrow> 'w live \<Rightarrow> signal \<Rightarrow> bool" where
  "passed a m f l s \<longleftrightarrow>
     (\<forall>b. ls_breaker l = Some b \<longrightarrow> \<not> db_halted b)
   \<and> (\<forall>g. ls_consec l = Some g \<longrightarrow> \<not> blocked g)
   \<and> (la_trueopen a \<longrightarrow> to_zone (s_price s) (ls_true l) \<noteq> Some ''dead_zone'')
   \<and> (\<forall>qs. la_quarters a = Some qs \<longrightarrow> day_quarter (la_ny a) (s_ts s) \<in> set qs)
   \<and> (\<forall>ws. la_killzones a = Some ws \<longrightarrow> session_allows ws (local_us (s_ts s)) (Some (tz_off (s_ts s))))
   \<and> (\<forall>k. la_macro a = Some k \<and> macro_acts a \<longrightarrow> (\<exists>d g. evaluate_entry (la_text a) k (fd_obs_sig f)
        (fd_now_sig f) s (ls_macro l) = (Inr d, g) \<and> \<not> d_veto d))
   \<and> (\<forall>mx. la_spread a = Some mx \<longrightarrow> (\<exists>b b' bid ask' sp. current_spread m b = (Inr (bid, ask', sp), b')
        \<and> round_dp 10 (ask' - bid) \<le> mx))"

lemma entry_gated:
  assumes "live_bar a m k f l = (r, l')" and "q \<in> set (sent_in l l')" and "opens_trade q"
  shows "\<exists>s x. eng_candle (fd_raw f) (ls_engine l) = (Inr (Some s), x) \<and> s_kind s = ENTRY \<and> la_mt5 a
     \<and> \<not> (ls_warm l \<and> stale (s_ts s) (la_start a) (sig_grace x)) \<and> passed a m f l s"
proof -
  have n: "\<not> tame (ls_broker l) (ls_broker l')" using assms(2,3) tame_sent_in by blast
  obtain s x r1 l1 where s: "eng_candle (fd_raw f) (ls_engine l) = (Inr (Some s), x)"
    "on_signal a m k f s ((refresh_part m k f l)\<lparr>ls_engine := x\<rparr>) = (r1, l1)"
    "\<not> tame (ls_broker ((refresh_part m k f l)\<lparr>ls_engine := x\<rparr>)) (ls_broker l1)"
    using live_bar_opens [OF assms(1) n] by blast
  define l0 where "l0 = (refresh_part m k f l)\<lparr>ls_engine := x\<rparr>"
  define lp where "lp = l0\<lparr>ls_printed := ls_printed l0 @ [s]\<rparr>"
  have same: "ls_breaker lp = ls_breaker l" "ls_consec lp = ls_consec l" "ls_true lp = ls_true l"
    "ls_macro lp = ls_macro l" "ls_warm l0 = ls_warm l" "ls_engine l0 = x"
    by (simp_all add: lp_def l0_def)
  obtain s1 l2 s2 b b1 where o: "s_kind s = ENTRY" "la_mt5 a"
    "\<not> (ls_warm l0 \<and> stale (s_ts s) (la_start a) (sig_grace (ls_engine l0)))"
    "entry_filter a s lp = None" "macro_filter a f s lp = (Inr (Some s1), l2)"
    "spread_filter a m b = (True, b1)"
    using on_signal_opens [OF s(2,3)] unfolding l0_def lp_def by metis
  have "passed a m f l s"
    unfolding passed_def
    using entry_filter_None [OF o(4)] macro_filter_passes [OF o(5)] spread_filter_passes [OF o(6)]
    unfolding same by blast
  then show ?thesis using s(1) o(1-3) unfolding same by blast
qed

text \<open>C1: no trade opens past a guard. Whatever a bar of the live loop does, a request that opens a
  position or places a resting order is handed to the terminal only when the engine returned an entry
  signal on this very bar, the signal is not a replayed one, and every configured guard let it
  pass: daily loss, loss streak, true-open zone, quarter, killzone, macro veto and spread.\<close>

theorem live_entry_gated:
  assumes "live_bar a m k f l = (r, l')" and "q \<in> set (sent_in l l')" and "opens_trade q"
  shows "\<exists>s x. eng_candle (fd_raw f) (ls_engine l) = (Inr (Some s), x) \<and> s_kind s = ENTRY \<and> la_mt5 a
     \<and> \<not> (ls_warm l \<and> stale (s_ts s) (la_start a) (sig_grace x)) \<and> passed a m f l s"
  by (rule entry_gated [OF assms])

text \<open>A demonstration: the ORB engine about to break out, on the terminal that times out.\<close>

definition live_demo_args :: live_args where
  "live_demo_args = \<lparr>la_mt5 = True, la_live = False, la_entry = ''market'', la_start = utc_ts 0,
     la_risk_pct = None, la_max_slippage = None, la_rr_floor = None, la_slip_close = False,
     la_limit_ttl = None, la_retry = None, la_hub = False, la_point = 0, la_trueopen = False,
     la_quarters = None, la_killzones = None, la_spread = Some 2, la_macro = None,
     la_macro_mode = ''off'', la_text = \<lparr>tx_float = (\<lambda>_. None), tx_int = (\<lambda>_. None),
       tx_iso = (\<lambda>_. None), tx_str = (\<lambda>_. '''')\<rparr>, la_ny = (\<lambda>_. 0)\<rparr>"

definition live_start :: "'w \<Rightarrow> engine \<Rightarrow> 'w live" where
  "live_start w x = \<lparr>ls_engine = x, ls_broker = fresh_broker w, ls_cache = cache_new, ls_breaker = None,
     ls_consec = None, ls_spike = None, ls_true = trueopen_new,
     ls_macro = \<lparr>mg_mtime = None, mg_state = None\<rparr>, ls_risk_off = False, ls_warm = False,
     ls_sitter = NoSitter, ls_printed = []\<rparr>"

definition feed_of :: "raw_candle \<Rightarrow> feed" where
  "feed_of r = \<lparr>fd_raw = r, fd_refresh = False, fd_clock = 0, fd_now_sig = utc_ts 0,
     fd_obs_sig = Missing, fd_now_bar = utc_ts 0, fd_obs_bar = Missing, fd_quote = (\<lambda>_. 0)\<rparr>"

definition armed :: engine where "armed = EOrb demo_config demo_armed"

definition live_demo :: "bool \<Rightarrow> (error + unit) \<times> int list live" where
  "live_demo fills = live_bar live_demo_args (timeout_terminal fills) (broker_of live_demo_args armed)
     (feed_of (bar 1 11 14 11 13)) (live_start [] armed)"

theorem live_entry_gated_witness:
  "length (sent_in (live_start [] armed) (snd (live_demo True))) = 1
   \<and> (\<exists>s x. eng_candle (bar 1 11 14 11 13) armed = (Inr (Some s), x) \<and> s_kind s = ENTRY
        \<and> passed live_demo_args (timeout_terminal True) (feed_of (bar 1 11 14 11 13))
            (live_start [] armed) s)"
proof -
  have "length (sent_in (live_start [] armed) (snd (live_demo True))) = 1
    \<and> list_all opens_trade (sent_in (live_start [] armed) (snd (live_demo True)))" by code_simp
  then obtain q where q: "length (sent_in (live_start [] armed) (snd (live_demo True))) = 1"
    "q \<in> set (sent_in (live_start [] armed) (snd (live_demo True)))" "opens_trade q"
    by (cases "sent_in (live_start [] armed) (snd (live_demo True))") auto
  obtain r l' where d: "live_demo True = (r, l')" by (meson surj_pair)
  have "\<exists>s x. eng_candle (fd_raw (feed_of (bar 1 11 14 11 13))) (ls_engine (live_start ([] :: int list) armed))
        = (Inr (Some s), x) \<and> s_kind s = ENTRY \<and> la_mt5 live_demo_args
     \<and> \<not> (ls_warm (live_start ([] :: int list) armed) \<and> stale (s_ts s) (la_start live_demo_args) (sig_grace x))
     \<and> passed live_demo_args (timeout_terminal True) (feed_of (bar 1 11 14 11 13)) (live_start [] armed) s"
    by (rule live_entry_gated [OF d [unfolded live_demo_def]]) (use q d in simp_all)
  then show ?thesis using q(1) by (simp add: feed_of_def live_start_def) blast
qed

section \<open>A halted day\<close>

lemma halted_stays: "db_halted br \<Longrightarrow> db_day br = Some d \<Longrightarrow>
    db_halted (snd (breaker_update d bal br)) \<and> db_day (snd (breaker_update d bal br)) = Some d"
  by (simp add: breaker_update_def breaker_roll_def Let_def)

definition shut :: "int \<Rightarrow> 'w live \<Rightarrow> bool" where
  "shut d l \<longleftrightarrow> (\<exists>br. ls_breaker l = Some br \<and> db_halted br \<and> db_day br = Some d)"

lemma shut_step: "shut d l \<Longrightarrow> breaker_step d l l' \<Longrightarrow> shut d l'"
  using halted_stays by (fastforce simp: shut_def breaker_step_def)

lemma live_bar_shut:
  assumes "live_bar a m k f l = (r, l')" "shut d l"
    and "\<forall>c. validate (fd_raw f) = Inr c \<longrightarrow> date_of (c_ts c) = d"
  shows "shut d l'" "tame (ls_broker l) (ls_broker l')"
proof -
  have s0: "shut d ((refresh_part m k f l)\<lparr>ls_engine := x\<rparr>)" for x using assms(2) by (simp add: shut_def)
  show "shut d l'"
  proof (rule live_bar_cases [OF assms(1)])
    fix s x e assume "on_signal a m k f s ((refresh_part m k f l)\<lparr>ls_engine := x\<rparr>) = (Inl e, l')"
    from on_signal_ok(2) [OF this] s0 [of x] show ?thesis by (simp add: shut_def)
  next
    fix sig x c l1
    assume y: "validate (fd_raw f) = Inr c" "case sig of None \<Rightarrow> l1 = (refresh_part m k f l)\<lparr>ls_engine := x\<rparr>
       | Some s \<Rightarrow> on_signal a m k f s ((refresh_part m k f l)\<lparr>ls_engine := x\<rparr>) = (Inr (), l1)"
      "on_bar a m k f c l1 = (r, l')"
    have "shut d l1"
    proof (cases sig)
      case (Some s)
      then have "on_signal a m k f s ((refresh_part m k f l)\<lparr>ls_engine := x\<rparr>) = (Inr (), l1)"
        using y(2) by simp
      from on_signal_ok(2) [OF this] s0 [of x] show ?thesis by (simp add: shut_def)
    qed (use y(2) s0 in simp)
    moreover have "breaker_step d l1 l'"
      using on_bar_ok [OF y(3)] y(1) assms(3) by (simp add: barred_def)
    ultimately show ?thesis by (rule shut_step)
  qed (use s0 in simp)
  show "tame (ls_broker l) (ls_broker l')"
  proof (rule ccontr)
    assume n: "\<not> tame (ls_broker l) (ls_broker l')"
    then show False
    proof (rule live_bar_opens [OF assms(1)])
      fix s x r1 l1
      assume o: "on_signal a m k f s ((refresh_part m k f l)\<lparr>ls_engine := x\<rparr>) = (r1, l1)"
        "\<not> tame (ls_broker ((refresh_part m k f l)\<lparr>ls_engine := x\<rparr>)) (ls_broker l1)"
      show False
      proof (rule on_signal_opens [OF o])
        assume ef: "entry_filter a s ((refresh_part m k f l)\<lparr>ls_engine := x, ls_printed :=
            ls_printed ((refresh_part m k f l)\<lparr>ls_engine := x\<rparr>) @ [s]\<rparr>) = None"
        obtain br where "ls_breaker l = Some br" "db_halted br" using assms(2) by (auto simp: shut_def)
        then show False using entry_filter_None(1) [OF ef] by simp
      qed
    qed
  qed
qed

text \<open>C2: a halted day stays shut. Once the daily loss breaker has halted on a day, no later bar of
  that day hands the terminal a request that opens a position or places a resting order, whatever
  the engine signals, the terminal answers and the balance does.\<close>

theorem live_halted_day:
  assumes "ls_breaker l = Some br" and "db_halted br" and "db_day br = Some d"
    and "\<forall>f \<in> set fs. \<forall>c. validate (fd_raw f) = Inr c \<longrightarrow> date_of (c_ts c) = d"
    and "live_run a m k fs l = (r, l')"
  shows "\<forall>q \<in> set (sent_in l l'). \<not> opens_trade q"
proof -
  have "shut d l \<Longrightarrow> \<forall>f \<in> set fs. \<forall>c. validate (fd_raw f) = Inr c \<longrightarrow> date_of (c_ts c) = d
    \<Longrightarrow> live_run a m k fs l = (r, l') \<Longrightarrow> tame (ls_broker l) (ls_broker l')"
  proof (induction fs arbitrary: l)
    case (Cons f fs)
    obtain r1 l1 where b: "live_bar a m k f l = (r1, l1)" by (meson surj_pair)
    have s: "shut d l1" "tame (ls_broker l) (ls_broker l1)"
      using live_bar_shut [OF b Cons.prems(1)] Cons.prems(2) by simp_all
    show ?case
    proof (cases r1)
      case (Inl e)
      then show ?thesis using Cons.prems(3) b s(2) by simp
    next
      case (Inr u)
      then have "tame (ls_broker l1) (ls_broker l')" using Cons b s(1) by simp
      then show ?thesis using s(2) tame_trans by blast
    qed
  qed simp
  then show ?thesis using assms tame_sent_in unfolding shut_def by blast
qed

definition halted_start :: "int list live" where
  "halted_start = (live_start [] armed)\<lparr>ls_breaker := Some \<lparr>db_max = Some 100, db_pct = None,
     db_day = Some 0, db_start = 1000, db_cap = 100, db_delta = -150, db_halted = True\<rparr>\<rparr>"

theorem live_halted_day_witness:
  "ls_printed (snd (live_run live_demo_args (timeout_terminal True) (broker_of live_demo_args armed)
       [feed_of (bar 1 11 14 11 13)] halted_start)) \<noteq> []
   \<and> list_ex opens_trade (sent_in halted_start (snd (live_run live_demo_args (timeout_terminal True)
       (broker_of live_demo_args armed) [feed_of (bar 1 11 14 11 13)] halted_start))) = False"
proof -
  obtain r l' where r: "live_run live_demo_args (timeout_terminal True) (broker_of live_demo_args armed)
      [feed_of (bar 1 11 14 11 13)] halted_start = (r, l')" by (meson surj_pair)
  have "ls_printed (snd (live_run live_demo_args (timeout_terminal True) (broker_of live_demo_args armed)
       [feed_of (bar 1 11 14 11 13)] halted_start)) \<noteq> []" by code_simp
  moreover have "\<forall>q \<in> set (sent_in halted_start l'). \<not> opens_trade q"
    by (rule live_halted_day [OF _ _ _ _ r, where d = 0 and br = "the (ls_breaker halted_start)"])
      (simp_all add: halted_start_def feed_of_def validate_def bar_def Let_def date_of_def us_day_def
        us_min_def)
  ultimately show ?thesis unfolding r snd_conv by (simp add: list_ex_iff)
qed

section \<open>The engine follows the broker\<close>

lemma positions_flat:
  assumes "\<forall>w p. p \<in> set (fst (tm_positions m w)) \<longrightarrow> b_magic p \<noteq> k_magic k"
  shows "fst (has_position m k b) = False"
proof -
  obtain ps w where p: "tm_positions m (bk_world b) = (ps, w)" by (meson surj_pair)
  have "filter (\<lambda>p. b_magic p = k_magic k) ps = []"
    using assms [rule_format, of _ "bk_world b"] p by (auto simp: filter_empty_conv)
  then show ?thesis by (simp add: has_position_def my_positions_def ask_def p)
qed

lemma pending_flat:
  assumes "\<forall>w p. p \<in> set (fst (tm_orders m w)) \<longrightarrow> po_magic p \<noteq> k_magic k"
  shows "fst (has_pending m k b) = False"
proof -
  obtain ps w where p: "tm_orders m (bk_world b) = (ps, w)" by (meson surj_pair)
  have "\<not> list_ex (\<lambda>po. po_magic po = k_magic k) ps"
    using assms [rule_format, of _ "bk_world b"] p by (auto simp: list_ex_iff)
  then show ?thesis by (simp add: has_pending_def ask_def p)
qed

lemma flat_engine: "eng_inv x \<Longrightarrow> eng_pos (snd (eng_flat ts x)) = None"
proof -
  assume i: "eng_inv x"
  obtain sg x' where f: "eng_flat ts x = (sg, x')" by (meson surj_pair)
  show ?thesis
  proof (cases sg)
    case None
    then have "x' = x" "eng_pos x = None" using eng.flat_silent [OF i] f by blast+
    then show ?thesis by (simp add: f)
  next
    case (Some s)
    then have "eng_pos x' = None" using eng.flat_signal [OF i] f by blast
    then show ?thesis by (simp add: f)
  qed
qed

lemma sync_flat:
  assumes "\<forall>w p. p \<in> set (fst (tm_positions m w)) \<longrightarrow> b_magic p \<noteq> k_magic k"
    and "\<forall>w p. p \<in> set (fst (tm_orders m w)) \<longrightarrow> po_magic p \<noteq> k_magic k"
    and inv: "eng_inv (ls_engine l)"
  shows "sync_managed m k c l = (r, l') \<Longrightarrow> eng_pos (ls_engine l') = None"
    and "sync_market m k c l = (r, l') \<Longrightarrow> eng_pos (ls_engine l') = None"
proof -
  obtain b1 where h: "has_position m k (ls_broker l) = (False, b1)"
    using positions_flat [OF assms(1)] by (metis prod.collapse)
  obtain b2 where p: "has_pending m k b1 = (False, b2)"
    using pending_flat [OF assms(2)] by (metis prod.collapse)
  have idle: "eng_state (ls_engine l) \<noteq> BREAKOUT \<Longrightarrow> eng_pos (ls_engine l) = None"
    using eng.inv_state [OF inv] by blast
  show "sync_managed m k c l = (r, l') \<Longrightarrow> eng_pos (ls_engine l') = None"
    using idle flat_engine [OF inv] by (auto simp: sync_managed_def h p split: if_splits)
  show "sync_market m k c l = (r, l') \<Longrightarrow> eng_pos (ls_engine l') = None"
    using idle flat_engine [OF inv] by (auto simp: sync_market_def h split: if_splits)
qed

lemma and_next_Inr:
  assumes "and_next f g l = (Inr (), l')"
  obtains l1 where "f l = (Inr (), l1)" "g l1 = (Inr (), l')"
  by (rule and_next_cases [OF assms]) auto

lemma broker_bar_flat:
  assumes "\<forall>w p. p \<in> set (fst (tm_positions m w)) \<longrightarrow> b_magic p \<noteq> k_magic k"
    and "\<forall>w p. p \<in> set (fst (tm_orders m w)) \<longrightarrow> po_magic p \<noteq> k_magic k"
    and inv: "eng_inv (ls_engine l)" and run: "broker_bar a m k f c l = (Inr (), l')"
  shows "eng_pos (ls_engine l') = None"
proof -
  obtain l1 where 1: "spike_part m k c l = (Inr (), l1)" "and_next (breaker_part m k f c)
      (and_next (macro_part a m k f) (\<lambda>l. if k_mode k = ''limit'' \<or> dynamic (ls_engine l)
           then and_next (ttl_part a m k) (and_next (sitter_part m k f c) (sync_managed m k c)) l
           else sync_market m k c l)) l1 = (Inr (), l')"
    using run unfolding broker_bar_def by (rule and_next_Inr)
  obtain l2 where 2: "breaker_part m k f c l1 = (Inr (), l2)" "and_next (macro_part a m k f)
      (\<lambda>l. if k_mode k = ''limit'' \<or> dynamic (ls_engine l)
           then and_next (ttl_part a m k) (and_next (sitter_part m k f c) (sync_managed m k c)) l
           else sync_market m k c l) l2 = (Inr (), l')"
    using 1(2) by (rule and_next_Inr)
  obtain l3 where 3: "macro_part a m k f l2 = (Inr (), l3)"
    "(if k_mode k = ''limit'' \<or> dynamic (ls_engine l3)
           then and_next (ttl_part a m k) (and_next (sitter_part m k f c) (sync_managed m k c)) l3
           else sync_market m k c l3) = (Inr (), l')"
    using 2(2) by (rule and_next_Inr)
  have e3: "eng_inv (ls_engine l3)"
    using inv spike_part_ok(1) [OF 1(1)] breaker_part_ok(1) [OF 2(1)] macro_part_ok(1) [OF 3(1)]
    by (simp add: steady_def)
  show ?thesis
  proof (cases "k_mode k = ''limit'' \<or> dynamic (ls_engine l3)")
    case True
    then have "and_next (ttl_part a m k) (and_next (sitter_part m k f c) (sync_managed m k c)) l3
        = (Inr (), l')" using 3(2) by simp
    then obtain l4 where 4: "ttl_part a m k l3 = (Inr (), l4)"
      "and_next (sitter_part m k f c) (sync_managed m k c) l4 = (Inr (), l')" by (rule and_next_Inr)
    obtain l5 where 5: "sitter_part m k f c l4 = (Inr (), l5)" "sync_managed m k c l5 = (Inr (), l')"
      using 4(2) by (rule and_next_Inr)
    have "eng_inv (ls_engine l5)"
      using e3 ttl_part_ok(1) [OF 4(1)] sitter_part_ok(1) [OF 5(1)] by (simp add: steady_def)
    then show ?thesis using sync_flat(1) [OF assms(1,2)] 5(2) by blast
  next
    case False
    then show ?thesis using sync_flat(2) [OF assms(1,2) e3] 3(2) by simp
  qed
qed

text \<open>C3: no ghost position survives a bar. When the broker holds no position and no resting order of
  ours, one bar that the live loop gets through leaves the engine without a position, whatever
  the engine believed before or decided on that bar: a filled stop, a refused or skipped entry
  and a manual close are all noticed at once.\<close>

theorem live_no_ghost:
  assumes "\<forall>w p. p \<in> set (fst (tm_positions m w)) \<longrightarrow> b_magic p \<noteq> k_magic k"
    and "\<forall>w p. p \<in> set (fst (tm_orders m w)) \<longrightarrow> po_magic p \<noteq> k_magic k"
    and "eng_inv (ls_engine l)" and "la_mt5 a" and "\<not> ls_warm l"
    and "eng_candle (fd_raw f) (ls_engine l) = (Inr sig, x)"
    and "live_bar a m k f l = (Inr (), l')"
  shows "eng_pos (ls_engine l') = None"
proof (rule live_bar_cases [OF assms(7)])
  fix sig' x' c l1
  assume y: "eng_candle (fd_raw f) (ls_engine l) = (Inr sig', x')"
    "case sig' of None \<Rightarrow> l1 = (refresh_part m k f l)\<lparr>ls_engine := x'\<rparr>
       | Some s \<Rightarrow> on_signal a m k f s ((refresh_part m k f l)\<lparr>ls_engine := x'\<rparr>) = (Inr (), l1)"
    "on_bar a m k f c l1 = (Inr (), l')"
  have "eng_inv x'" using eng.inv_candle [OF assms(3) y(1)] .
  moreover have "ls_engine l1 = x' \<and> \<not> ls_warm l1"
  proof (cases sig')
    case (Some s)
    then have "on_signal a m k f s ((refresh_part m k f l)\<lparr>ls_engine := x'\<rparr>) = (Inr (), l1)"
      using y(2) by simp
    from on_signal_ok(1,3) [OF this] show ?thesis using assms(5) by simp
  qed (use y(2) assms(5) in simp)
  ultimately have i: "eng_inv (ls_engine ((clock_part a c l1)\<lparr>ls_warm := False\<rparr>))"
    and b: "broker_bar a m k f c ((clock_part a c l1)\<lparr>ls_warm := False\<rparr>) = (Inr (), l')"
    using y(3) assms(4) by (simp_all add: on_bar_def Let_def)
  show ?thesis by (rule broker_bar_flat [OF assms(1,2) i b])
qed (use assms(6) in auto)

definition holding :: engine where "holding = EOrb demo_config demo_held"

lemma holding_inv: "eng_inv holding"
  using demo_held_inv by (simp add: holding_def eng_inv_def)

lemma armed_inv: "eng_inv armed"
  using demo_armed_inv by (simp add: armed_def eng_inv_def)

text \<open>A terminal without positions or orders, refusing whatever it is sent.\<close>

theorem live_no_ghost_witness:
  "eng_pos holding \<noteq> None
   \<and> eng_pos (ls_engine (snd (live_bar live_demo_args refusing_terminal (broker_of live_demo_args holding)
       (feed_of (bar 2 13 16 13 16)) (live_start () holding)))) = None"
proof -
  define res where "res = live_bar live_demo_args refusing_terminal (broker_of live_demo_args holding)
       (feed_of (bar 2 13 16 13 16)) (live_start () holding)"
  have c: "eng_pos holding \<noteq> None"
    "(case fst res of Inr _ \<Rightarrow> True | Inl _ \<Rightarrow> False)"
    "(case fst (eng_candle (bar 2 13 16 13 16) holding) of Inr _ \<Rightarrow> True | Inl _ \<Rightarrow> False)"
    unfolding res_def by code_simp+
  obtain sig x where x: "eng_candle (bar 2 13 16 13 16) holding = (Inr sig, x)"
    using c(3) by (cases "eng_candle (bar 2 13 16 13 16) holding") (auto split: sum.splits)
  obtain l' where l': "res = (Inr (), l')" using c(2) by (cases res) (auto split: sum.splits)
  have "eng_pos (ls_engine l') = None"
    by (rule live_no_ghost [OF _ _ _ _ _ _ l' [unfolded res_def]])
      (simp_all add: refusing_terminal_def live_start_def live_demo_args_def feed_of_def holding_inv x)
  then show ?thesis using c(1) l' by (simp add: res_def)
qed

section \<open>The loop is a candle stream\<close>

lemma hook_flat_flag:
  assumes "validate r = Inr c"
  shows "snd (hook_flat eng_flat True r x) = snd (eng_flat (c_ts c) x)"
proof -
  have "r = raw_of c" using validate_InrD(1) [OF assms] by simp
  then have "\<lparr>local_us = r_local r, tz_off = (case r_tz r of None \<Rightarrow> 0 | Some z \<Rightarrow> z)\<rparr> = c_ts c"
    by (simp add: raw_of_def)
  then show ?thesis by (simp add: hook_flat_def split: prod.splits option.splits)
qed

lemma live_bar_engine:
  assumes "live_bar a m k f l = (r, l')"
  shows "case eng_candle (fd_raw f) (ls_engine l) of
      (Inl er, x) \<Rightarrow> ls_engine l' = x \<and> r = (if skippable er then Inr () else Inl er)
    | (Inr sig, x) \<Rightarrow> \<exists>fl. ls_engine l' = snd (hook_flat eng_flat fl (fd_raw f) x)"
proof (rule live_bar_cases [OF assms])
  fix er x assume "eng_candle (fd_raw f) (ls_engine l) = (Inl er, x)"
      "l' = (refresh_part m k f l)\<lparr>ls_engine := x\<rparr>" "r = (if skippable er then Inr () else Inl er)"
  then show ?thesis by simp
next
  fix s x e assume y: "eng_candle (fd_raw f) (ls_engine l) = (Inr (Some s), x)"
      "on_signal a m k f s ((refresh_part m k f l)\<lparr>ls_engine := x\<rparr>) = (Inl e, l')"
  have "ls_engine l' = snd (hook_flat eng_flat False (fd_raw f) x)"
    using on_signal_ok(1) [OF y(2)] by (simp add: hook_flat_def)
  then show ?thesis using y(1) by auto
next
  fix sig x c l1
  assume y: "eng_candle (fd_raw f) (ls_engine l) = (Inr sig, x)" "validate (fd_raw f) = Inr c"
    "case sig of None \<Rightarrow> l1 = (refresh_part m k f l)\<lparr>ls_engine := x\<rparr>
       | Some s \<Rightarrow> on_signal a m k f s ((refresh_part m k f l)\<lparr>ls_engine := x\<rparr>) = (Inr (), l1)"
    "on_bar a m k f c l1 = (r, l')"
  have e1: "ls_engine l1 = x"
  proof (cases sig)
    case (Some s)
    then have "on_signal a m k f s ((refresh_part m k f l)\<lparr>ls_engine := x\<rparr>) = (Inr (), l1)"
      using y(3) by simp
    from on_signal_ok(1) [OF this] show ?thesis by simp
  qed (use y(3) in simp)
  have "ls_engine l' = x \<or> ls_engine l' = snd (eng_flat (c_ts c) x)"
    using on_bar_ok [OF y(4)] e1 by (simp add: barred_def)
  moreover have "snd (hook_flat eng_flat False (fd_raw f) x) = x" by (simp add: hook_flat_def)
  ultimately have "\<exists>fl. ls_engine l' = snd (hook_flat eng_flat fl (fd_raw f) x)"
    using hook_flat_flag [OF y(2)] by metis
  then show ?thesis using y(1) by simp
qed

lemma live_run_stream:
  "\<exists>flags. length flags \<le> length fs \<and> ls_engine (snd (live_run a m k fs l))
     = rr_state (stream_run eng_candle eng_flat False (zip (map fd_raw fs) flags) (ls_engine l))"
proof (induction fs arbitrary: l)
  case Nil
  then show ?case by simp
next
  case (Cons f fs)
  obtain r l1 where b: "live_bar a m k f l = (r, l1)" by (meson surj_pair)
  obtain res x where e: "eng_candle (fd_raw f) (ls_engine l) = (res, x)" by (meson surj_pair)
  note step = live_bar_engine [OF b, unfolded e]
  obtain fl where one: "rr_state (stream_run eng_candle eng_flat False [(fd_raw f, fl)] (ls_engine l))
      = ls_engine l1"
    and more: "r = Inr () \<Longrightarrow> rr_state (stream_run eng_candle eng_flat False ((fd_raw f, fl) # bars) (ls_engine l))
      = rr_state (stream_run eng_candle eng_flat False bars (ls_engine l1))" for bars
  proof (cases res)
    case (Inl er)
    then show thesis using that [of False] step e by (auto split: if_splits)
  next
    case (Inr sig)
    then obtain fl where fl: "ls_engine l1 = snd (hook_flat eng_flat fl (fd_raw f) x)" using step by auto
    obtain fs' x' where h: "hook_flat eng_flat fl (fd_raw f) x = (fs', x')" by (meson surj_pair)
    show thesis by (rule that [of fl]) (use e Inr fl h in \<open>simp_all add: Let_def\<close>)
  qed
  show ?case
  proof (cases r)
    case (Inl er)
    show ?thesis by (rule exI [of _ "[fl]"]) (use b Inl one in simp)
  next
    case (Inr u)
    obtain flags where fl: "length flags \<le> length fs" "ls_engine (snd (live_run a m k fs l1))
        = rr_state (stream_run eng_candle eng_flat False (zip (map fd_raw fs) flags) (ls_engine l1))"
      using Cons.IH by blast
    show ?thesis by (rule exI [of _ "fl # flags"]) (use b Inr fl more in simp)
  qed
qed

text \<open>C4: the live loop refines the candle stream. For any arguments, terminal, clocks, macro files and
  cache, running the loop drives the engine exactly as \<open>CandleStream.run\<close> drives it on a prefix of
  the same candles, for some choice of the bars on which the hook flattens: no handler, guard or
  broker answer moves the engine in any other way, and an error only cuts the run short.\<close>

theorem live_refines_stream:
  "\<exists>flags. length flags \<le> length fs \<and> ls_engine (snd (live_run a m k fs l))
     = rr_state (stream_run eng_candle eng_flat False (zip (map fd_raw fs) flags) (ls_engine l))"
  by (rule live_run_stream)

text \<open>The live loop's books balance, for each of the three strategies: whatever the guards, the
  terminal and the errors do, the entries and full exits the engine announces from a state in its
  invariant on differ by exactly the change in whether it holds a position.\<close>

theorem live_books_balance:
  assumes "eng_inv (ls_engine l)" and "live_run a m k fs l = (r, l')"
  shows "\<exists>new. eng_out (ls_engine l') = eng_out (ls_engine l) @ new
     \<and> (if eng_pos (ls_engine l) = None then 0 else 1) + entries (sigs_in new)
        = closings (sigs_in new) + (if eng_pos (ls_engine l') = None then 0 else 1)
     \<and> path_end (eng_state (ls_engine l)) new = Some (eng_state (ls_engine l'))"
proof -
  obtain bars where b: "ls_engine l' = rr_state (stream_run eng_candle eng_flat False bars (ls_engine l))"
    using live_run_stream [of fs a m k l] assms(2) by auto
  define sigs where "sigs = rr_signals (stream_run eng_candle eng_flat False bars (ls_engine l))"
  obtain new where new: "eng_out (ls_engine l') = eng_out (ls_engine l) @ new" "sigs_in new = sigs"
    "path_end (eng_state (ls_engine l)) new = Some (eng_state (ls_engine l'))"
    using eng.stream_logged [OF assms(1), of False bars] by (auto simp: logged_def b sigs_def)
  have "linked (eng_pos (ls_engine l) \<noteq> None) sigs"
    "open_after (eng_pos (ls_engine l) \<noteq> None) sigs = (eng_pos (ls_engine l') \<noteq> None)"
    using eng.stream_linked [OF assms(1), of False bars] by (simp_all add: b sigs_def)
  from linked_balance [OF this(1)] this(2) new show ?thesis by (auto split: if_splits)
qed

theorem live_books_balance_witness:
  "\<exists>r l' new. live_run live_demo_args (timeout_terminal True) (broker_of live_demo_args armed)
       [feed_of (bar 1 11 14 11 13)] (live_start [] armed) = (r, l')
     \<and> eng_out (ls_engine l') = eng_out armed @ new \<and> entries (sigs_in new) = 1
     \<and> path_end (eng_state armed) new = Some (eng_state (ls_engine l'))"
proof -
  obtain r l' where r: "live_run live_demo_args (timeout_terminal True) (broker_of live_demo_args armed)
       [feed_of (bar 1 11 14 11 13)] (live_start [] armed) = (r, l')" by (meson surj_pair)
  have s: "ls_engine (live_start ([] :: int list) armed) = armed" by (simp add: live_start_def)
  obtain new where new: "eng_out (ls_engine l') = eng_out armed @ new"
    "path_end (eng_state armed) new = Some (eng_state (ls_engine l'))"
    using live_books_balance [OF _ r] armed_inv unfolding s by blast
  have "entries (sigs_in (drop (length (eng_out armed)) (eng_out (ls_engine (snd (live_run live_demo_args
      (timeout_terminal True) (broker_of live_demo_args armed) [feed_of (bar 1 11 14 11 13)]
      (live_start [] armed))))))) = 1" by code_simp
  then have "entries (sigs_in new) = 1" unfolding r snd_conv new(1) by simp
  then show ?thesis using r new by blast
qed

end
