(* ===== verification/Live_Sizing.thy ===== *)
theory Live_Sizing
  imports Live_Properties Macro_Properties
begin

text \<open>
  The money side of \<open>orb live\<close>: the volume of every opening request of a dynamically sized entry
  against the balance and the day's remaining loss budget; and, as concrete runs, the places where
  the live loop falls short of its comments: a close that is tried once, a broker error that ends
  the process, a snapshot that never expires.
\<close>

section \<open>Sizes within budget\<close>

lemma size_entry_lot:
  assumes "size_entry a m s l = (Inr (Some s2), b)" and "sizing_pct a (ls_engine l) = Some pct"
  obtains st sp b1 bal lot where "s_stop s = Some st" "symbol_specs m (ls_broker l) = (Inr sp, b1)"
    "balance m b1 = (Inr bal, b)" "0 < lot" "s2 = s\<lparr>s_qty := Some lot\<rparr>"
    "lot = compute_lot bal pct (s_price s) st (sp_value_per_move sp) (sp_vol_min sp) (sp_vol_step sp)
       (sp_vol_max sp) (map_option day_budget (ls_breaker l))"
  using assms that
  by (auto simp: size_entry_def Let_def split: option.splits prod.splits sum.splits if_splits)

lemma place_order_opens:
  assumes "place_order a m k s l = (r, l')" and "s_kind s = ENTRY" and "k_mode k = ''market''"
    and "q \<in> set (sent_in l l')" and "opens_trade q"
  shows "good_entry k s q"
proof -
  obtain res b where x: "execute m k s (ls_broker l) = (res, b)" by (meson surj_pair)
  have g: "only_sends (good_entry k s) (bk_sent (ls_broker l)) b"
    using x assms(2,3) open_market_good [of m k s "ls_broker l"]
    by (auto simp: execute_def open_signal_def split: if_splits prod.splits sum.splits)
  have t: "tame b (ls_broker l')"
    using assms(1) close_all_tame
    by (auto simp: place_order_def x Let_def split: sum.splits option.splits if_splits prod.splits)
  obtain n1 n2 where n: "bk_sent b = bk_sent (ls_broker l) @ n1" "\<forall>q \<in> set n1. good_entry k s q"
    "bk_sent (ls_broker l') = bk_sent b @ n2" "\<forall>q \<in> set n2. \<not> opens_trade q"
    using g t by (auto simp: only_sends_def tame_def)
  then have "sent_in l l' = n1 @ n2" by (simp add: sent_in_def)
  then show ?thesis using assms(4,5) n(2,4) by auto
qed

lemma macro_filter_same:
  assumes "macro_filter a f s l = (Inr (Some s1), l1)"
  shows "s_price s1 = s_price s \<and> s_stop s1 = s_stop s \<and> s_kind s1 = s_kind s
     \<and> ls_broker l1 = ls_broker l \<and> ls_engine l1 = ls_engine l \<and> ls_breaker l1 = ls_breaker l"
  using assms by (auto simp: macro_filter_def rescaled_def split: option.splits prod.splits sum.splits if_splits)

definition lot_slack :: "specs \<Rightarrow> flt \<Rightarrow> flt \<Rightarrow> flt" where
  "lot_slack sp entry st = (sp_vol_step sp / 10 ^ 9 + 1 / (2 * 10 ^ 10)) * (\<bar>entry - st\<bar> * sp_value_per_move sp)"

text \<open>C5: a sized entry stays within its budgets all the way to the terminal. When the strategy sizes
  dynamically, every opening request a signal leads to, re-quotes and smaller volumes included,
  loses at the signal's stop at most the risk percentage of the balance read for it and at most
  what the daily limit leaves, up to the lot's rounding slack.\<close>

theorem live_entry_sized:
  assumes "on_signal a m k f s l = (r, l')" and "sizing_pct a (ls_engine l) = Some pct"
    and "k_mode k = ''market''" and "q \<in> set (sent_in l l')" and "opens_trade q"
    and specs: "\<forall>b sp b'. symbol_specs m b = (Inr sp, b') \<longrightarrow> 0 < sp_vol_step sp \<and> 0 \<le> sp_vol_max sp"
  shows "\<exists>st sp b1 bal b2 vol. s_stop s = Some st \<and> symbol_specs m (ls_broker l) = (Inr sp, b1)
     \<and> balance m b1 = (Inr bal, b2) \<and> q_volume q = Some vol
     \<and> lot_risk vol (s_price s) st (sp_value_per_move sp) \<le> bal * (pct / 100) + lot_slack sp (s_price s) st
     \<and> (\<forall>br. ls_breaker l = Some br \<longrightarrow> lot_risk vol (s_price s) st (sp_value_per_move sp)
          \<le> day_budget br + lot_slack sp (s_price s) st)"
proof -
  define lp where "lp = l\<lparr>ls_printed := ls_printed l @ [s]\<rparr>"
  have "\<not> tame (ls_broker l) (ls_broker l')" using assms(4,5) tame_sent_in by blast
  then obtain s1 l1 s2 b b1 where o: "s_kind s = ENTRY" "macro_filter a f s lp = (Inr (Some s1), l1)"
    "size_entry a m s1 l1 = (Inr (Some s2), b)" "spread_filter a m b = (True, b1)"
    "place_order a m k s2 (put_broker b1 l1) = (r, l')"
    using on_signal_opens [OF assms(1)] unfolding lp_def by metis
  have same: "s_price s1 = s_price s" "s_stop s1 = s_stop s" "s_kind s1 = s_kind s"
    "ls_broker l1 = ls_broker l" "ls_engine l1 = ls_engine l" "ls_breaker l1 = ls_breaker l"
    using macro_filter_same [OF o(2)] by (simp_all add: lp_def)
  obtain st sp b0 bal lot where z: "s_stop s = Some st" "symbol_specs m (ls_broker l) = (Inr sp, b0)"
    "balance m b0 = (Inr bal, b)" "0 < lot" "s2 = s1\<lparr>s_qty := Some lot\<rparr>"
    "lot = compute_lot bal pct (s_price s) st (sp_value_per_move sp) (sp_vol_min sp) (sp_vol_step sp)
       (sp_vol_max sp) (map_option day_budget (ls_breaker l))"
    by (rule size_entry_lot [OF o(3), unfolded same]) (use assms(2) in blast)+
  have "bk_sent b1 = bk_sent (ls_broker l)"
    using spread_filter_sent [OF o(4)] size_entry_sent [OF o(3)] same by simp
  then have "sent_in (put_broker b1 l1) l' = sent_in l l'" by (simp add: sent_in_def)
  then have "good_entry k s2 q"
    using place_order_opens [OF o(5) _ assms(3), of q] assms(4,5) o(1) same z(5) by simp
  then obtain vol where vol: "q_volume q = Some vol" "vol \<le> wanted k s2"
    using volume_ladder_le by (auto simp: good_entry_def)
  then have le: "vol \<le> lot" using z(4,5) by (simp add: wanted_def nonzero_def)
  have vpm: "0 < sp_value_per_move sp"
    using z(4) unfolding z(6) compute_lot_def Let_def by (auto split: if_splits)
  have "lot_risk vol (s_price s) st (sp_value_per_move sp) \<le> lot_risk lot (s_price s) st (sp_value_per_move sp)"
    unfolding lot_risk_def by (rule mult_right_mono [OF le]) (use vpm in simp)
  moreover have "lot_risk lot (s_price s) st (sp_value_per_move sp) \<le> bal * (pct / 100) + lot_slack sp (s_price s) st
     \<and> (\<forall>x. map_option day_budget (ls_breaker l) = Some x \<longrightarrow>
          lot_risk lot (s_price s) st (sp_value_per_move sp) \<le> x + lot_slack sp (s_price s) st)"
    using lot_budget [of "sp_vol_step sp" "sp_vol_max sp" bal pct "s_price s" st "sp_value_per_move sp"
        "sp_vol_min sp" "map_option day_budget (ls_breaker l)"] specs z(2,4)
    unfolding z(6) [symmetric] lot_slack_def by fastforce
  ultimately show ?thesis using z(1-3) vol(1) by fastforce
qed

definition priced_terminal :: "int list terminal" where
  "priced_terminal = (timeout_terminal True)\<lparr>tm_symbol := (\<lambda>w. (Some \<lparr>y_filling = 0, y_step = Some (1 / 100),
     y_vol_min = Some (1 / 100), y_vol_max = Some 50, y_tick_value = Some 1, y_tick_size = Some (1 / 100)\<rparr>, w))\<rparr>"

definition sized_args :: live_args where
  "sized_args = live_demo_args\<lparr>la_risk_pct := Some 1\<rparr>"

theorem live_entry_sized_witness:
  "\<exists>q. sent_in (live_start [] armed) (snd (on_signal sized_args priced_terminal (broker_of sized_args armed)
       (feed_of (bar 1 11 14 11 13)) demo_entry (live_start [] armed))) = [q]
     \<and> q_volume q = Some (3 / 100) \<and> (\<exists>sp. sp_value_per_move sp = 100
       \<and> lot_risk (3 / 100) 100 97 (sp_value_per_move sp) \<le> 1000 * (1 / 100) + lot_slack sp 100 97)"
proof -
  obtain r l' where r: "on_signal sized_args priced_terminal (broker_of sized_args armed)
       (feed_of (bar 1 11 14 11 13)) demo_entry (live_start [] armed) = (r, l')" by (meson surj_pair)
  have "case sent_in (live_start [] armed) (snd (on_signal sized_args priced_terminal (broker_of sized_args armed)
       (feed_of (bar 1 11 14 11 13)) demo_entry (live_start [] armed))) of
      [q] \<Rightarrow> q_volume q = Some (3 / 100) \<and> opens_trade q | _ \<Rightarrow> False" by code_simp
  then obtain q where q: "sent_in (live_start [] armed) l' = [q]" "q_volume q = Some (3 / 100)" "opens_trade q"
    unfolding r snd_conv by (auto split: list.splits)
  have sp: "symbol_specs priced_terminal b = (Inr sp, b') \<Longrightarrow> sp_vol_step sp = 1 / 100 \<and> sp_vol_max sp = 50
      \<and> sp_value_per_move sp = 100" for b :: "int list broker" and sp b'
    by (auto simp: symbol_specs_def priced_terminal_def ask_def or_default_def nonzero_def Let_def)
  have specs: "\<forall>b sp b'. symbol_specs priced_terminal b = (Inr sp, b') \<longrightarrow> 0 < sp_vol_step sp \<and> 0 \<le> sp_vol_max sp"
    using sp by fastforce
  have bal: "balance priced_terminal b = (Inr bal, b') \<Longrightarrow> bal = 1000" for b :: "int list broker" and bal b'
    by (auto simp: balance_def priced_terminal_def timeout_terminal_def ask_def)
  have "\<exists>st sp b1 bal b2 vol. s_stop demo_entry = Some st
     \<and> symbol_specs priced_terminal (ls_broker (live_start [] armed)) = (Inr sp, b1)
     \<and> balance priced_terminal b1 = (Inr bal, b2) \<and> q_volume q = Some vol
     \<and> lot_risk vol (s_price demo_entry) st (sp_value_per_move sp)
         \<le> bal * (1 / 100) + lot_slack sp (s_price demo_entry) st
     \<and> (\<forall>br. ls_breaker (live_start ([] :: int list) armed) = Some br
         \<longrightarrow> lot_risk vol (s_price demo_entry) st (sp_value_per_move sp)
          \<le> day_budget br + lot_slack sp (s_price demo_entry) st)"
    by (rule live_entry_sized [OF r _ _ _ q(3) specs])
      (use q in \<open>simp_all add: live_start_def armed_def sizing_pct_def sized_args_def broker_of_def
        dynamic_def live_demo_args_def\<close>)
  then obtain st sp' b1 bal' b2 vol where w: "s_stop demo_entry = Some st"
    "symbol_specs priced_terminal (ls_broker (live_start [] armed)) = (Inr sp', b1)"
    "balance priced_terminal b1 = (Inr bal', b2)" "q_volume q = Some vol"
    "lot_risk vol (s_price demo_entry) st (sp_value_per_move sp')
       \<le> bal' * (1 / 100) + lot_slack sp' (s_price demo_entry) st" by blast
  have e: "vol = 3 / 100" "st = 97" "s_price demo_entry = 100" "bal' = 1000"
    using w(1,4) q(2) bal [OF w(3)] by (simp_all only: demo_entry_def signal.simps option.inject)
  show ?thesis using q(1,2) sp [OF w(2)] w(5) unfolding r snd_conv e by blast
qed

section \<open>Where the live loop falls short\<close>

text \<open>A market that is closed: every request is refused with 10018, a long position stays listed.\<close>

definition closed_terminal :: "unit terminal" where
  "closed_terminal = refusing_terminal\<lparr>
     tm_send := (\<lambda>q w. (Some \<lparr>sr_retcode = 10018, sr_order = 0, sr_deal = 0, sr_price = 0,
        sr_volume = 0, sr_comment = ''Market closed''\<rparr>, w)),
     tm_positions := (\<lambda>w. ([\<lparr>b_ticket = 1, b_type = 0, b_volume = 1, b_open = 13, b_sl = Some 8,
        b_magic = 20260610, b_tp = None\<rparr>], w))\<rparr>"

definition losing_start :: "unit live" where
  "losing_start = (live_start () holding)\<lparr>ls_breaker := Some \<lparr>db_max = Some 100, db_pct = None,
     db_day = Some 0, db_start = 2000, db_cap = 100, db_delta = 0, db_halted = False\<rparr>\<rparr>"

text \<open>The daily-loss close is tried once. The halt is latched before the positions are closed, so when
  the market refuses the one close request the position stays open: the next bars are halted, and
  none of them asks to close it again.\<close>

theorem live_halt_closes_once:
  "(case live_run live_demo_args closed_terminal (broker_of live_demo_args holding)
        [feed_of (bar 2 13 16 13 16), feed_of (bar 3 16 16 15 16), feed_of (bar 4 16 16 15 16)] losing_start of
      (r, l') \<Rightarrow> (case r of Inr _ \<Rightarrow> True | Inl _ \<Rightarrow> False)
        \<and> (case ls_breaker l' of Some br \<Rightarrow> db_halted br | None \<Rightarrow> False)
        \<and> eng_pos (ls_engine l') \<noteq> None
        \<and> map q_action (sent_in losing_start l') = [DEAL, SLTP, SLTP, SLTP])"
  by code_simp

text \<open>A failing contract query ends the process: sizing asks the adapter outside of any handler, so the
  adapter's own error leaves \<open>on_signal\<close> and with it the stream.\<close>

theorem live_sizing_error_ends_run:
  "(case live_run sized_args (timeout_terminal True) (broker_of sized_args armed)
        [feed_of (bar 1 11 14 11 13), feed_of (bar 2 13 16 13 16)] (live_start [] armed) of
      (r, l') \<Rightarrow> (case r of Inl e \<Rightarrow> orb_error e | Inr _ \<Rightarrow> False) \<and> eng_pos (ls_engine l') \<noteq> None)"
  by code_simp

text \<open>A snapshot never expires: once warm, the balance the handlers read is the last one refreshed,
  however often the refresh has failed since and however old it is.\<close>

theorem snapshot_never_expires:
  "\<forall>m k n now later v ps b. (\<forall>w. fst (tm_account m w) = None) \<longrightarrow>
     fst (cache_balance m later None
       (fst (((\<lambda>(ch, b). cache_refresh m k now ch b) ^^ n)
          (\<lparr>ch_balance = Some v, ch_positions = Some ps, ch_updated = Some 0\<rparr>, b))) b) = Inr v"
proof (intro allI impI)
  fix m :: "'w terminal" and k n now later v ps and b :: "'w broker"
  assume f: "\<forall>w. fst (tm_account m w) = None"
  let ?ch = "\<lparr>ch_balance = Some v, ch_positions = Some ps, ch_updated = Some 0\<rparr>"
  have one: "fst (cache_refresh m k now ?ch b1) = ?ch" for b1
  proof -
    obtain w where "tm_account m (bk_world b1) = (None, w)"
      using f by (metis prod.collapse)
    then show ?thesis by (simp add: cache_refresh_def balance_def ask_def)
  qed
  have "fst (((\<lambda>(ch, b). cache_refresh m k now ch b) ^^ n) (?ch, b)) = ?ch" for n
    by (induction n) (auto simp: one split: prod.splits)
  then show "fst (cache_balance m later None
       (fst (((\<lambda>(ch, b). cache_refresh m k now ch b) ^^ n) (?ch, b))) b) = Inr v"
    by (simp add: cache_balance_def cache_fresh_def)
qed

end
