(* ===== verification/Text_Time.thy ===== *)
theory Text_Time
  imports Macro_Guard
begin

text \<open>
  The text operations of Python's standard library that the sidecar, the event layer and the feeds
  use: ASCII case and stripping, decimal numbers, and the calendar texts of \<open>strftime\<close> and
  \<open>isoformat\<close>, with a reader that inverts them. Case mapping is on ASCII letters.
\<close>

section \<open>Dictionaries and texts\<close>

text \<open>\<open>list(dict.fromkeys(xs))\<close>: the distinct elements in order of first occurrence.\<close>

definition fromkeys :: "'a list \<Rightarrow> 'a list" where
  "fromkeys xs = fold (\<lambda>x acc. if x \<in> set acc then acc else acc @ [x]) xs []"

lemma fromkeys_snoc: "fromkeys (xs @ [x]) = (if x \<in> set (fromkeys xs) then fromkeys xs else fromkeys xs @ [x])"
  by (simp add: fromkeys_def)

lemma fromkeys_Nil [simp]: "fromkeys [] = []"
  by (simp add: fromkeys_def)

lemma set_fromkeys [simp]: "set (fromkeys xs) = set xs"
  by (induction xs rule: rev_induct) (auto simp: fromkeys_snoc)

lemma distinct_fromkeys [simp]: "distinct (fromkeys xs)"
  by (induction xs rule: rev_induct) (simp_all add: fromkeys_snoc)

lemma map_of_tagged: "map_of (map (\<lambda>x. (x, f x)) xs) k = (if k \<in> set xs then Some (f k) else None)"
  by (induction xs) auto

definition lower_char :: "char \<Rightarrow> char" where
  "lower_char c = (let n = (of_char c :: nat) in if 65 \<le> n \<and> n \<le> 90 then char_of (n + 32) else c)"

definition lower :: "string \<Rightarrow> string" where "lower s = map lower_char s"

definition is_space :: "char \<Rightarrow> bool" where
  "is_space c = ((of_char c :: nat) \<in> {9, 10, 11, 12, 13, 28, 29, 30, 31, 32, 133, 160})"

definition strip :: "string \<Rightarrow> string" where
  "strip s = rev (dropWhile is_space (rev (dropWhile is_space s)))"

definition is_digit :: "char \<Rightarrow> bool" where
  "is_digit c = (let n = (of_char c :: nat) in 48 \<le> n \<and> n \<le> 57)"

definition is_lower :: "char \<Rightarrow> bool" where
  "is_lower c = (let n = (of_char c :: nat) in 97 \<le> n \<and> n \<le> 122)"

text \<open>\<open>needle in text\<close>.\<close>

fun contains :: "string \<Rightarrow> string \<Rightarrow> bool" where
  "contains p [] = (p = [])"
| "contains p (c # cs) = (take (length p) (c # cs) = p \<or> contains p cs)"

section \<open>Decimal numbers\<close>

definition digit :: "nat \<Rightarrow> char" where "digit n = char_of (48 + n mod 10)"

definition digit_val :: "char \<Rightarrow> nat" where "digit_val c = of_char c - 48"

text \<open>\<open>n\<close> printed with exactly \<open>w\<close> digits (\<open>%02d\<close>, \<open>%04d\<close> of a number that fits).\<close>

fun padded :: "nat \<Rightarrow> nat \<Rightarrow> string" where
  "padded 0 n = []"
| "padded (Suc w) n = padded w (n div 10) @ [digit n]"

function show_nat :: "nat \<Rightarrow> string" where
  "show_nat n = (if n < 10 then [digit n] else show_nat (n div 10) @ [digit n])"
  by pat_completeness auto
termination by (relation "measure id") simp_all

declare show_nat.simps [simp del]

definition show_int :: "int \<Rightarrow> string" where
  "show_int i = (if i < 0 then CHR ''-'' # show_nat (nat (- i)) else show_nat (nat i))"

text \<open>The format \<open>.df\<close> of a number, and \<open>+.df\<close> with its sign.\<close>

definition fixed :: "nat \<Rightarrow> flt \<Rightarrow> string" where
  "fixed d x = (let n = nat (round_even (\<bar>x\<bar> * 10 ^ d)) in
     (if x < 0 then ''-'' else []) @ show_nat (n div 10 ^ d)
     @ (if d = 0 then [] else CHR ''.'' # padded d (n mod 10 ^ d)))"

definition fixed_signed :: "nat \<Rightarrow> flt \<Rightarrow> string" where
  "fixed_signed d x = (if x < 0 then [] else ''+'') @ fixed d x"

definition num :: "string \<Rightarrow> nat" where
  "num s = foldl (\<lambda>n c. 10 * n + digit_val c) 0 s"

lemma digit_val_digit [simp]: "digit_val (digit n) = n mod 10"
  by (simp add: digit_val_def digit_def)

lemma is_digit_digit [simp]: "is_digit (digit n)"
proof -
  have "n mod 10 < 10" by simp
  then show ?thesis by (simp add: is_digit_def digit_def)
qed

lemma num_snoc [simp]: "num (s @ [c]) = 10 * num s + digit_val c"
  by (simp add: num_def)

lemma length_padded [simp]: "length (padded w n) = w"
  by (induction w arbitrary: n) simp_all

lemma digits_padded [simp]: "list_all is_digit (padded w n)"
  by (induction w arbitrary: n) simp_all

lemma num_padded: "n < 10 ^ w \<Longrightarrow> num (padded w n) = n"
proof (induction w arbitrary: n)
  case 0
  then show ?case by (simp add: num_def)
next
  case (Suc w)
  have "n div 10 < 10 ^ w" using Suc.prems by (simp add: less_mult_imp_div_less mult.commute)
  then show ?case using Suc.IH by simp
qed

lemma num_show_nat: "num (show_nat n) = n"
proof (induction n rule: show_nat.induct)
  case (1 n)
  show ?case
  proof (cases "n < 10")
    case True
    then show ?thesis by (simp add: show_nat.simps num_def)
  next
    case False
    then show ?thesis using 1 by (simp add: show_nat.simps [of n])
  qed
qed

text \<open>Subtraction of Python floats.\<close>

fun pf_sub :: "pyfloat \<Rightarrow> pyfloat \<Rightarrow> pyfloat" where
  "pf_sub NaN _ = NaN"
| "pf_sub _ NaN = NaN"
| "pf_sub (Fin a) (Fin b) = Fin (a - b)"
| "pf_sub (Fin _) PosInf = NegInf"
| "pf_sub (Fin _) NegInf = PosInf"
| "pf_sub PosInf (Fin _) = PosInf"
| "pf_sub NegInf (Fin _) = NegInf"
| "pf_sub PosInf PosInf = NaN"
| "pf_sub PosInf NegInf = PosInf"
| "pf_sub NegInf NegInf = NaN"
| "pf_sub NegInf PosInf = NegInf"

section \<open>The calendar\<close>

text \<open>Days since 1970-01-01 of the proleptic Gregorian calendar, both ways, with the year started
  in March so that the leap day is its last.\<close>

text \<open>Day of a 400-year era to year of the era and day of the year, by centuries, leap cycles, years.\<close>

definition split_era :: "int \<Rightarrow> int \<times> int" where
  "split_era doe = (let c = min 3 (doe div 36524); r = doe - 36524 * c;
       q = min 24 (r div 1461); r' = r - 1461 * q; a = min 3 (r' div 365)
     in (100 * c + 4 * q + a, r' - 365 * a))"

definition civil :: "int \<Rightarrow> int \<times> int \<times> int" where
  "civil days = (let z = days + 719468; era = z div 146097;
       (yoe, doy) = split_era (z mod 146097);
       mp = (5 * doy + 2) div 153; d = doy - (153 * mp + 2) div 5 + 1;
       m = (if mp < 10 then mp + 3 else mp - 9)
     in (yoe + era * 400 + (if m \<le> 2 then 1 else 0), m, d))"

definition days_of :: "int \<Rightarrow> int \<Rightarrow> int \<Rightarrow> int" where
  "days_of y m d = (let y' = (if m \<le> 2 then y - 1 else y); era = y' div 400; yoe = y' mod 400;
       mp = (if m > 2 then m - 3 else m + 9); doy = (153 * mp + 2) div 5 + d - 1;
       doe = yoe * 365 + yoe div 4 - yoe div 100 + doy
     in era * 146097 + doe - 719468)"

lemma div_rest: "0 < (k::int) \<Longrightarrow> \<exists>r. k * (x div k) + r = x \<and> 0 \<le> r \<and> r < k"
  by (rule exI [of _ "x mod k"]) simp

lemma clamped_div:
  fixes x k n b :: int
  assumes "0 \<le> x" "x \<le> b" "0 < k" "0 \<le> n" "k - 1 \<le> m" "b - k * n \<le> m" "c = min n (x div k)"
  shows "0 \<le> c \<and> c \<le> n \<and> 0 \<le> x - k * c \<and> x - k * c \<le> m"
proof -
  have d: "0 \<le> x div k" using assms by (simp add: pos_imp_zdiv_nonneg_iff)
  have e: "x - k * (x div k) = x mod k" by (simp add: minus_mult_div_eq_mod)
  have r: "0 \<le> x mod k" "x mod k < k" using assms by simp_all
  show ?thesis
  proof (cases "x div k \<le> n")
    case True
    then show ?thesis using assms d e r by simp
  next
    case False
    then have cn: "c = n" using assms by simp
    have "k * n \<le> k * (x div k)" using False assms by simp
    then have "0 \<le> x - k * n" using e r by linarith
    then show ?thesis unfolding cn using assms by linarith
  qed
qed

lemma split_eraE:
  assumes "0 \<le> doe" "doe < 146097" "split_era doe = (yoe, doy)"
  shows "0 \<le> yoe" "yoe \<le> 399" "0 \<le> doy" "doy \<le> 365"
    "yoe * 365 + yoe div 4 - yoe div 100 + doy = doe"
proof -
  define c where "c = min 3 (doe div 36524)"
  define r where "r = doe - 36524 * c"
  define q where "q = min 24 (r div 1461)"
  define r' where "r' = r - 1461 * q"
  define a where "a = min 3 (r' div 365)"
  have c: "0 \<le> c \<and> c \<le> 3 \<and> 0 \<le> r \<and> r \<le> 36524" unfolding r_def
    by (rule clamped_div [OF _ _ _ _ _ _ c_def, of 146096]) (use assms in simp_all)
  have q: "0 \<le> q \<and> q \<le> 24 \<and> 0 \<le> r' \<and> r' \<le> 1460" unfolding r'_def
    by (rule clamped_div [OF _ _ _ _ _ _ q_def, of 36524]) (use c in simp_all)
  have a: "0 \<le> a \<and> a \<le> 3 \<and> 0 \<le> r' - 365 * a \<and> r' - 365 * a \<le> 365"
    by (rule clamped_div [OF _ _ _ _ _ _ a_def, of 1460]) (use q in simp_all)
  have e: "yoe = 100 * c + 4 * q + a" "doy = r' - 365 * a"
    using assms(3) unfolding split_era_def Let_def c_def [symmetric] r_def [symmetric] q_def [symmetric]
      r'_def [symmetric] a_def [symmetric] prod.inject by blast+
  have d: "yoe div 4 = 25 * c + q" "yoe div 100 = c"
    by (rule int_div_pos_eq [where r = a], use a e(1) in simp_all)
      (rule int_div_pos_eq [where r = "4 * q + a"], use q a e(1) in simp_all)
  show "0 \<le> yoe" "yoe \<le> 399" using c q a unfolding e(1) by linarith+
  show "0 \<le> doy" "doy \<le> 365" using a unfolding e(2) by linarith+
  show "yoe * 365 + yoe div 4 - yoe div 100 + doy = doe"
    unfolding d unfolding e r'_def r_def by simp
qed

lemma month_bounds:
  assumes "0 \<le> doy" "doy \<le> (365::int)"
  shows "0 \<le> (5 * doy + 2) div 153" "(5 * doy + 2) div 153 \<le> 11"
    "1 \<le> doy - (153 * ((5 * doy + 2) div 153) + 2) div 5 + 1"
    "doy - (153 * ((5 * doy + 2) div 153) + 2) div 5 + 1 \<le> 31"
proof -
  define mp where "mp = (5 * doy + 2) div 153"
  define w where "w = (153 * mp + 2) div 5"
  obtain a where a: "153 * mp + a = 5 * doy + 2" "0 \<le> a" "a < 153"
    using div_rest [of 153 "5 * doy + 2"] by (auto simp: mp_def)
  obtain b where b: "5 * w + b = 153 * mp + 2" "0 \<le> b" "b < 5"
    using div_rest [of 5 "153 * mp + 2"] by (auto simp: w_def)
  have "0 \<le> mp" "mp \<le> 11" "1 \<le> doy - w + 1" "doy - w + 1 \<le> 31" using a b assms by linarith+
  then show "0 \<le> (5 * doy + 2) div 153" "(5 * doy + 2) div 153 \<le> 11"
    "1 \<le> doy - (153 * ((5 * doy + 2) div 153) + 2) div 5 + 1"
    "doy - (153 * ((5 * doy + 2) div 153) + 2) div 5 + 1 \<le> 31"
    unfolding mp_def [symmetric] w_def [symmetric] .
qed

theorem days_of_civil:
  assumes "civil days = (y, m, d)"
  shows "days_of y m d = days" "1 \<le> m" "m \<le> 12" "1 \<le> d" "d \<le> 31"
proof -
  define z where "z = days + 719468"
  define era where "era = z div 146097"
  obtain yoe doy where s: "split_era (z mod 146097) = (yoe, doy)" by (meson surj_pair)
  define mp where "mp = (5 * doy + 2) div 153"
  have z: "0 \<le> z mod 146097" "z mod 146097 < 146097" by simp_all
  note sp = split_eraE [OF z s]
  note mb = month_bounds [OF sp(3,4), folded mp_def]
  have m: "m = (if mp < 10 then mp + 3 else mp - 9)"
    and d: "d = doy - (153 * mp + 2) div 5 + 1"
    and y: "y = yoe + era * 400 + (if m \<le> 2 then 1 else 0)"
    using assms by (auto simp: civil_def Let_def z_def [symmetric] era_def [symmetric] s mp_def [symmetric])
  show "1 \<le> m" "m \<le> 12" using mb(1,2) by (simp_all add: m)
  show "1 \<le> d" "d \<le> 31" using mb(3,4) by (simp_all add: d)
  have y': "(if m \<le> 2 then y - 1 else y) = yoe + era * 400" by (simp add: y)
  have mp': "(if m > 2 then m - 3 else m + 9) = mp" using mb(1,2) by (simp add: m)
  have e: "(yoe + era * 400) div 400 = era" "(yoe + era * 400) mod 400 = yoe" using sp(1,2) by simp_all
  have "days_of y m d = era * 146097
      + (yoe * 365 + yoe div 4 - yoe div 100 + ((153 * mp + 2) div 5 + d - 1)) - 719468"
    unfolding days_of_def Let_def y' mp' e by simp
  also have "\<dots> = era * 146097 + z mod 146097 - 719468" using sp(5) by (simp add: d)
  also have "\<dots> = days" by (simp add: era_def z_def)
  finally show "days_of y m d = days" .
qed

section \<open>Timestamps as texts\<close>

definition us_sec :: int where "us_sec = 1000000"

definition sec_of_day :: "timestamp \<Rightarrow> int" where
  "sec_of_day t = (local_us t mod us_day) div us_sec"

definition date_text :: "int \<Rightarrow> string" where
  "date_text days = (case civil days of (y, m, d) \<Rightarrow>
     padded 4 (nat y) @ ''-'' @ padded 2 (nat m) @ ''-'' @ padded 2 (nat d))"

text \<open>\<open>strftime("%Y-%m-%dT%H:%M:%SZ")\<close>, for years of four digits, and the same down to the minute.\<close>

definition minute_text :: "timestamp \<Rightarrow> string" where
  "minute_text t = (let s = sec_of_day t in date_text (date_of t) @ ''T'' @ padded 2 (nat (s div 3600))
     @ '':'' @ padded 2 (nat (s div 60 mod 60)))"

definition iso :: "timestamp \<Rightarrow> string" where
  "iso t = minute_text t @ '':'' @ padded 2 (nat (sec_of_day t mod 60)) @ ''Z''"

text \<open>A reader of such texts, the part of \<open>datetime.fromisoformat\<close> they need: a date, a time of
  day with seconds, and an offset or none.\<close>

definition field :: "nat \<Rightarrow> string \<Rightarrow> (int \<times> string) option" where
  "field w s = (if length (take w s) = w \<and> list_all is_digit (take w s)
     then Some (int (num (take w s)), drop w s) else None)"

definition skip :: "char \<Rightarrow> string \<Rightarrow> string option" where
  "skip c s = (case s of [] \<Rightarrow> None | x # xs \<Rightarrow> if x = c then Some xs else None)"

definition read_offset :: "string \<Rightarrow> int option option" where
  "read_offset s = (case s of [] \<Rightarrow> Some None
     | x # xs \<Rightarrow> if x \<noteq> CHR ''+'' \<and> x \<noteq> CHR ''-'' then None
         else Option.bind (field 2 xs) (\<lambda>(h, s1). Option.bind (skip CHR '':'' s1) (\<lambda>s2.
              Option.bind (field 2 s2) (\<lambda>(m, s3). if s3 = [] \<and> h < 24 \<and> m < 60
                then Some (Some ((if x = CHR ''-'' then -1 else 1) * (h * 3600 + m * 60) * us_sec))
                else None))))"

definition read_iso :: "string \<Rightarrow> (int \<times> int option) option" where
  "read_iso s =
     Option.bind (field 4 s) (\<lambda>(y, s). Option.bind (skip CHR ''-'' s) (\<lambda>s.
     Option.bind (field 2 s) (\<lambda>(mo, s). Option.bind (skip CHR ''-'' s) (\<lambda>s.
     Option.bind (field 2 s) (\<lambda>(d, s). Option.bind (skip CHR ''T'' s) (\<lambda>s.
     Option.bind (field 2 s) (\<lambda>(h, s). Option.bind (skip CHR '':'' s) (\<lambda>s.
     Option.bind (field 2 s) (\<lambda>(mi, s). Option.bind (skip CHR '':'' s) (\<lambda>s.
     Option.bind (field 2 s) (\<lambda>(sec, s). Option.bind (read_offset s) (\<lambda>off.
       if 1 \<le> mo \<and> mo \<le> 12 \<and> 1 \<le> d \<and> d \<le> 31 \<and> h < 24 \<and> mi < 60 \<and> sec < 60
       then Some ((days_of y mo d * 86400 + h * 3600 + mi * 60 + sec) * us_sec, off)
       else None))))))))))))"

lemma field_padded: "n < 10 ^ w \<Longrightarrow> field w (padded w n @ s) = Some (int n, s)"
  by (simp add: field_def num_padded)

lemma field_padded_int:
  assumes "0 \<le> x" "x < 10 ^ w"
  shows "field w (padded w (nat x) @ s) = Some (x, s)"
proof -
  have "int (nat x) < int (10 ^ w)" using assms by simp
  then have "nat x < 10 ^ w" by (simp only: of_nat_less_iff)
  then show ?thesis using field_padded [of "nat x" w s] assms(1) by simp
qed

lemma skip_hit [simp]: "skip c (c # s) = Some s"
  by (simp add: skip_def)

lemma replace_z_append [simp]: "replace_z (s @ t) = replace_z s @ replace_z t"
  by (simp add: replace_z_def)

lemma replace_z_Cons: "replace_z (c # s) = (if c = CHR ''Z'' then ''+00:00'' else [c]) @ replace_z s"
  by (simp add: replace_z_def)

lemma replace_z_digits: "list_all is_digit s \<Longrightarrow> replace_z s = s"
proof (induction s)
  case (Cons c s)
  then have "c \<noteq> CHR ''Z''" by (auto simp: is_digit_def)
  then show ?case using Cons by (simp add: replace_z_Cons)
qed (simp add: replace_z_def)

lemma replace_z_iso: "replace_z (iso t) = minute_text t @ '':'' @ padded 2 (nat (sec_of_day t mod 60)) @ ''+00:00''"
proof -
  have n: "replace_z [] = []" by (simp add: replace_z_def)
  show ?thesis
    by (auto simp: iso_def minute_text_def date_text_def Let_def replace_z_Cons replace_z_digits n
        split: prod.splits)
qed

definition whole_sec :: "timestamp \<Rightarrow> int" where
  "whole_sec t = local_us t div us_sec * us_sec"

lemma whole_sec_split: "whole_sec t = (date_of t * 86400 + sec_of_day t) * us_sec"
proof -
  have "local_us t div us_sec = date_of t * 86400 + sec_of_day t"
  proof -
    have "local_us t = local_us t mod us_day + (date_of t * 86400) * us_sec"
      using mod_mult_div_eq [of "local_us t" us_day]
      by (simp add: date_of_def us_day_def us_sec_def)
    then have "local_us t div us_sec = (local_us t mod us_day + (date_of t * 86400) * us_sec) div us_sec" by simp
    also have "\<dots> = date_of t * 86400 + (local_us t mod us_day) div us_sec"
      by (rule div_mult_self1) (simp add: us_sec_def)
    finally show ?thesis by (simp add: sec_of_day_def)
  qed
  then show ?thesis by (simp add: whole_sec_def)
qed

lemma sec_of_day_bounds: "0 \<le> sec_of_day t \<and> sec_of_day t < 86400"
proof -
  define m where "m = local_us t mod us_day"
  have m: "0 \<le> m" "m \<le> 86399999999"
    using pos_mod_bound [of us_day "local_us t"] by (simp_all add: m_def us_day_def)
  have "m div us_sec \<le> 86399999999 div us_sec"
    by (rule zdiv_mono1) (use m in \<open>simp_all add: us_sec_def\<close>)
  moreover have "0 \<le> m div us_sec" using m by (simp add: us_sec_def pos_imp_zdiv_nonneg_iff)
  ultimately show ?thesis by (simp add: sec_of_day_def us_sec_def m_def)
qed

definition four_digit_year :: "timestamp \<Rightarrow> bool" where
  "four_digit_year t = (case civil (date_of t) of (y, m, d) \<Rightarrow> 0 \<le> y \<and> y < 10000)"

lemma offset_zero: "read_offset ''+00:00'' = Some (Some 0)"
  by code_simp

text \<open>What \<open>iso\<close> prints reads back as the same second.\<close>

theorem read_iso_iso:
  assumes "four_digit_year t"
  shows "read_iso (replace_z (iso t)) = Some (whole_sec t, Some 0)"
proof -
  obtain y m d where c: "civil (date_of t) = (y, m, d)" by (metis prod_cases3)
  note dc = days_of_civil [OF c]
  define s where "s = sec_of_day t"
  have s: "0 \<le> s" "s < 86400" using sec_of_day_bounds [of t] by (simp_all add: s_def)
  have y: "0 \<le> y" "y < 10000" using assms c by (simp_all add: four_digit_year_def)
  have b: "0 \<le> s div 3600" "s div 3600 < 24" "0 \<le> s div 60 mod 60" "s div 60 mod 60 < 60"
    "0 \<le> s mod 60" "s mod 60 < 60" using s by auto
  have h: "s div 3600 = s div 60 div 60" by (simp add: zdiv_zmult2_eq [of 60, symmetric])
  have e: "s div 3600 * 3600 + s div 60 mod 60 * 60 + s mod 60 = s"
  proof -
    have "s div 60 = s div 60 div 60 * 60 + s div 60 mod 60" "s = s div 60 * 60 + s mod 60" by simp_all
    then show ?thesis unfolding h by linarith
  qed
  have tt: "replace_z (iso t) = padded 4 (nat y) @ CHR ''-'' # padded 2 (nat m) @ CHR ''-'' # padded 2 (nat d)
      @ CHR ''T'' # padded 2 (nat (s div 3600)) @ CHR '':'' # padded 2 (nat (s div 60 mod 60))
      @ CHR '':'' # padded 2 (nat (s mod 60)) @ ''+00:00''"
    by (simp add: replace_z_iso minute_text_def date_text_def c Let_def s_def [symmetric])
  have f4: "field 4 (padded 4 (nat y) @ r) = Some (y, r)" for r
    by (rule field_padded_int) (use y in simp_all)
  have f2: "field 2 (padded 2 (nat x) @ r) = Some (x, r)" if "0 \<le> x" "x < 100" for x r
    by (rule field_padded_int) (use that in simp_all)
  have g: "0 \<le> m" "m < 100" "0 \<le> d" "d < 100" "s div 3600 < 100" "s div 60 mod 60 < 100" "s mod 60 < 100"
    using b dc(2-5) by simp_all
  note f = f2 [OF g(1,2)] f2 [OF g(3,4)] f2 [OF b(1) g(5)] f2 [OF b(3) g(6)] f2 [OF b(5) g(7)]
  have ok: "(1 \<le> m \<and> m \<le> 12 \<and> 1 \<le> d \<and> d \<le> 31 \<and> s div 3600 < 24 \<and> s div 60 mod 60 < 60 \<and> s mod 60 < 60) = True"
    using b dc(2-5) by simp
  have "read_iso (replace_z (iso t))
      = Some ((days_of y m d * 86400 + s div 3600 * 3600 + s div 60 mod 60 * 60 + s mod 60) * us_sec, Some 0)"
    unfolding tt read_iso_def f4 Option.bind.simps prod.case skip_hit f offset_zero ok if_True ..
  also have "(days_of y m d * 86400 + s div 3600 * 3600 + s div 60 mod 60 * 60 + s mod 60) * us_sec
      = whole_sec t" using e by (simp add: whole_sec_split dc(1) s_def)
  finally show ?thesis .
qed

end
