(* ===== verification/Macro_Sidecar.thy ===== *)
theory Macro_Sidecar
  imports Text_Time
begin

text \<open>
  The package \<open>macro/\<close>: the separate process that writes the state document \<open>orb/macroguard.py\<close>
  reads. Calendar rows become events (\<open>collectors/forexfactory.py\<close>, \<open>normalizer.py\<close>); events are
  scored (\<open>scorer.py\<close>, \<open>sensitivity.py\<close>), headlines, semiconductor momentum and geopolitics tilt the
  scores (\<open>sentiment.py\<close>, \<open>thematic.py\<close>, \<open>geopolitics.py\<close>), windows around events black out entries
  (\<open>blackout.py\<close>), and \<open>build.py\<close> puts the document together. The decay \<open>0.5 ** x\<close> is a function
  \<open>half\<close>; its law is \<open>halving\<close>.
\<close>

section \<open>Calendar events\<close>

record raw_event =
  re_source :: string
  re_ts :: timestamp
  re_title :: string
  re_currency :: string
  re_impact :: string
  re_kind :: string
  re_forecast :: "json option"
  re_previous :: "json option"
  re_actual :: "json option"

definition re_reason :: "raw_event \<Rightarrow> string" where
  "re_reason ev = (if re_kind ev \<noteq> ''OTHER'' then re_kind ev else take 24 (re_title ev))"

definition kind_rules :: "(string \<times> string) list" where
  "kind_rules = [(''nonfarm'', ''NFP''), (''non-farm'', ''NFP''), (''employment change'', ''NFP''),
     (''fomc'', ''FOMC''), (''federal funds'', ''FOMC''), (''rate decision'', ''FOMC''),
     (''interest rate'', ''FOMC''), (''cpi'', ''CPI''), (''consumer price'', ''CPI''),
     (''ppi'', ''PPI''), (''gdp'', ''GDP''), (''unemployment rate'', ''JOBS'')]"

definition classify_kind :: "string \<Rightarrow> string" where
  "classify_kind title = (case find (\<lambda>r. contains (fst r) (lower title)) kind_rules of
     None \<Rightarrow> ''OTHER'' | Some r \<Rightarrow> snd r)"

definition impact_map :: "(string \<times> string) list" where
  "impact_map = [(''high'', ''high''), (''medium'', ''medium''), (''low'', ''low''),
     (''holiday'', ''holiday'')]"

definition normalize_impact :: "json \<Rightarrow> error + string" where
  "normalize_impact raw = (case jor raw (JStr []) of
       JStr s \<Rightarrow> Inr (case map_of impact_map (lower (strip s)) of None \<Rightarrow> ''unknown'' | Some v \<Rightarrow> v)
     | _ \<Rightarrow> Inl AttributeError)"

definition calendar_ts :: "pytext \<Rightarrow> json \<Rightarrow> error + timestamp" where
  "calendar_ts tx raw = (case tx_iso tx (replace_z (py_str tx raw)) of
       None \<Rightarrow> Inl (ValueError ''Invalid isoformat string'')
     | Some (t, off) \<Rightarrow> Inr (utc_ts (t - (case off of None \<Rightarrow> 0 | Some x \<Rightarrow> x))))"

definition or_none :: "json \<Rightarrow> json option" where
  "or_none j = (if jtrue j then Some j else None)"

definition parse_row :: "pytext \<Rightarrow> json \<Rightarrow> error + raw_event" where
  "parse_row tx row =
     and_then (index_of row ''title'') (\<lambda>title0. let title = py_str tx title0 in
     and_then (and_then (index_of row ''date'') (calendar_ts tx)) (\<lambda>ts.
     and_then (jget row ''country'' (JStr [])) (\<lambda>cur.
     and_then (and_then (jget row ''impact'' (JStr [])) normalize_impact) (\<lambda>impact.
     and_then (jget row ''forecast'' JNull) (\<lambda>fc.
     and_then (jget row ''previous'' JNull) (\<lambda>pv.
     and_then (jget row ''actual'' JNull) (\<lambda>ac.
       Inr \<lparr>re_source = ''forexfactory'', re_ts = ts, re_title = title,
            re_currency = upper (py_str tx (jor cur (JStr []))), re_impact = impact,
            re_kind = classify_kind title, re_forecast = or_none fc, re_previous = or_none pv,
            re_actual = or_none ac\<rparr>)))))))"

fun parse_rows :: "pytext \<Rightarrow> json list \<Rightarrow> error + raw_event list" where
  "parse_rows tx [] = Inr []"
| "parse_rows tx (row # rows) = (case parse_row tx row of
       Inl e \<Rightarrow> if parse_caught e then parse_rows tx rows else Inl e
     | Inr ev \<Rightarrow> (case parse_rows tx rows of Inl e \<Rightarrow> Inl e | Inr evs \<Rightarrow> Inr (ev # evs)))"

definition parse_calendar :: "pytext \<Rightarrow> json \<Rightarrow> error + raw_event list" where
  "parse_calendar tx data = (case data of
       JArr rows \<Rightarrow> (case parse_rows tx rows of Inl e \<Rightarrow> Inl e
                   | Inr evs \<Rightarrow> Inr (sort_key (\<lambda>e. utc (re_ts e)) evs))
     | _ \<Rightarrow> Inr [])"

section \<open>Figures and surprise\<close>

definition suffixes :: "(char \<times> flt) list" where
  "suffixes = [(CHR ''k'', 10 ^ 3), (CHR ''m'', 10 ^ 6), (CHR ''b'', 10 ^ 9), (CHR ''t'', 10 ^ 12)]"

definition pf_scale :: "flt \<Rightarrow> pyfloat \<Rightarrow> pyfloat" where
  "pf_scale m x = (case x of Fin v \<Rightarrow> Fin (v * m) | _ \<Rightarrow> x)"

definition parse_value :: "pytext \<Rightarrow> json option \<Rightarrow> pyfloat option" where
  "parse_value tx s = (case s of None \<Rightarrow> None | Some j \<Rightarrow>
     let t = strip (filter (\<lambda>c. c \<notin> set ''<>~,%'') (strip (py_str tx j))) in
     if t = [] then None
     else case map_of suffixes (lower_char (last t)) of
         Some m \<Rightarrow> map_option (pf_scale m) (tx_float tx (butlast t))
       | None \<Rightarrow> tx_float tx t)"

text \<open>\<open>(a - f) / max(abs(f), 1e-9)\<close> on Python floats, then \<open>max(-1.0, min(1.0, x))\<close>, which sends
  a NaN to 1.\<close>

definition denom :: "pyfloat \<Rightarrow> pyfloat" where
  "denom f = (case f of Fin v \<Rightarrow> Fin (max \<bar>v\<bar> (1 / 10 ^ 9)) | NaN \<Rightarrow> NaN | _ \<Rightarrow> PosInf)"

fun pf_quot :: "pyfloat \<Rightarrow> pyfloat \<Rightarrow> pyfloat" where
  "pf_quot NaN _ = NaN"
| "pf_quot _ NaN = NaN"
| "pf_quot (Fin a) (Fin b) = Fin (a / b)"
| "pf_quot (Fin _) _ = Fin 0"
| "pf_quot x (Fin _) = x"
| "pf_quot _ _ = NaN"

definition pf_clamp1 :: "pyfloat \<Rightarrow> flt" where
  "pf_clamp1 x = (case x of Fin v \<Rightarrow> max (-1) (min 1 v) | NegInf \<Rightarrow> -1 | _ \<Rightarrow> 1)"

definition surprise :: "pytext \<Rightarrow> raw_event \<Rightarrow> flt option" where
  "surprise tx ev = (case (parse_value tx (re_actual ev), parse_value tx (re_forecast ev)) of
       (Some a, Some f) \<Rightarrow> Some (pf_clamp1 (pf_quot (pf_sub a f) (denom f)))
     | _ \<Rightarrow> None)"

section \<open>The state document\<close>

record asset =
  as_bias :: string
  as_score :: flt
  as_horizon :: string
  as_drivers :: "string list"

record hard_stop =
  hs_active :: bool
  hs_until :: "string option"
  hs_reason :: "string option"

record up_event =
  ue_id :: string
  ue_ts :: string
  ue_impact :: string
  ue_kind :: string
  ue_currency :: string
  ue_pre :: int
  ue_post :: int

record state_doc =
  sd_schema :: int
  sd_generated :: string
  sd_ttl :: int
  sd_regime :: string
  sd_risk :: flt
  sd_conf :: flt
  sd_blackout :: hard_stop
  sd_events :: "up_event list"
  sd_assets :: "(string \<times> asset) list"

definition neutral_asset :: asset where
  "neutral_asset = \<lparr>as_bias = ''neutral'', as_score = 0, as_horizon = ''intraday'', as_drivers = []\<rparr>"

definition neutral_state :: "string list \<Rightarrow> int \<Rightarrow> string \<Rightarrow> state_doc" where
  "neutral_state symbols ttl generated =
     \<lparr>sd_schema = 1, sd_generated = generated, sd_ttl = ttl, sd_regime = ''neutral'', sd_risk = 0,
      sd_conf = 0, sd_blackout = \<lparr>hs_active = False, hs_until = None, hs_reason = None\<rparr>,
      sd_events = [], sd_assets = map (\<lambda>s. (s, neutral_asset)) (fromkeys symbols)\<rparr>"

definition jopt :: "string option \<Rightarrow> json" where
  "jopt s = (case s of None \<Rightarrow> JNull | Some x \<Rightarrow> JStr x)"

definition asset_json :: "asset \<Rightarrow> json" where
  "asset_json a = JObj [(''bias'', JStr (as_bias a)), (''score'', JFloat (Fin (as_score a))),
     (''horizon'', JStr (as_horizon a)), (''drivers'', JArr (map JStr (as_drivers a)))]"

definition event_json :: "up_event \<Rightarrow> json" where
  "event_json e = JObj [(''id'', JStr (ue_id e)), (''ts'', JStr (ue_ts e)), (''impact'', JStr (ue_impact e)),
     (''kind'', JStr (ue_kind e)), (''currency'', JStr (ue_currency e)),
     (''blackout_pre_min'', JInt (ue_pre e)), (''blackout_post_min'', JInt (ue_post e))]"

text \<open>The dict itself, as the JSON value a reader of the written file gets.\<close>

definition doc_json :: "state_doc \<Rightarrow> json" where
  "doc_json s = JObj
     [(''schema_version'', JInt (sd_schema s)), (''generated_at'', JStr (sd_generated s)),
      (''ttl_sec'', JInt (sd_ttl s)),
      (''global'', JObj [(''risk_regime'', JStr (sd_regime s)), (''risk_score'', JFloat (Fin (sd_risk s))),
         (''confidence'', JFloat (Fin (sd_conf s))),
         (''blackout'', JObj [(''active'', JBool (hs_active (sd_blackout s))),
            (''until'', jopt (hs_until (sd_blackout s))), (''reason'', jopt (hs_reason (sd_blackout s)))])]),
      (''events'', JArr (map event_json (sd_events s))),
      (''assets'', JObj (map (\<lambda>(k, a). (k, asset_json a)) (sd_assets s)))]"

section \<open>Scoring\<close>

definition sensitivity :: "(string \<times> (string \<times> flt) list) list" where
  "sensitivity =
    [(''CPI'', [(''XAUUSD'', -1), (''XAGUSD'', -1), (''US100'', -8/10), (''US500'', -8/10)]),
     (''PPI'', [(''XAUUSD'', -7/10), (''XAGUSD'', -7/10), (''US100'', -6/10), (''US500'', -6/10)]),
     (''NFP'', [(''XAUUSD'', -6/10), (''XAGUSD'', -5/10), (''US100'', 7/10), (''US500'', 7/10)]),
     (''FOMC'', [(''XAUUSD'', -1), (''XAGUSD'', -9/10), (''US100'', -9/10), (''US500'', -9/10)]),
     (''GDP'', [(''XAUUSD'', -3/10), (''XAGUSD'', -3/10), (''US100'', 6/10), (''US500'', 6/10)]),
     (''JOBS'', [(''XAUUSD'', 4/10), (''XAGUSD'', 3/10), (''US100'', -5/10), (''US500'', -5/10)])]"

definition impact_weight :: "string \<Rightarrow> flt" where
  "impact_weight i = (case map_of [(''high'', 1), (''medium'', 4/10), (''low'', 1/10)] i of
     None \<Rightarrow> 0 | Some w \<Rightarrow> w)"

definition clamp1 :: "flt \<Rightarrow> flt" where "clamp1 x = max (-1) (min 1 x)"

definition bias_of :: "flt \<Rightarrow> string" where
  "bias_of score = (if score > 1/10 then ''bullish'' else if score < -1/10 then ''bearish'' else ''neutral'')"

definition halving :: "(flt \<Rightarrow> flt) \<Rightarrow> bool" where
  "halving half \<longleftrightarrow> (\<forall>x. 0 \<le> x \<longrightarrow> 0 \<le> half x \<and> half x \<le> 1)"

definition add_driver :: "string \<Rightarrow> string list \<Rightarrow> string list" where
  "add_driver tag ds = (if tag \<in> set ds then ds else ds @ [tag])"

record tally =
  ta_assets :: "(string \<times> flt \<times> string list) list"
  ta_conf :: flt

definition score_event :: "pytext \<Rightarrow> (flt \<Rightarrow> flt) \<Rightarrow> timestamp \<Rightarrow> flt \<Rightarrow> flt \<Rightarrow> raw_event \<Rightarrow> tally \<Rightarrow> tally" where
  "score_event tx half now lookback half_life ev t =
    (let age = secs_between now (re_ts ev) / 3600 in
     if re_impact ev \<notin> {''high'', ''medium''} then t
     else if age < 0 \<or> age > lookback then t
     else case surprise tx ev of None \<Rightarrow> t
     | Some sv \<Rightarrow> (case map_of sensitivity (re_kind ev) of None \<Rightarrow> t
       | Some coeffs \<Rightarrow>
         let weight = impact_weight (re_impact ev) * half (age / half_life);
             tag = re_kind ev @ '':'' @ (if sv > 0 then ''hot'' else ''cool'')
         in \<lparr>ta_assets = map (\<lambda>(s, acc, ds). case map_of coeffs s of None \<Rightarrow> (s, acc, ds)
                | Some c \<Rightarrow> (s, acc + weight * c * sv, add_driver tag ds)) (ta_assets t),
             ta_conf = max (ta_conf t) weight\<rparr>))"

definition mean_of :: "flt list \<Rightarrow> flt" where
  "mean_of xs = (if xs = [] then 0 else sum_list xs / of_nat (length xs))"

definition scores_of :: "string list \<Rightarrow> (string \<times> asset) list \<Rightarrow> flt list" where
  "scores_of keys assets = concat (map (\<lambda>k. case map_of assets k of None \<Rightarrow> [] | Some a \<Rightarrow> [as_score a]) keys)"

definition regime_of :: "flt \<Rightarrow> string" where
  "regime_of risk = (if risk > 3/10 then ''risk_on'' else if risk < -3/10 then ''risk_off'' else ''neutral'')"

definition score :: "pytext \<Rightarrow> (flt \<Rightarrow> flt) \<Rightarrow> raw_event list \<Rightarrow> timestamp \<Rightarrow> string list \<Rightarrow> flt \<Rightarrow> flt
    \<Rightarrow> (string \<times> asset) list \<times> string \<times> flt \<times> flt" where
  "score tx half events now symbols lookback half_life =
    (let t = fold (score_event tx half now lookback half_life) events
               \<lparr>ta_assets = map (\<lambda>s. (s, 0, [])) (fromkeys symbols), ta_conf = 0\<rparr>;
         assets = map (\<lambda>(s, acc, ds). let sc = round_dp 3 (clamp1 acc) in
            (s, \<lparr>as_bias = bias_of sc, as_score = sc, as_horizon = ''intraday'', as_drivers = ds\<rparr>)) (ta_assets t);
         eq_b = mean_of (scores_of [''US100'', ''US500''] assets);
         gold_b = mean_of (scores_of [''XAUUSD'', ''XAGUSD''] assets);
         risk = clamp1 ((eq_b - gold_b) / 2)
     in (assets, regime_of risk, round_dp 3 risk, round_dp 3 (max 0 (min 1 (ta_conf t)))))"

text \<open>Adding a tilt to an asset: the clamped, rounded sum with its bias.\<close>

definition tilted :: "flt \<Rightarrow> asset \<Rightarrow> asset" where
  "tilted d a = (let sc = round_dp 3 (clamp1 (as_score a + d)) in
     a\<lparr>as_score := sc, as_bias := bias_of sc\<rparr>)"

section \<open>Headline sentiment\<close>

definition pos_words :: "string list" where
  "pos_words = [''rally'', ''rallies'', ''surge'', ''surges'', ''soar'', ''soars'', ''jump'', ''jumps'',
     ''gain'', ''gains'', ''beat'', ''beats'', ''upgrade'', ''upgraded'', ''bullish'', ''optimism'',
     ''optimistic'', ''rebound'', ''recovery'', ''strong'', ''strength'', ''climbs'', ''rises'',
     ''rose'', ''boost'', ''boosts'', ''record'', ''outperform'', ''easing'', ''dovish'', ''soften'']"

definition neg_words :: "string list" where
  "neg_words = [''crash'', ''crashes'', ''plunge'', ''plunges'', ''slump'', ''slumps'', ''tumble'', ''tumbles'',
     ''fall'', ''falls'', ''fell'', ''drop'', ''drops'', ''miss'', ''misses'', ''downgrade'',
     ''downgraded'', ''bearish'', ''fear'', ''fears'', ''recession'', ''selloff'', ''sinks'',
     ''slides'', ''weak'', ''weakness'', ''default'', ''crisis'', ''war'', ''conflict'',
     ''sanctions'', ''hawkish'', ''layoffs'', ''slowdown'', ''hot'', ''spike'']"

definition negators :: "string list" where
  "negators = [''not'', ''no'', ''never'', ''without'', ''nt'', ''less'']"

definition routes :: "(string \<times> string list) list" where
  "routes = [(''XAUUSD'', [''gold'', ''bullion'', ''xau'', ''xauusd'']),
     (''XAGUSD'', [''silver'', ''xag'', ''xagusd'']),
     (''US100'', [''nasdaq'', ''tech'', ''semiconductor'', ''semiconductors'', ''chip'', ''chips'',
        ''ai'', ''nvidia'', ''amd'', ''broadcom'', ''tsmc'', ''apple'', ''microsoft'', ''us100'']),
     (''US500'', [''sp500'', ''dow'', ''us500''])]"

definition phrases :: "(string \<times> string list) list" where
  "phrases = [(''XAUUSD'', [''gold price'']),
     (''US100'', [''artificial intelligence'', ''wall street tech'']),
     (''US500'', [''s&p'', ''s&p 500'', ''wall street'', ''blue chip''])]"

definition equity_tokens :: "string list" where
  "equity_tokens = [''equities'', ''stocks'', ''shares'', ''equity'']"

definition global_tokens :: "string list" where
  "global_tokens = [''fed'', ''fomc'', ''inflation'', ''cpi'', ''recession'', ''rates'', ''rate'',
     ''treasury'', ''yields'', ''dollar'', ''war'', ''tariffs'', ''geopolitical'']"

definition word_char :: "char \<Rightarrow> bool" where
  "word_char c \<longleftrightarrow> is_lower c \<or> is_digit c \<or> c = CHR ''&''"

fun split_words :: "string \<Rightarrow> string \<Rightarrow> string list" where
  "split_words cur [] = (if cur = [] then [] else [cur])"
| "split_words cur (c # cs) = (if word_char c then split_words (cur @ [c]) cs
     else (if cur = [] then [] else [cur]) @ split_words [] cs)"

definition tokens :: "string \<Rightarrow> string list" where
  "tokens text = split_words [] (lower text)"

record lexis =
  lx_pos :: int
  lx_neg :: int
  lx_negate :: bool

definition lex_step :: "string \<Rightarrow> lexis \<Rightarrow> lexis" where
  "lex_step t l = (if t \<in> set negators then l\<lparr>lx_negate := True\<rparr>
     else let s = (if t \<in> set pos_words then 1 else if t \<in> set neg_words then -1 else (0::int));
              s' = (if lx_negate l then - s else s)
          in \<lparr>lx_pos = lx_pos l + (if s \<noteq> 0 \<and> s' > 0 then 1 else 0),
              lx_neg = lx_neg l + (if s \<noteq> 0 \<and> \<not> s' > 0 then 1 else 0), lx_negate = False\<rparr>)"

definition score_text :: "string \<Rightarrow> flt option" where
  "score_text text = (let l = fold lex_step (tokens text) \<lparr>lx_pos = 0, lx_neg = 0, lx_negate = False\<rparr> in
     if lx_pos l + lx_neg l = 0 then None
     else Some (of_int (lx_pos l - lx_neg l) / of_int (lx_pos l + lx_neg l)))"

definition meets :: "string list \<Rightarrow> string list \<Rightarrow> bool" where
  "meets xs ys = list_ex (\<lambda>x. x \<in> set ys) xs"

definition route_assets :: "string \<Rightarrow> string list \<Rightarrow> string list" where
  "route_assets text symbols = (let low = lower text; toks = tokens text in
     filter (\<lambda>s. s \<in> set symbols) (map fst (filter (\<lambda>r. meets toks (snd r)) routes))
     @ filter (\<lambda>s. s \<in> set symbols) (map fst (filter (\<lambda>r. list_ex (\<lambda>p. contains p low) (snd r)) phrases))
     @ (if meets toks equity_tokens then filter (\<lambda>s. s \<in> set symbols) [''US100'', ''US500''] else [])
     @ (if meets toks global_tokens then symbols else []))"

record headline =
  hl_ts :: timestamp
  hl_text :: string
  hl_source :: string

record sent_acc =
  sa_sum :: flt
  sa_wt :: flt
  sa_n :: int

definition aggregate_step :: "(flt \<Rightarrow> flt) \<Rightarrow> timestamp \<Rightarrow> string list \<Rightarrow> flt \<Rightarrow> flt \<Rightarrow> headline
    \<Rightarrow> (string \<times> sent_acc) list \<Rightarrow> (string \<times> sent_acc) list" where
  "aggregate_step half now symbols lookback half_life h acc =
    (let age = secs_between now (hl_ts h) / 3600 in
     if age < 0 \<or> age > lookback then acc
     else case score_text (hl_text h) of None \<Rightarrow> acc
     | Some sv \<Rightarrow>
         let w = half (age / half_life); targets = route_assets (hl_text h) symbols in
         map (\<lambda>(s, a). if s \<in> set targets
           then (s, \<lparr>sa_sum = sa_sum a + w * sv, sa_wt = sa_wt a + w, sa_n = sa_n a + 1\<rparr>) else (s, a)) acc)"

definition aggregate :: "(flt \<Rightarrow> flt) \<Rightarrow> headline list \<Rightarrow> timestamp \<Rightarrow> string list \<Rightarrow> flt \<Rightarrow> flt
    \<Rightarrow> (string \<times> flt \<times> int) list" where
  "aggregate half headlines now symbols lookback half_life =
     map (\<lambda>(s, a). (s, if sa_wt a > 0 then round_dp 3 (sa_sum a / sa_wt a) else 0, sa_n a))
       (fold (aggregate_step half now symbols lookback half_life) headlines
          (map (\<lambda>s. (s, \<lparr>sa_sum = 0, sa_wt = 0, sa_n = 0\<rparr>)) (fromkeys symbols)))"

definition sent_tilts :: "(string \<times> flt \<times> int) list \<Rightarrow> string \<Rightarrow> (flt \<times> int) option" where
  "sent_tilts agg s = (case map_of agg s of None \<Rightarrow> None
     | Some (v, n) \<Rightarrow> if n = 0 \<or> v = 0 then None else Some (v, n))"

definition merge_sentiment :: "state_doc \<Rightarrow> (string \<times> flt \<times> int) list option \<Rightarrow> flt \<Rightarrow> state_doc" where
  "merge_sentiment st agg weight = (case agg of None \<Rightarrow> st | Some ag \<Rightarrow>
     let assets = map (\<lambda>(s, a). case sent_tilts ag s of None \<Rightarrow> (s, a)
           | Some (v, n) \<Rightarrow> (s, (tilted (weight * v) a)\<lparr>as_drivers :=
               add_driver (''sentiment='' @ fixed_signed 2 v) (as_drivers a)\<rparr>)) (sd_assets st);
         max_n = fold (\<lambda>(s, a) m. case sent_tilts ag s of None \<Rightarrow> m | Some (v, n) \<Rightarrow> max m n) (sd_assets st) 0;
         conf = min (1/2) (of_int max_n / 5 * (1/2))
     in st\<lparr>sd_assets := assets,
           sd_conf := (if max_n > 0 then max (sd_conf st) (round_dp 3 conf) else sd_conf st)\<rparr>)"

section \<open>The semiconductor theme\<close>

record theme =
  th_score :: flt
  th_drivers :: "string list"
  th_conf :: flt

definition assess_semis :: "flt list \<Rightarrow> theme" where
  "assess_semis vals = (if vals = [] then \<lparr>th_score = 0, th_drivers = [], th_conf = 0\<rparr>
     else let sc = clamp1 (mean_of vals) in
       \<lparr>th_score = round_dp 3 sc,
        th_drivers = [''semis_mom='' @ fixed_signed 2 sc @ ''(n='' @ show_nat (length vals) @ '')''],
        th_conf = round_dp 3 (min (6/10) \<bar>sc\<bar>)\<rparr>)"

definition theme_weights :: "(string \<times> flt) list" where
  "theme_weights = [(''US100'', 4/10), (''US500'', 2/10)]"

definition merge_thematic :: "state_doc \<Rightarrow> theme option \<Rightarrow> state_doc" where
  "merge_thematic st theme = (case theme of None \<Rightarrow> st
     | Some th \<Rightarrow> if th_score th = 0 then st
       else st\<lparr>sd_assets := map (\<lambda>(s, a). case map_of theme_weights s of None \<Rightarrow> (s, a)
              | Some w \<Rightarrow> (s, (tilted (w * th_score th) a)\<lparr>as_drivers :=
                  fold add_driver (th_drivers th) (as_drivers a)\<rparr>)) (sd_assets st),
            sd_conf := max (sd_conf st) (th_conf th)\<rparr>)"

section \<open>Geopolitics\<close>

record geo =
  ge_risk_off :: bool
  ge_war_spike :: bool
  ge_score :: flt
  ge_drivers :: "string list"
  ge_conf :: flt

definition assess :: "flt \<Rightarrow> flt \<Rightarrow> flt \<Rightarrow> flt option \<Rightarrow> geo" where
  "assess tone_now tone_base vol_z vix =
    (let drop = tone_base - tone_now;
         spike = (drop \<ge> 2 \<and> vol_z \<ge> 3/2);
         confirm = (case vix of None \<Rightarrow> False | Some v \<Rightarrow> v \<ge> 25);
         s1 = (if spike then 6/10 * min 1 (drop / (2 * 2)) else 0);
         s2 = (case vix of Some v \<Rightarrow> if v \<ge> 25 then 2/10 + 2/10 * min 1 ((v - 25) / 15) else 0 | None \<Rightarrow> 0);
         off = (spike \<or> confirm)
     in \<lparr>ge_risk_off = off, ge_war_spike = (spike \<and> confirm), ge_score = round_dp 3 (min 1 (s1 + s2)),
         ge_drivers = (if spike then [''gdelt_tone_drop='' @ fixed 1 drop] else [])
           @ (case vix of Some v \<Rightarrow> if v \<ge> 25 then [''vix='' @ fixed 1 v] else [] | None \<Rightarrow> []),
         ge_conf = (if spike \<and> confirm then 9/10 else if off then 6/10 else 0)\<rparr>)"

definition tilt_sign :: "string \<Rightarrow> flt option" where
  "tilt_sign = map_of [(''XAUUSD'', 1), (''XAGUSD'', 1), (''US100'', -1), (''US500'', -1)]"

definition plus_min :: "timestamp \<Rightarrow> int \<Rightarrow> timestamp" where
  "plus_min t m = t\<lparr>local_us := local_us t + m * us_min\<rparr>"

definition merge_geo :: "state_doc \<Rightarrow> geo option \<Rightarrow> timestamp \<Rightarrow> int \<Rightarrow> state_doc" where
  "merge_geo st g now cooldown = (case g of None \<Rightarrow> st
     | Some ge \<Rightarrow> if \<not> ge_risk_off ge then st
       else st\<lparr>sd_assets := map (\<lambda>(s, a). case tilt_sign s of None \<Rightarrow> (s, a)
              | Some sg \<Rightarrow> (s, (tilted (sg * ge_score ge) a)\<lparr>as_drivers :=
                  add_driver ''risk_off'' (as_drivers a)\<rparr>)) (sd_assets st),
            sd_regime := ''risk_off'',
            sd_risk := round_dp 3 (min (sd_risk st) (- ge_score ge)),
            sd_conf := max (sd_conf st) (ge_conf ge),
            sd_blackout := (if ge_war_spike ge
              then \<lparr>hs_active = True, hs_until = Some (iso (plus_min now cooldown)), hs_reason = Some ''war_spike''\<rparr>
              else sd_blackout st)\<rparr>)"

section \<open>Blackout windows\<close>

definition in_window :: "int \<Rightarrow> int \<Rightarrow> timestamp \<Rightarrow> raw_event \<Rightarrow> bool" where
  "in_window pre post now ev \<longleftrightarrow> utc (plus_min (re_ts ev) (- pre)) \<le> utc now
     \<and> utc now \<le> utc (plus_min (re_ts ev) post)"

definition latest :: "timestamp list \<Rightarrow> timestamp" where
  "latest ts = fold (\<lambda>e m. if utc e > utc m then e else m) (tl ts) (hd ts)"

definition comma_join :: "string list \<Rightarrow> string" where
  "comma_join xs = (case xs of [] \<Rightarrow> [] | x # rest \<Rightarrow> x @ concat (map (\<lambda>y. CHR '','' # y) rest))"

definition active_blackout :: "raw_event list \<Rightarrow> timestamp \<Rightarrow> int \<Rightarrow> int \<Rightarrow> string list \<Rightarrow> hard_stop option" where
  "active_blackout events now pre post impacts =
    (let hits = filter (\<lambda>ev. re_impact ev \<in> set impacts \<and> in_window pre post now ev) events in
     if hits = [] then None
     else Some \<lparr>hs_active = True,
        hs_until = Some (iso (latest (map (\<lambda>ev. plus_min (re_ts ev) post) hits))),
        hs_reason = Some (comma_join (fromkeys (map re_reason hits)))\<rparr>)"

definition upcoming_events :: "raw_event list \<Rightarrow> timestamp \<Rightarrow> int \<Rightarrow> int \<Rightarrow> int \<Rightarrow> up_event list" where
  "upcoming_events events now horizon_h pre post =
     map (\<lambda>ev. \<lparr>ue_id = re_kind ev @ ''-'' @ minute_text (re_ts ev), ue_ts = iso (re_ts ev),
           ue_impact = re_impact ev, ue_kind = re_kind ev, ue_currency = re_currency ev,
           ue_pre = pre, ue_post = post\<rparr>)
       (filter (\<lambda>ev. re_impact ev \<in> {''high'', ''medium''} \<and> utc now \<le> utc (re_ts ev)
           \<and> utc (re_ts ev) \<le> utc (plus_min now (60 * horizon_h))) events)"

section \<open>The builder\<close>

record build_kw =
  bk_symbols :: "string list"
  bk_ttl :: int
  bk_pre :: int
  bk_post :: int
  bk_impacts :: "string list"
  bk_horizon_h :: int
  bk_lookback_h :: flt
  bk_half_life_h :: flt

definition default_kw :: build_kw where
  "default_kw = \<lparr>bk_symbols = [''XAUUSD'', ''US100'', ''US500'', ''XAGUSD''], bk_ttl = 300, bk_pre = 30,
     bk_post = 30, bk_impacts = [''high''], bk_horizon_h = 48, bk_lookback_h = 36, bk_half_life_h = 12\<rparr>"

definition build_state :: "pytext \<Rightarrow> (flt \<Rightarrow> flt) \<Rightarrow> build_kw \<Rightarrow> raw_event list \<Rightarrow> timestamp \<Rightarrow> geo option
    \<Rightarrow> (string \<times> flt \<times> int) list option \<Rightarrow> theme option \<Rightarrow> state_doc" where
  "build_state tx half k events now g news th =
    (let s0 = neutral_state (bk_symbols k) (bk_ttl k) (iso now);
         (assets, regime, risk, conf) = score tx half events now (bk_symbols k) (bk_lookback_h k) (bk_half_life_h k);
         s1 = s0\<lparr>sd_assets := assets, sd_regime := regime, sd_risk := risk, sd_conf := conf\<rparr>;
         s2 = merge_thematic (merge_sentiment s1 news (3/10)) th;
         s3 = (case active_blackout events now (bk_pre k) (bk_post k) (bk_impacts k) of
            None \<Rightarrow> s2 | Some bo \<Rightarrow> s2\<lparr>sd_blackout := bo\<rparr>);
         s4 = s3\<lparr>sd_events := upcoming_events events now (bk_horizon_h k) (bk_pre k) (bk_post k)\<rparr>
     in merge_geo s4 g now 120)"

end
