(* ===== verification/Macro_Daemon.thy ===== *)
theory Macro_Daemon
  imports Macro_Sidecar
begin

text \<open>
  The sidecar as a process: the reductions of \<open>collectors/gdelt.py\<close> and \<open>collectors/proxies.py\<close>, the
  providers and the loop of \<open>daemon.py\<close>, the atomic write of \<open>state_writer.py\<close> as the sequence of
  file-system states it passes through, and the overlay of \<open>backtest.py\<close>. What the network returned
  is an input of each turn, \<open>None\<close> where the call raised; the square root is a function \<open>sqroot\<close>.
\<close>

section \<open>Series reductions\<close>

definition base_of :: "flt list \<Rightarrow> flt list" where
  "base_of xs = (if butlast xs = [] then xs else butlast xs)"

definition variance :: "flt list \<Rightarrow> flt" where
  "variance xs = mean_of (map (\<lambda>x. (x - mean_of xs) ^ 2) xs)"

definition tone_features :: "(flt \<Rightarrow> flt) \<Rightarrow> flt list \<Rightarrow> flt list \<Rightarrow> flt \<times> flt \<times> flt" where
  "tone_features sqroot tones vols =
    (let vbase = base_of vols; vmean = mean_of vbase; std = sqroot (variance vbase); vnow = last vols
     in (last tones, mean_of (base_of tones),
         if std = 0 then (if vnow > vmean then 10 else 0) else (vnow - vmean) / std))"

definition momentum :: "flt list \<Rightarrow> nat \<Rightarrow> flt option" where
  "momentum closes lookback =
    (if length closes < lookback + 1 then None
     else let past = closes ! (length closes - 1 - lookback); cur = last closes
       in if past \<le> 0 then None else Some (clamp1 ((cur / past - 1) / (1/10))))"

text \<open>Per symbol of the basket: the closes, or \<open>None\<close> where fetching them raised.\<close>

definition semis_momentum :: "flt list option list \<Rightarrow> nat \<Rightarrow> flt list" where
  "semis_momentum basket lookback =
     List.map_filter (\<lambda>c. case c of None \<Rightarrow> None | Some closes \<Rightarrow> momentum closes lookback) basket"

section \<open>Providers\<close>

record geo_raw =
  gr_tones :: "flt list"
  gr_vols :: "flt list"
  gr_vix :: "flt option"

definition geo_provider :: "(flt \<Rightarrow> flt) \<Rightarrow> geo_raw option \<Rightarrow> geo option" where
  "geo_provider sqroot raw = (case raw of None \<Rightarrow> None
     | Some r \<Rightarrow> if length (gr_tones r) < 2 \<or> length (gr_vols r) < 2 then None
         else (case tone_features sqroot (gr_tones r) (gr_vols r) of
           (tn, tb, vz) \<Rightarrow> Some (assess tn tb vz (gr_vix r))))"

definition news_provider :: "(flt \<Rightarrow> flt) \<Rightarrow> string list \<Rightarrow> timestamp \<Rightarrow> headline list option
    \<Rightarrow> (string \<times> flt \<times> int) list option" where
  "news_provider half symbols now heads = (case heads of None \<Rightarrow> None
     | Some hs \<Rightarrow> if hs = [] then None else Some (aggregate half hs now symbols 24 8))"

definition thematic_provider :: "flt list option list option \<Rightarrow> theme option" where
  "thematic_provider basket = (case basket of None \<Rightarrow> None
     | Some b \<Rightarrow> (let mom = semis_momentum b 10 in if mom = [] then None else Some (assess_semis mom)))"

section \<open>The loop\<close>

record daemon_cfg =
  dc_kw :: build_kw
  dc_interval :: flt
  dc_geo_on :: bool
  dc_news_on :: bool
  dc_semis_on :: bool

record daemon =
  dm_events :: "raw_event list"
  dm_geo :: "geo option"
  dm_news :: "(string \<times> flt \<times> int) list option"
  dm_theme :: "theme option"
  dm_last :: "flt option"

record turn_in =
  ti_mono :: flt
  ti_now :: timestamp
  ti_fetch :: "raw_event list option"
  ti_geo :: "geo_raw option"
  ti_news :: "headline list option"
  ti_semis :: "flt list option list option"
  ti_write_ok :: bool

definition daemon_start :: daemon where
  "daemon_start = \<lparr>dm_events = [], dm_geo = None, dm_news = None, dm_theme = None, dm_last = None\<rparr>"

definition fetch_due :: "daemon_cfg \<Rightarrow> turn_in \<Rightarrow> daemon \<Rightarrow> bool" where
  "fetch_due k i d = (case dm_last d of None \<Rightarrow> True | Some l \<Rightarrow> ti_mono i - l \<ge> dc_interval k)"

definition or_keep :: "'a option \<Rightarrow> 'a option \<Rightarrow> 'a option" where
  "or_keep new old = (case new of None \<Rightarrow> old | Some x \<Rightarrow> Some x)"

definition daemon_fetch :: "(flt \<Rightarrow> flt) \<Rightarrow> (flt \<Rightarrow> flt) \<Rightarrow> daemon_cfg \<Rightarrow> turn_in \<Rightarrow> daemon \<Rightarrow> daemon" where
  "daemon_fetch half sqroot k i d =
     \<lparr>dm_events = (case ti_fetch i of None \<Rightarrow> dm_events d | Some evs \<Rightarrow> evs),
      dm_geo = (if dc_geo_on k then or_keep (geo_provider sqroot (ti_geo i)) (dm_geo d) else dm_geo d),
      dm_news = (if dc_news_on k
         then or_keep (news_provider half (bk_symbols (dc_kw k)) (ti_now i) (ti_news i)) (dm_news d) else dm_news d),
      dm_theme = (if dc_semis_on k then or_keep (thematic_provider (ti_semis i)) (dm_theme d) else dm_theme d),
      dm_last = (if ti_fetch i \<noteq> None \<or> dm_last d = None then Some (ti_mono i) else dm_last d)\<rparr>"

text \<open>One iteration: the state after it, and the document it built.\<close>

definition daemon_turn :: "pytext \<Rightarrow> (flt \<Rightarrow> flt) \<Rightarrow> (flt \<Rightarrow> flt) \<Rightarrow> daemon_cfg \<Rightarrow> turn_in \<Rightarrow> daemon
    \<Rightarrow> daemon \<times> state_doc" where
  "daemon_turn tx half sqroot k i d =
    (let d1 = (if fetch_due k i d then daemon_fetch half sqroot k i d else d)
     in (d1, build_state tx half (dc_kw k) (dm_events d1) (ti_now i) (dm_geo d1) (dm_news d1) (dm_theme d1)))"

text \<open>The loop: a write that raises an \<open>OSError\<close> is logged and leaves the file as it was.\<close>

fun daemon_run :: "pytext \<Rightarrow> (flt \<Rightarrow> flt) \<Rightarrow> (flt \<Rightarrow> flt) \<Rightarrow> daemon_cfg \<Rightarrow> turn_in list \<Rightarrow> daemon
    \<Rightarrow> daemon \<times> state_doc list" where
  "daemon_run tx half sqroot k [] d = (d, [])"
| "daemon_run tx half sqroot k (i # is) d =
    (case daemon_turn tx half sqroot k i d of (d1, st) \<Rightarrow>
     case daemon_run tx half sqroot k is d1 of (d2, sts) \<Rightarrow>
       (d2, (if ti_write_ok i then [st] else []) @ sts))"

section \<open>The atomic write\<close>

type_synonym files = "string \<Rightarrow> string option"

definition tmp_of :: "string \<Rightarrow> string" where "tmp_of path = path @ ''.tmp''"

fun write_chunks :: "string \<Rightarrow> string list \<Rightarrow> files \<Rightarrow> files list" where
  "write_chunks p [] fs = [fs]"
| "write_chunks p (c # cs) fs = fs # write_chunks p cs
     (fs(p \<mapsto> (case fs p of None \<Rightarrow> [] | Some old \<Rightarrow> old) @ c))"

text \<open>Every state of the disk while \<open>write_state\<close> runs, in order: the temporary file is truncated,
  filled piece by piece, and renamed over the target.\<close>

definition write_state :: "string \<Rightarrow> string list \<Rightarrow> files \<Rightarrow> files list" where
  "write_state path chunks fs =
    (let filled = write_chunks (tmp_of path) chunks (fs(tmp_of path \<mapsto> []))
     in fs # filled @ [(last filled)(path := last filled (tmp_of path), tmp_of path := None)])"

section \<open>The macro backtest\<close>

record trade =
  tr_ts :: timestamp
  tr_symbol :: string
  tr_direction :: string
  tr_pnl :: flt

record trade_stats =
  tt_n :: nat
  tt_net :: flt
  tt_pf :: "flt option"
  tt_winrate :: flt

definition stats :: "trade list \<Rightarrow> trade_stats" where
  "stats trades =
    (let n = length trades;
         wins = filter (\<lambda>p. p > 0) (map tr_pnl trades); losses = filter (\<lambda>p. p < 0) (map tr_pnl trades);
         gross_w = sum_list wins; gross_l = - sum_list losses
     in \<lparr>tt_n = n, tt_net = round_dp 2 (sum_list (map tr_pnl trades)),
         tt_pf = (if gross_l > 0 then Some (round_dp 3 (gross_w / gross_l)) else None),
         tt_winrate = (if n \<noteq> 0 then round_dp 3 (of_nat (length wins) / of_nat n) else 0)\<rparr>)"

definition direction_named :: "string \<Rightarrow> error + direction" where
  "direction_named s = (if s = ''LONG'' then Inr LONG else if s = ''SHORT'' then Inr SHORT else Inl KeyError)"

definition judge_trade :: "pytext \<Rightarrow> (flt \<Rightarrow> flt) \<Rightarrow> build_kw \<Rightarrow> raw_event list \<Rightarrow> flt \<Rightarrow> string \<Rightarrow> trade
    \<Rightarrow> error + decision" where
  "judge_trade tx half k events conf_min policy t =
     and_then (from_dict tx (doc_json (build_state tx half k events (tr_ts t) None None None))) (\<lambda>st.
     and_then (direction_named (upper (tr_direction t))) (\<lambda>dir.
       Inr (decide_entry (Some st) (bare_key (tr_symbol t)) dir None (tr_ts t) conf_min policy)))"

fun apply_macro :: "pytext \<Rightarrow> (flt \<Rightarrow> flt) \<Rightarrow> build_kw \<Rightarrow> raw_event list \<Rightarrow> flt \<Rightarrow> string \<Rightarrow> trade list
    \<Rightarrow> error + trade list \<times> (trade \<times> decision) list" where
  "apply_macro tx half k events conf_min policy [] = Inr ([], [])"
| "apply_macro tx half k events conf_min policy (t # ts) =
     and_then (judge_trade tx half k events conf_min policy t) (\<lambda>dec.
     and_then (apply_macro tx half k events conf_min policy ts) (\<lambda>(kept, decs).
       Inr ((if d_veto dec then kept else t # kept), (t, dec) # decs)))"

record comparison =
  cp_baseline :: trade_stats
  cp_filtered :: trade_stats
  cp_dropped :: int

definition compare_row :: "trade list \<Rightarrow> trade list \<Rightarrow> comparison" where
  "compare_row trades kept = \<lparr>cp_baseline = stats trades, cp_filtered = stats kept,
     cp_dropped = int (length trades) - int (length kept)\<rparr>"

definition compare :: "pytext \<Rightarrow> (flt \<Rightarrow> flt) \<Rightarrow> build_kw \<Rightarrow> raw_event list \<Rightarrow> flt \<Rightarrow> string \<Rightarrow> trade list
    \<Rightarrow> string list \<Rightarrow> error + comparison \<times> (string \<times> comparison) list" where
  "compare tx half k events conf_min policy trades symbols =
     and_then (apply_macro tx half k events conf_min policy trades) (\<lambda>(kept, _).
       Inr (compare_row trades kept,
         map (\<lambda>s. (s, compare_row (filter (\<lambda>t. bare_key (tr_symbol t) = s) trades)
                             (filter (\<lambda>t. bare_key (tr_symbol t) = s) kept))) symbols))"

end
