(* ===== verification/Json_Shape.thy ===== *)
theory Json_Shape
  imports Macro_Guard
begin

text \<open>
  Types for JSON documents: a \<open>shape\<close> says which keys an object has and what their values are, and
  \<open>fits\<close> checks a value against it. The state document and the trade event are typed this way.
\<close>

section \<open>Shapes of JSON values\<close>

datatype shape =
    Nothing
  | Flag
  | Whole
  | Number flt flt
  | Decimal
  | Text
  | OneOf "string list"
  | Maybe shape
  | Items shape
  | Fields "(string \<times> shape) list"
  | Table shape

fun fits :: "shape \<Rightarrow> json \<Rightarrow> bool" where
  "fits Nothing j = (j = JNull)"
| "fits Flag j = (case j of JBool _ \<Rightarrow> True | _ \<Rightarrow> False)"
| "fits Whole j = (case j of JInt _ \<Rightarrow> True | _ \<Rightarrow> False)"
| "fits (Number lo hi) j = (case j of JFloat (Fin v) \<Rightarrow> lo \<le> v \<and> v \<le> hi | _ \<Rightarrow> False)"
| "fits Decimal j = (case j of JFloat _ \<Rightarrow> True | _ \<Rightarrow> False)"
| "fits Text j = (case j of JStr _ \<Rightarrow> True | _ \<Rightarrow> False)"
| "fits (OneOf xs) j = (case j of JStr s \<Rightarrow> s \<in> set xs | _ \<Rightarrow> False)"
| "fits (Maybe t) j = (j = JNull \<or> fits t j)"
| "fits (Items t) j = (case j of JArr xs \<Rightarrow> list_all (fits t) xs | _ \<Rightarrow> False)"
| "fits (Fields fs) j = (case j of JObj kvs \<Rightarrow> map fst kvs = map fst fs
      \<and> list_all2 (\<lambda>f kv. fits (snd f) (snd kv)) fs kvs | _ \<Rightarrow> False)"
| "fits (Table t) j = (case j of JObj kvs \<Rightarrow> distinct (map fst kvs) \<and> list_all (\<lambda>kv. fits t (snd kv)) kvs
      | _ \<Rightarrow> False)"

end
