(* ===== verification/Macro_Sidecar_Properties.thy ===== *)
theory Macro_Sidecar_Properties
  imports Macro_Daemon Macro_Properties Json_Shape
begin

text \<open>
  What the sidecar promises the guard: every document it writes has the documented shape and ranges,
  reads back as exactly the state that was built, and blocks entries inside an event window; and
  what its layers promise each other.
\<close>

section \<open>The shape of the document\<close>

definition bias_names :: "string list" where "bias_names = [''bullish'', ''bearish'', ''neutral'']"

definition asset_shape :: shape where
  "asset_shape = Fields [(''bias'', OneOf bias_names), (''score'', Number (-1) 1),
     (''horizon'', OneOf [''intraday'']), (''drivers'', Items Text)]"

definition blackout_shape :: shape where
  "blackout_shape = Fields [(''active'', Flag), (''until'', Maybe Text), (''reason'', Maybe Text)]"

definition event_shape :: shape where
  "event_shape = Fields [(''id'', Text), (''ts'', Text), (''impact'', OneOf [''high'', ''medium'']),
     (''kind'', Text), (''currency'', Text), (''blackout_pre_min'', Whole), (''blackout_post_min'', Whole)]"

definition state_shape :: shape where
  "state_shape = Fields [(''schema_version'', Whole), (''generated_at'', Text), (''ttl_sec'', Whole),
     (''global'', Fields [(''risk_regime'', OneOf [''risk_on'', ''risk_off'', ''neutral'']),
        (''risk_score'', Number (-1) 1), (''confidence'', Number 0 1), (''blackout'', blackout_shape)]),
     (''events'', Items event_shape), (''assets'', Table asset_shape)]"

section \<open>The ranges every layer keeps\<close>

definition asset_ok :: "asset \<Rightarrow> bool" where
  "asset_ok a \<longleftrightarrow> as_bias a = bias_of (as_score a) \<and> -1 \<le> as_score a \<and> as_score a \<le> 1
     \<and> as_horizon a = ''intraday''"

definition hard_stop_ok :: "hard_stop \<Rightarrow> bool" where
  "hard_stop_ok h \<longleftrightarrow> (hs_active h \<longrightarrow> hs_until h \<noteq> None \<and> hs_reason h \<noteq> None)"

definition state_ok :: "string list \<Rightarrow> state_doc \<Rightarrow> bool" where
  "state_ok names st \<longleftrightarrow> map fst (sd_assets st) = names \<and> (\<forall>a \<in> snd ` set (sd_assets st). asset_ok a)
     \<and> sd_regime st \<in> {''risk_on'', ''risk_off'', ''neutral''} \<and> -1 \<le> sd_risk st \<and> sd_risk st \<le> 1
     \<and> 0 \<le> sd_conf st \<and> sd_conf st \<le> 1 \<and> hard_stop_ok (sd_blackout st)
     \<and> (\<forall>e \<in> set (sd_events st). ue_impact e \<in> {''high'', ''medium''})"

definition theme_ok :: "theme \<Rightarrow> bool" where
  "theme_ok th \<longleftrightarrow> 0 \<le> th_conf th \<and> th_conf th \<le> 6/10"

definition geo_ok :: "geo \<Rightarrow> bool" where
  "geo_ok g \<longleftrightarrow> 0 \<le> ge_score g \<and> ge_score g \<le> 1 \<and> 0 \<le> ge_conf g \<and> ge_conf g \<le> 9/10"

lemma clamp1_bounds: "-1 \<le> clamp1 x" "clamp1 x \<le> 1"
  by (simp_all add: clamp1_def)

lemma round_dp_one [simp]: "round_dp 3 1 = 1" "round_dp 3 (-1) = -1"
proof -
  have "round_even 1000 = 1000" "round_even (-1000) = -1000"
    using round_even_of_int [of 1000] round_even_of_int [of "-1000"] by simp_all
  then show "round_dp 3 1 = 1" "round_dp 3 (-1) = -1" by (simp_all add: round_dp_def)
qed

lemma round_dp_unit: "-1 \<le> x \<Longrightarrow> x \<le> 1 \<Longrightarrow> -1 \<le> round_dp 3 x \<and> round_dp 3 x \<le> 1"
  using round_dp_mono [of "-1" x 3] round_dp_mono [of x 1 3] by simp

lemma round_dp_unit_pos: "0 \<le> x \<Longrightarrow> x \<le> 1 \<Longrightarrow> 0 \<le> round_dp 3 x \<and> round_dp 3 x \<le> 1"
  using round_dp_nonneg [of x 3] round_dp_mono [of x 1 3] by simp

lemma tilted_ok: "asset_ok a \<Longrightarrow> asset_ok (tilted d a)"
  using round_dp_unit [OF clamp1_bounds, of "as_score a + d"] by (simp add: asset_ok_def tilted_def Let_def)

lemma asset_ok_drivers [simp]: "asset_ok (a\<lparr>as_drivers := ds\<rparr>) = asset_ok a"
  by (simp add: asset_ok_def)

lemma mapped_assets_ok:
  assumes "\<forall>a \<in> snd ` set xs. asset_ok a" "\<And>s a. fst (f (s, a)) = s" "\<And>s a. asset_ok a \<Longrightarrow> asset_ok (snd (f (s, a)))"
  shows "map fst (map f xs) = map fst xs \<and> (\<forall>a \<in> snd ` set (map f xs). asset_ok a)"
  using assms(1)
proof (induction xs)
  case (Cons x xs)
  obtain s a where x: "x = (s, a)" by (meson surj_pair)
  show ?case using Cons assms(2) [of s a] assms(3) [of a s] by (simp add: x)
qed simp

lemma score_event_names: "map fst (ta_assets (score_event tx half now lb hl ev t)) = map fst (ta_assets t)"
proof -
  have "map fst (map (\<lambda>(s, acc, ds). case map_of coeffs s of None \<Rightarrow> (s, acc, ds)
       | Some c \<Rightarrow> (s, acc + w * c * sv, add_driver tag ds)) xs) = map fst xs" for coeffs w sv tag and xs :: "(string \<times> flt \<times> string list) list"
    by (induction xs) (auto split: option.splits)
  then show ?thesis by (simp add: score_event_def Let_def split: option.splits)
qed

lemma fold_score_names:
  "map fst (ta_assets (fold (score_event tx half now lb hl) evs t)) = map fst (ta_assets t)"
  by (induction evs arbitrary: t) (simp_all add: score_event_names)

lemma regime_of_cases: "regime_of r \<in> {''risk_on'', ''risk_off'', ''neutral''}"
  by (simp add: regime_of_def)

lemma score_ok:
  assumes "score tx half events now symbols lb hl = (assets, regime, risk, conf)"
  shows "map fst assets = fromkeys symbols" "\<forall>a \<in> snd ` set assets. asset_ok a"
    "regime \<in> {''risk_on'', ''risk_off'', ''neutral''}" "-1 \<le> risk \<and> risk \<le> 1" "0 \<le> conf \<and> conf \<le> 1"
proof -
  define t where "t = fold (score_event tx half now lb hl) events
     \<lparr>ta_assets = map (\<lambda>s. (s, 0, [])) (fromkeys symbols), ta_conf = 0\<rparr>"
  have names: "map fst (ta_assets t) = fromkeys symbols"
    by (simp add: t_def fold_score_names comp_def)
  have as: "assets = map (\<lambda>(s, acc, ds). (s, \<lparr>as_bias = bias_of (round_dp 3 (clamp1 acc)),
       as_score = round_dp 3 (clamp1 acc), as_horizon = ''intraday'', as_drivers = ds\<rparr>)) (ta_assets t)"
    using assms by (simp add: score_def Let_def t_def)
  have "map fst assets = map fst (ta_assets t)" by (simp add: as case_prod_unfold comp_def)
  then show "map fst assets = fromkeys symbols" using names by simp
  show "\<forall>a \<in> snd ` set assets. asset_ok a"
    using round_dp_unit [OF clamp1_bounds] by (auto simp: as asset_ok_def)
  have r: "\<exists>x. regime = regime_of x" "\<exists>x. risk = round_dp 3 (clamp1 x)"
    "\<exists>x. conf = round_dp 3 (max 0 (min 1 x))"
    using assms by (auto simp: score_def Let_def)
  then show "regime \<in> {''risk_on'', ''risk_off'', ''neutral''}" "-1 \<le> risk \<and> risk \<le> 1" "0 \<le> conf \<and> conf \<le> 1"
    using regime_of_cases round_dp_unit [OF clamp1_bounds] round_dp_unit_pos by auto
qed

lemma merge_sentiment_ok [inv_intros]:
  assumes "state_ok names st"
  shows "state_ok names (merge_sentiment st news w)"
proof (cases news)
  case None
  then show ?thesis using assms by (simp add: merge_sentiment_def)
next
  case (Some ag)
  define f where "f = (\<lambda>(s, a). case sent_tilts ag s of None \<Rightarrow> (s, a)
     | Some (v, n) \<Rightarrow> (s, (tilted (w * v) a)\<lparr>as_drivers := add_driver (''sentiment='' @ fixed_signed 2 v) (as_drivers a)\<rparr>))"
  have f: "map fst (map f (sd_assets st)) = map fst (sd_assets st) \<and> (\<forall>a \<in> snd ` set (map f (sd_assets st)). asset_ok a)"
    by (rule mapped_assets_ok) (use assms in \<open>auto simp: state_ok_def f_def tilted_ok split: option.splits\<close>)
  define mx where "mx = fold (\<lambda>(s, a) m. case sent_tilts ag s of None \<Rightarrow> m | Some (v, n) \<Rightarrow> max m n) (sd_assets st) 0"
  define c where "c = round_dp 3 (min (1/2) (of_int mx / 5 * (1/2)))"
  have c: "0 \<le> c \<and> c \<le> 1" if "mx > 0"
    unfolding c_def by (rule round_dp_unit_pos) (use that in auto)
  have "merge_sentiment st news w = st\<lparr>sd_assets := map f (sd_assets st),
      sd_conf := (if mx > 0 then max (sd_conf st) c else sd_conf st)\<rparr>"
    by (simp add: merge_sentiment_def Some Let_def f_def mx_def c_def)
  then show ?thesis using assms f c by (auto simp: state_ok_def)
qed

lemma merge_thematic_ok [inv_intros]:
  assumes "state_ok names st" "\<forall>t. th = Some t \<longrightarrow> theme_ok t"
  shows "state_ok names (merge_thematic st th)"
proof (cases "\<exists>t. th = Some t \<and> th_score t \<noteq> 0")
  case False
  then have "merge_thematic st th = st" by (auto simp: merge_thematic_def split: option.splits)
  then show ?thesis using assms by simp
next
  case True
  then obtain t where t: "th = Some t" "th_score t \<noteq> 0" by auto
  define f where "f = (\<lambda>(s, a). case map_of theme_weights s of None \<Rightarrow> (s, a)
     | Some w \<Rightarrow> (s, (tilted (w * th_score t) a)\<lparr>as_drivers := fold add_driver (th_drivers t) (as_drivers a)\<rparr>))"
  have f: "map fst (map f (sd_assets st)) = map fst (sd_assets st) \<and> (\<forall>a \<in> snd ` set (map f (sd_assets st)). asset_ok a)"
    by (rule mapped_assets_ok) (use assms in \<open>auto simp: state_ok_def f_def tilted_ok split: option.splits\<close>)
  have "merge_thematic st th = st\<lparr>sd_assets := map f (sd_assets st), sd_conf := max (sd_conf st) (th_conf t)\<rparr>"
    by (simp add: merge_thematic_def t f_def)
  then show ?thesis using assms f t by (auto simp: state_ok_def theme_ok_def)
qed

lemma merge_geo_ok [inv_intros]:
  assumes "state_ok names st" "\<forall>x. g = Some x \<longrightarrow> geo_ok x"
  shows "state_ok names (merge_geo st g now cd)"
proof (cases "\<exists>x. g = Some x \<and> ge_risk_off x")
  case False
  then have "merge_geo st g now cd = st" by (auto simp: merge_geo_def split: option.splits)
  then show ?thesis using assms by simp
next
  case True
  then obtain x where x: "g = Some x" "ge_risk_off x" by auto
  define f where "f = (\<lambda>(s, a). case tilt_sign s of None \<Rightarrow> (s, a)
     | Some sg \<Rightarrow> (s, (tilted (sg * ge_score x) a)\<lparr>as_drivers := add_driver ''risk_off'' (as_drivers a)\<rparr>))"
  have f: "map fst (map f (sd_assets st)) = map fst (sd_assets st) \<and> (\<forall>a \<in> snd ` set (map f (sd_assets st)). asset_ok a)"
    by (rule mapped_assets_ok) (use assms in \<open>auto simp: state_ok_def f_def tilted_ok split: option.splits\<close>)
  define r where "r = round_dp 3 (min (sd_risk st) (- ge_score x))"
  have r: "-1 \<le> r \<and> r \<le> 1" unfolding r_def
    by (rule round_dp_unit) (use assms x in \<open>auto simp: state_ok_def geo_ok_def\<close>)
  define h where "h = (if ge_war_spike x then \<lparr>hs_active = True, hs_until = Some (iso (plus_min now cd)),
      hs_reason = Some ''war_spike''\<rparr> else sd_blackout st)"
  have h: "hard_stop_ok h" using assms by (simp add: h_def hard_stop_ok_def state_ok_def)
  have "merge_geo st g now cd = st\<lparr>sd_assets := map f (sd_assets st), sd_regime := ''risk_off'', sd_risk := r,
      sd_conf := max (sd_conf st) (ge_conf x), sd_blackout := h\<rparr>"
    by (simp add: merge_geo_def x f_def r_def h_def)
  then show ?thesis using assms f r h x by (auto simp: state_ok_def geo_ok_def)
qed

lemma active_blackout_ok: "active_blackout events now pre post impacts = Some bo \<Longrightarrow> hs_active bo \<and> hard_stop_ok bo"
  by (auto simp: active_blackout_def Let_def hard_stop_ok_def split: if_splits)

lemma upcoming_impacts: "e \<in> set (upcoming_events events now h pre post) \<Longrightarrow> ue_impact e \<in> {''high'', ''medium''}"
  by (auto simp: upcoming_events_def)

lemma build_state_ok:
  assumes "\<forall>x. g = Some x \<longrightarrow> geo_ok x" "\<forall>t. th = Some t \<longrightarrow> theme_ok t"
  shows "state_ok (fromkeys (bk_symbols k)) (build_state tx half k events now g news th)"
proof -
  obtain assets regime risk conf where sc:
    "score tx half events now (bk_symbols k) (bk_lookback_h k) (bk_half_life_h k) = (assets, regime, risk, conf)"
    by (metis prod_cases4)
  define s1 where "s1 = (neutral_state (bk_symbols k) (bk_ttl k) (iso now))
     \<lparr>sd_assets := assets, sd_regime := regime, sd_risk := risk, sd_conf := conf\<rparr>"
  define s2 where "s2 = merge_thematic (merge_sentiment s1 news (3/10)) th"
  define s3 where "s3 = (case active_blackout events now (bk_pre k) (bk_post k) (bk_impacts k) of
     None \<Rightarrow> s2 | Some bo \<Rightarrow> s2\<lparr>sd_blackout := bo\<rparr>)"
  define s4 where "s4 = s3\<lparr>sd_events := upcoming_events events now (bk_horizon_h k) (bk_pre k) (bk_post k)\<rparr>"
  have "state_ok (fromkeys (bk_symbols k)) s1"
    using score_ok [OF sc] by (simp add: s1_def state_ok_def neutral_state_def hard_stop_ok_def)
  then have "state_ok (fromkeys (bk_symbols k)) s2" unfolding s2_def
    by (intro merge_thematic_ok merge_sentiment_ok assms)
  then have "state_ok (fromkeys (bk_symbols k)) s3"
    using active_blackout_ok by (auto simp: s3_def state_ok_def split: option.splits)
  then have "state_ok (fromkeys (bk_symbols k)) s4"
    using upcoming_impacts by (fastforce simp: s4_def state_ok_def)
  moreover have "build_state tx half k events now g news th = merge_geo s4 g now 120"
    unfolding build_state_def sc Let_def s4_def s3_def s2_def s1_def prod.case ..
  ultimately show ?thesis using merge_geo_ok assms(1) by simp
qed

lemma assess_ok: "geo_ok (assess tn tb vz vix)"
proof -
  define a where "a = (if tb - tn \<ge> 2 \<and> vz \<ge> 3/2 then 6/10 * min 1 ((tb - tn) / (2 * 2)) else 0)"
  define b where "b = (case vix of Some v \<Rightarrow> if v \<ge> 25 then 2/10 + 2/10 * min 1 ((v - 25) / 15) else 0 | None \<Rightarrow> 0)"
  have "0 \<le> a" by (simp add: a_def)
  moreover have "0 \<le> b" by (simp add: b_def split: option.splits)
  ultimately have "0 \<le> round_dp 3 (min 1 (a + b)) \<and> round_dp 3 (min 1 (a + b)) \<le> 1"
    by (intro round_dp_unit_pos) simp_all
  then show ?thesis by (simp add: geo_ok_def assess_def Let_def a_def b_def)
qed

lemma assess_semis_ok: "theme_ok (assess_semis vals)"
proof -
  have c: "round_dp 3 (6/10) = 6/10" by code_simp
  have "round_dp 3 (min (6/10) \<bar>x\<bar>) \<le> round_dp 3 (6/10)" for x by (rule round_dp_mono) simp
  moreover have "0 \<le> round_dp 3 (min (6/10) \<bar>x\<bar>)" for x by (rule round_dp_nonneg) simp
  ultimately show ?thesis unfolding c by (simp add: theme_ok_def assess_semis_def Let_def)
qed

section \<open>What the process writes\<close>

lemma asset_fits: "asset_ok a \<Longrightarrow> fits asset_shape (asset_json a)"
  by (auto simp: asset_ok_def asset_shape_def asset_json_def bias_of_def bias_names_def list_all_iff)

lemma jopt_fits: "fits (Maybe Text) (jopt x)"
  by (cases x) (simp_all add: jopt_def)

lemma event_fits: "ue_impact e \<in> {''high'', ''medium''} \<Longrightarrow> fits event_shape (event_json e)"
  by (simp add: event_shape_def event_json_def)

lemma doc_fits:
  assumes "state_ok names st" "distinct names"
  shows "fits state_shape (doc_json st)"
proof -
  have a: "list_all (\<lambda>kv. fits asset_shape (snd kv)) (map (\<lambda>(k, a). (k, asset_json a)) (sd_assets st))"
    using assms(1) asset_fits by (fastforce simp: state_ok_def list_all_iff)
  have d: "map fst (map (\<lambda>(k, a). (k, asset_json a)) (sd_assets st)) = names"
    using assms(1) by (simp add: state_ok_def case_prod_unfold comp_def)
  have e: "list_all (fits event_shape) (map event_json (sd_events st))"
    using assms(1) event_fits by (simp add: state_ok_def list_all_iff)
  have t: "fits (Table asset_shape) (JObj (map (\<lambda>(k, a). (k, asset_json a)) (sd_assets st)))"
    using a d assms(2) by simp
  have i: "fits (Items event_shape) (JArr (map event_json (sd_events st)))" using e by simp
  have b: "fits blackout_shape (JObj [(''active'', JBool (hs_active (sd_blackout st))),
      (''until'', jopt (hs_until (sd_blackout st))), (''reason'', jopt (hs_reason (sd_blackout st)))])"
    using jopt_fits by (simp add: blackout_shape_def)
  show ?thesis using assms(1) t i b
    by (simp add: state_shape_def doc_json_def state_ok_def del: fits.simps(9,11) add: fits.simps(1-8,10))
qed

definition daemon_ok :: "daemon \<Rightarrow> bool" where
  "daemon_ok d \<longleftrightarrow> (\<forall>x. dm_geo d = Some x \<longrightarrow> geo_ok x) \<and> (\<forall>t. dm_theme d = Some t \<longrightarrow> theme_ok t)"

lemma provider_ok: "geo_provider sqroot raw = Some x \<Longrightarrow> geo_ok x" "thematic_provider b = Some t \<Longrightarrow> theme_ok t"
  using assess_ok assess_semis_ok
  by (auto simp: geo_provider_def thematic_provider_def Let_def split: option.splits if_splits prod.splits)

lemma daemon_fetch_ok: "daemon_ok d \<Longrightarrow> daemon_ok (daemon_fetch half sqroot k i d)"
  using provider_ok by (auto simp: daemon_ok_def daemon_fetch_def or_keep_def split: option.splits)

lemma daemon_turn_ok:
  assumes "daemon_ok d" "daemon_turn tx half sqroot k i d = (d1, st)"
  shows "daemon_ok d1" "state_ok (fromkeys (bk_symbols (dc_kw k))) st"
proof -
  show d1: "daemon_ok d1" using assms daemon_fetch_ok by (auto simp: daemon_turn_def Let_def split: if_splits)
  have "st = build_state tx half (dc_kw k) (dm_events d1) (ti_now i) (dm_geo d1) (dm_news d1) (dm_theme d1)"
    using assms(2) by (auto simp: daemon_turn_def Let_def)
  then show "state_ok (fromkeys (bk_symbols (dc_kw k))) st"
    using build_state_ok d1 by (simp add: daemon_ok_def)
qed

lemma daemon_run_ok:
  "daemon_ok d \<Longrightarrow> daemon_run tx half sqroot k is d = (d', sts)
    \<Longrightarrow> daemon_ok d' \<and> (\<forall>st \<in> set sts. state_ok (fromkeys (bk_symbols (dc_kw k))) st)"
proof (induction "is" arbitrary: d d' sts)
  case (Cons i "is")
  obtain d1 st where t: "daemon_turn tx half sqroot k i d = (d1, st)" by (meson surj_pair)
  obtain d2 sts' where r: "daemon_run tx half sqroot k is d1 = (d2, sts')" by (meson surj_pair)
  have ok: "daemon_ok d1" "state_ok (fromkeys (bk_symbols (dc_kw k))) st"
    using daemon_turn_ok [OF Cons.prems(1) t] by simp_all
  show ?case using Cons.IH [OF ok(1) r] ok(2) Cons.prems(2) by (auto simp: t r split: if_splits)
qed simp

text \<open>C24: whatever the feeds return and whichever of them fail, every document the sidecar writes
  has the documented shape: each key present with its type, scores and risk in [-1, 1], confidence
  in [0, 1], bias and regime among their names, one entry per symbol.\<close>

theorem state_document_typed:
  "list_all (\<lambda>st. fits state_shape (doc_json st)) (snd (daemon_run tx half sqroot k is daemon_start))"
proof -
  obtain d' sts where r: "daemon_run tx half sqroot k is daemon_start = (d', sts)" by (meson surj_pair)
  have "daemon_ok daemon_start" by (simp add: daemon_ok_def daemon_start_def)
  then show ?thesis using daemon_run_ok [OF _ r] doc_fits by (auto simp: r list_all_iff)
qed

section \<open>What the guard reads\<close>

text \<open>The behaviour of \<open>fromisoformat\<close> the two processes rely on, and a reader that has it.\<close>

definition reads_iso :: "pytext \<Rightarrow> bool" where
  "reads_iso tx \<longleftrightarrow> (\<forall>t. four_digit_year t \<longrightarrow> tx_iso tx (replace_z (iso t)) = Some (whole_sec t, Some 0))"

definition iso_text :: pytext where
  "iso_text = \<lparr>tx_float = map_of [(''2'', Fin 2), (''4'', Fin 4)],
     tx_int = (\<lambda>_. None), tx_iso = read_iso, tx_str = (\<lambda>_. ''?'')\<rparr>"

lemma reads_iso_text: "reads_iso iso_text"
  using read_iso_iso by (simp add: reads_iso_def iso_text_def)

definition view_of :: "asset \<Rightarrow> asset_view" where
  "view_of a = \<lparr>av_bias = as_bias a, av_score = Fin (as_score a), av_horizon = as_horizon a,
     av_drivers = map JStr (as_drivers a)\<rparr>"

text \<open>The guard's value of a built document: keys upper-cased, a later key winning.\<close>

definition views :: "(string \<times> asset) list \<Rightarrow> string \<rightharpoonup> asset_view" where
  "views assets = map_of (rev (map (\<lambda>(s, a). (upper s, view_of a)) assets))"

definition parsed :: "state_doc \<Rightarrow> timestamp \<Rightarrow> macro_state" where
  "parsed st now = \<lparr>ms_schema = sd_schema st, ms_generated = utc_ts (whole_sec now), ms_ttl = sd_ttl st,
     ms_regime = sd_regime st, ms_risk = Fin (sd_risk st), ms_conf = Fin (sd_conf st),
     ms_blackout = \<lparr>bo_active = hs_active (sd_blackout st), bo_until = jopt (hs_until (sd_blackout st)),
        bo_reason = jopt (hs_reason (sd_blackout st))\<rparr>,
     ms_assets = views (sd_assets st)\<rparr>"

lemma asset_of_json: "asset_of tx (asset_json a) = Inr (view_of a)"
  by (cases "as_drivers a")
    (simp_all add: asset_of_def asset_json_def view_of_def jget_def and_then_def py_float_def py_str_def
      py_tuple_def jor_def jtrue_def)

lemma assets_of_json:
  "assets_of tx (map (\<lambda>(k, a). (k, asset_json a)) xs) acc
     = Inr (acc ++ map_of (rev (map (\<lambda>(s, a). (upper s, view_of a)) xs)))"
  by (induction xs arbitrary: acc) (auto simp: asset_of_json and_then_def)

lemma from_dict_doc:
  assumes "reads_iso tx" "four_digit_year now" "sd_generated st = iso now"
  shows "from_dict tx (doc_json st) = Inr (parsed st now)"
proof -
  have ts: "parse_ts tx (iso now) = Inr (utc_ts (whole_sec now))"
    using assms(1,2) by (simp add: reads_iso_def parse_ts_def)
  have as: "and_then (items (jor (JObj xs) (JObj []))) f = f xs" for xs and f :: "(string \<times> json) list \<Rightarrow> error + 'b"
    by (cases xs) (simp_all add: jor_def jtrue_def items_def and_then_def)
  define kvs where "kvs = map (\<lambda>(k, a). (k, asset_json a)) (sd_assets st)"
  have av: "assets_of tx kvs (\<lambda>_. None) = Inr (views (sd_assets st))"
    unfolding kvs_def assets_of_json by (simp add: views_def)
  have it: "items (jor (JObj kvs) (JObj [])) = Inr kvs"
    by (cases kvs) (simp_all add: jor_def jtrue_def items_def)
  show ?thesis
    by (simp add: from_dict_def doc_json_def jget_def and_then_def index_of_def py_int_def py_str_def
        py_float_def Let_def jor_def [of "JObj (_ # _)"] jtrue_def [of "JObj (_ # _)"] assms(3) ts
        kvs_def [symmetric] it av parsed_def jtrue_def)
qed

lemma merge_generated [frame_simps]:
  "sd_generated (merge_sentiment st news w) = sd_generated st" "sd_ttl (merge_sentiment st news w) = sd_ttl st"
  "sd_blackout (merge_sentiment st news w) = sd_blackout st"
  "sd_generated (merge_thematic st th) = sd_generated st" "sd_ttl (merge_thematic st th) = sd_ttl st"
  "sd_blackout (merge_thematic st th) = sd_blackout st"
  "sd_generated (merge_geo st g now cd) = sd_generated st" "sd_ttl (merge_geo st g now cd) = sd_ttl st"
  by (simp_all add: merge_sentiment_def merge_thematic_def merge_geo_def Let_def split: option.splits)

lemma build_state_frame:
  "sd_generated (build_state tx half k events now g news th) = iso now"
  "sd_ttl (build_state tx half k events now g news th) = bk_ttl k"
proof -
  obtain assets regime risk conf where sc:
    "score tx half events now (bk_symbols k) (bk_lookback_h k) (bk_half_life_h k) = (assets, regime, risk, conf)"
    by (metis prod_cases4)
  show "sd_generated (build_state tx half k events now g news th) = iso now"
    "sd_ttl (build_state tx half k events now g news th) = bk_ttl k"
    by (simp_all add: build_state_def sc Let_def frame_simps neutral_state_def split: option.splits)
qed

text \<open>C25: the two processes agree. The document the sidecar builds at \<open>now\<close>, read by the guard, is
  exactly the state that was built: same lifetime, regime, scores, confidence and blackout, one view
  per symbol under its upper-case name, generated at the second it was written.\<close>

theorem state_document_roundtrip:
  assumes "reads_iso tx" "four_digit_year now"
  shows "from_dict tx (doc_json (build_state tx half k events now g news th))
    = Inr (parsed (build_state tx half k events now g news th) now)"
  by (rule from_dict_doc [OF assms build_state_frame(1)])

definition noon :: timestamp where "noon = utc_ts (1750000000 * 1000000)"

theorem state_document_roundtrip_witness:
  "from_dict iso_text (doc_json (build_state iso_text (\<lambda>_. 1) default_kw [] noon None None None))
    = Inr (parsed (build_state iso_text (\<lambda>_. 1) default_kw [] noon None None None) noon)"
  by (rule state_document_roundtrip [OF reads_iso_text]) code_simp

section \<open>Blackouts reach the entry\<close>

definition event_window :: "build_kw \<Rightarrow> raw_event list \<Rightarrow> timestamp \<Rightarrow> bool" where
  "event_window k events now \<longleftrightarrow>
     list_ex (\<lambda>ev. re_impact ev \<in> set (bk_impacts k) \<and> in_window (bk_pre k) (bk_post k) now ev) events"

definition war_spike :: "geo option \<Rightarrow> bool" where
  "war_spike g = (case g of None \<Rightarrow> False | Some x \<Rightarrow> ge_risk_off x \<and> ge_war_spike x)"

lemma active_blackout_None:
  "active_blackout events now (bk_pre k) (bk_post k) (bk_impacts k) = None \<longleftrightarrow> \<not> event_window k events now"
  by (auto simp: active_blackout_def Let_def event_window_def list_ex_iff filter_empty_conv)

lemma build_blackout:
  "hs_active (sd_blackout (build_state tx half k events now g news th))
     \<longleftrightarrow> event_window k events now \<or> war_spike g"
proof -
  obtain assets regime risk conf where sc:
    "score tx half events now (bk_symbols k) (bk_lookback_h k) (bk_half_life_h k) = (assets, regime, risk, conf)"
    by (metis prod_cases4)
  show ?thesis
  proof (cases "active_blackout events now (bk_pre k) (bk_post k) (bk_impacts k)")
    case None
    then show ?thesis using active_blackout_None [of events now k]
      by (simp add: build_state_def sc merge_geo_def war_spike_def frame_simps neutral_state_def Let_def split: option.splits)
  next
    case (Some bo)
    then have "event_window k events now" "hs_active bo"
      using active_blackout_None [of events now k] active_blackout_ok by auto
    then show ?thesis using Some
      by (simp add: build_state_def sc merge_geo_def war_spike_def frame_simps Let_def split: option.splits)
  qed
qed

definition blackout_reason :: "macro_reason \<Rightarrow> bool" where
  "blackout_reason r = (case r of BlackoutFor _ \<Rightarrow> True | _ \<Rightarrow> False)"

text \<open>C26: an event window stops trading through both processes. When the guard reads a document the
  sidecar built less than its lifetime ago, an entry is refused for a blackout exactly when, at the
  time of writing, a qualifying event's window was open or a war spike was confirmed, and open
  positions are ordered closed in exactly the same case.\<close>

theorem event_window_blocks:
  assumes "reads_iso tx" "four_digit_year now" "mg_mtime gd \<noteq> Some m" "0 < bk_ttl k"
    and "secs_between now' (utc_ts (whole_sec now)) \<le> of_int (bk_ttl k)"
    and "obs = File m (Some (doc_json (build_state tx half k events now g news th)))"
  shows "\<exists>d r. fst (evaluate_entry tx gk obs now' s gd) = Inr d \<and> fst (risk_off_now tx obs now' gd) = Inr r
    \<and> (d_veto d \<and> blackout_reason (d_reason d)) = (event_window k events now \<or> war_spike g)
    \<and> (r \<noteq> None) = (event_window k events now \<or> war_spike g)"
proof -
  define st where "st = build_state tx half k events now g news th"
  have fd: "from_dict tx (doc_json st) = Inr (parsed st now)"
    unfolding st_def by (rule from_dict_doc [OF assms(1,2) build_state_frame(1)])
  have rd: "macro_read tx obs gd = (Inr (Some (parsed st now)), \<lparr>mg_mtime = Some m, mg_state = Some (parsed st now)\<rparr>)"
    using assms(3) fd by (simp add: macro_read_def assms(6) st_def [symmetric])
  have fresh: "\<not> is_stale (parsed st now) now'"
    using assms(4,5) build_state_frame(2) [of tx half k events now g news th]
    by (simp add: is_stale_def age_sec_def parsed_def st_def)
  have act: "bo_active (ms_blackout (parsed st now)) = (event_window k events now \<or> war_spike g)"
    by (simp add: parsed_def st_def build_blackout)
  define d where "d = decide_entry (Some (parsed st now)) (gk_key gk) (s_dir s) (s_qty s) now' (gk_conf_min gk) (gk_policy gk)"
  have "(d_veto d \<and> blackout_reason (d_reason d)) = bo_active (ms_blackout (parsed st now))"
    using fresh by (auto simp: d_def decide_entry_def blackout_reason_def blackout_why_def split: option.splits)
  moreover have "(decide_risk_off (Some (parsed st now)) now' \<noteq> None) = bo_active (ms_blackout (parsed st now))"
    using fresh by (simp add: decide_risk_off_def)
  ultimately show ?thesis using act by (simp add: evaluate_entry_def risk_off_now_def rd d_def)
qed

definition cpi_row :: "string \<Rightarrow> json" where
  "cpi_row impact = JObj [(''title'', JStr ''Core CPI m/m''), (''date'', JStr ''2025-06-15T15:00:00Z''),
     (''country'', JStr ''usd''), (''impact'', JStr impact), (''forecast'', JStr ''2%''), (''actual'', JStr ''4%'')]"

definition cpi_events :: "string \<Rightarrow> raw_event list" where
  "cpi_events impact = (case parse_calendar iso_text (JArr [JStr ''junk'', cpi_row impact]) of Inl _ \<Rightarrow> [] | Inr evs \<Rightarrow> evs)"

theorem event_window_blocks_witness:
  "\<exists>d. fst (evaluate_entry iso_text demo_macro (File 1 (Some (doc_json
       (build_state iso_text (\<lambda>_. 1) default_kw (cpi_events '' High '') noon None None None)))) noon macro_long
       macro_fresh) = Inr d \<and> d_veto d \<and> blackout_reason (d_reason d)"
proof -
  have w: "event_window default_kw (cpi_events '' High '') noon = True" by code_simp
  have "four_digit_year noon" "secs_between noon (utc_ts (whole_sec noon)) \<le> of_int (bk_ttl default_kw)"
    "0 < bk_ttl default_kw" by code_simp+
  moreover have "mg_mtime macro_fresh \<noteq> Some 1" by (simp add: macro_fresh_def)
  ultimately show ?thesis
    using event_window_blocks [OF reads_iso_text, of noon macro_fresh 1 default_kw noon _ "\<lambda>_. 1"
        "cpi_events '' High ''" None None None demo_macro macro_long] w by auto
qed

section \<open>Layers that only tilt\<close>

lemma merge_sentiment_conf: "sd_conf (merge_sentiment st news w) \<le> max (sd_conf st) (1/2)"
proof -
  have h: "round_dp 3 (1/2) = 1/2" by code_simp
  have "round_dp 3 (min (1/2) x) \<le> 1/2" for x
    using round_dp_mono [of "min (1/2) x" "1/2" 3] unfolding h by simp
  then have m: "max c (round_dp 3 (min (1/2) x)) \<le> max c (1/2)" for c x
    by (intro max.mono order_refl)
  show ?thesis using m by (simp add: merge_sentiment_def Let_def split: option.splits)
qed

lemma decide_same_veto:
  assumes "is_stale a now = is_stale b now" "bo_active (ms_blackout a) = bo_active (ms_blackout b)"
    and "\<not> at_least (ms_conf a) conf_min" "\<not> at_least (ms_conf b) conf_min"
  shows "d_veto (decide_entry (Some a) key dir qty now conf_min policy)
       = d_veto (decide_entry (Some b) key dir qty now conf_min policy)"
proof -
  have "opposes a key dir conf_min = None" "opposes b key dir conf_min = None"
    using assms(3,4) by (simp_all add: opposes_def split: option.splits)
  then show ?thesis using assms(1,2) by (simp add: decide_entry_veto)
qed

text \<open>Headline sentiment never vetoes by itself. With a threshold above one half, which no
  amount of headlines reaches, and a calendar that alone is not confident enough, a document with the
  news layer vetoes exactly the entries the document without it vetoes.\<close>

theorem sentiment_never_vetoes:
  assumes "1/2 < conf_min" "sd_conf (build_state tx half k events now None None None) < conf_min"
  shows "d_veto (decide_entry (Some (parsed (build_state tx half k events now None news None) now))
            key dir qty now' conf_min policy)
       = d_veto (decide_entry (Some (parsed (build_state tx half k events now None None None) now))
            key dir qty now' conf_min policy)"
proof -
  obtain assets regime risk conf where sc:
    "score tx half events now (bk_symbols k) (bk_lookback_h k) (bk_half_life_h k) = (assets, regime, risk, conf)"
    by (metis prod_cases4)
  define s1 where "s1 = (neutral_state (bk_symbols k) (bk_ttl k) (iso now))
     \<lparr>sd_assets := assets, sd_regime := regime, sd_risk := risk, sd_conf := conf\<rparr>"
  have c: "sd_conf (build_state tx half k events now None nw None) = sd_conf (merge_sentiment s1 nw (3/10))" for nw
    unfolding build_state_def sc Let_def prod.case s1_def
    by (simp add: merge_geo_def merge_thematic_def split: option.splits)
  have "sd_conf (build_state tx half k events now None news None) < conf_min"
    using merge_sentiment_conf [of s1 news "3/10"] assms c [of None] unfolding c
    by (simp add: merge_sentiment_def)
  then show ?thesis using assms(2)
    by (intro decide_same_veto)
      (simp_all add: is_stale_def age_sec_def parsed_def build_state_frame build_blackout at_least_def)
qed

definition gold_news :: "headline list" where
  "gold_news = replicate 8 \<lparr>hl_ts = noon, hl_text = ''Gold prices crash as fear fades'', hl_source = ''rss''\<rparr>"

definition gold_kw :: build_kw where "gold_kw = default_kw\<lparr>bk_symbols := [''XAUUSD'']\<rparr>"

lemma build_conf:
  "sd_conf (build_state tx half k events now None None None)
     = snd (snd (snd (score tx half events now (bk_symbols k) (bk_lookback_h k) (bk_half_life_h k))))"
proof -
  obtain assets regime risk conf where sc:
    "score tx half events now (bk_symbols k) (bk_lookback_h k) (bk_half_life_h k) = (assets, regime, risk, conf)"
    by (metis prod_cases4)
  show ?thesis unfolding build_state_def sc Let_def prod.case
    by (simp add: merge_geo_def merge_thematic_def merge_sentiment_def split: option.splits)
qed

theorem sentiment_never_vetoes_witness:
  "\<exists>d. decide_entry (Some (parsed (build_state iso_text (\<lambda>_. 1) gold_kw (cpi_events ''Medium'') noon None
       (news_provider (\<lambda>_. 1) (bk_symbols gold_kw) noon (Some gold_news)) None) noon))
       ''XAUUSD'' LONG None noon (6/10) ''allow'' = d \<and> \<not> d_veto d"
proof -
  define cal where "cal = build_state iso_text (\<lambda>_. 1) gold_kw (cpi_events ''Medium'') noon None None None"
  have c: "sd_conf cal < 6/10" unfolding cal_def build_conf by code_simp
  have "event_window gold_kw (cpi_events ''Medium'') noon = False" by code_simp
  then have b: "\<not> bo_active (ms_blackout (parsed cal noon))"
    by (simp add: parsed_def cal_def build_blackout war_spike_def)
  have "\<not> at_least (ms_conf (parsed cal noon)) (6/10)" using c by (simp add: parsed_def at_least_def)
  then have "\<not> d_veto (decide_entry (Some (parsed cal noon)) ''XAUUSD'' LONG None noon (6/10) ''allow'')"
    using b by (simp add: decide_entry_veto opposes_def split: option.splits)
  then show ?thesis
    using sentiment_never_vetoes [of "6/10" iso_text "\<lambda>_. 1" gold_kw "cpi_events ''Medium''" noon
       "news_provider (\<lambda>_. 1) (bk_symbols gold_kw) noon (Some gold_news)" "''XAUUSD''" LONG None noon "''allow''"]
      c by (simp add: cal_def)
qed

text \<open>The semiconductor theme is said not to touch the metals. It leaves their scores alone but raises
  the one confidence all assets share: a calendar too weak to veto gold vetoes it next to a strong
  theme.\<close>

definition weak_gold :: state_doc where
  "weak_gold = (neutral_state [''XAUUSD''] 300 [])\<lparr>sd_conf := 4/10,
     sd_assets := [(''XAUUSD'', tilted (-4/10) neutral_asset)]\<rparr>"

definition strong_theme :: theme where
  "strong_theme = \<lparr>th_score = 1, th_drivers = [''semis_mom=+1.00(n=4)''], th_conf = 6/10\<rparr>"

theorem theme_reaches_metals:
  "map_of theme_weights s = None \<Longrightarrow>
     map_of (sd_assets (merge_thematic st th)) s = map_of (sd_assets st) s"
  "d_veto (decide_entry (Some (parsed weak_gold noon)) ''XAUUSD'' LONG None noon (6/10) ''allow'') = False"
  "d_veto (decide_entry (Some (parsed (merge_thematic weak_gold (Some strong_theme)) noon))
     ''XAUUSD'' LONG None noon (6/10) ''allow'') = True"
proof -
  assume s: "map_of theme_weights s = None"
  have "map_of (map (\<lambda>(s, a). case map_of theme_weights s of None \<Rightarrow> (s, a) | Some w \<Rightarrow> (s, f w a)) xs) s = map_of xs s"
    for f and xs :: "(string \<times> asset) list"
    using s by (induction xs) (auto split: option.splits)
  then show "map_of (sd_assets (merge_thematic st th)) s = map_of (sd_assets st) s"
    by (simp add: merge_thematic_def split: option.splits)
next
  show "d_veto (decide_entry (Some (parsed weak_gold noon)) ''XAUUSD'' LONG None noon (6/10) ''allow'') = False"
    by code_simp
next
  show "d_veto (decide_entry (Some (parsed (merge_thematic weak_gold (Some strong_theme)) noon))
     ''XAUUSD'' LONG None noon (6/10) ''allow'') = True" by code_simp
qed

section \<open>Texts and rows\<close>

text \<open>A negator is said to flip the next sentiment word; it flips only the very next word, and the
  contraction it lists as \<open>nt\<close> is cut in two by the tokeniser and never recognised.\<close>

theorem negation_is_adjacent:
  "score_text ''no sign of recession'' = Some (-1)" "score_text ''no recession'' = Some 1"
  "score_text (''gold isn'' @ [CHR 0x27] @ ''t strong'') = Some 1"
  by code_simp+

text \<open>The calendar reader is said to skip junk rows, but a row whose impact is a number raises an
  attribute error that its handler does not catch, and the whole calendar is lost.\<close>

theorem calendar_row_escapes:
  "parse_calendar iso_text (JArr [cpi_row ''High'', JObj [(''title'', JStr ''GDP''),
     (''date'', JStr ''2025-06-15T15:00:00Z''), (''impact'', JInt 3)]]) = Inl AttributeError"
  by code_simp

section \<open>The write and the cadence\<close>

lemma write_chunks_target:
  assumes "p \<noteq> path" "fs p = Some pre"
  shows "list_all (\<lambda>f. f path = fs path) (write_chunks p cs fs) \<and> write_chunks p cs fs \<noteq> []
    \<and> last (write_chunks p cs fs) p = Some (pre @ concat cs)"
  using assms
proof (induction cs arbitrary: fs pre)
  case (Cons c cs)
  have "list_all (\<lambda>f. f path = (fs(p \<mapsto> pre @ c)) path) (write_chunks p cs (fs(p \<mapsto> pre @ c)))
    \<and> write_chunks p cs (fs(p \<mapsto> pre @ c)) \<noteq> []
    \<and> last (write_chunks p cs (fs(p \<mapsto> pre @ c))) p = Some ((pre @ c) @ concat cs)"
    by (rule Cons.IH) (use Cons.prems in simp_all)
  then show ?case using Cons.prems by simp
qed simp

text \<open>No reader ever sees half a document. In every state of the disk while the state file is
  written, so also wherever a crash stops the write, the target holds its old content or the whole
  new one; after the write it holds the new one and the temporary file is gone.\<close>

theorem write_state_atomic:
  "list_all (\<lambda>f. f path \<in> {fs path, Some (concat chunks)}) (write_state path chunks fs)
   \<and> last (write_state path chunks fs) path = Some (concat chunks)
   \<and> last (write_state path chunks fs) (tmp_of path) = None"
proof -
  have ne: "tmp_of path \<noteq> path" by (simp add: tmp_of_def)
  define filled where "filled = write_chunks (tmp_of path) chunks (fs(tmp_of path \<mapsto> []))"
  have f: "list_all (\<lambda>f. f path = (fs(tmp_of path \<mapsto> [])) path) filled \<and> filled \<noteq> []
    \<and> last filled (tmp_of path) = Some ([] @ concat chunks)"
    unfolding filled_def by (rule write_chunks_target) (use ne in simp_all)
  then show ?thesis using ne
    by (simp add: write_state_def Let_def filled_def [symmetric]) (auto simp: list_all_iff)
qed

text \<open>A failed fetch is recorded only while no fetch has ever succeeded. After the first success a
  failing source is asked again, with every other source, on each turn instead of each interval.\<close>

theorem daemon_hammers_dead_host:
  assumes "dm_last d = Some l" "ti_mono i - l \<ge> dc_interval k" "ti_fetch i = None" "ti_mono i \<le> ti_mono j"
  shows "fetch_due k j (fst (daemon_turn tx half sqroot k i d))"
  using assms by (simp add: daemon_turn_def fetch_due_def daemon_fetch_def Let_def)

end
