(* ===== verification/Trade_Events.thy ===== *)
theory Trade_Events
  imports Broker Text_Time "HOL-Library.AList"
begin

text \<open>
  \<open>orb/tradeevents.py\<close>: a broker action becomes an event and the event a payload, the JSON object of
  \<open>docs/copytrade_schema.md\<close>. Requests and results are the dictionaries the adapter builds; a
  dictionary is an association list in insertion order. The host name and the random id are
  arguments of \<open>build_event\<close>; the counter and the clock are too, as in the code.
\<close>

type_synonym dict = "(string \<times> json) list"

definition dget :: "dict \<Rightarrow> string \<Rightarrow> json" where
  "dget d k = (case map_of d k of None \<Rightarrow> JNull | Some v \<Rightarrow> v)"

section \<open>Conversions\<close>

definition known_suffix :: "string \<Rightarrow> string \<Rightarrow> bool" where
  "known_suffix head suf \<longleftrightarrow> length head > length suf \<and> drop (length head - length suf) head = suf"

definition base_symbol_of :: "string \<Rightarrow> string" where
  "base_symbol_of symbol =
    (let head = strip (takeWhile (\<lambda>c. c \<noteq> CHR ''.'') symbol) in
     case find (known_suffix head) [''m'', ''c''] of
       None \<Rightarrow> upper head
     | Some suf \<Rightarrow> upper (take (length head - length suf) head))"

definition as_float :: "pytext \<Rightarrow> json \<Rightarrow> error + json" where
  "as_float tx v = (if v = JNull then Inr JNull else and_then (py_float tx v) (\<lambda>x. Inr (JFloat x)))"

definition as_int :: "pytext \<Rightarrow> json \<Rightarrow> error + json" where
  "as_int tx v = (if v = JNull then Inr JNull else and_then (py_int tx v) (\<lambda>n. Inr (JInt n)))"

text \<open>\<open>isinstance(x, int)\<close> holds of a \<open>bool\<close> too.\<close>

definition direction_of :: "json \<Rightarrow> json" where
  "direction_of order_type = (case order_type of
       JInt n \<Rightarrow> if 0 \<le> n \<and> n \<le> 7 then (if even n then JStr ''long'' else JStr ''short'') else JNull
     | JBool b \<Rightarrow> (if b then JStr ''short'' else JStr ''long'')
     | _ \<Rightarrow> JNull)"

definition slippage_of :: "json \<Rightarrow> json \<Rightarrow> json" where
  "slippage_of requested filled = (case (requested, filled) of
       (JFloat r, JFloat f) \<Rightarrow> JFloat (case pf_sub f r of Fin v \<Rightarrow> Fin (round_dp 8 v) | x \<Rightarrow> x)
     | _ \<Rightarrow> JNull)"

definition isoformat :: "timestamp \<Rightarrow> string" where
  "isoformat t = (let us = local_us t mod us_sec; s = sec_of_day t in
     minute_text t @ '':'' @ padded 2 (nat (s mod 60))
     @ (if us = 0 then [] else CHR ''.'' # padded 6 (nat us)) @ ''+00:00'')"

definition jnum :: "int option \<Rightarrow> json" where
  "jnum n = (case n of None \<Rightarrow> JNull | Some i \<Rightarrow> JInt i)"

definition jtext :: "string option \<Rightarrow> json" where
  "jtext s = (case s of None \<Rightarrow> JNull | Some x \<Rightarrow> JStr x)"

section \<open>Events\<close>

definition field_names :: "string list" where
  "field_names = [''event_id'', ''seq'', ''ts'', ''node'', ''account'', ''strategy'', ''magic'', ''symbol'',
     ''base_symbol'', ''action'', ''ticket'', ''order'', ''deal'', ''direction'', ''volume'',
     ''price_requested'', ''price_filled'', ''slippage'', ''sl'', ''tp'', ''reason'', ''rr_planned'',
     ''rr_achieved'', ''risk_inflation_r'', ''pnl'', ''retcode'']"

record origin =
  og_id :: string
  og_seq :: int
  og_now :: timestamp
  og_host :: string

definition put_extra :: "string \<times> json \<Rightarrow> dict \<Rightarrow> dict" where
  "put_extra kv values = (if fst kv \<in> set field_names then AList.update (fst kv) (snd kv) values else values)"

definition build_event :: "pytext \<Rightarrow> origin \<Rightarrow> string \<Rightarrow> string \<Rightarrow> int option \<Rightarrow> dict \<Rightarrow> dict \<Rightarrow> string option
    \<Rightarrow> string \<Rightarrow> int option \<Rightarrow> dict \<Rightarrow> error + dict" where
  "build_event tx og action symbol magic req res reason strategy account extra =
     and_then (as_float tx (dget req ''price'')) (\<lambda>requested.
     and_then (as_float tx (dget res ''price'')) (\<lambda>filled.
     and_then (as_int tx (dget res ''order'')) (\<lambda>order.
     let position = dget req ''position'';
         volume0 = (if dget res ''volume'' = JNull then dget req ''volume'' else dget res ''volume'') in
     and_then (if position \<noteq> JNull then as_int tx position else Inr order) (\<lambda>ticket.
     and_then (as_int tx (dget res ''deal'')) (\<lambda>deal.
     and_then (as_float tx volume0) (\<lambda>volume.
     and_then (as_float tx (dget req ''sl'')) (\<lambda>sl.
     and_then (as_float tx (dget req ''tp'')) (\<lambda>tp.
     and_then (as_int tx (dget res ''retcode'')) (\<lambda>retcode.
       Inr (fold put_extra extra
        [(''event_id'', JStr (og_id og)), (''seq'', JInt (og_seq og)), (''ts'', JStr (isoformat (og_now og))),
         (''node'', JStr (og_host og)), (''account'', jnum account), (''strategy'', JStr strategy),
         (''magic'', jnum magic), (''symbol'', JStr symbol), (''base_symbol'', JStr (base_symbol_of symbol)),
         (''action'', JStr action), (''ticket'', ticket), (''order'', order), (''deal'', deal),
         (''direction'', direction_of (dget req ''type'')), (''volume'', volume),
         (''price_requested'', requested), (''price_filled'', filled),
         (''slippage'', slippage_of requested filled), (''sl'', sl), (''tp'', tp), (''reason'', jtext reason),
         (''rr_planned'', JNull), (''rr_achieved'', JNull), (''risk_inflation_r'', JNull), (''pnl'', JNull),
         (''retcode'', retcode)]))))))))))"

definition to_payload :: "dict \<Rightarrow> dict" where
  "to_payload ev =
    [(''schema_version'', JInt 1), (''event_id'', dget ev ''event_id''), (''seq'', dget ev ''seq''),
     (''ts'', dget ev ''ts''),
     (''source'', JObj [(''node'', dget ev ''node''), (''account'', dget ev ''account''),
        (''strategy'', dget ev ''strategy''), (''magic'', dget ev ''magic'')])]
    @ map (\<lambda>k. (k, dget ev k)) [''symbol'', ''base_symbol'', ''action'', ''ticket'', ''order'', ''deal'',
        ''direction'', ''volume'', ''price_requested'', ''price_filled'', ''slippage'', ''sl'', ''tp'',
        ''reason'', ''rr_planned'', ''rr_achieved'', ''risk_inflation_r'', ''pnl'', ''retcode'']"

section \<open>The adapter's events\<close>

text \<open>The request and result dictionaries of \<open>orb/broker/mt5.py\<close>, with MetaTrader's constants.\<close>

definition order_type_code :: "order_type \<Rightarrow> int" where
  "order_type_code t = (case t of BUY \<Rightarrow> 0 | SELL \<Rightarrow> 1 | BUY_LIMIT \<Rightarrow> 2 | SELL_LIMIT \<Rightarrow> 3)"

definition opt_entry :: "string \<Rightarrow> ('a \<Rightarrow> json) \<Rightarrow> 'a option \<Rightarrow> dict" where
  "opt_entry k f x = (case x of None \<Rightarrow> [] | Some v \<Rightarrow> [(k, f v)])"

definition request_dict :: "order_req \<Rightarrow> dict" where
  "request_dict q =
     opt_entry ''order'' JInt (q_order q) @ opt_entry ''position'' JInt (q_position q)
     @ opt_entry ''volume'' (\<lambda>v. JFloat (Fin v)) (q_volume q)
     @ opt_entry ''type'' (\<lambda>t. JInt (order_type_code t)) (q_type q)
     @ opt_entry ''price'' (\<lambda>v. JFloat (Fin v)) (q_price q) @ opt_entry ''sl'' (\<lambda>v. JFloat (Fin v)) (q_sl q)
     @ opt_entry ''tp'' (\<lambda>v. JFloat (Fin v)) (q_tp q)"

definition result_dict :: "send_out \<Rightarrow> dict" where
  "result_dict r = [(''retcode'', JInt (o_retcode r)), (''order'', JInt (o_order r)), (''deal'', JInt (o_deal r)),
     (''price'', JFloat (Fin (o_price r))), (''volume'', JFloat (Fin (o_volume r)))]"

definition pnl_extra :: "flt option \<Rightarrow> dict" where
  "pnl_extra pnl = (case pnl of None \<Rightarrow> [] | Some v \<Rightarrow> [(''pnl'', JFloat (Fin v))])"

text \<open>What \<open>_emit\<close> hands to \<open>build_event\<close>.\<close>

definition adapter_event :: "pytext \<Rightarrow> origin \<Rightarrow> string \<Rightarrow> string \<Rightarrow> broker_cfg \<Rightarrow> event \<Rightarrow> error + dict" where
  "adapter_event tx og symbol strategy k e =
     build_event tx og (ev_action e) symbol (Some (k_magic k)) (request_dict (ev_request e))
       (result_dict (ev_result e)) (ev_reason e) strategy (ev_account e) (pnl_extra (ev_pnl e))"

section \<open>Sinks\<close>

text \<open>A sink changes its surroundings and may raise. The hub calls each one behind its own handler.\<close>

type_synonym 'w sink = "dict \<Rightarrow> 'w \<Rightarrow> (error + unit) \<times> 'w"

definition hub_emit :: "'w sink list \<Rightarrow> dict \<Rightarrow> 'w \<Rightarrow> 'w" where
  "hub_emit sinks ev w = fold (\<lambda>s w. snd (s ev w)) sinks w"

text \<open>The trade log: a line per event, or a swallowed \<open>OSError\<close>.\<close>

definition log_write :: "bool \<Rightarrow> dict \<Rightarrow> dict list \<Rightarrow> dict list" where
  "log_write disk_ok ev written = (if disk_ok then written @ [to_payload ev] else written)"

end
