(* ===== verification/Copy_Trade.thy ===== *)
theory Copy_Trade
  imports Trade_Events "HOL-Library.Sublist"
begin

text \<open>
  Event delivery: \<open>orb/broadcast.py\<close> (a bounded queue between the trading loop and a sender thread,
  a disk spool behind it), \<open>leader/store.py\<close> and \<open>leader/server.py\<close> (the node that authenticates and
  stores events), and the polling follower of \<open>leader/follower_example.py\<close>. The two threads are a
  step relation whose steps are the operations of the thread-safe queue and one handling of a
  payload. The keyed hash (\<open>mac\<close>), \<open>json.dumps\<close> and \<open>json.loads\<close> are parameters.
\<close>

section \<open>The sender\<close>

text \<open>A spool line is a payload, or \<open>None\<close> for a corrupt one; \<open>cs_torn\<close>: the last line of the file has no
  newline yet. \<open>cs_gone\<close>, \<open>cs_lost\<close>, \<open>cs_published\<close> and \<open>cs_blind\<close> are history: what the queue dropped, what
  the disk lost, what was published (what an earlier process left in the spool first), and whether a
  payload was posted past a backlog whose size could not be read.\<close>

datatype 'p producer = Ready | Blocked 'p | Retrying 'p

record 'p caster =
  cs_queue :: "'p list"
  cs_hand :: "'p option"
  cs_spool :: "'p option list"
  cs_torn :: bool
  cs_sent :: "'p list"
  cs_prod :: "'p producer"
  cs_dropped :: nat
  cs_published :: "'p list"
  cs_gone :: "'p list"
  cs_lost :: "'p list"
  cs_blind :: bool

definition goods :: "'p option list \<Rightarrow> 'p list" where
  "goods ls = List.map_filter id ls"

definition caster_start :: "'p option list \<Rightarrow> bool \<Rightarrow> 'p caster" where
  "caster_start spool torn = \<lparr>cs_queue = [], cs_hand = None, cs_spool = spool, cs_torn = torn, cs_sent = [],
     cs_prod = Ready, cs_dropped = 0, cs_published = goods spool, cs_gone = [], cs_lost = [], cs_blind = False\<rparr>"

text \<open>How the write of a line ends: in full, with nothing written, cut inside the text, or with the text
  but not its newline on the disk. The last three raise \<open>OSError\<close>.\<close>

datatype append_end = Appended | Unwritten | Cut | No_Newline

text \<open>The outcomes one handling meets: the spool's \<open>stat\<close> and read, an append, each POST, and the
  writing back of the kept lines (\<open>None\<close>: all of them; else the lines before the failing one and how that
  one ended).\<close>

record world =
  wd_stat :: bool
  wd_append :: append_end
  wd_read :: bool
  wd_respool :: "(nat \<times> append_end) option"
  wd_posts :: "bool list"

definition next_post :: "bool list \<Rightarrow> bool" where
  "next_post rs = (case rs of [] \<Rightarrow> False | r # _ \<Rightarrow> r)"

text \<open>\<open>_drain_spool\<close>: the payloads sent, oldest first, and the lines kept from the first failure on.\<close>

fun drain_lines :: "bool list \<Rightarrow> 'p option list \<Rightarrow> 'p list \<times> 'p option list" where
  "drain_lines rs [] = ([], [])"
| "drain_lines rs (None # ls) = drain_lines rs ls"
| "drain_lines rs (Some p # ls) = (if next_post rs
     then (case drain_lines (tl rs) ls of (s, rest) \<Rightarrow> (p # s, rest)) else ([], Some p # ls))"

text \<open>The file after the kept lines were written back, whether its last line lacks a newline, and the
  payloads that are not in it.\<close>

definition respool :: "(nat \<times> append_end) option \<Rightarrow> 'p option list \<Rightarrow> 'p option list \<times> bool \<times> 'p list" where
  "respool w ls = (case w of None \<Rightarrow> (ls, False, [])
     | Some (n, e) \<Rightarrow> (case drop n ls of [] \<Rightarrow> (ls, False, [])
         | l # rest \<Rightarrow> (case e of
             Appended \<Rightarrow> (take n ls @ [l], False, goods rest)
           | No_Newline \<Rightarrow> (take n ls @ [l], True, goods rest)
           | Cut \<Rightarrow> (take n ls @ [None], True, goods (l # rest))
           | Unwritten \<Rightarrow> (take n ls, False, goods (l # rest)))))"

definition drain_spool :: "world \<Rightarrow> bool list \<Rightarrow> 'p caster \<Rightarrow> 'p caster" where
  "drain_spool w rs c = (if cs_spool c = [] \<or> \<not> wd_read w then c
     else (case drain_lines rs (cs_spool c) of (s, rest) \<Rightarrow>
       (case respool (wd_respool w) rest of (ls, torn, lost) \<Rightarrow>
         c\<lparr>cs_sent := cs_sent c @ s, cs_spool := ls, cs_torn := torn, cs_lost := cs_lost c @ lost\<rparr>)))"

text \<open>\<open>_spool\<close>. A line appended to an unfinished one joins it, and the joined line cannot be parsed.\<close>

definition spool :: "world \<Rightarrow> 'p \<Rightarrow> 'p caster \<Rightarrow> 'p caster" where
  "spool w p c = (let ls = cs_spool c; n = length ls - 1 in case wd_append w of
       Unwritten \<Rightarrow> c\<lparr>cs_lost := cs_lost c @ [p]\<rparr>
     | e \<Rightarrow> if cs_torn c
         then c\<lparr>cs_spool := take n ls @ [None], cs_torn := (e \<noteq> Appended),
                cs_lost := cs_lost c @ goods (drop n ls) @ [p]\<rparr>
         else if e = Cut then c\<lparr>cs_spool := ls @ [None], cs_torn := True, cs_lost := cs_lost c @ [p]\<rparr>
         else c\<lparr>cs_spool := ls @ [Some p], cs_torn := (e \<noteq> Appended)\<rparr>)"

definition spool_backlog :: "world \<Rightarrow> 'p caster \<Rightarrow> bool" where
  "spool_backlog w c \<longleftrightarrow> wd_stat w \<and> cs_spool c \<noteq> []"

definition handle :: "world \<Rightarrow> 'p \<Rightarrow> 'p caster \<Rightarrow> 'p caster" where
  "handle w p c0 =
    (let c = c0\<lparr>cs_blind := (cs_blind c0
          \<or> \<not> wd_stat w \<and> cs_spool c0 \<noteq> [] \<and> next_post (wd_posts w))\<rparr>
     in if spool_backlog w c then drain_spool w (wd_posts w) (spool w p c)
        else if next_post (wd_posts w)
          then drain_spool w (tl (wd_posts w)) (c\<lparr>cs_sent := cs_sent c @ [p]\<rparr>)
        else spool w p c)"

definition room :: "nat \<Rightarrow> 'p caster \<Rightarrow> bool" where
  "room cap c \<longleftrightarrow> cap = 0 \<or> length (cs_queue c) < cap"

text \<open>The first three groups are the three queue operations of \<open>publish\<close>, the last the worker.\<close>

inductive cast_step :: "nat \<Rightarrow> 'p caster \<Rightarrow> 'p caster \<Rightarrow> bool" for cap :: nat where
  publish: "cs_prod c = Ready \<Longrightarrow> room cap c \<Longrightarrow>
     cast_step cap c (c\<lparr>cs_queue := cs_queue c @ [p], cs_published := cs_published c @ [p]\<rparr>)"
| queue_full: "cs_prod c = Ready \<Longrightarrow> \<not> room cap c \<Longrightarrow>
     cast_step cap c (c\<lparr>cs_prod := Blocked p, cs_published := cs_published c @ [p]\<rparr>)"
| drop_oldest: "cs_prod c = Blocked p \<Longrightarrow> cs_queue c = x # xs \<Longrightarrow>
     cast_step cap c (c\<lparr>cs_queue := xs, cs_gone := cs_gone c @ [x], cs_dropped := cs_dropped c + 1,
        cs_prod := Retrying p\<rparr>)"
| nothing_to_drop: "cs_prod c = Blocked p \<Longrightarrow> cs_queue c = [] \<Longrightarrow>
     cast_step cap c (c\<lparr>cs_dropped := cs_dropped c + 1, cs_prod := Retrying p\<rparr>)"
| republish: "cs_prod c = Retrying p \<Longrightarrow> room cap c \<Longrightarrow>
     cast_step cap c (c\<lparr>cs_queue := cs_queue c @ [p], cs_prod := Ready\<rparr>)"
| still_full: "cs_prod c = Retrying p \<Longrightarrow> \<not> room cap c \<Longrightarrow>
     cast_step cap c (c\<lparr>cs_gone := cs_gone c @ [p], cs_dropped := cs_dropped c + 1, cs_prod := Ready\<rparr>)"
| take: "cs_hand c = None \<Longrightarrow> cs_queue c = x # xs \<Longrightarrow>
     cast_step cap c (c\<lparr>cs_queue := xs, cs_hand := Some x\<rparr>)"
| work: "cs_hand c = Some p \<Longrightarrow> cast_step cap c ((handle w p c)\<lparr>cs_hand := None\<rparr>)"

inductive_cases cast_stepE: "cast_step cap c c'"

inductive cast_reach :: "nat \<Rightarrow> 'p caster \<Rightarrow> bool" for cap :: nat where
  start: "cast_reach cap (caster_start lines torn)"
| step: "cast_reach cap c \<Longrightarrow> cast_step cap c c' \<Longrightarrow> cast_reach cap c'"

section \<open>Signing and the server\<close>

record wire =
  wr_mac :: "string \<Rightarrow> string \<Rightarrow> string"
  wr_dumps :: "json \<Rightarrow> string"
  wr_loads :: "string \<Rightarrow> json option"
  wr_text :: pytext

definition sign :: "wire \<Rightarrow> string \<Rightarrow> string \<Rightarrow> string \<Rightarrow> string" where
  "sign wr secret ts body = wr_mac wr secret (ts @ ''.'' @ body)"

record request =
  rq_path :: string
  rq_length :: "string option"
  rq_stamp :: string
  rq_sig :: string
  rq_body :: string

text \<open>The request \<open>_send\<close> makes to the configured address, whose path is \<open>path\<close>; \<open>urllib\<close> adds the length of
  the body.\<close>

definition send_request :: "wire \<Rightarrow> string \<Rightarrow> string \<Rightarrow> flt \<Rightarrow> dict \<Rightarrow> request" where
  "send_request wr path secret now payload =
    (let body = wr_dumps wr (JObj payload); ts = Text_Time.show_int (trunc_int now)
     in \<lparr>rq_path = path, rq_length = Some (Text_Time.show_int (int (length body))), rq_stamp = ts,
         rq_sig = sign wr secret ts body, rq_body = body\<rparr>)"

section \<open>The store\<close>

text \<open>A file line is the JSON value on it, or \<open>None\<close>; \<open>st_torn\<close>: the file ends in an unfinished line.\<close>

record store =
  st_seq :: int
  st_lines :: "json option list"
  st_torn :: bool

definition line_seq :: "json option \<Rightarrow> int option" where
  "line_seq l = (case l of Some (JObj kvs) \<Rightarrow> (case map_of kvs ''seq'' of
         Some (JInt n) \<Rightarrow> Some n
       | Some (JBool b) \<Rightarrow> Some (if b then 1 else 0)
       | None \<Rightarrow> Some 0
       | _ \<Rightarrow> None)
     | _ \<Rightarrow> None)"

definition load_last_seq :: "json option list \<Rightarrow> int" where
  "load_last_seq lines = fold (\<lambda>l acc. case line_seq l of Some n \<Rightarrow> if n > acc then n else acc | None \<Rightarrow> acc) lines 0"

text \<open>Opening the store reads the file to its end, or up to the line an \<open>OSError\<close> met (\<open>readable\<close>; zero when the
  file cannot be opened), which is logged and passed over. A missing file has no lines.\<close>

definition open_store :: "nat option \<Rightarrow> json option list \<Rightarrow> bool \<Rightarrow> store" where
  "open_store readable lines torn = \<lparr>st_seq = load_last_seq (case readable of None \<Rightarrow> lines | Some n \<Rightarrow> take n lines),
     st_lines = lines, st_torn = torn\<rparr>"

text \<open>What the write of one record met: done, refused (\<open>OSError\<close>), or cut short by a crash.\<close>

datatype write_end = Written | Refused | Torn

text \<open>After an unfinished line the record is appended to that line, which then is corrupt.\<close>

definition store_append :: "write_end \<Rightarrow> dict \<Rightarrow> store \<Rightarrow> int option \<times> store" where
  "store_append wr payload st =
    (let n = st_seq st + 1; rec = JObj (AList.update ''seq'' (JInt n) payload); st1 = st\<lparr>st_seq := n\<rparr> in
     case wr of
       Written \<Rightarrow> (Some n, st1\<lparr>st_lines := st_lines st @ [if st_torn st then None else Some rec], st_torn := False\<rparr>)
     | Refused \<Rightarrow> (None, st1)
     | Torn \<Rightarrow> (None, st1\<lparr>st_torn := True\<rparr>))"

text \<open>\<open>lines[-max(n, 0):]\<close>: from the end, and everything for zero.\<close>

definition latest_events :: "int \<Rightarrow> store \<Rightarrow> json list" where
  "latest_events n st = (let m = nat (max n 0); ls = st_lines st @ (if st_torn st then [None] else []) in
     List.map_filter id (if m = 0 then ls else drop (length ls - m) ls))"

definition count_events :: "store \<Rightarrow> int" where "count_events st = st_seq st"

section \<open>Ingest\<close>

record response =
  rs_status :: nat
  rs_seq :: "int option"

definition reject :: "nat \<Rightarrow> store \<Rightarrow> response option \<times> store" where
  "reject code st = (Some \<lparr>rs_status = code, rs_seq = None\<rparr>, st)"

text \<open>\<open>abs(now() - ts_val) > max_skew\<close>: false of a NaN.\<close>

definition beyond_skew :: "flt \<Rightarrow> pyfloat \<Rightarrow> flt \<Rightarrow> bool" where
  "beyond_skew now ts max_skew = (case ts of Fin v \<Rightarrow> \<bar>now - v\<bar> > max_skew | NaN \<Rightarrow> False | _ \<Rightarrow> True)"

text \<open>\<open>do_POST\<close>; no response means the handler raised.\<close>

definition do_post :: "wire \<Rightarrow> string \<Rightarrow> flt \<Rightarrow> flt \<Rightarrow> write_end \<Rightarrow> request \<Rightarrow> store \<Rightarrow> response option \<times> store" where
  "do_post wr secret max_skew now w rq st =
    (if rq_path rq \<noteq> ''/events'' then reject 404 st
     else case (case rq_length rq of None \<Rightarrow> Some 0 | Some s \<Rightarrow> tx_int (wr_text wr) s) of
       None \<Rightarrow> reject 400 st
     | Some len \<Rightarrow>
       let raw = (if len < 0 then rq_body rq else take (nat len) (rq_body rq)) in
       if sign wr secret (rq_stamp rq) raw \<noteq> rq_sig rq then reject 401 st
       else case tx_float (wr_text wr) (rq_stamp rq) of
         None \<Rightarrow> reject 400 st
       | Some ts \<Rightarrow>
         if beyond_skew now ts max_skew then reject 408 st
         else case wr_loads wr raw of
           Some (JObj payload) \<Rightarrow> (case store_append w payload st of
              (None, st1) \<Rightarrow> (None, st1)
            | (Some n, st1) \<Rightarrow> (Some \<lparr>rs_status = 200, rs_seq = Some n\<rparr>, st1))
         | _ \<Rightarrow> reject 400 st)"

section \<open>A follower\<close>

definition follow_one :: "json \<Rightarrow> int \<times> json list \<Rightarrow> int \<times> json list" where
  "follow_one ev s = (case line_seq (Some ev) of
       Some n \<Rightarrow> if n > fst s then (n, snd s @ [ev]) else s
     | None \<Rightarrow> s)"

text \<open>One poll: the events of the window that are newer than the last one seen, printed in order.\<close>

definition follow :: "json list \<Rightarrow> int \<times> json list \<Rightarrow> int \<times> json list" where
  "follow events s = fold follow_one events s"

end
