(* ===== verification/Window_Reader.thy ===== *)
theory Window_Reader
  imports Prelude
begin

text \<open>
  The contract behind three pollers of the program: the follower of the leader node, the MetaTrader
  feed and the Twelve Data feed each fetch the last few elements of a growing sequence and pass on
  those newer than the newest one passed on before. The laws are one element's treatment; that
  overlapping windows deliver every element once and in order is proved from them.
\<close>

definition newer :: "int option \<Rightarrow> int \<Rightarrow> bool" where
  "newer l k = (case l of None \<Rightarrow> True | Some n \<Rightarrow> n < k)"

lemma newer_simps [simp]: "newer None k" "newer (Some n) k = (n < k)"
  by (simp_all add: newer_def)

text \<open>Windows from element \<open>w\<close> to element \<open>m\<close> (exclusive), each reaching back to where the last ended.\<close>

fun covering :: "nat \<Rightarrow> (nat \<times> nat) list \<Rightarrow> bool" where
  "covering l [] = True"
| "covering l ((w, m) # ws) = (w \<le> l \<and> l \<le> m \<and> covering m ws)"

definition reach :: "nat \<Rightarrow> (nat \<times> nat) list \<Rightarrow> nat" where
  "reach l ws = (if ws = [] then l else snd (last ws))"

lemma reach_simps [simp]: "reach l [] = l" "reach l ((w, m) # ws) = reach m ws"
  by (simp_all add: reach_def)

lemma covering_reach: "covering l ws \<Longrightarrow> l \<le> reach l ws"
  by (induction l ws rule: covering.induct) (auto dest: le_trans)

locale window_reader =
  fixes key :: "'a \<Rightarrow> int"
    and valid :: "'a \<Rightarrow> bool"
    and read :: "int option \<Rightarrow> 'a list \<Rightarrow> int option \<times> 'a list"
  assumes read_Nil: "read l [] = (l, [])"
    and read_Cons: "valid x \<Longrightarrow> read l (x # xs)
      = (if newer l (key x) then (case read (Some (key x)) xs of (l', out) \<Rightarrow> (l', x # out)) else read l xs)"
begin

definition seen :: "'a list \<Rightarrow> nat \<Rightarrow> int option" where
  "seen h l = (if l = 0 then None else Some (key (h ! (l - 1))))"

text \<open>Reading the windows of \<open>h\<close> one after the other.\<close>

fun read_all :: "'a list \<Rightarrow> (nat \<times> nat) list \<Rightarrow> int option \<Rightarrow> 'a list" where
  "read_all h [] l = []"
| "read_all h ((w, m) # ws) l = (case read l (drop w (take m h)) of (l', out) \<Rightarrow> out @ read_all h ws l')"

lemma read_old:
  "list_all (\<lambda>x. valid x \<and> \<not> newer l (key x)) xs \<Longrightarrow> read l (xs @ ys) = read l ys"
  by (induction xs) (simp_all add: read_Cons)

lemma read_fresh:
  "list_all valid xs \<Longrightarrow> sorted_wrt (\<lambda>x y. key x < key y) xs \<Longrightarrow> list_all (\<lambda>x. newer l (key x)) xs
    \<Longrightarrow> read l xs = ((if xs = [] then l else Some (key (last xs))), xs)"
proof (induction xs arbitrary: l)
  case (Cons x xs)
  have "list_all (\<lambda>y. newer (Some (key x)) (key y)) xs" using Cons.prems(2) by (simp add: list_all_iff)
  then show ?case using Cons by (simp add: read_Cons)
qed (simp add: read_Nil)

text \<open>Whatever the batch, the reader passes on an increasing part of it, all newer than before.\<close>

lemma read_increasing:
  "list_all valid xs \<Longrightarrow> read l xs = (l', out)
    \<Longrightarrow> sorted_wrt (\<lambda>x y. key x < key y) out \<and> list_all (\<lambda>x. newer l (key x)) out \<and> set out \<subseteq> set xs
      \<and> l' = (if out = [] then l else Some (key (last out)))"
proof (induction xs arbitrary: l l' out)
  case (Cons x xs)
  show ?case
  proof (cases "newer l (key x)")
    case True
    obtain l1 o1 where r: "read (Some (key x)) xs = (l1, o1)" by (meson surj_pair)
    have e: "l' = l1" "out = x # o1" using Cons.prems r True by (simp_all add: read_Cons)
    have ih: "sorted_wrt (\<lambda>x y. key x < key y) o1" "list_all (\<lambda>y. key x < key y) o1" "set o1 \<subseteq> set xs"
      "l1 = (if o1 = [] then Some (key x) else Some (key (last o1)))"
      using Cons.IH [OF _ r] Cons.prems by simp_all
    have "newer l (key y)" if "key x < key y" for y using True that by (cases l) simp_all
    then show ?thesis using ih True e by (auto simp: list_all_iff)
  next
    case False
    then have "read l xs = (l', out)" using Cons.prems by (simp add: read_Cons)
    then show ?thesis using Cons.IH [of l l' out] Cons.prems by auto
  qed
qed (simp add: read_Nil)

lemma read_window:
  assumes "list_all valid h" "sorted_wrt (\<lambda>x y. key x < key y) h" "w \<le> l" "l \<le> m" "m \<le> length h"
  shows "read (seen h l) (drop w (take m h)) = (seen h m, drop l (take m h))"
proof -
  define a where "a = drop w (take l h)"
  define b where "b = drop l (take m h)"
  have nth: "key (h ! i) < key (h ! j)" if "i < j" "j < length h" for i j
    using sorted_wrt_nth_less [OF assms(2) that] .
  have tl: "take l (take m h) = take l h" using assms(4) by (simp add: min_absorb1)
  have "drop w (take l (take m h) @ drop l (take m h)) = a @ b"
    unfolding drop_append a_def b_def tl using assms(3-5) by simp
  then have ab: "drop w (take m h) = a @ b" unfolding append_take_drop_id .
  have va: "list_all valid a" "list_all valid b" using assms(1)
    by (auto simp: a_def b_def list_all_iff dest: in_set_dropD in_set_takeD)
  have "\<not> newer (seen h l) (key x)" if "x \<in> set a" for x
  proof -
    obtain j where j: "j < l - w" "x = h ! (w + j)" using \<open>x \<in> set a\<close> assms(4,5)
      by (auto simp: a_def in_set_conv_nth)
    define i where "i = w + j"
    have i: "i < l" "x = h ! i" using j by (simp_all add: i_def)
    have "key x \<le> key (h ! (l - 1))"
    proof (cases "i = l - 1")
      case False
      then have "key (h ! i) < key (h ! (l - 1))" by (intro nth) (use i assms(4,5) in linarith)+
      then show ?thesis using i by simp
    qed (use i in simp)
    then show ?thesis using i by (simp add: seen_def)
  qed
  then have old: "list_all (\<lambda>x. valid x \<and> \<not> newer (seen h l) (key x)) a" using va by (auto simp: list_all_iff)
  have "newer (seen h l) (key x)" if "x \<in> set b" for x
  proof -
    obtain i where i: "i < m - l" "x = h ! (l + i)" using \<open>x \<in> set b\<close> assms(5)
      by (auto simp: b_def in_set_conv_nth)
    then have "l + i < length h" using assms(5) by simp
    then show ?thesis using nth [of "l - 1" "l + i"] i by (auto simp: seen_def)
  qed
  then have fresh: "list_all (\<lambda>x. newer (seen h l) (key x)) b" by (simp add: list_all_iff)
  have sb: "sorted_wrt (\<lambda>x y. key x < key y) b" unfolding b_def
    by (intro sorted_wrt_drop sorted_wrt_take assms(2))
  have "(if b = [] then seen h l else Some (key (last b))) = seen h m"
  proof (cases "l = m")
    case True
    then show ?thesis by (simp add: b_def)
  next
    case False
    then have "b \<noteq> []" "last b = h ! (m - 1)" using assms(4,5) by (auto simp: b_def last_conv_nth)
    then show ?thesis using False assms(4) by (simp add: seen_def)
  qed
  then show ?thesis using read_fresh [OF va(2) sb fresh] by (simp add: ab read_old [OF old] b_def)
qed

text \<open>Exactly once: covering windows deliver precisely the elements they reach.\<close>

lemma exactly_once:
  assumes "list_all valid h" "sorted_wrt (\<lambda>x y. key x < key y) h"
  shows "covering l ws \<Longrightarrow> reach l ws \<le> length h \<Longrightarrow> read_all h ws (seen h l) = drop l (take (reach l ws) h)"
proof (induction l ws rule: covering.induct)
  case (2 l w m ws)
  then have m: "w \<le> l" "l \<le> m" "covering m ws" by simp_all
  have r: "m \<le> reach m ws" by (rule covering_reach [OF m(3)])
  then have "read (seen h l) (drop w (take m h)) = (seen h m, drop l (take m h))"
    using read_window [OF assms m(1,2)] 2(3) by simp
  moreover have "drop l (take m h) @ drop m (take (reach m ws) h) = drop l (take (reach m ws) h)"
  proof -
    define t where "t = take (reach m ws) h"
    have "take m h = take m t" using r by (simp add: t_def min_absorb1)
    then have "drop l (take m h) = take (m - l) (drop l t)" by (simp add: drop_take)
    moreover have "drop m t = drop (m - l) (drop l t)" using m(2) by simp
    ultimately show ?thesis unfolding t_def [symmetric] by (simp only: append_take_drop_id)
  qed
  ultimately show ?case using 2 by simp
qed simp

end

end
