(* ===== verification/Trade_Properties.thy ===== *)
theory Trade_Properties
  imports Copy_Trade Json_Shape Window_Reader "HOL-Library.Multiset"
begin

text \<open>
  What event delivery promises: the values of an adapter event, no uncounted loss between the trading
  loop and the leader and no reordering but past an unreadable spool, authenticated ingest, sequence
  numbers that grow on a sound disk, and a follower that sees each event once. Theorems named after a
  shortfall are concrete runs or exact statements.
\<close>

section \<open>Payloads\<close>

definition jf :: "flt option \<Rightarrow> json" where
  "jf x = (case x of None \<Rightarrow> JNull | Some v \<Rightarrow> JFloat (Fin v))"

lemma request_get:
  "dget (request_dict q) ''position'' = jnum (q_position q)"
  "dget (request_dict q) ''volume'' = jf (q_volume q)"
  "dget (request_dict q) ''type'' = (case q_type q of None \<Rightarrow> JNull | Some t \<Rightarrow> JInt (order_type_code t))"
  "dget (request_dict q) ''price'' = jf (q_price q)"
  "dget (request_dict q) ''sl'' = jf (q_sl q)" "dget (request_dict q) ''tp'' = jf (q_tp q)"
  by (auto simp: request_dict_def opt_entry_def dget_def jnum_def jf_def map_add_Some_iff split: option.splits)

lemma result_get:
  "dget (result_dict r) ''retcode'' = JInt (o_retcode r)" "dget (result_dict r) ''order'' = JInt (o_order r)"
  "dget (result_dict r) ''deal'' = JInt (o_deal r)" "dget (result_dict r) ''price'' = JFloat (Fin (o_price r))"
  "dget (result_dict r) ''volume'' = JFloat (Fin (o_volume r))"
  by (simp_all add: result_dict_def dget_def)

lemma as_simps [simp]:
  "as_int tx (JInt n) = Inr (JInt n)" "as_float tx (JFloat x) = Inr (JFloat x)"
  by (simp_all add: as_int_def as_float_def and_then_def py_int_def py_float_def)

lemma as_options [simp]: "as_float tx (jf v) = Inr (jf v)" "as_int tx (jnum i) = Inr (jnum i)"
  by (cases v; simp add: as_float_def and_then_def py_float_def jf_def)
     (cases i; simp add: as_int_def and_then_def py_int_def jnum_def)

lemma jf_fits: "fits (Maybe Decimal) (jf v)"
  by (cases v) (simp_all add: jf_def)

lemma jnum_fits: "fits (Maybe Whole) (jnum v)"
  by (cases v) (simp_all add: jnum_def)

lemma jtext_fits: "fits (Maybe Text) (jtext v)"
  by (cases v) (simp_all add: jtext_def)

lemma direction_fits: "fits (Maybe (OneOf [''long'', ''short''])) (direction_of j)"
  by (cases j) (simp_all add: direction_of_def)

lemma slippage_fits: "fits (Maybe Decimal) (slippage_of a b)"
  by (cases a; cases b) (simp_all add: slippage_of_def)

text \<open>The values of an adapter event: ticket, direction, prices and slippage as the code maps them.\<close>

definition event_values :: "origin \<Rightarrow> string \<Rightarrow> string \<Rightarrow> broker_cfg \<Rightarrow> event \<Rightarrow> dict" where
  "event_values og symbol strategy k e =
    [(''event_id'', JStr (og_id og)), (''seq'', JInt (og_seq og)), (''ts'', JStr (isoformat (og_now og))),
     (''node'', JStr (og_host og)), (''account'', jnum (ev_account e)), (''strategy'', JStr strategy),
     (''magic'', JInt (k_magic k)), (''symbol'', JStr symbol), (''base_symbol'', JStr (base_symbol_of symbol)),
     (''action'', JStr (ev_action e)),
     (''ticket'', JInt (case q_position (ev_request e) of Some p \<Rightarrow> p | None \<Rightarrow> o_order (ev_result e))),
     (''order'', JInt (o_order (ev_result e))), (''deal'', JInt (o_deal (ev_result e))),
     (''direction'', direction_of (case q_type (ev_request e) of None \<Rightarrow> JNull | Some t \<Rightarrow> JInt (order_type_code t))),
     (''volume'', JFloat (Fin (o_volume (ev_result e)))), (''price_requested'', jf (q_price (ev_request e))),
     (''price_filled'', JFloat (Fin (o_price (ev_result e)))),
     (''slippage'', slippage_of (jf (q_price (ev_request e))) (JFloat (Fin (o_price (ev_result e))))),
     (''sl'', jf (q_sl (ev_request e))), (''tp'', jf (q_tp (ev_request e))), (''reason'', jtext (ev_reason e)),
     (''rr_planned'', JNull), (''rr_achieved'', JNull), (''risk_inflation_r'', JNull), (''pnl'', jf (ev_pnl e)),
     (''retcode'', JInt (o_retcode (ev_result e)))]"

lemma adapter_event_values: "adapter_event tx og symbol strategy k e = Inr (event_values og symbol strategy k e)"
proof -
  have p: "jnum (Some x) = JInt x" "jf None = JNull" "jnum None = JNull" "jf (Some v) = JFloat (Fin v)" for x v
    by (simp_all add: jnum_def jf_def)
  have t: "(if jnum p \<noteq> JNull then as_int tx (jnum p) else Inr (JInt n))
      = Inr (JInt (case p of Some x \<Rightarrow> x | None \<Rightarrow> n))" for p n
    by (cases p) (simp_all add: p)
  show ?thesis
    by (cases "ev_pnl e")
      (simp_all add: adapter_event_def build_event_def request_get result_get t p pnl_extra_def
        put_extra_def field_names_def event_values_def and_then_def Let_def)
qed

lemma event_get:
  "dget (event_values og symbol strategy k e) ''event_id'' = JStr (og_id og)"
  "dget (event_values og symbol strategy k e) ''seq'' = JInt (og_seq og)"
  "dget (event_values og symbol strategy k e) ''ts'' = JStr (isoformat (og_now og))"
  "dget (event_values og symbol strategy k e) ''node'' = JStr (og_host og)"
  "dget (event_values og symbol strategy k e) ''account'' = jnum (ev_account e)"
  "dget (event_values og symbol strategy k e) ''strategy'' = JStr strategy"
  "dget (event_values og symbol strategy k e) ''magic'' = JInt (k_magic k)"
  "dget (event_values og symbol strategy k e) ''symbol'' = JStr symbol"
  "dget (event_values og symbol strategy k e) ''base_symbol'' = JStr (base_symbol_of symbol)"
  "dget (event_values og symbol strategy k e) ''action'' = JStr (ev_action e)"
  "dget (event_values og symbol strategy k e) ''ticket'' = JInt (case q_position (ev_request e) of Some p \<Rightarrow> p | None \<Rightarrow> o_order (ev_result e))"
  "dget (event_values og symbol strategy k e) ''order'' = JInt (o_order (ev_result e))"
  "dget (event_values og symbol strategy k e) ''deal'' = JInt (o_deal (ev_result e))"
  "dget (event_values og symbol strategy k e) ''direction'' = direction_of (case q_type (ev_request e) of None \<Rightarrow> JNull | Some t \<Rightarrow> JInt (order_type_code t))"
  "dget (event_values og symbol strategy k e) ''volume'' = JFloat (Fin (o_volume (ev_result e)))"
  "dget (event_values og symbol strategy k e) ''price_requested'' = jf (q_price (ev_request e))"
  "dget (event_values og symbol strategy k e) ''price_filled'' = JFloat (Fin (o_price (ev_result e)))"
  "dget (event_values og symbol strategy k e) ''slippage'' = slippage_of (jf (q_price (ev_request e))) (JFloat (Fin (o_price (ev_result e))))"
  "dget (event_values og symbol strategy k e) ''sl'' = jf (q_sl (ev_request e))"
  "dget (event_values og symbol strategy k e) ''tp'' = jf (q_tp (ev_request e))"
  "dget (event_values og symbol strategy k e) ''reason'' = jtext (ev_reason e)"
  "dget (event_values og symbol strategy k e) ''rr_planned'' = JNull"
  "dget (event_values og symbol strategy k e) ''rr_achieved'' = JNull"
  "dget (event_values og symbol strategy k e) ''risk_inflation_r'' = JNull"
  "dget (event_values og symbol strategy k e) ''pnl'' = jf (ev_pnl e)"
  "dget (event_values og symbol strategy k e) ''retcode'' = JInt (o_retcode (ev_result e))"
  by (simp_all add: event_values_def dget_def)

text \<open>The schema says a pending order's event has no filled price and no slippage, and that slippage is
  a distance. The code fills both from the result, where an order that has not been filled has price
  zero, and keeps the sign.\<close>

theorem pending_event_slippage:
  "q_price (ev_request e) = Some level \<Longrightarrow> o_price (ev_result e) = 0 \<Longrightarrow>
     dget (event_values og symbol strategy k e) ''slippage'' = JFloat (Fin (round_dp 8 (- level)))"
  by (simp add: event_get slippage_of_def jf_def)

text \<open>The bare name drops a broker's letter suffix; the macro guard's key, said to follow the same
  convention, keeps it.\<close>

theorem bare_names_differ: "base_symbol_of ''XAUUSDm'' = ''XAUUSD''" "bare_key ''XAUUSDm'' = ''XAUUSDM''"
  by code_simp+

section \<open>Sinks\<close>

lemma hub_emit_isolates: "hub_emit (xs @ s # ys) ev w = hub_emit ys ev (snd (s ev (hub_emit xs ev w)))"
  by (simp add: hub_emit_def)

section \<open>Delivery\<close>

lemma goods_simps [simp]: "goods [] = []" "goods (None # ls) = goods ls" "goods (Some p # ls) = p # goods ls"
  "goods (xs @ ys) = goods xs @ goods ys"
  by (simp_all add: goods_def List.map_filter_def)

definition held :: "'p producer \<Rightarrow> 'p list" where
  "held pr = (case pr of Ready \<Rightarrow> [] | Blocked p \<Rightarrow> [p] | Retrying p \<Rightarrow> [p])"

text \<open>Everything that has left the trading loop and is not gone: sent, spooled, in the worker's hand,
  queued, held by a publisher that found the queue full.\<close>

definition flow :: "'p caster \<Rightarrow> 'p list" where
  "flow c = cs_sent c @ goods (cs_spool c) @ (case cs_hand c of None \<Rightarrow> [] | Some p \<Rightarrow> [p]) @ cs_queue c
     @ held (cs_prod c)"

lemma subseq_drop_mid: "subseq (xs @ ys) (xs @ x # ys)"
  by (induction xs) auto

lemma subseq_drop_end: "subseq xs (xs @ ys)"
  by (intro prefix_imp_subseq prefixI) simp

lemma drain_lines_goods: "drain_lines rs ls = (s, rest) \<Longrightarrow> s @ goods rest = goods ls"
  by (induction rs ls arbitrary: s rest rule: drain_lines.induct) (auto split: if_splits prod.splits)

text \<open>\<open>keeps c extra c'\<close>: besides \<open>extra\<close> the sent and the spooled payloads of \<open>c\<close> are all still there, or lost;
  \<open>ordered c extra c'\<close>: in the order they had, \<open>extra\<close> last.\<close>

definition stored :: "'p caster \<Rightarrow> 'p list" where
  "stored c = cs_sent c @ goods (cs_spool c)"

definition keeps :: "'p caster \<Rightarrow> 'p list \<Rightarrow> 'p caster \<Rightarrow> bool" where
  "keeps c extra c' \<longleftrightarrow> mset (stored c') + mset (cs_lost c') = mset (stored c @ extra) + mset (cs_lost c)
     \<and> cs_queue c' = cs_queue c \<and> cs_hand c' = cs_hand c \<and> cs_prod c' = cs_prod c
     \<and> cs_published c' = cs_published c \<and> cs_gone c' = cs_gone c \<and> cs_dropped c' = cs_dropped c"

definition ordered :: "'p caster \<Rightarrow> 'p list \<Rightarrow> 'p caster \<Rightarrow> bool" where
  "ordered c extra c' \<longleftrightarrow> subseq (stored c') (stored c @ extra)"

lemma respool_goods:
  "respool w ls = (ls', t, lost) \<Longrightarrow> mset (goods ls') + mset lost = mset (goods ls) \<and> subseq (goods ls') (goods ls)"
proof -
  assume r: "respool w ls = (ls', t, lost)"
  show ?thesis
  proof (cases "\<exists>n e l rest. w = Some (n, e) \<and> drop n ls = l # rest")
    case False
    then have "ls' = ls \<and> lost = []" using r
      by (auto simp: respool_def split: option.splits prod.splits list.splits)
    then show ?thesis by simp
  next
    case True
    then obtain n e l rest where w: "w = Some (n, e)" "drop n ls = l # rest" by blast
    have g: "goods ls = goods (take n ls) @ goods (l # rest)"
      using arg_cong [OF append_take_drop_id [of n ls], of goods] w(2) by (simp only: goods_simps)
    have s: "subseq (goods (take n ls) @ xs) (goods ls)" if "subseq xs (goods (l # rest))" for xs
      unfolding g using that by (simp add: list_emb_append_mono)
    show ?thesis
    proof (cases e)
      case Appended
      then show ?thesis using r w s [of "goods [l]"] g
        by (cases l) (auto simp: respool_def subseq_Cons')
    next
      case No_Newline
      then show ?thesis using r w s [of "goods [l]"] g
        by (cases l) (auto simp: respool_def subseq_Cons')
    qed (use r w s [of "[]"] g in \<open>auto simp: respool_def\<close>)
  qed
qed

lemma drain_keeps: "keeps c [] (drain_spool w rs c) \<and> ordered c [] (drain_spool w rs c)"
proof (cases "cs_spool c = [] \<or> \<not> wd_read w")
  case True
  then show ?thesis by (simp add: drain_spool_def keeps_def ordered_def)
next
  case False
  obtain s rest where d: "drain_lines rs (cs_spool c) = (s, rest)" by (meson surj_pair)
  obtain ls torn lost where r: "respool (wd_respool w) rest = (ls, torn, lost)" by (meson prod_cases3)
  note g = drain_lines_goods [OF d] respool_goods [OF r]
  have e: "drain_spool w rs c = c\<lparr>cs_sent := cs_sent c @ s, cs_spool := ls, cs_torn := torn,
      cs_lost := cs_lost c @ lost\<rparr>"
    using False by (simp add: drain_spool_def d r)
  have "subseq (cs_sent c @ s @ goods ls) (cs_sent c @ s @ goods rest)"
    using g(2) by (simp add: list_emb_append_mono)
  moreover have "mset (goods ls) + mset lost = mset (goods rest)" using g(2) by blast
  ultimately show ?thesis
    unfolding e by (simp add: keeps_def ordered_def stored_def g(1) [symmetric] ac_simps)
qed

lemma spool_keeps: "keeps c [p] (spool w p c) \<and> ordered c [p] (spool w p c)"
proof -
  define n where "n = length (cs_spool c) - 1"
  have g: "goods (cs_spool c) = goods (take n (cs_spool c)) @ goods (drop n (cs_spool c))"
    using arg_cong [OF append_take_drop_id [of n "cs_spool c"], of goods] by (simp only: goods_simps)
  have s: "subseq (cs_sent c @ goods (take n (cs_spool c)))
      (cs_sent c @ goods (cs_spool c) @ [p])"
    unfolding g using subseq_drop_end [of "cs_sent c @ goods (take n (cs_spool c))"] by simp
  have s': "subseq (cs_sent c @ goods (cs_spool c)) (cs_sent c @ goods (cs_spool c) @ [p])"
    using subseq_drop_end [of "cs_sent c @ goods (cs_spool c)" "[p]"] by simp
  show ?thesis
  proof (cases "wd_append w = Unwritten")
    case True
    then show ?thesis using s' by (simp add: keeps_def ordered_def spool_def stored_def Let_def)
  next
    case unrefused: False
    show ?thesis
    proof (cases "cs_torn c")
      case True
      have "spool w p c = c\<lparr>cs_spool := take n (cs_spool c) @ [None], cs_torn := (wd_append w \<noteq> Appended),
          cs_lost := cs_lost c @ goods (drop n (cs_spool c)) @ [p]\<rparr>"
        using True unrefused by (simp add: spool_def Let_def n_def split: append_end.split)
      then show ?thesis using s g by (simp add: keeps_def ordered_def stored_def)
    next
      case False
      then show ?thesis using unrefused s'
        by (auto simp: keeps_def ordered_def stored_def spool_def Let_def split: append_end.split)
    qed
  qed
qed

lemma keeps_trans: "keeps c xs c1 \<Longrightarrow> keeps c1 [] c2 \<Longrightarrow> keeps c xs c2"
  "ordered c xs c1 \<Longrightarrow> ordered c1 [] c2 \<Longrightarrow> ordered c xs c2"
  unfolding keeps_def ordered_def append_Nil2 by (metis, metis subseq_order.trans)

lemma blind_mono: "cs_blind (drain_spool w rs c) = cs_blind c" "cs_blind (spool w p c) = cs_blind c"
  by (auto simp: drain_spool_def spool_def Let_def split: prod.splits append_end.splits)

lemma handle_blind:
  "cs_blind (handle w p c) \<longleftrightarrow> cs_blind c \<or> \<not> wd_stat w \<and> cs_spool c \<noteq> [] \<and> next_post (wd_posts w)"
  by (simp add: handle_def Let_def blind_mono)

lemma blind_keeps:
  "keeps (c\<lparr>cs_blind := b\<rparr>) xs c' = keeps c xs c'" "ordered (c\<lparr>cs_blind := b\<rparr>) xs c' = ordered c xs c'"
  by (simp_all add: keeps_def ordered_def stored_def)

lemma handle_keeps:
  "keeps c [p] (handle w p c)" "\<not> cs_blind (handle w p c) \<Longrightarrow> ordered c [p] (handle w p c)"
proof -
  define c1 where "c1 = c\<lparr>cs_blind := (cs_blind c \<or> \<not> wd_stat w \<and> cs_spool c \<noteq> [] \<and> next_post (wd_posts w))\<rparr>"
  have sp: "cs_spool c1 = cs_spool c" by (simp add: c1_def)
  have hd: "handle w p c = (if spool_backlog w c1 then drain_spool w (wd_posts w) (spool w p c1)
      else if next_post (wd_posts w) then drain_spool w (tl (wd_posts w)) (c1\<lparr>cs_sent := cs_sent c1 @ [p]\<rparr>)
      else spool w p c1)"
    unfolding handle_def Let_def c1_def by (rule refl)
  have "keeps c1 [p] (handle w p c) \<and> (\<not> cs_blind (handle w p c) \<longrightarrow> ordered c1 [p] (handle w p c))"
  proof (cases "spool_backlog w c1")
    case True
    then have "handle w p c = drain_spool w (wd_posts w) (spool w p c1)"
      by (simp add: hd)
    then show ?thesis using keeps_trans spool_keeps drain_keeps by metis
  next
    case False
    show ?thesis
    proof (cases "next_post (wd_posts w)")
      case True
      define c2 where "c2 = c1\<lparr>cs_sent := cs_sent c1 @ [p]\<rparr>"
      have h: "handle w p c = drain_spool w (tl (wd_posts w)) c2"
        using False True by (simp add: hd c2_def)
      have k: "keeps c1 [p] c2" by (simp add: keeps_def stored_def c2_def)
      have o: "ordered c1 [p] c2" if "\<not> cs_blind (handle w p c)"
      proof -
        have "cs_spool c1 = []" using that False True by (auto simp: handle_blind spool_backlog_def sp)
        then show ?thesis by (simp add: ordered_def stored_def c2_def)
      qed
      show ?thesis using k o drain_keeps [of c2 w "tl (wd_posts w)"] keeps_trans unfolding h by metis
    next
      case unsent: False
      have "handle w p c = spool w p c1"
        using False unsent by (simp add: hd)
      then show ?thesis using spool_keeps by metis
    qed
  qed
  then show "keeps c [p] (handle w p c)" "\<not> cs_blind (handle w p c) \<Longrightarrow> ordered c [p] (handle w p c)"
    by (simp_all add: c1_def blind_keeps)
qed

definition delivers :: "'p caster \<Rightarrow> bool" where
  "delivers c \<longleftrightarrow> mset (cs_published c) = mset (flow c) + mset (cs_gone c) + mset (cs_lost c)
     \<and> (\<not> cs_blind c \<longrightarrow> subseq (flow c) (cs_published c)) \<and> length (cs_gone c) \<le> cs_dropped c"

lemma delivers_step:
  assumes "cast_step cap c c'" "delivers c"
  shows "delivers c'"
  using assms(1)
proof cases
  case (publish p)
  then have "flow c' = flow c @ [p]" by (simp add: flow_def held_def)
  then show ?thesis using assms(2) publish list_emb_append_mono [of "(=)" "flow c" "cs_published c" "[p]" "[p]"]
    by (simp add: delivers_def)
next
  case (queue_full p)
  then have "flow c' = flow c @ [p]" by (simp add: flow_def held_def)
  then show ?thesis using assms(2) queue_full list_emb_append_mono [of "(=)" "flow c" "cs_published c" "[p]" "[p]"]
    by (simp add: delivers_def)
next
  case (drop_oldest p x xs)
  have "subseq (flow c') (flow c)"
    using subseq_drop_mid [of "cs_sent c @ goods (cs_spool c) @ (case cs_hand c of None \<Rightarrow> [] | Some p \<Rightarrow> [p])" "xs @ [p]" x]
    by (simp add: flow_def drop_oldest held_def)
  then show ?thesis using assms(2) drop_oldest
    by (auto simp: delivers_def flow_def held_def dest: subseq_order.trans)
next
  case (still_full p)
  have "subseq (flow c') (flow c)"
    using subseq_drop_end [of "cs_sent c @ goods (cs_spool c) @ (case cs_hand c of None \<Rightarrow> [] | Some p \<Rightarrow> [p]) @ cs_queue c" "[p]"]
    by (simp add: flow_def still_full held_def)
  then show ?thesis using assms(2) still_full
    by (auto simp: delivers_def flow_def held_def dest: subseq_order.trans)
next
  case (work p w)
  note k = handle_keeps(1) [where c = c and p = p and w = w]
  have f: "flow c' = stored (handle w p c) @ (cs_queue c @ held (cs_prod c))"
    using k by (simp add: flow_def work keeps_def stored_def)
  have fc: "flow c = (stored c @ [p]) @ (cs_queue c @ held (cs_prod c))"
    by (simp add: flow_def work stored_def)
  have "subseq (flow c') (flow c)" if "\<not> cs_blind c'"
    unfolding f fc using handle_keeps(2) [where c = c and p = p and w = w] that work
    by (intro list_emb_append_mono) (simp_all add: ordered_def)
  moreover have "\<not> cs_blind c' \<Longrightarrow> \<not> cs_blind c" using work by (simp add: handle_blind)
  moreover have "mset (flow c') + mset (cs_lost c') = mset (flow c) + mset (cs_lost c)"
    using k unfolding f fc by (simp add: keeps_def work(1) ac_simps)
  moreover have "cs_published c' = cs_published c" "cs_gone c' = cs_gone c" "cs_dropped c' = cs_dropped c"
    using k by (simp_all add: keeps_def work)
  ultimately show ?thesis using assms(2) unfolding delivers_def
    by (metis (no_types, lifting) add.assoc add.commute subseq_order.trans)
qed (use assms(2) in \<open>auto simp: delivers_def flow_def held_def list_emb_append_mono\<close>)

text \<open>C28: the sender loses nothing silently and invents nothing, and reorders only when blind. From any
  spool an earlier process left, on every interleaving of the trading loop and the worker and whatever
  fails at the disk or at the leader (writes cut short included): every payload published or found in the
  spool is, with its multiplicity, either in the flow (sent, spooled, in hand, queued), or was dropped by
  the full queue and counted, or was lost by a failing disk write, and nothing else is; and the flow is a
  subsequence of what was published, in that order, unless a payload was posted past a backlog whose size
  could not be read.\<close>

theorem delivery_in_order:
  assumes "cast_reach cap c"
  shows "mset (cs_published c) = mset (flow c) + mset (cs_gone c) + mset (cs_lost c)
     \<and> (\<not> cs_blind c \<longrightarrow> subseq (flow c) (cs_published c))
     \<and> length (cs_gone c) \<le> cs_dropped c"
proof -
  have "delivers c" using assms
    by induction (simp_all add: delivers_step, simp add: delivers_def caster_start_def flow_def held_def)
  then show ?thesis by (simp add: delivers_def)
qed

text \<open>The exception: when the spool's size cannot be read the backlog counts as empty, and the new event
  overtakes the spooled ones.\<close>

theorem stat_failure_overtakes:
  "cs_sent (handle \<lparr>wd_stat = False, wd_append = Appended, wd_read = True, wd_respool = None, wd_posts = [True, True]\<rparr>
     (2::int) (caster_start [Some 1] False)) = [2, 1]"
  by code_simp

text \<open>A spool write cut short costs the next event too: the joined line is dropped as corrupt.\<close>

theorem torn_spool_line_loses_next:
  "(let w = \<lparr>wd_stat = True, wd_append = Cut, wd_read = True, wd_respool = None, wd_posts = []\<rparr>;
        c = handle w (1::int) (caster_start [] False);
        c' = handle (w\<lparr>wd_append := Appended, wd_posts := [True, True]\<rparr>) 2 c
    in cs_sent c' = [] \<and> cs_spool c' = [] \<and> cs_lost c' = [1, 2])"
  by code_simp

definition refused :: world where
  "refused = \<lparr>wd_stat = True, wd_append = Appended, wd_read = True, wd_respool = None, wd_posts = []\<rparr>"

text \<open>Two payloads after one an earlier process left, the first of them refused by the leader and spooled.\<close>

lemma spooled_run:
  "cast_reach 1 \<lparr>cs_queue = [8], cs_hand = None, cs_spool = [Some 6, Some (7::int)], cs_torn = False, cs_sent = [],
     cs_prod = Ready, cs_dropped = 0, cs_published = [6, 7, 8], cs_gone = [], cs_lost = [], cs_blind = False\<rparr>"
proof -
  define s where "s = caster_start [Some (6::int)] False"
  have s: "s = \<lparr>cs_queue = [], cs_hand = None, cs_spool = [Some 6], cs_torn = False, cs_sent = [],
     cs_prod = Ready, cs_dropped = 0, cs_published = [6], cs_gone = [], cs_lost = [], cs_blind = False\<rparr>"
    by (simp add: s_def caster_start_def)
  have a: "cast_reach 1 (s\<lparr>cs_queue := [7], cs_published := [6, 7]\<rparr>)"
    using cast_reach.step [OF cast_reach.start [of 1 "[Some 6] :: int option list" False, folded s_def] cast_step.publish, of 7]
    by (simp add: s room_def)
  have b: "cast_reach 1 (s\<lparr>cs_hand := Some 7, cs_published := [6, 7]\<rparr>)"
    using cast_reach.step [OF a cast_step.take, of 7 "[]"] by (simp add: s)
  have "handle refused 7 (s\<lparr>cs_hand := Some 7, cs_published := [6, 7]\<rparr>)
      = s\<lparr>cs_hand := Some 7, cs_spool := [Some 6, Some 7], cs_published := [6, 7]\<rparr>"
    unfolding s by code_simp
  then have c: "cast_reach 1 (s\<lparr>cs_spool := [Some 6, Some 7], cs_published := [6, 7]\<rparr>)"
    using cast_reach.step [OF b cast_step.work, of 7 refused] by (simp add: s)
  show ?thesis
    using cast_reach.step [OF c cast_step.publish, of 8] by (simp add: s room_def)
qed

theorem delivery_in_order_witness:
  "\<exists>c. cast_reach 1 c \<and> flow c = [6, 7, 8::int] \<and> \<not> cs_blind c \<and> subseq (flow c) (cs_published c)
     \<and> mset (cs_published c) = mset (flow c)"
  using delivery_in_order [OF spooled_run] spooled_run by (auto simp: flow_def held_def)

text \<open>The drop counter is not exact: when the worker empties the queue between the failed put and the
  removal, nothing is removed and a drop is counted.\<close>

theorem drop_miscounted: "\<exists>c. cast_reach 1 (c::int caster) \<and> cs_dropped c = 1 \<and> cs_gone c = []"
proof -
  define s where "s = caster_start ([] :: int option list) False"
  have s: "s = \<lparr>cs_queue = [], cs_hand = None, cs_spool = [], cs_torn = False, cs_sent = [],
     cs_prod = Ready, cs_dropped = 0, cs_published = [], cs_gone = [], cs_lost = [], cs_blind = False\<rparr>"
    by (simp add: s_def caster_start_def)
  have a: "cast_reach 1 (s\<lparr>cs_queue := [7], cs_published := [7]\<rparr>)"
    using cast_reach.step [OF cast_reach.start [of 1 "[] :: int option list" False, folded s_def] cast_step.publish, of 7]
    by (simp add: s room_def)
  have b: "cast_reach 1 (s\<lparr>cs_queue := [7], cs_published := [7, 8], cs_prod := Blocked 8\<rparr>)"
    using cast_reach.step [OF a cast_step.queue_full, of 8] by (simp add: s room_def)
  have c: "cast_reach 1 (s\<lparr>cs_hand := Some 7, cs_published := [7, 8], cs_prod := Blocked 8\<rparr>)"
    using cast_reach.step [OF b cast_step.take, of 7 "[]"] by (simp add: s)
  have "cast_reach 1 (s\<lparr>cs_hand := Some 7, cs_published := [7, 8], cs_prod := Retrying 8, cs_dropped := 1\<rparr>)"
    using cast_reach.step [OF c cast_step.nothing_to_drop, of 8] by (simp add: s)
  then show ?thesis by (intro exI conjI) (assumption, simp_all add: s)
qed

section \<open>Sequence numbers\<close>

datatype store_op = Put write_end dict | Reopen "nat option"

text \<open>A life of the store: the numbers handed out, through writes and restarts.\<close>

fun store_run :: "store_op list \<Rightarrow> store \<Rightarrow> int list \<times> store" where
  "store_run [] st = ([], st)"
| "store_run (Put w p # ops) st = (case store_append w p st of (r, st1) \<Rightarrow>
     case store_run ops st1 of (rs, st2) \<Rightarrow> ((case r of None \<Rightarrow> rs | Some n \<Rightarrow> n # rs), st2))"
| "store_run (Reopen rd # ops) st = store_run ops (open_store rd (st_lines st) (st_torn st))"

text \<open>No write is cut short, and the file can be read to its end at every restart.\<close>

definition sound_disk :: "store_op list \<Rightarrow> bool" where
  "sound_disk ops = list_all (\<lambda>op. case op of Put Torn _ \<Rightarrow> False | Put _ _ \<Rightarrow> True | Reopen rd \<Rightarrow> rd = None) ops"

lemma load_snoc: "load_last_seq (ls @ [l]) = (case line_seq l of Some n \<Rightarrow> max (load_last_seq ls) n | None \<Rightarrow> load_last_seq ls)"
  by (simp add: load_last_seq_def max_def split: option.splits)

lemma line_seq_record [simp]: "line_seq (Some (JObj (AList.update ''seq'' (JInt n) p))) = Some n"
  by (simp add: line_seq_def update_conv')

lemma put_cases:
  assumes "store_append w p st = (r, st1)" "w \<noteq> Torn" "\<not> st_torn st" "load_last_seq (st_lines st) \<le> st_seq st"
  shows "\<not> st_torn st1 \<and> load_last_seq (st_lines st1) \<le> st_seq st1
    \<and> load_last_seq (st_lines st) \<le> load_last_seq (st_lines st1)
    \<and> (\<forall>n. r = Some n \<longrightarrow> load_last_seq (st_lines st) < n \<and> load_last_seq (st_lines st1) = n)"
  using assms by (cases w) (auto simp: store_append_def Let_def load_snoc)

lemma store_run_increasing:
  assumes "sound_disk ops" "\<not> st_torn st" "load_last_seq (st_lines st) \<le> st_seq st"
  shows "sorted_wrt (<) (load_last_seq (st_lines st) # fst (store_run ops st))"
  using assms
proof (induction ops arbitrary: st)
  case (Cons op ops)
  show ?case
  proof (cases op)
    case (Put w p)
    obtain r st1 where a: "store_append w p st = (r, st1)" by (meson surj_pair)
    obtain rs st2 where s: "store_run ops st1 = (rs, st2)" by (meson surj_pair)
    have w: "w \<noteq> Torn" using Cons.prems(1) Put by (auto simp: sound_disk_def)
    note c = put_cases [OF a w Cons.prems(2,3)]
    have ih: "sorted_wrt (<) (load_last_seq (st_lines st1) # rs)"
      using Cons.IH [of st1] Cons.prems(1) c s by (simp add: sound_disk_def)
    show ?thesis
    proof (cases r)
      case None
      then show ?thesis using ih c by (fastforce simp: Put a s)
    next
      case (Some n)
      then show ?thesis using ih c by (fastforce simp: Put a s)
    qed
  next
    case (Reopen rd)
    have u: "rd = None" "sound_disk ops" using Cons.prems(1) Reopen by (simp_all add: sound_disk_def)
    have "sorted_wrt (<) (load_last_seq (st_lines st) # fst (store_run ops (open_store None (st_lines st) (st_torn st))))"
      using Cons.IH [of "open_store None (st_lines st) (st_torn st)"] Cons.prems(2) u(2) by (simp add: open_store_def)
    then show ?thesis by (simp add: Reopen u(1))
  qed
qed simp

text \<open>C31: on a sound disk, sequence numbers only grow. However writes succeed or are refused and however
  often the leader restarts, as long as no write is cut short and the file can be read to its end
  whenever the leader starts, the numbers it hands out are strictly increasing and above every number
  already in the file it started from.\<close>

theorem store_seq_increasing:
  assumes "sound_disk ops"
  shows "sorted_wrt (<) (load_last_seq lines # fst (store_run ops (open_store None lines False)))"
  using store_run_increasing [OF assms, of "open_store None lines False"] by (simp add: open_store_def)

theorem store_seq_increasing_witness:
  "sorted_wrt (<) (load_last_seq [Some (JObj [(''seq'', JInt 4)]), None] # fst (store_run
     [Put Written [], Put Refused [], Reopen None, Put Written []]
     (open_store None [Some (JObj [(''seq'', JInt 4)]), None] False)))"
  by (rule store_seq_increasing) (simp add: sound_disk_def)

text \<open>Restarts are said never to reuse a number, which both hypotheses are needed for. After a write cut
  short, the next record joins the unfinished line, which no reader can parse: its number is handed out
  again after a restart, and the event itself is lost although it was acknowledged. And a restart that
  cannot read the file logs that and counts from zero.\<close>

theorem torn_line_reuses_seq:
  "fst (store_run [Put Written [], Put Torn [], Reopen None, Put Written [(''k'', JInt 7)], Reopen None, Put Written []]
     (open_store None [] False)) = [1, 2, 2]"
  by code_simp

theorem unreadable_restart_reuses_seq:
  "fst (store_run [Put Written [], Put Written [], Reopen (Some 0), Put Written []] (open_store None [] False)) = [1, 2, 1]"
  by code_simp

text \<open>\<open>latest(0)\<close>, and with it any negative count, returns the whole history.\<close>

theorem latest_zero_is_everything: "n \<le> 0 \<Longrightarrow> latest_events n st = List.map_filter id (st_lines st @ (if st_torn st then [None] else []))"
  by (simp add: latest_events_def)

section \<open>Ingest\<close>

definition body_read :: "wire \<Rightarrow> request \<Rightarrow> string option" where
  "body_read wr rq = (case (case rq_length rq of None \<Rightarrow> Some 0 | Some s \<Rightarrow> tx_int (wr_text wr) s) of
     None \<Rightarrow> None | Some len \<Rightarrow> Some (if len < 0 then rq_body rq else take (nat len) (rq_body rq)))"

text \<open>C29: nothing unauthenticated is stored. If a request changes the store at all, its path is the
  ingest path, its signature is the keyed hash of its time stamp and the body that was read, and that body
  is a JSON object. The body read is exactly the first bytes up to the declared length, or, when the
  declared length is negative, everything sent. The stamp is a number within the allowed skew, or not a
  number (NaN); a stamp of the documented form, whole seconds in decimal, that Python reads as that number
  is always within it.\<close>

theorem ingest_authenticated:
  assumes "snd (do_post wr secret max_skew now w rq st) \<noteq> st"
  shows "rq_path rq = ''/events'' \<and> (\<exists>raw ts payload len. body_read wr rq = Some raw
     \<and> rq_sig rq = wr_mac wr secret (rq_stamp rq @ ''.'' @ raw) \<and> wr_loads wr raw = Some (JObj payload)
     \<and> (case rq_length rq of None \<Rightarrow> len = 0 | Some s \<Rightarrow> tx_int (wr_text wr) s = Some len)
     \<and> raw = (if 0 \<le> len then take (nat len) (rq_body rq) else rq_body rq)
     \<and> tx_float (wr_text wr) (rq_stamp rq) = Some ts \<and> (ts = NaN \<or> (\<exists>v. ts = Fin v \<and> \<bar>now - v\<bar> \<le> max_skew))
     \<and> (\<forall>n. rq_stamp rq = Text_Time.show_int n
          \<and> tx_float (wr_text wr) (Text_Time.show_int n) = Some (Fin (of_int n)) \<longrightarrow> \<bar>now - of_int n\<bar> \<le> max_skew))"
proof -
  define len where "len = (case rq_length rq of None \<Rightarrow> Some 0 | Some s \<Rightarrow> tx_int (wr_text wr) s)"
  have p: "rq_path rq = ''/events''" by (rule ccontr) (use assms in \<open>simp add: do_post_def reject_def\<close>)
  obtain n where n: "len = Some n"
    by (cases len) (use assms p in \<open>simp_all add: do_post_def reject_def len_def [symmetric]\<close>)
  define raw where "raw = (if n < 0 then rq_body rq else take (nat n) (rq_body rq))"
  note u = do_post_def len_def [symmetric] n p raw_def [symmetric] reject_def Let_def
  have sg: "sign wr secret (rq_stamp rq) raw = rq_sig rq"
    by (rule ccontr) (use assms in \<open>simp add: u\<close>)
  obtain ts where ts: "tx_float (wr_text wr) (rq_stamp rq) = Some ts"
    by (cases "tx_float (wr_text wr) (rq_stamp rq)") (use assms in \<open>simp_all add: u sg\<close>)
  have sk: "\<not> beyond_skew now ts max_skew"
    by (rule notI) (use assms in \<open>simp add: u sg ts\<close>)
  obtain payload where pl: "wr_loads wr raw = Some (JObj payload)"
    using assms sk by (simp add: u sg ts split: option.splits json.splits)
  have b: "body_read wr rq = Some raw" using n by (simp add: body_read_def len_def raw_def)
  have l: "case rq_length rq of None \<Rightarrow> n = 0 | Some s \<Rightarrow> tx_int (wr_text wr) s = Some n"
    using n by (simp add: len_def split: option.splits)
  have r: "raw = (if 0 \<le> n then take (nat n) (rq_body rq) else rq_body rq)" by (simp add: raw_def)
  have t: "ts = NaN \<or> (\<exists>v. ts = Fin v \<and> \<bar>now - v\<bar> \<le> max_skew)"
    using sk by (cases ts) (simp_all add: beyond_skew_def)
  have d: "\<forall>n. rq_stamp rq = Text_Time.show_int n
      \<and> tx_float (wr_text wr) (Text_Time.show_int n) = Some (Fin (of_int n)) \<longrightarrow> \<bar>now - of_int n\<bar> \<le> max_skew"
    using ts sk by (auto simp: beyond_skew_def)
  have s: "rq_sig rq = wr_mac wr secret (rq_stamp rq @ ''.'' @ raw)" using sg by (simp add: sign_def)
  show ?thesis using p b s pl l r ts t d by blast
qed

text \<open>What the two ends rely on of \<open>json\<close>, for the payload at hand, and of Python's number texts; and a
  wire that has it.\<close>

definition wire_ok :: "wire \<Rightarrow> dict \<Rightarrow> bool" where
  "wire_ok wr payload \<longleftrightarrow> wr_loads wr (wr_dumps wr (JObj payload)) = Some (JObj payload)
     \<and> (\<forall>n. tx_int (wr_text wr) (Text_Time.show_int n) = Some n)
     \<and> (\<forall>n. tx_float (wr_text wr) (Text_Time.show_int n) = Some (Fin (of_int n)))"

definition read_int :: "string \<Rightarrow> int" where
  "read_int s = (case s of [] \<Rightarrow> 0 | c # cs \<Rightarrow> if c = CHR ''-'' then - int (num cs) else int (num s))"

definition demo_wire :: wire where
  "demo_wire = \<lparr>wr_mac = (\<lambda>k m. rev k @ m), wr_dumps = (\<lambda>_. ''{}''),
     wr_loads = (\<lambda>s. if s = ''{}'' then Some (JObj []) else None),
     wr_text = \<lparr>tx_float = (\<lambda>s. Some (Fin (of_int (read_int s)))), tx_int = (\<lambda>s. Some (read_int s)),
       tx_iso = (\<lambda>_. None), tx_str = (\<lambda>_. [])\<rparr>\<rparr>"

lemma show_nat_digits: "list_all is_digit (show_nat n) \<and> show_nat n \<noteq> []"
proof (induction n rule: show_nat.induct)
  case (1 n)
  then show ?case by (cases "n < 10") (simp_all add: show_nat.simps [of n])
qed

lemma read_show_int: "read_int (Text_Time.show_int n) = n"
proof (cases "n < 0")
  case True
  then show ?thesis by (simp add: read_int_def Text_Time.show_int_def num_show_nat)
next
  case False
  obtain c cs where s: "show_nat (nat n) = c # cs" using show_nat_digits by (meson neq_Nil_conv)
  then have "is_digit c" using show_nat_digits [of "nat n"] by simp
  then have "c \<noteq> CHR ''-''" by (auto simp: is_digit_def)
  then show ?thesis using False num_show_nat [of "nat n"] by (simp add: read_int_def Text_Time.show_int_def s)
qed

lemma demo_wire_ok: "wire_ok demo_wire []"
  by (simp add: wire_ok_def demo_wire_def read_show_int)

lemma signed_event_accepted:
  assumes "wire_ok wr payload" "\<bar>srv_now - of_int (trunc_int now)\<bar> \<le> max_skew" "\<not> st_torn st"
  shows "do_post wr secret max_skew srv_now Written (send_request wr ''/events'' secret now payload) st
    = (Some \<lparr>rs_status = 200, rs_seq = Some (st_seq st + 1)\<rparr>,
       st\<lparr>st_seq := st_seq st + 1,
          st_lines := st_lines st @ [Some (JObj (AList.update ''seq'' (JInt (st_seq st + 1)) payload))]\<rparr>)"
  using assms by (simp add: do_post_def send_request_def wire_ok_def Let_def sign_def beyond_skew_def store_append_def)

text \<open>C30: what the adapter's node signs, the leader stores. With the same secret, a clock within the
  allowed skew of the sender's whole second and a disk that takes the write, a payload posted to the
  ingest path is acknowledged with the next number and stored as sent, its \<open>seq\<close> replaced by that
  number; posted to any other path of the leader it is answered 404 and nothing is stored.\<close>

theorem signed_event_stored:
  assumes "wire_ok wr payload" "\<bar>srv_now - of_int (trunc_int now)\<bar> \<le> max_skew" "\<not> st_torn st"
  shows "do_post wr secret max_skew srv_now Written (send_request wr path secret now payload) st
    = (if path = ''/events''
       then (Some \<lparr>rs_status = 200, rs_seq = Some (st_seq st + 1)\<rparr>,
         st\<lparr>st_seq := st_seq st + 1,
            st_lines := st_lines st @ [Some (JObj (AList.update ''seq'' (JInt (st_seq st + 1)) payload))]\<rparr>)
       else (Some \<lparr>rs_status = 404, rs_seq = None\<rparr>, st))"
proof (cases "path = ''/events''")
  case True
  then show ?thesis using signed_event_accepted [OF assms, of secret] by simp
qed (simp add: do_post_def send_request_def reject_def Let_def)

theorem signed_event_stored_witness:
  "fst (do_post demo_wire ''key'' 500 1000 Written
      (send_request demo_wire ''/events'' ''key'' (1001/2) []) (open_store None [] False))
     = Some \<lparr>rs_status = 200, rs_seq = Some 1\<rparr>"
proof -
  have "\<bar>1000 - of_int (trunc_int (1001/2))\<bar> \<le> (500::flt)" by code_simp
  then show ?thesis
    using signed_event_stored [OF demo_wire_ok, of 1000 "1001/2" 500 "open_store None [] False" "''key''" "''/events''"]
    by (simp add: open_store_def load_last_seq_def)
qed

theorem ingest_authenticated_witness:
  "\<exists>raw payload. body_read demo_wire (send_request demo_wire ''/events'' ''key'' 5 []) = Some raw
     \<and> rq_sig (send_request demo_wire ''/events'' ''key'' 5 []) = rev ''key'' @ ''5.'' @ raw
     \<and> wr_loads demo_wire raw = Some (JObj payload)"
proof -
  define rq where "rq = send_request demo_wire ''/events'' ''key'' 5 []"
  have d: "digit 5 = CHR ''5''" by code_simp
  have t: "\<bar>100 - of_int (trunc_int 5)\<bar> \<le> (300::flt)" by code_simp
  have "snd (do_post demo_wire ''key'' 300 100 Written rq (open_store None [] False)) \<noteq> open_store None [] False"
    using signed_event_accepted [OF demo_wire_ok t, of "open_store None [] False" "''key''"]
    by (simp add: rq_def open_store_def)
  moreover have "trunc_int 5 = 5" by code_simp
  then have "rq_stamp rq = ''5''"
    by (simp add: rq_def send_request_def Let_def Text_Time.show_int_def show_nat.simps d)
  moreover have "wr_mac demo_wire k m = rev k @ m" for k m by (simp add: demo_wire_def)
  ultimately show ?thesis
    using ingest_authenticated [of demo_wire "''key''" 300 100 Written rq "open_store None [] False"]
    unfolding rq_def by auto
qed

text \<open>A time stamp that is not a number passes the replay check, a request without the schema's fields
  is stored, and the sender's own \<open>seq\<close> is replaced, where the contract refuses the first two and
  promises the same bytes at every hop.\<close>

theorem nan_stamp_passes: "\<not> beyond_skew now NaN max_skew"
  by (simp add: beyond_skew_def)

section \<open>A follower\<close>

definition at_length :: "json list \<Rightarrow> nat \<Rightarrow> store" where
  "at_length evs l = \<lparr>st_seq = 0, st_lines = map Some (take l evs), st_torn = False\<rparr>"

text \<open>A follower that polls when the file holds \<open>l\<close> events, for each \<open>l\<close> in turn.\<close>

definition polls :: "int \<Rightarrow> json list \<Rightarrow> nat list \<Rightarrow> json list" where
  "polls n evs ls = snd (fold (\<lambda>l s. follow (latest_events n (at_length evs l)) s) ls (0, []))"

fun paced :: "int \<Rightarrow> nat \<Rightarrow> nat list \<Rightarrow> bool" where
  "paced n l [] = True"
| "paced n l (m # ms) = (l \<le> m \<and> int m \<le> int l + n \<and> paced n m ms)"

definition ev_seq :: "json \<Rightarrow> int" where
  "ev_seq e = (case line_seq (Some e) of Some n \<Rightarrow> n | None \<Rightarrow> 0)"

definition has_seq :: "json \<Rightarrow> bool" where
  "has_seq e \<longleftrightarrow> (case line_seq (Some e) of Some n \<Rightarrow> 0 < n | None \<Rightarrow> False)"

definition numbered :: "json list \<Rightarrow> bool" where
  "numbered evs \<longleftrightarrow> list_all has_seq evs \<and> sorted_wrt (\<lambda>x y. ev_seq x < ev_seq y) evs"

text \<open>The follower as a reader of windows: the number it starts from, zero at first.\<close>

definition from_seq :: "int option \<Rightarrow> int" where
  "from_seq l = (case l of None \<Rightarrow> 0 | Some n \<Rightarrow> n)"

definition read_events :: "int option \<Rightarrow> json list \<Rightarrow> int option \<times> json list" where
  "read_events l evs = (case follow evs (from_seq l, []) of (k, out) \<Rightarrow> (if out = [] then l else Some k, out))"

lemma follow_out: "follow evs (k, out) = (fst (follow evs (k, [])), out @ snd (follow evs (k, [])))"
proof (induction evs arbitrary: k out)
  case (Cons e evs)
  show ?case
  proof (cases "\<exists>n. line_seq (Some e) = Some n \<and> k < n")
    case True
    then obtain n where n: "line_seq (Some e) = Some n" "k < n" by blast
    have f: "follow (e # evs) (k, out') = follow evs (n, out' @ [e])" for out'
      using n by (simp add: follow_def follow_one_def)
    show ?thesis unfolding f by (subst (1 2 3) Cons.IH) simp
  next
    case False
    then have "follow_one e (k, out') = (k, out')" for out'
      by (auto simp: follow_one_def split: option.splits)
    then have f: "follow (e # evs) (k, out') = follow evs (k, out')" for out'
      by (simp add: follow_def)
    show ?thesis unfolding f by (rule Cons.IH)
  qed
qed (simp add: follow_def)

lemma follow_Cons: "has_seq e \<Longrightarrow> follow (e # evs) (k, out)
    = (if k < ev_seq e then follow evs (ev_seq e, out @ [e]) else follow evs (k, out))"
  by (auto simp: has_seq_def ev_seq_def follow_def follow_one_def split: option.splits)

lemma follow_silent: "snd (follow evs (k, [])) = [] \<Longrightarrow> fst (follow evs (k, [])) = k"
proof (induction evs)
  case (Cons e evs)
  show ?case
  proof (cases "\<exists>n. line_seq (Some e) = Some n \<and> k < n")
    case True
    then obtain n where "line_seq (Some e) = Some n" "k < n" by blast
    then have "follow (e # evs) (k, []) = follow evs (n, [e])" by (simp add: follow_def follow_one_def)
    then show ?thesis using Cons.prems follow_out [of evs n "[e]"] by simp
  next
    case False
    then have "follow_one e (k, []) = (k, [])" by (auto simp: follow_one_def split: option.splits)
    then have "follow (e # evs) (k, []) = follow evs (k, [])" by (simp add: follow_def)
    then show ?thesis using Cons by simp
  qed
qed (simp add: follow_def)

interpretation leader_window: window_reader ev_seq has_seq read_events
proof
  show "read_events l [] = (l, [])" for l by (simp add: read_events_def follow_def)
next
  fix x xs l assume x: "has_seq x"
  obtain k out where f: "follow xs (ev_seq x, []) = (k, out)" by (meson surj_pair)
  have g: "follow xs (ev_seq x, [x]) = (k, x # out)" using follow_out [of xs "ev_seq x" "[x]"] by (simp add: f)
  have "out = [] \<Longrightarrow> k = ev_seq x" using follow_silent [of xs "ev_seq x"] by (simp add: f)
  moreover have "0 < ev_seq x" using x by (auto simp: has_seq_def ev_seq_def split: option.splits)
  ultimately show "read_events l (x # xs) = (if newer l (ev_seq x)
      then (case read_events (Some (ev_seq x)) xs of (l', out) \<Rightarrow> (l', x # out)) else read_events l xs)"
    by (auto simp: read_events_def from_seq_def follow_Cons [OF x] f g newer_def split: option.splits)
qed

definition window :: "int \<Rightarrow> nat \<Rightarrow> nat \<times> nat" where "window n m = (m - nat n, m)"

lemma latest_window: "0 < n \<Longrightarrow> m \<le> length evs \<Longrightarrow> latest_events n (at_length evs m) = drop (m - nat n) (take m evs)"
  by (simp add: latest_events_def at_length_def List.map_filter_def comp_def drop_map min_absorb2)

lemma polls_read:
  assumes "0 < n" "list_all (\<lambda>m. m \<le> length evs) ls"
  shows "snd (fold (\<lambda>m s. follow (latest_events n (at_length evs m)) s) ls (from_seq l, out))
    = out @ leader_window.read_all evs (map (window n) ls) l"
  using assms(2)
proof (induction ls arbitrary: l out)
  case (Cons m ms)
  obtain k o1 where f: "follow (drop (m - nat n) (take m evs)) (from_seq l, []) = (k, o1)" by (meson surj_pair)
  have g: "follow (drop (m - nat n) (take m evs)) (from_seq l, out) = (k, out @ o1)"
    using follow_out [of "drop (m - nat n) (take m evs)" "from_seq l" out] by (simp add: f)
  have "o1 = [] \<Longrightarrow> k = from_seq l" using follow_silent [of "drop (m - nat n) (take m evs)" "from_seq l"] by (simp add: f)
  then have k: "k = from_seq (if o1 = [] then l else Some k)" by (simp add: from_seq_def)
  have r: "read_events l (drop (m - nat n) (take m evs)) = (if o1 = [] then l else Some k, o1)"
    by (simp add: read_events_def f)
  have "snd (fold (\<lambda>m s. follow (latest_events n (at_length evs m)) s) ms (k, out @ o1))
      = (out @ o1) @ leader_window.read_all evs (map (window n) ms) (if o1 = [] then l else Some k)"
    using Cons.IH [of "if o1 = [] then l else Some k" "out @ o1"] Cons.prems k by simp
  moreover have "window n m = (m - nat n, m)" by (simp add: window_def)
  ultimately show ?case using Cons.prems assms(1) by (simp add: latest_window g r)
qed simp

lemma paced_covering: "0 < n \<Longrightarrow> paced n l ls \<Longrightarrow> covering l (map (window n) ls)"
  by (induction n l ls rule: paced.induct) (auto simp: window_def)

lemma reach_windows: "reach l (map (window n) ls) = (if ls = [] then l else last ls)"
  by (simp add: reach_def last_map window_def)

text \<open>C32: a follower sees every event once and in order. If between two polls the leader stores at most
  as many events as the follower asks for, then after any number of polls it has printed exactly the
  events stored so far.\<close>

theorem follower_exactly_once:
  assumes "numbered evs" "0 < n" "paced n 0 ls" "list_all (\<lambda>m. m \<le> length evs) ls" "ls \<noteq> []"
  shows "polls n evs ls = take (last ls) evs"
proof -
  have "last ls \<le> length evs" using assms(4,5) by (simp add: list_all_iff)
  then have "leader_window.read_all evs (map (window n) ls) None = take (last ls) evs"
    using leader_window.exactly_once [of evs 0 "map (window n) ls"] paced_covering [OF assms(2,3)] assms(1,5)
    by (simp add: numbered_def reach_windows leader_window.seen_def)
  then show ?thesis using polls_read [OF assms(2,4), of None "[]"] by (simp add: polls_def from_seq_def)
qed

theorem follower_exactly_once_witness:
  "polls 2 (map (\<lambda>n. JObj [(''seq'', JInt n)]) [1, 2, 3]) [2, 2, 3] = take 3 (map (\<lambda>n. JObj [(''seq'', JInt n)]) [1, 2, 3])"
  using follower_exactly_once [of "map (\<lambda>n. JObj [(''seq'', JInt n)]) [1, 2, 3]" 2 "[2, 2, 3]"]
  by (simp add: numbered_def has_seq_def ev_seq_def line_seq_def)

end
