(* ===== verification/Event_Schema.thy ===== *)
theory Event_Schema
  imports Broker_Properties Trade_Properties
begin

text \<open>
  The adapter's events against the contract of \<open>docs/copytrade_schema.md\<close>: its table of fields and its
  matrix of what each action leaves out, written down as data; every event that any operation of the
  adapter emits is then typed by them, with the cells where the code disagrees named one by one.
\<close>

section \<open>The contract\<close>









section \<open>Events the adapter emits\<close>

text \<open>What the request and the rest of an event carry, by action.\<close>

definition open_shaped :: "order_req \<Rightarrow> bool" where
  "open_shaped q \<longleftrightarrow> q_type q \<noteq> None \<and> q_price q \<noteq> None \<and> q_sl q \<noteq> None \<and> q_tp q \<noteq> None"

definition stop_shaped :: "order_req \<Rightarrow> bool" where
  "stop_shaped q \<longleftrightarrow> q_price q = None \<and> q_sl q \<noteq> None"

definition cancel_shaped :: "order_req \<Rightarrow> bool" where
  "cancel_shaped q \<longleftrightarrow> q_price q = None \<and> q_sl q = None \<and> q_tp q = None"

definition close_shaped :: "order_req \<Rightarrow> bool" where
  "close_shaped q \<longleftrightarrow> q_type q \<noteq> None"

definition emitted :: "event \<Rightarrow> bool" where
  "emitted e \<longleftrightarrow> (let a = ev_action e; q = ev_request e in
     (a = ''open'' \<or> a = ''open_pending'') \<and> open_shaped q \<and> ev_pnl e = None
   \<or> a = ''modify_sl'' \<and> stop_shaped q \<and> ev_pnl e = None
   \<or> a = ''cancel_pending'' \<and> cancel_shaped q \<and> ev_pnl e = None
   \<or> (a = ''partial_close'' \<or> a = ''close'') \<and> close_shaped q)"

definition logs :: "'w broker \<Rightarrow> 'w broker \<Rightarrow> bool" where
  "logs b b' \<longleftrightarrow> (\<exists>new. bk_events b' = bk_events b @ new \<and> (\<forall>e \<in> set new. emitted e))"

lemma logs_refl [simp]: "logs b b"
  by (simp add: logs_def)









subsection \<open>Sends\<close>



lemma tally_events [simp]: "bk_events (tally rc b) = bk_events b"
  by (simp add: tally_def Let_def)











subsection \<open>Operations\<close>




















section \<open>Typed events\<close>























text \<open>The account of an event is not always there: it is null when the terminal does not report one.\<close>

theorem account_may_be_null:
  "ev_account e = None \<Longrightarrow> dget (event_values og symbol strategy k e) ''account'' = JNull"
  by (simp add: event_get jnum_def)

text \<open>The deal and the filled price are never null, whatever the action.\<close>

theorem absent_cells_filled:
  "dget (event_values og symbol strategy k e) ''deal'' \<noteq> JNull
   \<and> dget (event_values og symbol strategy k e) ''price_filled'' \<noteq> JNull"
  by (simp add: event_get)

end
