(* ===== verification/Feeds.thy ===== *)
theory Feeds
  imports Window_Reader Models Text_Time
begin

text \<open>
  Where candles come from: \<open>orb/feeds/mt5feed.py\<close> (closed one-minute bars of the local terminal),
  \<open>orb/feeds/twelvedata.py\<close> (a REST source polled each minute), and \<open>orb/symbols.py\<close> (the broker's
  name of an instrument). One turn of a polling loop is a function of its state and of what the
  terminal, the clock and the network answered in that turn; waiting is the returned number of
  seconds.
\<close>

datatype feed_fault = FeedError string | SymbolError string | Raised error

section \<open>The MetaTrader feed\<close>

record rate =
  rt_time :: int
  rt_open :: pyfloat
  rt_high :: pyfloat
  rt_low :: pyfloat
  rt_close :: pyfloat
  rt_volume :: pyfloat

record feed_cfg =
  fc_poll :: flt
  fc_min_poll :: flt
  fc_warmup :: int
  fc_max_reconnect :: "int option"
  fc_stale :: flt
  fc_offset :: "int option"

record feed_state =
  fs_offset :: "int option"
  fs_last :: "int option"
  fs_fail :: int
  fs_pending :: int
  fs_warm_at :: "flt option"
  fs_caught_up :: bool
  fs_reconn_fails :: int
  fs_new_at :: flt

text \<open>The answers of one turn: the batch, whether a reconnect succeeded, and the clock at its readings:
  on locking the offset, at the start of a replay, on emitting, after the replay, at the end.\<close>

record poll =
  pl_rates :: "rate list option"
  pl_reconnect :: bool
  pl_lock :: flt
  pl_start :: flt
  pl_emit :: flt
  pl_after :: flt
  pl_end :: flt

definition feed_start :: "feed_cfg \<Rightarrow> flt \<Rightarrow> feed_state" where
  "feed_start k now = \<lparr>fs_offset = fc_offset k, fs_last = None, fs_fail = 0, fs_pending = max 0 (fc_warmup k),
     fs_warm_at = None, fs_caught_up = False, fs_reconn_fails = 0,
     fs_new_at = (if fc_stale k \<noteq> 0 then now else 0)\<rparr>"

definition fetch_count :: "feed_state \<Rightarrow> int" where
  "fetch_count s = (if fs_pending s \<noteq> 0 then fs_pending s + 3 else 3)"

text \<open>A reconnect and its bookkeeping; the error ends the generator.\<close>

definition after_reconnect :: "feed_cfg \<Rightarrow> bool \<Rightarrow> string \<Rightarrow> feed_state \<Rightarrow> feed_fault + feed_state" where
  "after_reconnect k ok msg s =
    (if ok then Inr (s\<lparr>fs_reconn_fails := 0\<rparr>)
     else let n = fs_reconn_fails s + 1 in
       if (case fc_max_reconnect k of None \<Rightarrow> False | Some m \<Rightarrow> n \<ge> m)
       then Inl (FeedError msg) else Inr (s\<lparr>fs_reconn_fails := n\<rparr>))"

definition no_rates :: "feed_cfg \<Rightarrow> poll \<Rightarrow> feed_state \<Rightarrow> feed_fault + feed_state \<times> flt" where
  "no_rates k p s0 =
    (let s1 = s0\<lparr>fs_fail := fs_fail s0 + 1\<rparr> in
     case (if fs_fail s1 \<ge> 3
           then (case after_reconnect k (pl_reconnect p) ''mt5 terminal unreachable'' s1 of
               Inl e \<Rightarrow> Inl e | Inr s2 \<Rightarrow> Inr (if pl_reconnect p then s2\<lparr>fs_fail := 0\<rparr> else s2))
           else Inr s1) of
       Inl e \<Rightarrow> Inl e
     | Inr s2 \<Rightarrow> Inr (s2, if fc_poll k \<noteq> 0
         then max (fc_min_poll k) (min (fc_poll k * 5) (fc_poll k * 2 ^ nat (min (fs_fail s2) 4))) else 0))"

text \<open>The offset of broker time: locked on a fresh batch only.\<close>

definition lock_offset :: "poll \<Rightarrow> rate list \<Rightarrow> feed_state \<Rightarrow> feed_state option" where
  "lock_offset p rates s = (case fs_offset s of Some _ \<Rightarrow> Some s
     | None \<Rightarrow> let forming = of_int (rt_time (last rates)) in
         if \<bar>forming - pl_lock p\<bar> > 15 * 3600 then None
         else Some (s\<lparr>fs_offset := Some (round_even ((forming - pl_lock p) / 3600) * 3600)\<rparr>))"

definition begin_replay :: "poll \<Rightarrow> feed_state \<Rightarrow> feed_state" where
  "begin_replay p s = (if fs_pending s = 0 then s
     else if fs_caught_up s then s\<lparr>fs_pending := 0\<rparr>
     else s\<lparr>fs_pending := 0, fs_warm_at := Some (pl_start p), fs_caught_up := True\<rparr>)"

text \<open>The closed bars of a batch that are newer than the last one emitted.\<close>

fun fresh_rates :: "int option \<Rightarrow> rate list \<Rightarrow> int option \<times> rate list" where
  "fresh_rates l [] = (l, [])"
| "fresh_rates l (r # rs) = (if newer l (rt_time r)
     then (case fresh_rates (Some (rt_time r)) rs of (l', out) \<Rightarrow> (l', r # out)) else fresh_rates l rs)"

definition rate_candle :: "int \<Rightarrow> rate \<Rightarrow> raw_candle" where
  "rate_candle offset r = \<lparr>r_local = (rt_time r - offset) * us_sec, r_tz = Some 0, r_open = rt_open r,
     r_high = rt_high r, r_low = rt_low r, r_close = rt_close r, r_volume = rt_volume r\<rparr>"

definition end_replay :: "poll \<Rightarrow> feed_state \<Rightarrow> feed_state" where
  "end_replay p s = (case fs_warm_at s of None \<Rightarrow> s
     | Some t0 \<Rightarrow> let elapsed = pl_after p - t0 in
         s\<lparr>fs_warm_at := None,
           fs_pending := (if elapsed \<ge> 60 then \<lfloor>elapsed / 60\<rfloor> + 1 else fs_pending s)\<rparr>)"

definition watchdog :: "feed_cfg \<Rightarrow> poll \<Rightarrow> feed_state \<Rightarrow> feed_fault + feed_state" where
  "watchdog k p s = (case (fs_offset s, fs_last s) of
       (Some off, Some l) \<Rightarrow>
         if fc_stale k \<noteq> 0 \<and> pl_end p - fs_new_at s > fc_stale k \<and> pl_end p - of_int (l - off) \<le> 15 * 3600
         then (case after_reconnect k (pl_reconnect p) ''mt5 terminal stale + unreachable'' s of
             Inl e \<Rightarrow> Inl e | Inr s1 \<Rightarrow> Inr (s1\<lparr>fs_new_at := pl_end p\<rparr>))
         else Inr s
     | _ \<Rightarrow> Inr s)"

definition flt_mod :: "flt \<Rightarrow> flt \<Rightarrow> flt" where
  "flt_mod x m = x - m * of_int \<lfloor>x / m\<rfloor>"

definition next_sleep :: "feed_cfg \<Rightarrow> poll \<Rightarrow> int \<Rightarrow> int \<Rightarrow> flt" where
  "next_sleep k p offset forming_open =
    (let secs_into = pl_end p + of_int offset - of_int forming_open;
         time_to_close = 60 - flt_mod secs_into 60
     in min (fc_poll k) (max (fc_min_poll k) (time_to_close + 5 / 100)))"

text \<open>One turn: the candles it yields, and then the state after it and the seconds to wait, or what it
  raises.\<close>

definition feed_turn :: "feed_cfg \<Rightarrow> poll \<Rightarrow> feed_state \<Rightarrow> raw_candle list \<times> (feed_fault + feed_state \<times> flt)" where
  "feed_turn k p s =
    (case pl_rates p of
       None \<Rightarrow> ([], no_rates k p s)
     | Some rates \<Rightarrow>
       if length rates < 2 then ([], no_rates k p s)
       else case lock_offset p rates (s\<lparr>fs_fail := 0\<rparr>) of
         None \<Rightarrow> ([], Inr (s\<lparr>fs_fail := 0\<rparr>, fc_poll k))
       | Some s1 \<Rightarrow>
         (let s2 = begin_replay p s1; off = (case fs_offset s2 of Some o1 \<Rightarrow> o1 | None \<Rightarrow> 0) in
          case fresh_rates (fs_last s2) (butlast rates) of
            (l', out) \<Rightarrow>
              (let s3 = s2\<lparr>fs_last := l',
                     fs_new_at := (if fc_stale k \<noteq> 0 \<and> out \<noteq> [] then pl_emit p else fs_new_at s2)\<rparr>;
                   s4 = end_replay p s3
               in (map (rate_candle off) out,
                   case watchdog k p s4 of Inl e \<Rightarrow> Inl e
                   | Inr s5 \<Rightarrow> Inr (s5, next_sleep k p off (rt_time (last rates)))))))"

text \<open>A run: the candles yielded until the turns are used up or the generator raises.\<close>

fun feed_run :: "feed_cfg \<Rightarrow> poll list \<Rightarrow> feed_state \<Rightarrow> raw_candle list \<times> (feed_fault + feed_state)" where
  "feed_run k [] s = ([], Inr s)"
| "feed_run k (p # ps) s = (case feed_turn k p s of
       (cs, Inl e) \<Rightarrow> (cs, Inl e)
     | (cs, Inr (s1, w)) \<Rightarrow> (case feed_run k ps s1 of (rest, r) \<Rightarrow> (cs @ rest, r)))"

section \<open>The Twelve Data feed\<close>

text \<open>A parsed row; \<open>None\<close> where a number or the date does not parse.\<close>

record td_row =
  td_ts :: "timestamp option"
  td_open :: "pyfloat option"
  td_high :: "pyfloat option"
  td_low :: "pyfloat option"
  td_close :: "pyfloat option"
  td_volume :: "pyfloat option option"

definition td_candle :: "td_row \<Rightarrow> error + candle" where
  "td_candle r = (case (td_ts r, td_open r, td_high r, td_low r, td_close r) of
       (Some ts, Some opn, Some hi, Some lo, Some cl) \<Rightarrow>
         (case td_volume r of
            Some None \<Rightarrow> Inl (ValueError ''could not convert string to float'')
          | v \<Rightarrow> validate \<lparr>r_local = local_us ts, r_tz = Some (tz_off ts), r_open = opn, r_high = hi, r_low = lo,
               r_close = cl, r_volume = (case v of Some (Some x) \<Rightarrow> x | _ \<Rightarrow> Fin 0)\<rparr>)
     | _ \<Rightarrow> Inl (ValueError ''unparseable row''))"

fun td_candles :: "td_row list \<Rightarrow> error + candle list" where
  "td_candles [] = Inr []"
| "td_candles (r # rs) = (case td_candle r of Inl e \<Rightarrow> Inl e
     | Inr c \<Rightarrow> (case td_candles rs of Inl e \<Rightarrow> Inl e | Inr cs \<Rightarrow> Inr (c # cs)))"

record td_response =
  tr_error :: bool
  tr_values :: "td_row list"

definition parse_time_series :: "td_response \<Rightarrow> feed_fault + candle list" where
  "parse_time_series d =
    (if tr_error d then Inl (FeedError ''status error'')
     else if tr_values d = [] then Inl (FeedError ''no values in response'')
     else case td_candles (tr_values d) of Inl e \<Rightarrow> Inl (Raised e)
       | Inr cs \<Rightarrow> Inr (sort_key (\<lambda>c. utc (c_ts c)) cs))"

fun fresh_candles :: "int option \<Rightarrow> candle list \<Rightarrow> int option \<times> candle list" where
  "fresh_candles l [] = (l, [])"
| "fresh_candles l (c # cs) = (if newer l (utc (c_ts c))
     then (case fresh_candles (Some (utc (c_ts c))) cs of (l', out) \<Rightarrow> (l', c # out)) else fresh_candles l cs)"

fun td_run :: "(feed_fault + candle list) list \<Rightarrow> int option \<Rightarrow> candle list \<times> (feed_fault + unit)" where
  "td_run [] l = ([], Inr ())"
| "td_run (Inl e # ps) l = ([], Inl e)"
| "td_run (Inr cs # ps) l = (case fresh_candles l (butlast cs) of
     (l', out) \<Rightarrow> (case td_run ps l' of (rest, r) \<Rightarrow> (out @ rest, r)))"

section \<open>Symbol names\<close>

record sym_row =
  sy_name :: string
  sy_visible :: bool
  sy_mode :: "int option"

definition known_suffixes :: "string list" where
  "known_suffixes = [[], ''.ECN'', ''.PRO'', ''.RAW'', ''.STD'', ''M'', ''.M'', ''C'', ''.I'']"

text \<open>The position of an element, if it has one.\<close>

fun position_of :: "'a \<Rightarrow> 'a list \<Rightarrow> nat option" where
  "position_of x [] = None"
| "position_of x (y # ys) = (if x = y then Some 0 else map_option Suc (position_of x ys))"

definition alnum_dot :: "char \<Rightarrow> bool" where
  "alnum_dot c \<longleftrightarrow> is_digit c \<or> is_lower (lower_char c) \<or> c = CHR ''.''"

definition starts_with :: "string \<Rightarrow> string \<Rightarrow> bool" where
  "starts_with s p \<longleftrightarrow> take (length p) s = p"

definition ends_with :: "string \<Rightarrow> string \<Rightarrow> bool" where
  "ends_with s p \<longleftrightarrow> length p \<le> length s \<and> drop (length s - length p) s = p"

definition match_rank :: "string \<Rightarrow> string \<Rightarrow> nat option" where
  "match_rank name base =
    (let tail = drop (length base) name;
         fallback = (if ends_with name base then Some 10 else None) in
     if starts_with name base
     then (case position_of tail known_suffixes of
         Some i \<Rightarrow> Some i
       | None \<Rightarrow> if 0 < length tail \<and> length tail \<le> 4 \<and> list_all alnum_dot tail then Some 9 else fallback)
     else fallback)"

text \<open>The sort key: the first four components of the tuple and the name as character codes.\<close>

definition rank_key :: "string \<Rightarrow> sym_row \<Rightarrow> nat list option" where
  "rank_key base r = (case match_rank (upper (sy_name r)) base of
       None \<Rightarrow> None
     | Some k \<Rightarrow> Some ([if sy_mode r = Some 4 then 0 else 1, if sy_visible r then 0 else 1, k, length (sy_name r)]
                       @ map of_char (sy_name r)))"

fun lex_le :: "nat list \<Rightarrow> nat list \<Rightarrow> bool" where
  "lex_le [] ys = True"
| "lex_le (x # xs) [] = False"
| "lex_le (x # xs) (y # ys) = (x < y \<or> x = y \<and> lex_le xs ys)"

fun insort_lex :: "nat list \<times> string \<Rightarrow> (nat list \<times> string) list \<Rightarrow> (nat list \<times> string) list" where
  "insort_lex x [] = [x]"
| "insort_lex x (y # ys) = (if lex_le (fst x) (fst y) then x # y # ys else y # insort_lex x ys)"

definition rank_candidates :: "sym_row list \<Rightarrow> string \<Rightarrow> string list" where
  "rank_candidates infos base = (let b = upper base in
     if b = [] then []
     else map snd (foldr insort_lex
       (List.map_filter (\<lambda>r. map_option (\<lambda>k. (k, sy_name r)) (rank_key b r)) infos) []))"

text \<open>The cache of resolved names: keyed by the upper-case base, for one connection.\<close>

definition resolve_symbol :: "sym_row list \<Rightarrow> string \<Rightarrow> (string \<rightharpoonup> string) \<Rightarrow> feed_fault + string \<times> (string \<rightharpoonup> string)" where
  "resolve_symbol infos base cache =
    (if base = [] then Inl (SymbolError ''empty base symbol'')
     else case cache (upper base) of
       Some name \<Rightarrow> Inr (name, cache)
     | None \<Rightarrow> (case rank_candidates infos base of
         [] \<Rightarrow> Inl (SymbolError ''no broker symbol matches'')
       | name # _ \<Rightarrow> Inr (name, cache(upper base \<mapsto> name))))"

end
