(* ===== verification/Feed_Properties.thy ===== *)
theory Feed_Properties
  imports Feeds
begin

text \<open>
  What the candle feeds promise: closed bars only, each once and in order of time; every bar, as long
  as consecutive batches overlap; and one run in which they do not. The symbol resolver picks the
  best-ranked name.
\<close>

interpretation mt5: window_reader rt_time "\<lambda>_. True" fresh_rates
  by unfold_locales simp_all

interpretation twelve: window_reader "\<lambda>c. utc (c_ts c)" "\<lambda>_. True" fresh_candles
  by unfold_locales simp_all

section \<open>The MetaTrader feed\<close>

definition locked_after :: "feed_state \<Rightarrow> bool" where
  "locked_after s \<longleftrightarrow> (fs_offset s = None \<longrightarrow> fs_last s = None)"

lemma after_reconnect_frame [frame_simps]:
  "after_reconnect k ok msg s = Inr s1 \<Longrightarrow> fs_last s1 = fs_last s \<and> fs_offset s1 = fs_offset s"
  by (auto simp: after_reconnect_def Let_def split: if_splits)

lemma no_rates_frame:
  "no_rates k p s = Inr (s1, w) \<Longrightarrow> fs_last s1 = fs_last s \<and> fs_offset s1 = fs_offset s"
  by (auto simp: no_rates_def Let_def dest!: after_reconnect_frame split: if_splits sum.splits)

lemma replay_frame [frame_simps]:
  "fs_last (begin_replay p s) = fs_last s" "fs_offset (begin_replay p s) = fs_offset s"
  "fs_last (end_replay p s) = fs_last s" "fs_offset (end_replay p s) = fs_offset s"
  by (simp_all add: begin_replay_def end_replay_def Let_def split: option.splits)

lemma watchdog_frame: "watchdog k p s = Inr s1 \<Longrightarrow> fs_last s1 = fs_last s \<and> fs_offset s1 = fs_offset s"
  by (auto simp: watchdog_def dest!: after_reconnect_frame split: option.splits if_splits sum.splits)

lemma lock_offset_frame:
  "lock_offset p rates s = Some s1 \<Longrightarrow> fs_last s1 = fs_last s
     \<and> (\<exists>off. fs_offset s1 = Some off \<and> (\<forall>o1. fs_offset s = Some o1 \<longrightarrow> off = o1))"
  by (auto simp: lock_offset_def Let_def split: option.splits if_splits)

text \<open>A turn yields nothing, or the newer closed bars of its batch at the one locked offset; both also
  when it then raises.\<close>

definition frames :: "feed_fault + feed_state \<times> flt \<Rightarrow> int option \<Rightarrow> int option \<Rightarrow> bool" where
  "frames r l off \<longleftrightarrow> (case r of Inl e \<Rightarrow> True | Inr (s, w) \<Rightarrow> fs_last s = l \<and> fs_offset s = off)"

lemma no_rates_frames: "frames (no_rates k p s) (fs_last s) (fs_offset s)"
  using no_rates_frame by (auto simp: frames_def split: sum.splits)

lemma feed_turn_cases:
  assumes "feed_turn k p s = (cs, r)"
  obtains (idle) "cs = []" "frames r (fs_last s) (fs_offset s)"
  | (batch) rates off out l where "pl_rates p = Some rates" "2 \<le> length rates" "frames r l (Some off)"
      "\<forall>o1. fs_offset s = Some o1 \<longrightarrow> off = o1" "fresh_rates (fs_last s) (butlast rates) = (l, out)"
      "cs = map (rate_candle off) out"
proof (cases "pl_rates p")
  case None
  then show ?thesis using assms idle no_rates_frames by (auto simp: feed_turn_def)
next
  case (Some rates)
  show ?thesis
  proof (cases "length rates < 2")
    case True
    then show ?thesis using assms idle no_rates_frames by (auto simp: feed_turn_def Some)
  next
    case False
    show ?thesis
    proof (cases "lock_offset p rates (s\<lparr>fs_fail := 0\<rparr>)")
      case None
      then show ?thesis using assms idle False by (auto simp: feed_turn_def Some frames_def)
    next
      case l: (Some sl)
      obtain off where off: "fs_offset sl = Some off" "\<forall>o1. fs_offset s = Some o1 \<longrightarrow> off = o1" "fs_last sl = fs_last s"
        using lock_offset_frame [OF l] by auto
      obtain l' out where f: "fresh_rates (fs_last s) (butlast rates) = (l', out)" by (meson surj_pair)
      have "cs = map (rate_candle off) out \<and> frames r l' (Some off)"
        using assms False by (auto simp: feed_turn_def Some l frame_simps off f Let_def frames_def
            dest!: watchdog_frame split: sum.splits)
      then show ?thesis using batch [OF Some _ _ off(2) f] False by simp
    qed
  qed
qed

lemma feed_turn_locked: "feed_turn k p s = (cs, Inr (s1, w)) \<Longrightarrow> locked_after s \<Longrightarrow> locked_after s1"
  by (erule feed_turn_cases) (auto simp: locked_after_def frames_def)

definition after :: "feed_state \<Rightarrow> raw_candle \<Rightarrow> bool" where
  "after s c \<longleftrightarrow> (\<forall>off l. fs_offset s = Some off \<longrightarrow> fs_last s = Some l \<longrightarrow> (l - off) * us_sec < r_local c)"

lemma candle_order: "r_local (rate_candle off a) < r_local (rate_candle off b) \<longleftrightarrow> rt_time a < rt_time b"
  by (simp add: rate_candle_def us_sec_def)

lemma feed_turn_order:
  assumes "feed_turn k p s = (cs, r)" "locked_after s"
  shows "sorted_wrt (\<lambda>a b. r_local a < r_local b) cs" "list_all (after s) cs"
    "r = Inr (s1, w) \<Longrightarrow> after s1 c \<Longrightarrow> after s c \<and> list_all (\<lambda>d. r_local d < r_local c) cs"
proof -
  have "sorted_wrt (\<lambda>a b. r_local a < r_local b) cs \<and> list_all (after s) cs
    \<and> (\<forall>s1 w. r = Inr (s1, w) \<longrightarrow> after s1 c \<longrightarrow> after s c \<and> list_all (\<lambda>d. r_local d < r_local c) cs)"
  proof (cases rule: feed_turn_cases [OF assms(1)])
    case 1
    then show ?thesis by (auto simp: after_def frames_def)
  next
    case (2 rates off out l)
    have i: "sorted_wrt (\<lambda>x y. rt_time x < rt_time y) out" "list_all (\<lambda>x. newer (fs_last s) (rt_time x)) out"
      "l = (if out = [] then fs_last s else Some (rt_time (last out)))"
      using mt5.read_increasing [OF _ 2(5)] by (simp_all add: list_all_iff)
    have s: "sorted_wrt (\<lambda>a b. r_local a < r_local b) cs"
      using i(1) by (simp add: 2(6) sorted_wrt_map candle_order)
    have a: "list_all (after s) cs"
      using i(2) 2(4) by (auto simp: 2(6) list_all_iff after_def rate_candle_def us_sec_def)
    have "after s c \<and> list_all (\<lambda>d. r_local d < r_local c) cs" if "r = Inr (s1, w)" and c: "after s1 c" for s1 w
    proof (cases "out = []")
      have s1: "fs_last s1 = l" "fs_offset s1 = Some off" using 2(3) that by (simp_all add: frames_def)
      case True
      then show ?thesis using c i(3) s1 2(4,6) by (auto simp: after_def)
    next
      case False
      have s1: "fs_last s1 = l" "fs_offset s1 = Some off" using 2(3) that by (simp_all add: frames_def)
      have lt: "(rt_time (last out) - off) * us_sec < r_local c" using c i(3) s1 False by (simp add: after_def)
      have le: "rt_time x \<le> rt_time (last out)" if "x \<in> set out" for x
      proof (cases "x = last out")
        case False
        have "out = butlast out @ [last out]" using \<open>out \<noteq> []\<close> by simp
        then have "x \<in> set (butlast out)" using that False by (metis in_set_butlastD rotate1.simps(2) set_ConsD set_rotate1 append_Cons)
        then show ?thesis using i(1) \<open>out = butlast out @ [last out]\<close> by (metis less_imp_le list.set_intros(1) sorted_wrt_append)
      qed simp
      have "list_all (\<lambda>d. r_local d < r_local c) cs"
        using le lt by (fastforce simp: 2(6) list_all_iff rate_candle_def us_sec_def)
      moreover have "after s c"
        unfolding after_def
      proof (intro allI impI)
        fix o1 m assume o: "fs_offset s = Some o1" "fs_last s = Some m"
        then have "m < rt_time (last out)" using i(2) False by (auto simp: list_all_iff)
        then show "(m - o1) * us_sec < r_local c" using lt 2(4) o by (simp add: us_sec_def)
      qed
      ultimately show ?thesis by simp
    qed
    then show ?thesis using s a by blast
  qed
  then show "sorted_wrt (\<lambda>a b. r_local a < r_local b) cs" "list_all (after s) cs"
    "r = Inr (s1, w) \<Longrightarrow> after s1 c \<Longrightarrow> after s c \<and> list_all (\<lambda>d. r_local d < r_local c) cs" by blast+
qed

lemma feed_run_order:
  "locked_after s \<Longrightarrow> feed_run k ps s = (cs, r)
    \<Longrightarrow> sorted_wrt (\<lambda>a b. r_local a < r_local b) cs \<and> list_all (after s) cs"
proof (induction ps arbitrary: s cs r)
  case (Cons p ps)
  show ?case
  proof (cases "\<exists>c1 e. feed_turn k p s = (c1, Inl e)")
    case True
    then show ?thesis using Cons.prems feed_turn_order(1,2) [OF _ Cons.prems(1)] by auto
  next
    case False
    then obtain c1 s1 w where t: "feed_turn k p s = (c1, Inr (s1, w))" by (metis surj_pair sum.exhaust)
    obtain rest r' where rr: "feed_run k ps s1 = (rest, r')" by (meson surj_pair)
    have cs: "cs = c1 @ rest" using Cons.prems(2) by (simp add: t rr)
    have ih: "sorted_wrt (\<lambda>a b. r_local a < r_local b) rest" "list_all (after s1) rest"
      using Cons.IH [OF feed_turn_locked [OF t Cons.prems(1)] rr] by simp_all
    have "after s c \<and> list_all (\<lambda>d. r_local d < r_local c) c1" if "c \<in> set rest" for c
      using feed_turn_order(3) [OF t Cons.prems(1) refl] ih(2) that by (simp add: list_all_iff)
    then show ?thesis using feed_turn_order(1,2) [OF t Cons.prems(1)] ih(1)
      by (auto simp: cs sorted_wrt_append list_all_iff)
  qed
qed simp

text \<open>C33: a candle is delivered once and never out of order. Whatever the terminal returns, however
  often it is lost, reconnected or found stale, and whether or not the feed in the end raises, the times of the candles the feed yields increase
  strictly from the first turn to the last.\<close>

theorem feed_strictly_increasing:
  "sorted_wrt (\<lambda>a b. r_local a < r_local b) (fst (feed_run k ps (feed_start k now)))"
proof -
  obtain cs r where "feed_run k ps (feed_start k now) = (cs, r)" by (meson surj_pair)
  moreover have "locked_after (feed_start k now)" by (simp add: locked_after_def feed_start_def)
  ultimately show ?thesis using feed_run_order by fastforce
qed

section \<open>Completeness\<close>

text \<open>The batch of a turn: the closed bars from \<open>w\<close> to \<open>m\<close> of the history and the forming bar.\<close>

definition batch_of :: "rate list \<Rightarrow> poll \<Rightarrow> nat \<times> nat \<Rightarrow> bool" where
  "batch_of h p wm \<longleftrightarrow> (case pl_rates p of None \<Rightarrow> False
     | Some rates \<Rightarrow> 2 \<le> length rates \<and> butlast rates = drop (fst wm) (take (snd wm) h))"

lemma feed_run_windows:
  assumes "list_all2 (batch_of h) ps ws" "fs_offset s = Some off" "feed_run k ps s = (cs, Inr s')"
  shows "cs = map (rate_candle off) (mt5.read_all h ws (fs_last s))"
  using assms
proof (induction ps ws arbitrary: s cs rule: list_all2_induct)
  case Nil
  then show ?case by simp
next
  case (Cons p ps wm ws)
  obtain w m where wm: "wm = (w, m)" by (meson surj_pair)
  obtain rates where rs: "pl_rates p = Some rates" "2 \<le> length rates" "butlast rates = drop w (take m h)"
    using Cons.hyps(1) by (auto simp: batch_of_def wm split: option.splits)
  show ?case
  proof (cases "\<exists>c1 e. feed_turn k p s = (c1, Inl e)")
    case True
    then show ?thesis using Cons.prems(2) by auto
  next
    case False
    then obtain c1 s1 w1 where t: "feed_turn k p s = (c1, Inr (s1, w1))" by (metis surj_pair sum.exhaust)
    obtain rest r' where rr: "feed_run k ps s1 = (rest, r')" by (meson surj_pair)
    have cs: "cs = c1 @ rest" "r' = Inr s'" using Cons.prems(2) by (simp_all add: t rr)
    obtain l' out where f: "fresh_rates (fs_last s) (butlast rates) = (l', out)" by (meson surj_pair)
    have lk: "lock_offset p rates (s\<lparr>fs_fail := 0\<rparr>) = Some (s\<lparr>fs_fail := 0\<rparr>)"
      by (simp add: lock_offset_def Cons.prems(1))
    have c1: "c1 = map (rate_candle off) out" "fs_last s1 = l'" "fs_offset s1 = Some off"
      using t rs(2) by (auto simp: feed_turn_def rs(1) lk frame_simps f Cons.prems(1) Let_def dest!: watchdog_frame split: sum.splits)
    have "rest = map (rate_candle off) (mt5.read_all h ws (fs_last s1))"
      using Cons.IH [OF c1(3)] rr cs(2) by simp
    then show ?thesis using f by (simp add: cs(1) wm c1 rs(3))
  qed
qed

text \<open>C34: no bar is skipped while batches overlap. If the terminal's history is in order, the broker
  offset is locked, and each batch reaches back to where the last one ended, then a run that does not
  raise yields every closed bar of the history up to the last batch, once each.\<close>

theorem feed_complete:
  assumes "sorted_wrt (\<lambda>a b. rt_time a < rt_time b) h" "list_all2 (batch_of h) ps ws" "covering 0 ws"
    and "reach 0 ws \<le> length h" "fs_offset s = Some off" "fs_last s = None"
    and "feed_run k ps s = (cs, Inr s')"
  shows "cs = map (rate_candle off) (take (reach 0 ws) h)"
proof -
  have "mt5.read_all h ws (mt5.seen h 0) = drop 0 (take (reach 0 ws) h)"
    by (rule mt5.exactly_once [OF _ assms(1,3,4)]) (simp add: list_all_iff)
  then show ?thesis using feed_run_windows [OF assms(2,5,7)] assms(6) by (simp add: mt5.seen_def)
qed

definition bar_at :: "int \<Rightarrow> rate" where
  "bar_at t = \<lparr>rt_time = t, rt_open = Fin 1, rt_high = Fin 1, rt_low = Fin 1, rt_close = Fin 1, rt_volume = Fin 1\<rparr>"

definition poll_of :: "int list \<Rightarrow> poll" where
  "poll_of ts = \<lparr>pl_rates = (if ts = [] then None else Some (map bar_at ts)), pl_reconnect = True, pl_lock = 0,
     pl_start = 0, pl_emit = 0, pl_after = 0, pl_end = 0\<rparr>"

definition utc_feed :: feed_cfg where
  "utc_feed = \<lparr>fc_poll = 2, fc_min_poll = 1/10, fc_warmup = 0, fc_max_reconnect = None, fc_stale = 0,
     fc_offset = Some 0\<rparr>"

definition times :: "raw_candle list \<times> (feed_fault + feed_state) \<Rightarrow> int list" where
  "times r = map (\<lambda>c. r_local c div us_sec) (fst r)"

theorem feed_complete_witness:
  "times (feed_run utc_feed [poll_of [0, 60, 120], poll_of [0, 60, 120], poll_of [60, 120, 180]] (feed_start utc_feed 0))
     = [0, 60, 120]"
proof -
  define h where "h = map bar_at [0, 60, 120, 180]"
  define ps where "ps = [poll_of [0, 60, 120], poll_of [0, 60, 120], poll_of [60, 120, 180]]"
  obtain cs r where run: "feed_run utc_feed ps (feed_start utc_feed 0) = (cs, r)" by (meson surj_pair)
  have "\<exists>s'. snd (feed_run utc_feed ps (feed_start utc_feed 0)) = Inr s'"
    by (cases "snd (feed_run utc_feed ps (feed_start utc_feed 0))")
      (simp_all add: ps_def poll_of_def feed_start_def utc_feed_def feed_turn_def lock_offset_def begin_replay_def
        end_replay_def watchdog_def bar_at_def Let_def)
  then obtain s' where "r = Inr s'" by (auto simp: run)
  then have "cs = map (rate_candle 0) (take (reach 0 [(0, 2), (0, 2), (1, 3)]) h)"
    using run by (intro feed_complete [of h ps "[(0, 2), (0, 2), (1, 3)]" "feed_start utc_feed 0" 0 utc_feed cs s'])
      (simp_all add: h_def ps_def batch_of_def poll_of_def bar_at_def feed_start_def utc_feed_def)
  then show ?thesis using run by (simp add: times_def ps_def [symmetric] h_def rate_candle_def bar_at_def us_sec_def)
qed

text \<open>A live fetch asks for three bars, two of them closed. When the terminal is away for longer, the
  bars in between are never asked for: here those at 120, 180 and 240 are lost without an error.\<close>

theorem feed_gap_after_outage:
  "times (feed_run utc_feed [poll_of [0, 60, 120], poll_of [], poll_of [300, 360, 420]] (feed_start utc_feed 0))
     = [0, 60, 300, 360]"
  by code_simp

text \<open>The one replay that is covered: after a slow warm-up the next fetch asks for every bar that closed
  meanwhile.\<close>

lemma catch_up_covers:
  assumes "fs_warm_at s = Some t0" "pl_after p - t0 \<ge> 60"
  shows "of_int (fetch_count (end_replay p s)) \<ge> (pl_after p - t0) / 60 + 3"
proof -
  have "1 \<le> \<lfloor>(pl_after p - t0) / 60\<rfloor>" using assms(2) by (simp add: le_floor_iff)
  then show ?thesis using assms floor_correct [of "(pl_after p - t0) / 60"]
    by (simp add: end_replay_def fetch_count_def Let_def)
qed

section \<open>The Twelve Data feed\<close>

lemma td_run_order:
  "sorted_wrt (\<lambda>a b. utc (c_ts a) < utc (c_ts b)) (fst (td_run ps l)) \<and> list_all (\<lambda>c. newer l (utc (c_ts c))) (fst (td_run ps l))"
proof (induction ps l rule: td_run.induct)
  case (3 cs ps l)
  obtain l' out where f: "fresh_candles l (butlast cs) = (l', out)" by (meson surj_pair)
  obtain rest r where rr: "td_run ps l' = (rest, r)" by (meson surj_pair)
  have i: "sorted_wrt (\<lambda>x y. utc (c_ts x) < utc (c_ts y)) out" "list_all (\<lambda>x. newer l (utc (c_ts x))) out"
      "l' = (if out = [] then l else Some (utc (c_ts (last out))))"
    using twelve.read_increasing [OF _ f] by (simp_all add: list_all_iff)
  have ih: "sorted_wrt (\<lambda>a b. utc (c_ts a) < utc (c_ts b)) rest" "list_all (\<lambda>c. newer l' (utc (c_ts c))) rest"
    using 3 [OF f [symmetric]] by (simp_all add: rr)
  show ?case
  proof (cases "out = []")
    case True
    then have l: "l' = l" using i(3) by simp
    show ?thesis using ih by (simp add: f [unfolded l] rr [unfolded l] True l)
  next
    case False
    then obtain o' y where o: "out = o' @ [y]" by (meson rev_exhaust)
    have "utc (c_ts x) \<le> utc (c_ts y)" if "x \<in> set out" for x
      using i(1) that by (auto simp: o sorted_wrt_append)
    then have lt: "utc (c_ts x) < utc (c_ts c)" if "x \<in> set out" "c \<in> set rest" for x c
      using ih(2) i(3) that False by (fastforce simp: list_all_iff o)
    have "newer l (utc (c_ts c))" if "c \<in> set rest" for c
    proof -
      have "newer l (utc (c_ts y))" using i(2) by (simp add: o)
      moreover have "utc (c_ts y) < utc (c_ts c)" using lt [OF _ that] by (simp add: o)
      ultimately show ?thesis by (cases l) simp_all
    qed
    then show ?thesis using i(1,2) ih(1) lt by (auto simp: f rr sorted_wrt_append list_all_iff)
  qed
qed simp_all

section \<open>Symbol names\<close>

lemma lex_le_refl [simp]: "lex_le xs xs" by (induction xs) simp_all

lemma lex_le_total: "lex_le xs ys \<or> lex_le ys xs"
  by (induction xs ys rule: lex_le.induct) auto

lemma lex_le_trans: "lex_le xs ys \<Longrightarrow> lex_le ys zs \<Longrightarrow> lex_le xs zs"
proof (induction xs ys arbitrary: zs rule: lex_le.induct)
  case (3 x xs y ys)
  then show ?case by (cases zs) auto
qed simp_all

definition best_first :: "(nat list \<times> string) list \<Rightarrow> bool" where
  "best_first xs \<longleftrightarrow> sorted_wrt (\<lambda>a b. lex_le (fst a) (fst b)) xs"

lemma set_insort_lex [simp]: "set (insort_lex x xs) = insert x (set xs)"
  by (induction x xs rule: insort_lex.induct) auto

lemma insort_lex_sorted: "best_first xs \<Longrightarrow> best_first (insort_lex x xs)"
proof (induction xs)
  case (Cons y ys)
  show ?case
  proof (cases "lex_le (fst x) (fst y)")
    case True
    then show ?thesis using Cons.prems lex_le_trans [OF True] by (simp add: best_first_def)
  next
    case False
    then have "lex_le (fst y) (fst x)" using lex_le_total by blast
    then show ?thesis using False Cons by (simp add: best_first_def)
  qed
qed (simp add: best_first_def)

lemma sorted_keys: "best_first (foldr insort_lex xs [])" "set (foldr insort_lex xs []) = set xs"
  by (induction xs) (simp_all add: insort_lex_sorted, simp add: best_first_def)

text \<open>The resolver answers with a best match. A freshly resolved name belongs to a listed symbol whose
  rank, tradable before visible before suffix order before length, is minimal among all the symbols
  that match the base; an error means that none matches.\<close>

theorem resolve_symbol_best:
  assumes "base \<noteq> []" "cache (upper base) = None"
  shows "case resolve_symbol infos base cache of
      Inr (name, cache') \<Rightarrow> cache' (upper base) = Some name
        \<and> (\<exists>r \<in> set infos. \<exists>k. sy_name r = name \<and> rank_key (upper base) r = Some k
            \<and> (\<forall>q \<in> set infos. \<forall>k'. rank_key (upper base) q = Some k' \<longrightarrow> lex_le k k'))
    | Inl _ \<Rightarrow> \<forall>q \<in> set infos. rank_key (upper base) q = None"
proof -
  define b where "b = upper base"
  have ne: "b \<noteq> []" using assms(1) by (simp add: b_def upper_def)
  define ks where "ks = List.map_filter (\<lambda>r. map_option (\<lambda>k. (k, sy_name r)) (rank_key b r)) infos"
  define sk where "sk = foldr insort_lex ks []"
  have mem: "(k, n) \<in> set sk \<longleftrightarrow> (\<exists>r \<in> set infos. rank_key b r = Some k \<and> sy_name r = n)" for k n
    unfolding sk_def sorted_keys(2) by (force simp: ks_def List.map_filter_def image_iff)
  have rc: "rank_candidates infos base = map snd sk"
    by (simp add: rank_candidates_def Let_def b_def [symmetric] ne ks_def sk_def)
  show ?thesis
  proof (cases sk)
    case Nil
    then have "\<forall>q \<in> set infos. rank_key b q = None" using mem by (metis empty_iff empty_set not_Some_eq)
    then show ?thesis using assms Nil by (simp add: resolve_symbol_def rc b_def)
  next
    case (Cons kn rest)
    obtain k n where kn: "kn = (k, n)" by (meson surj_pair)
    have min: "lex_le k k'" if "(k', n') \<in> set sk" for k' n'
      using sorted_keys(1) [of ks] that by (auto simp: sk_def [symmetric] Cons kn best_first_def)
    obtain r where r: "r \<in> set infos" "rank_key b r = Some k" "sy_name r = n" using mem [of k n] by (auto simp: Cons kn)
    have "\<forall>q \<in> set infos. \<forall>k'. rank_key b q = Some k' \<longrightarrow> lex_le k k'" using min mem by blast
    then show ?thesis using assms r by (auto simp: resolve_symbol_def rc Cons kn b_def)
  qed
qed

definition hidden_gold :: "sym_row list" where
  "hidden_gold = [\<lparr>sy_name = ''XAUUSD.ecn'', sy_visible = False, sy_mode = Some 4\<rparr>,
     \<lparr>sy_name = ''XAUUSD.ecn2'', sy_visible = True, sy_mode = Some 4\<rparr>]"

theorem resolve_symbol_best_witness:
  "case resolve_symbol hidden_gold ''XAUUSD'' Map.empty of
      Inr (name, cache') \<Rightarrow> cache' (upper ''XAUUSD'') = Some name | Inl _ \<Rightarrow> False"
proof -
  have "case resolve_symbol hidden_gold ''XAUUSD'' Map.empty of Inl _ \<Rightarrow> False | Inr _ \<Rightarrow> True" by code_simp
  then show ?thesis using resolve_symbol_best [of "''XAUUSD''" Map.empty hidden_gold]
    by (auto split: sum.splits)
qed

text \<open>A name that is already the broker's is said to pass through by the exact-match rule. The rule ranks
  below tradability and visibility, so an exact name that is not in the market watch loses to a
  longer visible one.\<close>

theorem exact_name_changes: "map_option fst (case resolve_symbol hidden_gold ''XAUUSD.ecn'' Map.empty of Inr x \<Rightarrow> Some x | Inl _ \<Rightarrow> None)
    = Some ''XAUUSD.ecn2''"
  by code_simp

end
