(* ===== verification/Analytics.thy ===== *)
theory Analytics
  imports Macro_Daemon "HOL-Library.AList"
begin

text \<open>
  \<open>orb/analytics.py\<close>: performance figures of closed trades, breakdowns by day, hour and duration, and
  the plain-text report. Records come from the simulator's dictionaries (\<open>from_sim\<close>). A datetime may
  be naive, and Python refuses to order or subtract a naive and an aware one; numbers are finite.
  The square root of \<open>statistics.pstdev\<close> is a function \<open>sqroot\<close>.
\<close>

section \<open>Records\<close>

text \<open>Local microseconds and the offset, \<open>None\<close> for a naive datetime.\<close>

type_synonym stamp = "int \<times> int option"

definition utc_us :: "stamp \<Rightarrow> int" where
  "utc_us t = fst t - (case snd t of None \<Rightarrow> 0 | Some off \<Rightarrow> off)"

definition naive :: "stamp \<Rightarrow> bool" where "naive t \<longleftrightarrow> snd t = None"

record trade_record =
  ar_open :: stamp
  ar_close :: stamp
  ar_pnl :: flt
  ar_direction :: string
  ar_symbol :: string
  ar_volume :: flt
  ar_reason :: string

text \<open>The objects a simulator dictionary holds.\<close>

datatype pyobj = ONone | ONum flt | OText string | OStamp stamp | OSeq "pyobj list"

type_synonym odict = "(string \<times> pyobj) list"

definition oget :: "odict \<Rightarrow> string \<Rightarrow> pyobj" where
  "oget d k = (case map_of d k of None \<Rightarrow> ONone | Some v \<Rightarrow> v)"

text \<open>Python's conversions of objects: \<open>float\<close> of a text, \<open>str\<close> of an object.\<close>

record convert =
  cv_float :: "string \<Rightarrow> flt option"
  cv_str :: "pyobj \<Rightarrow> string"

definition to_float :: "convert \<Rightarrow> pyobj \<Rightarrow> error + flt" where
  "to_float cv x = (case x of
       ONum v \<Rightarrow> Inr v
     | OText s \<Rightarrow> (case cv_float cv s of None \<Rightarrow> Inl (ValueError ''could not convert string to float'')
                   | Some v \<Rightarrow> Inr v)
     | _ \<Rightarrow> Inl TypeError)"

text \<open>\<open>f[i]\<close>; a text has its characters.\<close>

definition item :: "pyobj \<Rightarrow> nat \<Rightarrow> pyobj option" where
  "item f i = (case f of
       OSeq xs \<Rightarrow> if i < length xs then Some (xs ! i) else None
     | OText s \<Rightarrow> if i < length s then Some (OText [s ! i]) else None
     | _ \<Rightarrow> None)"

text \<open>One fill: a malformed one is skipped.\<close>

definition add_fill :: "convert \<Rightarrow> pyobj \<Rightarrow> flt \<times> string \<Rightarrow> flt \<times> string" where
  "add_fill cv f acc = (case item f 2 of
       None \<Rightarrow> acc
     | Some v \<Rightarrow> (case to_float cv v of
         Inl _ \<Rightarrow> acc
       | Inr x \<Rightarrow> (fst acc + x, case item f 0 of None \<Rightarrow> snd acc | Some r \<Rightarrow> cv_str cv r)))"

definition iterate_fills :: "pyobj \<Rightarrow> error + pyobj list" where
  "iterate_fills fills = (case fills of
       ONone \<Rightarrow> Inr []
     | ONum v \<Rightarrow> (if v = 0 then Inr [] else Inl TypeError)
     | OText s \<Rightarrow> Inr (map (\<lambda>c. OText [c]) s)
     | OStamp _ \<Rightarrow> Inl TypeError
     | OSeq xs \<Rightarrow> Inr xs)"

definition text_or_empty :: "convert \<Rightarrow> odict \<Rightarrow> string \<Rightarrow> string" where
  "text_or_empty cv d k = (case map_of d k of None \<Rightarrow> [] | Some v \<Rightarrow> cv_str cv v)"

definition record_of :: "convert \<Rightarrow> odict \<Rightarrow> error + trade_record option" where
  "record_of cv d = (case (oget d ''open_ts'', oget d ''close_ts'') of
       (OStamp t0, OStamp t1) \<Rightarrow>
         if oget d ''pnl'' = ONone then Inr None
         else and_then (iterate_fills (oget d ''fills'')) (\<lambda>fills.
           case fold (add_fill cv) fills (0, []) of (volume, reason) \<Rightarrow>
           and_then (to_float cv (oget d ''pnl'')) (\<lambda>pnl.
             Inr (Some \<lparr>ar_open = t0, ar_close = t1, ar_pnl = pnl, ar_direction = text_or_empty cv d ''dir'',
               ar_symbol = text_or_empty cv d ''symbol'', ar_volume = volume, ar_reason = reason\<rparr>)))
     | _ \<Rightarrow> Inr None)"

fun from_sim :: "convert \<Rightarrow> odict list \<Rightarrow> error + trade_record list" where
  "from_sim cv [] = Inr []"
| "from_sim cv (d # ds) = (case record_of cv d of
       Inl e \<Rightarrow> Inl e
     | Inr r \<Rightarrow> (case from_sim cv ds of Inl e \<Rightarrow> Inl e
         | Inr rs \<Rightarrow> Inr (case r of None \<Rightarrow> rs | Some x \<Rightarrow> x # rs)))"

section \<open>Grouping\<close>

text \<open>A dictionary of accumulators, filled in order: the keys in order of first occurrence.\<close>

definition tally_by :: "('a \<Rightarrow> 'k) \<Rightarrow> ('a \<Rightarrow> 'b \<Rightarrow> 'b) \<Rightarrow> 'b \<Rightarrow> 'a list \<Rightarrow> ('k \<times> 'b) list" where
  "tally_by key upd init xs = fold (\<lambda>x m. AList.update (key x)
     (upd x (case map_of m (key x) of None \<Rightarrow> init | Some v \<Rightarrow> v)) m) xs []"

definition total_pnl :: "trade_record list \<Rightarrow> flt" where
  "total_pnl ts = sum_list (map ar_pnl ts)"

definition wins_of :: "trade_record list \<Rightarrow> flt list" where
  "wins_of ts = filter (\<lambda>p. p > 0) (map ar_pnl ts)"

definition losses_of :: "trade_record list \<Rightarrow> flt list" where
  "losses_of ts = filter (\<lambda>p. p < 0) (map ar_pnl ts)"

definition close_day :: "trade_record \<Rightarrow> int" where
  "close_day t = utc_us (ar_close t) div us_day"

definition open_hour :: "trade_record \<Rightarrow> int" where
  "open_hour t = (utc_us (ar_open t) mod us_day) div (60 * us_min)"

definition add_net :: "trade_record \<Rightarrow> nat \<times> flt \<Rightarrow> nat \<times> flt" where
  "add_net t acc = (fst acc + 1, snd acc + ar_pnl t)"

definition daily_nets :: "trade_record list \<Rightarrow> (int \<times> nat \<times> flt) list" where
  "daily_nets ts = sort_key fst (tally_by close_day add_net (0, 0) ts)"

section \<open>Figures\<close>

text \<open>The equity curve and its drawdown: equity, peak, greatest fall and its share of the peak.\<close>

record fall =
  fa_eq :: flt
  fa_peak :: flt
  fa_abs :: flt
  fa_pct :: flt

definition fall_step :: "trade_record \<Rightarrow> fall \<Rightarrow> fall" where
  "fall_step t a = (let eq = fa_eq a + ar_pnl t; peak = max (fa_peak a) eq; dd = peak - eq in
     if dd > fa_abs a
     then \<lparr>fa_eq = eq, fa_peak = peak, fa_abs = dd, fa_pct = (if peak > 0 then dd / peak * 100 else 0)\<rparr>
     else a\<lparr>fa_eq := eq, fa_peak := peak\<rparr>)"

definition drawdown :: "flt \<Rightarrow> trade_record list \<Rightarrow> fall" where
  "drawdown start ts = fold fall_step ts \<lparr>fa_eq = start, fa_peak = start, fa_abs = 0, fa_pct = 0\<rparr>"

text \<open>\<open>sorted(trades, key=close_ts)\<close> compares across the whole list, so a mixture raises.\<close>

definition by_close :: "trade_record list \<Rightarrow> error + trade_record list" where
  "by_close ts = (if list_ex (\<lambda>t. naive (ar_close t)) ts \<and> list_ex (\<lambda>t. \<not> naive (ar_close t)) ts
     then Inl TypeError else Inr (sort_key (\<lambda>t. utc_us (ar_close t)) ts))"

record perf =
  pf_n :: nat
  pf_net :: flt
  pf_gross_win :: flt
  pf_gross_loss :: flt
  pf_profit_factor :: "flt option"
  pf_trade_win_pct :: flt
  pf_day_win_pct :: flt
  pf_avg_win :: "flt option"
  pf_avg_loss :: "flt option"
  pf_payoff :: "flt option"
  pf_expectancy :: flt
  pf_max_dd_abs :: flt
  pf_max_dd_pct :: flt
  pf_recovery :: "flt option"
  pf_largest_day :: "flt option"
  pf_daily_stddev :: flt
  pf_trading_days :: nat
  pf_avg_daily :: flt

definition payoff_of :: "flt option \<Rightarrow> flt option \<Rightarrow> flt option" where
  "payoff_of avg_win avg_loss = (case (avg_win, avg_loss) of
       (Some w, Some l) \<Rightarrow> (if l \<noteq> 0 then Some (w / l) else None)
     | _ \<Rightarrow> None)"

definition compute_stats :: "(flt \<Rightarrow> flt) \<Rightarrow> flt \<Rightarrow> trade_record list \<Rightarrow> error + perf" where
  "compute_stats sqroot start ts = and_then (by_close ts) (\<lambda>curve.
    let n = length ts; wins = wins_of ts; losses = losses_of ts; net = total_pnl ts;
        gross_win = sum_list wins; gross_loss = - sum_list losses;
        avg_win = (if wins \<noteq> [] then Some (gross_win / of_nat (length wins)) else None);
        avg_loss = (if losses \<noteq> [] then Some (gross_loss / of_nat (length losses)) else None);
        dd = drawdown start curve;
        nets = map (\<lambda>r. snd (snd r)) (daily_nets ts); pos = filter (\<lambda>v. v > 0) nets; days = length nets
    in Inr \<lparr>pf_n = n, pf_net = net, pf_gross_win = gross_win, pf_gross_loss = gross_loss,
        pf_profit_factor = (if losses \<noteq> [] then Some (gross_win / gross_loss) else None),
        pf_trade_win_pct = (if n \<noteq> 0 then 100 * of_nat (length wins) / of_nat n else 0),
        pf_day_win_pct = (if days \<noteq> 0 then 100 * of_nat (length pos) / of_nat days else 0),
        pf_avg_win = avg_win, pf_avg_loss = avg_loss, pf_payoff = payoff_of avg_win avg_loss,
        pf_expectancy = (if n \<noteq> 0 then net / of_nat n else 0),
        pf_max_dd_abs = fa_abs dd, pf_max_dd_pct = fa_pct dd,
        pf_recovery = (if fa_abs dd > 0 then Some (net / fa_abs dd) else None),
        pf_largest_day = (if pos \<noteq> [] then Some (Max (set pos) / sum_list pos) else None),
        pf_daily_stddev = (if nets \<noteq> [] then sqroot (variance nets) else 0),
        pf_trading_days = days, pf_avg_daily = (if days \<noteq> 0 then net / of_nat days else 0)\<rparr>)"

section \<open>Tables\<close>

record day_row =
  dr_date :: string
  dr_n :: nat
  dr_net :: flt
  dr_cum :: flt

fun day_rows :: "flt \<Rightarrow> (int \<times> nat \<times> flt) list \<Rightarrow> day_row list" where
  "day_rows cum [] = []"
| "day_rows cum ((d, n, net) # rest) =
     \<lparr>dr_date = date_text d, dr_n = n, dr_net = net, dr_cum = cum + net\<rparr> # day_rows (cum + net) rest"

definition daily_table :: "trade_record list \<Rightarrow> day_row list" where
  "daily_table ts = day_rows 0 (daily_nets ts)"

definition win_pct :: "trade_record list \<Rightarrow> flt" where
  "win_pct ts = 100 * of_nat (length (wins_of ts)) / of_nat (length ts)"

record hour_row =
  hr_hour :: int
  hr_n :: nat
  hr_net :: flt
  hr_win_pct :: flt
  hr_profit_factor :: "flt option"

definition hour_row_of :: "int \<times> trade_record list \<Rightarrow> hour_row" where
  "hour_row_of b = (let ts = snd b; gw = sum_list (wins_of ts); gl = - sum_list (losses_of ts) in
     \<lparr>hr_hour = fst b, hr_n = length ts, hr_net = total_pnl ts, hr_win_pct = win_pct ts,
      hr_profit_factor = (if gl > 0 then Some (gw / gl) else None)\<rparr>)"

definition collect :: "'a \<Rightarrow> 'a list \<Rightarrow> 'a list" where "collect x xs = xs @ [x]"

definition by_hour :: "trade_record list \<Rightarrow> hour_row list" where
  "by_hour ts = map hour_row_of (sort_key fst (tally_by open_hour collect [] ts))"

text \<open>The buckets and their upper bounds in seconds, the last unbounded.\<close>

definition duration_buckets :: "(string \<times> flt option) list" where
  "duration_buckets = [(''<15m'', Some (15 * 60)), (''15-60m'', Some (60 * 60)), (''1-4h'', Some (4 * 3600)),
     (''4-24h'', Some (24 * 3600)), (''>24h'', None)]"

definition bucket_of :: "flt \<Rightarrow> string" where
  "bucket_of secs = (case find (\<lambda>b. case snd b of None \<Rightarrow> True | Some u \<Rightarrow> secs < u) duration_buckets of
     None \<Rightarrow> [] | Some b \<Rightarrow> fst b)"

definition duration :: "trade_record \<Rightarrow> flt" where
  "duration t = of_int (utc_us (ar_close t) - utc_us (ar_open t)) / 1000000"

record span_row =
  sr_bucket :: string
  sr_n :: nat
  sr_net :: flt
  sr_win_pct :: flt

definition by_duration :: "trade_record list \<Rightarrow> error + span_row list" where
  "by_duration ts =
    (if list_ex (\<lambda>t. naive (ar_open t) \<noteq> naive (ar_close t)) ts then Inl TypeError
     else let grouped = tally_by (\<lambda>t. bucket_of (duration t)) collect [] ts in
       Inr (List.map_filter (\<lambda>b. case map_of grouped (fst b) of None \<Rightarrow> None
         | Some g \<Rightarrow> if g = [] then None else Some \<lparr>sr_bucket = fst b, sr_n = length g, sr_net = total_pnl g,
             sr_win_pct = win_pct g\<rparr>) duration_buckets))"

section \<open>The report\<close>

definition ljust :: "nat \<Rightarrow> string \<Rightarrow> string" where
  "ljust w s = s @ replicate (w - length s) CHR '' ''"

definition rjust :: "nat \<Rightarrow> string \<Rightarrow> string" where
  "rjust w s = replicate (w - length s) CHR '' '' @ s"

definition fmt_num :: "flt option \<Rightarrow> string" where
  "fmt_num v = (case v of None \<Rightarrow> ''-'' | Some x \<Rightarrow> fixed 2 x)"

text \<open>An empty \<open>sum\<close> is the integer zero, which prints without decimals.\<close>

definition fmt_sum :: "flt option \<Rightarrow> flt \<Rightarrow> string" where
  "fmt_sum avg v = (case avg of None \<Rightarrow> ''0'' | Some _ \<Rightarrow> fixed 2 v)"

definition stat_lines :: "perf \<Rightarrow> (string \<times> string) list" where
  "stat_lines s =
    [(''n'', show_nat (pf_n s)), (''net'', fixed 2 (pf_net s)), (''gross_win'', fmt_sum (pf_avg_win s) (pf_gross_win s)),
     (''gross_loss'', fmt_sum (pf_avg_loss s) (pf_gross_loss s)), (''profit_factor'', fmt_num (pf_profit_factor s)),
     (''trade_win_pct'', fixed 2 (pf_trade_win_pct s)), (''day_win_pct'', fixed 2 (pf_day_win_pct s)),
     (''avg_win'', fmt_num (pf_avg_win s)), (''avg_loss'', fmt_num (pf_avg_loss s)),
     (''payoff_ratio'', fmt_num (pf_payoff s)), (''expectancy'', fixed 2 (pf_expectancy s)),
     (''max_dd_abs'', fixed 2 (pf_max_dd_abs s)), (''max_dd_pct'', fixed 2 (pf_max_dd_pct s)),
     (''recovery_factor'', fmt_num (pf_recovery s)), (''largest_day_share'', fmt_num (pf_largest_day s)),
     (''daily_stddev'', fixed 2 (pf_daily_stddev s)), (''trading_days'', show_nat (pf_trading_days s)),
     (''avg_daily_net'', fixed 2 (pf_avg_daily s))]"

definition day_line :: "day_row \<Rightarrow> string" where
  "day_line r = ljust 12 (dr_date r) @ '' '' @ rjust 4 (show_nat (dr_n r)) @ '' '' @ rjust 10 (fixed 2 (dr_net r))
     @ '' '' @ rjust 10 (fixed 2 (dr_cum r))"

definition hour_line :: "hour_row \<Rightarrow> string" where
  "hour_line r = ljust 5 (Text_Time.show_int (hr_hour r)) @ '' '' @ rjust 4 (show_nat (hr_n r)) @ '' ''
     @ rjust 10 (fixed 2 (hr_net r)) @ '' '' @ rjust 7 (fixed 1 (hr_win_pct r)) @ '' ''
     @ rjust 6 (fmt_num (hr_profit_factor r))"

definition span_line :: "span_row \<Rightarrow> string" where
  "span_line r = ljust 8 (sr_bucket r) @ '' '' @ rjust 4 (show_nat (sr_n r)) @ '' '' @ rjust 10 (fixed 2 (sr_net r))
     @ '' '' @ rjust 7 (fixed 1 (sr_win_pct r))"

text \<open>The lines of the report, which the code joins with line feeds.\<close>

definition format_report :: "(flt \<Rightarrow> flt) \<Rightarrow> flt \<Rightarrow> string \<Rightarrow> trade_record list \<Rightarrow> error + string list" where
  "format_report sqroot start title ts =
    (let head = (if title = [] then [] else [title, replicate (length title) CHR ''='']) in
     if ts = [] then Inr (head @ [''no trades''])
     else and_then (compute_stats sqroot start ts) (\<lambda>s.
       let rows = stat_lines s; width = Max (set (map (\<lambda>r. length (fst r)) rows)) in
       and_then (by_duration ts) (\<lambda>spans.
         Inr (head @ map (\<lambda>r. ljust width (fst r) @ '' : '' @ snd r) rows
           @ [[], ''daily'', ljust 12 ''date'' @ '' '' @ rjust 4 ''n'' @ '' '' @ rjust 10 ''net'' @ '' '' @ rjust 10 ''cum'']
           @ map day_line (daily_table ts)
           @ [[], ''by hour (UTC, open_ts)'', ljust 5 ''hour'' @ '' '' @ rjust 4 ''n'' @ '' '' @ rjust 10 ''net''
               @ '' '' @ rjust 7 ''win%'' @ '' '' @ rjust 6 ''pf'']
           @ map hour_line (by_hour ts)
           @ [[], ''by duration'', ljust 8 ''bucket'' @ '' '' @ rjust 4 ''n'' @ '' '' @ rjust 10 ''net'' @ '' '' @ rjust 7 ''win%'']
           @ map span_line spans))))"

end
