(* ===== verification/Analytics_Properties.thy ===== *)
theory Analytics_Properties
  imports Analytics "HOL-Library.Multiset"
begin

text \<open>
  The trade statistics against their definitions: the drawdown loop finds the greatest fall between
  two points of the equity curve, the breakdowns count every trade once, and runs on datetimes and
  fields where the functions raise although they are said not to.
\<close>

section \<open>Drawdown\<close>

text \<open>The equity after \<open>k\<close> trades and the greatest fall from an earlier to a later point.\<close>

definition equity :: "flt \<Rightarrow> trade_record list \<Rightarrow> nat \<Rightarrow> flt" where
  "equity start ts k = start + total_pnl (take k ts)"

definition greatest_fall :: "flt \<Rightarrow> trade_record list \<Rightarrow> flt" where
  "greatest_fall start ts = Max (set (concat (map (\<lambda>j. map (\<lambda>i. equity start ts i - equity start ts j) [0..<Suc j])
     [0..<Suc (length ts)])))"

definition peak_at :: "flt \<Rightarrow> trade_record list \<Rightarrow> nat \<Rightarrow> flt" where
  "peak_at start ts j = Max (set (map (equity start ts) [0..<Suc j]))"

lemma equity_snoc [simp]: "k \<le> length ts \<Longrightarrow> equity start (ts @ [t]) k = equity start ts k"
  by (simp add: equity_def)

lemma equity_last [simp]: "equity start (ts @ [t]) (Suc (length ts)) = equity start ts (length ts) + ar_pnl t"
  by (simp add: equity_def total_pnl_def)

lemma peak_at_Suc: "peak_at start ts (Suc j) = max (peak_at start ts j) (equity start ts (Suc j))"
proof -
  define A where "A = set (map (equity start ts) [0..<Suc j])"
  have "A \<noteq> {}" "finite A" by (simp_all add: A_def)
  then have "Max (insert (equity start ts (Suc j)) A) = max (equity start ts (Suc j)) (Max A)" by (intro Max_insert)
  moreover have "set (map (equity start ts) [0..<Suc (Suc j)]) = insert (equity start ts (Suc j)) A"
    unfolding A_def by auto
  ultimately show ?thesis unfolding peak_at_def A_def [symmetric] by (simp only: max.commute)
qed

lemma peak_at_snoc [simp]: "j \<le> length ts \<Longrightarrow> peak_at start (ts @ [t]) j = peak_at start ts j"
  unfolding peak_at_def by (rule arg_cong [where f = "\<lambda>xs. Max (set xs)"]) auto

text \<open>The loop's state after the whole list.\<close>

definition falls :: "flt \<Rightarrow> trade_record list \<Rightarrow> fall \<Rightarrow> bool" where
  "falls start ts d \<longleftrightarrow> fa_eq d = equity start ts (length ts) \<and> fa_peak d = peak_at start ts (length ts)
     \<and> (\<forall>j \<le> length ts. peak_at start ts j - equity start ts j \<le> fa_abs d)
     \<and> (\<exists>j \<le> length ts. fa_abs d = peak_at start ts j - equity start ts j
          \<and> fa_pct d = (if peak_at start ts j > 0 then fa_abs d / peak_at start ts j * 100 else 0))"

lemma falls_snoc:
  assumes "falls start ts d"
  shows "falls start (ts @ [t]) (fall_step t d)"
proof -
  define n eq pk where "n = length ts" and "eq = equity start (ts @ [t]) (Suc n)"
    and "pk = peak_at start (ts @ [t]) (Suc n)"
  have ih: "fa_eq d = equity start ts n" "fa_peak d = peak_at start ts n"
    "\<forall>j \<le> n. peak_at start ts j - equity start ts j \<le> fa_abs d"
    "\<exists>j \<le> n. fa_abs d = peak_at start ts j - equity start ts j
       \<and> fa_pct d = (if peak_at start ts j > 0 then fa_abs d / peak_at start ts j * 100 else 0)"
    using assms by (simp_all add: falls_def n_def)
  have eq: "fa_eq d + ar_pnl t = eq" by (simp add: ih eq_def n_def)
  have pk: "max (fa_peak d) eq = pk" by (simp add: ih pk_def peak_at_Suc eq_def n_def)
  have st: "fall_step t d = (if pk - eq > fa_abs d
      then \<lparr>fa_eq = eq, fa_peak = pk, fa_abs = pk - eq, fa_pct = (if pk > 0 then (pk - eq) / pk * 100 else 0)\<rparr>
      else d\<lparr>fa_eq := eq, fa_peak := pk\<rparr>)"
    by (simp add: fall_step_def Let_def eq pk)
  have old: "peak_at start (ts @ [t]) j = peak_at start ts j" "equity start (ts @ [t]) j = equity start ts j"
    if "j \<le> n" for j using that by (simp_all add: n_def)
  have new: "fa_abs (fall_step t d) = max (pk - eq) (fa_abs d)" "fa_eq (fall_step t d) = eq"
    "fa_peak (fall_step t d) = pk" by (auto simp: st max_def)
  have ub: "peak_at start (ts @ [t]) j - equity start (ts @ [t]) j \<le> fa_abs (fall_step t d)" if "j \<le> Suc n" for j
  proof (cases "j = Suc n")
    case True
    then show ?thesis unfolding new by (simp only: eq_def [symmetric] pk_def [symmetric] max.cobounded1)
  next
    case False
    then have "j \<le> n" using that by simp
    then show ?thesis unfolding new old [OF \<open>j \<le> n\<close>] using ih(3) by (simp add: le_max_iff_disj)
  qed
  have at: "\<exists>j \<le> Suc n. fa_abs (fall_step t d) = peak_at start (ts @ [t]) j - equity start (ts @ [t]) j
       \<and> fa_pct (fall_step t d) = (if peak_at start (ts @ [t]) j > 0
            then fa_abs (fall_step t d) / peak_at start (ts @ [t]) j * 100 else 0)"
  proof (cases "pk - eq > fa_abs d")
    case True
    then show ?thesis unfolding st by (intro exI [of _ "Suc n"]) (simp add: eq_def [symmetric] pk_def [symmetric])
  next
    case False
    obtain j where "j \<le> n" "fa_abs d = peak_at start ts j - equity start ts j"
      "fa_pct d = (if peak_at start ts j > 0 then fa_abs d / peak_at start ts j * 100 else 0)" using ih(4) by blast
    then show ?thesis unfolding st using False by (intro exI [of _ j]) (simp add: old)
  qed
  have len: "length (ts @ [t]) = Suc n" by (simp add: n_def)
  have "fa_eq (fall_step t d) = equity start (ts @ [t]) (Suc n)" "fa_peak (fall_step t d) = peak_at start (ts @ [t]) (Suc n)"
    using new(2,3) by (simp_all only: eq_def pk_def)
  moreover have "\<forall>j \<le> Suc n. peak_at start (ts @ [t]) j - equity start (ts @ [t]) j \<le> fa_abs (fall_step t d)"
    by (intro allI impI ub)
  ultimately show ?thesis unfolding falls_def len using at by (intro conjI)
qed

lemma fall_state: "falls start ts (drawdown start ts)"
proof (induction ts rule: rev_induct)
  case Nil
  show ?case by (simp add: falls_def drawdown_def peak_at_def equity_def total_pnl_def)
next
  case (snoc t ts)
  then show ?case using falls_snoc [of start ts "drawdown start ts" t] by (simp add: drawdown_def)
qed

lemma greatest_fall_peak:
  "\<lbrakk>\<forall>j \<le> length ts. peak_at start ts j - equity start ts j \<le> m;
    \<exists>j \<le> length ts. m = peak_at start ts j - equity start ts j\<rbrakk> \<Longrightarrow> greatest_fall start ts = m"
proof -
  assume ub: "\<forall>j \<le> length ts. peak_at start ts j - equity start ts j \<le> m"
    and at: "\<exists>j \<le> length ts. m = peak_at start ts j - equity start ts j"
  define A where "A = set (concat (map (\<lambda>j. map (\<lambda>i. equity start ts i - equity start ts j) [0..<Suc j])
     [0..<Suc (length ts)]))"
  have A: "x \<in> A \<longleftrightarrow> (\<exists>j \<le> length ts. \<exists>i \<le> j. x = equity start ts i - equity start ts j)" for x
  proof -
    have "A = (\<Union>j \<in> {0..<Suc (length ts)}. (\<lambda>i. equity start ts i - equity start ts j) ` {0..<Suc j})"
      unfolding A_def set_concat set_map set_upt image_image ..
    then show ?thesis unfolding UN_iff image_iff Bex_def atLeastLessThan_iff less_Suc_eq_le
      by (simp only: UN_iff image_iff Bex_def atLeastLessThan_iff less_Suc_eq_le le0 simp_thms)
  qed
  have le: "equity start ts i \<le> peak_at start ts j" if "i \<le> j" for i j
    unfolding peak_at_def using that by (intro Max_ge) (simp_all del: upt_Suc add: less_Suc_eq_le)
  have "peak_at start ts j \<in> set (map (equity start ts) [0..<Suc j])" for j
    unfolding peak_at_def by (intro Max_in) auto
  then have ex: "\<exists>i \<le> j. peak_at start ts j = equity start ts i" for j
    unfolding set_map set_upt image_iff Bex_def atLeastLessThan_iff less_Suc_eq_le by blast
  have "Max A = m"
  proof (rule Max_eqI)
    show "finite A" by (simp add: A_def)
    show "y \<le> m" if "y \<in> A" for y
    proof -
      obtain i j where ij: "j \<le> length ts" "i \<le> j" "y = equity start ts i - equity start ts j"
        using \<open>y \<in> A\<close> A by blast
      then have "y \<le> peak_at start ts j - equity start ts j" using le [OF ij(2)] by simp
      then show ?thesis using ub ij(1) by (meson order_trans)
    qed
    show "m \<in> A" using at ex A by metis
  qed
  then show ?thesis by (simp add: greatest_fall_def A_def)
qed

text \<open>C40: the drawdown is the drawdown. The one-pass loop over the equity curve returns the greatest fall
  from any earlier to any later point of the curve, and its percentage is the fall at such a trough
  relative to the peak before it.\<close>

theorem drawdown_reference:
  "fa_abs (drawdown start ts) = greatest_fall start ts
    \<and> (\<exists>j. j \<le> length ts \<and> fa_abs (drawdown start ts) = peak_at start ts j - equity start ts j
        \<and> fa_pct (drawdown start ts) = (if peak_at start ts j > 0
            then greatest_fall start ts / peak_at start ts j * 100 else 0))"
proof -
  obtain j where j: "j \<le> length ts" "fa_abs (drawdown start ts) = peak_at start ts j - equity start ts j"
    "fa_pct (drawdown start ts) = (if peak_at start ts j > 0
       then fa_abs (drawdown start ts) / peak_at start ts j * 100 else 0)"
    using fall_state [of start ts] unfolding falls_def by blast
  have g: "greatest_fall start ts = fa_abs (drawdown start ts)"
    by (rule greatest_fall_peak) (use fall_state [of start ts] j in \<open>auto simp: falls_def\<close>)
  show ?thesis unfolding g using j by blast
qed

section \<open>Breakdowns\<close>

lemma update_tagged:
  "distinct ks \<Longrightarrow> AList.update k v (map (\<lambda>j. (j, f j)) ks)
    = map (\<lambda>j. (j, if j = k then v else f j)) (if k \<in> set ks then ks else ks @ [k])"
  by (induction ks) auto

lemma tally_by_groups:
  "tally_by key upd init xs
    = map (\<lambda>k. (k, fold upd (filter (\<lambda>x. key x = k) xs) init)) (fromkeys (map key xs))"
proof (induction xs rule: rev_induct)
  case Nil
  show ?case by (simp add: tally_by_def)
next
  case (snoc x xs)
  define g where "g = (\<lambda>k. fold upd (filter (\<lambda>x. key x = k) xs) init)"
  have none: "key x \<notin> set (map key xs) \<Longrightarrow> filter (\<lambda>y. key y = key x) xs = []"
    by (metis (mono_tags) filter_empty_conv image_eqI set_map)
  have "tally_by key upd init (xs @ [x]) = AList.update (key x)
     (upd x (case map_of (map (\<lambda>k. (k, g k)) (fromkeys (map key xs))) (key x) of None \<Rightarrow> init | Some v \<Rightarrow> v))
     (map (\<lambda>k. (k, g k)) (fromkeys (map key xs)))"
    using snoc by (simp add: tally_by_def g_def)
  also have "\<dots> = AList.update (key x) (upd x (g (key x))) (map (\<lambda>k. (k, g k)) (fromkeys (map key xs)))"
    using none by (auto simp: map_of_tagged g_def)
  also have "\<dots> = map (\<lambda>k. (k, fold upd (filter (\<lambda>x. key x = k) (xs @ [x])) init)) (fromkeys (map key (xs @ [x])))"
    by (auto simp: update_tagged fromkeys_snoc g_def)
  finally show ?case .
qed

lemma fold_collect: "fold collect xs ys = ys @ xs"
  by (induction xs arbitrary: ys) (simp_all add: collect_def)

lemma fold_add_net: "fold add_net ts (n, v) = (n + length ts, v + total_pnl ts)"
  by (induction ts arbitrary: n v) (simp_all add: add_net_def total_pnl_def)

lemma sum_over_keys:
  fixes g :: "'a \<Rightarrow> 'b :: comm_monoid_add"
  assumes "distinct ks" "set (map key xs) \<subseteq> set ks"
  shows "sum_list (map (\<lambda>k. sum_list (map g (filter (\<lambda>x. key x = k) xs))) ks) = sum_list (map g xs)"
  using assms(2)
proof (induction xs)
  case (Cons x xs)
  have "sum_list (map (\<lambda>k. sum_list (map g (filter (\<lambda>y. key y = k) (x # xs)))) ks)
      = sum_list (map (\<lambda>k. (if key x = k then g x else 0) + sum_list (map g (filter (\<lambda>y. key y = k) xs))) ks)"
    by (rule arg_cong [where f = sum_list]) auto
  also have "\<dots> = sum_list (map (\<lambda>k. if key x = k then g x else 0) ks) + sum_list (map g xs)"
    using Cons by (simp add: sum_list_addf)
  also have "sum_list (map (\<lambda>k. if key x = k then g x else 0) ks) = g x"
    using assms(1) Cons.prems by (simp add: sum_list_distinct_conv_sum_set)
  finally show ?case by simp
qed simp

lemma sum_sorted: "sum_list (map f (sort_key k xs)) = (sum_list (map f xs) :: 'b :: comm_monoid_add)"
  by (metis mset_map mset_sort sum_mset_sum_list)

lemma count_group: "sum_list (map (\<lambda>_. Suc 0) ts) = length ts"
  by (induction ts) simp_all

lemma day_rows_sums:
  "sum_list (map dr_n (day_rows c xs)) = sum_list (map (\<lambda>r. fst (snd r)) xs)"
  "sum_list (map dr_net (day_rows c xs)) = sum_list (map (\<lambda>r. snd (snd r)) xs)"
  by (induction c xs rule: day_rows.induct) simp_all

text \<open>Every trade is counted once. In each of the three breakdowns the rows' trade counts add up to the
  number of trades and their nets to the total profit, whatever the dates, hours and durations.\<close>

theorem breakdowns_conserve:
  "sum_list (map dr_n (daily_table ts)) = length ts \<and> sum_list (map dr_net (daily_table ts)) = total_pnl ts
    \<and> sum_list (map hr_n (by_hour ts)) = length ts \<and> sum_list (map hr_net (by_hour ts)) = total_pnl ts
    \<and> (case by_duration ts of Inl e \<Rightarrow> e = TypeError
        | Inr rows \<Rightarrow> sum_list (map sr_n rows) = length ts \<and> sum_list (map sr_net rows) = total_pnl ts)"
proof (intro conjI)
  have day: "tally_by close_day add_net (0, 0) ts = map (\<lambda>k. (k, length (filter (\<lambda>t. close_day t = k) ts),
      total_pnl (filter (\<lambda>t. close_day t = k) ts))) (fromkeys (map close_day ts))"
    by (simp add: tally_by_groups fold_add_net)
  have hour: "tally_by open_hour collect [] ts
      = map (\<lambda>k. (k, filter (\<lambda>t. open_hour t = k) ts)) (fromkeys (map open_hour ts))"
    by (simp add: tally_by_groups fold_collect)
  show "sum_list (map dr_n (daily_table ts)) = length ts"
    using sum_over_keys [of "fromkeys (map close_day ts)" close_day ts "\<lambda>_. 1 :: nat"]
    by (simp add: daily_table_def daily_nets_def day_rows_sums sum_sorted day comp_def count_group)
  show "sum_list (map dr_net (daily_table ts)) = total_pnl ts"
    using sum_over_keys [of "fromkeys (map close_day ts)" close_day ts ar_pnl]
    by (simp add: daily_table_def daily_nets_def day_rows_sums sum_sorted day comp_def total_pnl_def)
  show "sum_list (map hr_n (by_hour ts)) = length ts"
    using sum_over_keys [of "fromkeys (map open_hour ts)" open_hour ts "\<lambda>_. 1 :: nat"]
    by (simp add: by_hour_def sum_sorted hour comp_def hour_row_of_def Let_def count_group)
  show "sum_list (map hr_net (by_hour ts)) = total_pnl ts"
    using sum_over_keys [of "fromkeys (map open_hour ts)" open_hour ts ar_pnl]
    by (simp add: by_hour_def sum_sorted hour comp_def hour_row_of_def Let_def total_pnl_def)
  define f where "f = (\<lambda>t. bucket_of (duration t))"
  define grp where "grp = (\<lambda>n. filter (\<lambda>t. f t = n) ts)"
  define names where "names = map fst duration_buckets"
  have span: "map_of (tally_by f collect [] ts) n = (if n \<in> f ` set ts then Some (grp n) else None)" for n
    by (simp add: tally_by_groups fold_collect map_of_tagged grp_def)
  have none: "n \<notin> f ` set ts \<Longrightarrow> grp n = []" for n by (auto simp: grp_def filter_empty_conv)
  have rows: "List.map_filter (\<lambda>b. case map_of (tally_by f collect [] ts) (fst b) of None \<Rightarrow> None
      | Some g \<Rightarrow> if g = [] then None else Some (row b g)) bs
    = map (\<lambda>b. row b (grp (fst b))) (filter (\<lambda>b. grp (fst b) \<noteq> []) bs)" for row and bs :: "(string \<times> flt option) list"
    by (induction bs) (auto simp: List.map_filter_simps span dest: none)
  have in_names: "f t \<in> set names" for t
    by (auto simp: f_def bucket_of_def duration_buckets_def names_def)
  have sums: "sum_list (map (\<lambda>b. sum_list (map g (grp (fst b)))) (filter (\<lambda>b. grp (fst b) \<noteq> []) duration_buckets))
      = sum_list (map g ts)" for g :: "trade_record \<Rightarrow> 'a :: comm_monoid_add"
  proof -
    have "sum_list (map (\<lambda>b. sum_list (map g (grp (fst b)))) (filter (\<lambda>b. grp (fst b) \<noteq> []) bs))
        = sum_list (map (\<lambda>n. sum_list (map g (grp n))) (map fst bs))" for bs :: "(string \<times> flt option) list"
      by (induction bs) auto
    moreover have "distinct names" by (simp add: names_def duration_buckets_def)
    ultimately show ?thesis using sum_over_keys [of names f ts g] in_names by (auto simp: names_def grp_def)
  qed
  show "case by_duration ts of Inl e \<Rightarrow> e = TypeError
      | Inr rows \<Rightarrow> sum_list (map sr_n rows) = length ts \<and> sum_list (map sr_net rows) = total_pnl ts"
    using sums [of "\<lambda>_. 1 :: nat"] sums [of ar_pnl]
    by (simp add: by_duration_def f_def [symmetric] Let_def rows comp_def total_pnl_def count_group)
qed

lemma day_rows_cum: "xs \<noteq> [] \<Longrightarrow> dr_cum (last (day_rows c xs)) = c + sum_list (map (\<lambda>r. snd (snd r)) xs)"
proof (induction c xs rule: day_rows.induct)
  case (2 c d n net rest)
  then show ?case by (cases rest) (auto simp: ac_simps)
qed simp

text \<open>Datetimes are said to be normalised to UTC, naive ones assumed UTC, and no function to raise. The
  ordering by closing time and the durations use the raw datetimes: one naive and one aware trade
  make both raise.\<close>

definition mixed_times :: "trade_record list" where
  "mixed_times = (let t = \<lparr>ar_open = (0, None), ar_close = (60, None), ar_pnl = 1, ar_direction = [], ar_symbol = [],
     ar_volume = 1, ar_reason = []\<rparr> in [t, t\<lparr>ar_open := (0, Some 0), ar_close := (60, Some 0)\<rparr>])"

theorem stats_raise_on_mixed_times:
  "compute_stats sqroot start mixed_times = Inl TypeError" "hr_n (hd (by_hour mixed_times)) = 2"
  by (simp add: compute_stats_def by_close_def mixed_times_def Let_def naive_def and_then_def, code_simp)

text \<open>Unusable dictionaries are said to be dropped; a profit that is not a number raises instead.\<close>

theorem from_sim_raises:
  "from_sim cv [[(''open_ts'', OStamp (0, None)), (''close_ts'', OStamp (60, None)), (''pnl'', OSeq [])]] = Inl TypeError"
  by (simp add: record_of_def oget_def iterate_fills_def to_float_def and_then_def)

end
