(* ===== verification/Simulator.thy ===== *)
theory Simulator
  imports Analytics Exits Guards Market_Clock Orb_Engine Svp_Engine Smc_Engine
begin

text \<open>
  \<open>scripts/sim_realistic.py\<close>: the execution-true backtest. A simulated broker (\<open>Sim\<close>) fills resting
  limits and stops inside a bar, lets an exit manager act, and keeps the books; three strategy
  runs drive it with the engines, guards and sizing modelled elsewhere. A closed trade's dictionary
  is a record whose tags are of the run's own type. Console output and argument parsing are left out.
\<close>

section \<open>Orders, positions, books\<close>

record 't pending =
  pe_ticket :: int
  pe_dir :: direction
  pe_px :: flt
  pe_sl :: flt
  pe_volume :: flt
  pe_placed :: timestamp
  pe_label :: string
  pe_tags :: 't

record sim_fill =
  fi_reason :: string
  fi_px :: flt
  fi_vol :: flt
  fi_pnl :: flt

record 't held =
  hd_ticket :: int
  hd_dir :: direction
  hd_volume :: flt
  hd_open :: flt
  hd_sl :: flt
  hd_opened :: timestamp
  hd_tags :: 't
  hd_placed :: "timestamp option"
  hd_fills :: "sim_fill list"
  hd_pnl :: flt

record 't closed =
  cl_ticket :: int
  cl_dir :: direction
  cl_entry :: flt
  cl_open_ts :: timestamp
  cl_signal_ts :: "timestamp option"
  cl_close_ts :: timestamp
  cl_pnl :: flt
  cl_fills :: "sim_fill list"
  cl_tags :: 't

record sim_cfg =
  si_qty :: flt
  si_half :: flt
  si_comm :: flt
  si_value :: flt

record 't sim =
  sm_pendings :: "'t pending list"
  sm_positions :: "'t held list"
  sm_closed :: "'t closed list"
  sm_ticket :: int
  sm_equity :: flt
  sm_curve :: "(timestamp \<times> flt) list"

definition sim_cfg_of :: "flt \<Rightarrow> flt \<Rightarrow> flt \<Rightarrow> flt \<Rightarrow> sim_cfg" where
  "sim_cfg_of qty spread comm value = \<lparr>si_qty = qty, si_half = spread / 2, si_comm = comm, si_value = value\<rparr>"

definition sim_new :: "'t sim" where
  "sim_new = \<lparr>sm_pendings = [], sm_positions = [], sm_closed = [], sm_ticket = 0, sm_equity = 0, sm_curve = []\<rparr>"

text \<open>What an exit manager reads of a position: MetaTrader's type codes, a stop always present.\<close>

definition as_broker :: "'t held \<Rightarrow> broker_pos" where
  "as_broker p = \<lparr>b_ticket = hd_ticket p, b_type = (if hd_dir p = LONG then 0 else 1), b_volume = hd_volume p,
     b_open = hd_open p, b_sl = Some (hd_sl p)\<rparr>"

section \<open>Placing\<close>

definition signal_stop :: "signal \<Rightarrow> flt" where
  "signal_stop sig = (case s_stop sig of None \<Rightarrow> 0 | Some v \<Rightarrow> v)"

definition new_pending :: "sim_cfg \<Rightarrow> direction \<Rightarrow> flt \<Rightarrow> timestamp \<Rightarrow> 't \<Rightarrow> string \<times> flt \<Rightarrow> 't sim \<Rightarrow> 't sim" where
  "new_pending k dir sl ts tags lp s = (let n = sm_ticket s + 1 in
     s\<lparr>sm_ticket := n, sm_pendings := sm_pendings s @ [\<lparr>pe_ticket = n, pe_dir = dir, pe_px = snd lp, pe_sl = sl,
        pe_volume = si_qty k, pe_placed = ts, pe_label = fst lp, pe_tags = tags\<rparr>]\<rparr>)"

text \<open>The entry limit one stop distance beyond the signal, the add-on at four fifths of the way to the
  shared stop.\<close>

definition place_limit_set :: "sim_cfg \<Rightarrow> signal \<Rightarrow> timestamp \<Rightarrow> 't \<Rightarrow> 't sim \<Rightarrow> 't sim" where
  "place_limit_set k sig ts tags s =
    (let short = (s_dir sig = SHORT); d = \<bar>s_price sig - signal_stop sig\<bar> in
     if d \<le> 0 then s
     else let l1 = (if short then s_price sig + d else s_price sig - d);
              sl = (if short then l1 + d else l1 - d);
              l2 = (if short then l1 + 8/10 * d else l1 - 8/10 * d);
              side = (if short then SHORT else LONG)
          in fold (new_pending k side sl ts tags) [(''entry'', l1), (''addon'', l2)] s)"

definition place_market :: "sim_cfg \<Rightarrow> signal \<Rightarrow> timestamp \<Rightarrow> flt \<Rightarrow> 't \<Rightarrow> 't sim \<Rightarrow> 't sim" where
  "place_market k sig ts lot tags s =
    (let short = (s_dir sig = SHORT); n = sm_ticket s + 1;
         px = (if short then s_price sig - si_half k else s_price sig + si_half k)
     in s\<lparr>sm_ticket := n, sm_positions := sm_positions s @ [\<lparr>hd_ticket = n, hd_dir = (if short then SHORT else LONG),
          hd_volume = lot, hd_open = px, hd_sl = signal_stop sig, hd_opened = ts, hd_tags = tags,
          hd_placed = Some ts, hd_fills = [], hd_pnl = 0\<rparr>]\<rparr>)"

section \<open>One bar\<close>

definition fill_pnl :: "sim_cfg \<Rightarrow> flt \<Rightarrow> flt \<Rightarrow> 't held \<Rightarrow> flt" where
  "fill_pnl k px vol p = (if hd_dir p = LONG then 1 else -1) * (px - hd_open p) * vol * si_value k - si_comm k * vol"

definition filled :: "sim_cfg \<Rightarrow> flt \<Rightarrow> flt \<Rightarrow> string \<Rightarrow> 't held \<Rightarrow> 't held" where
  "filled k px vol reason p = (let pnl = fill_pnl k px vol p in
     p\<lparr>hd_pnl := hd_pnl p + pnl, hd_volume := round_dp 8 (hd_volume p - vol),
       hd_fills := hd_fills p @ [\<lparr>fi_reason = reason, fi_px = px, fi_vol = vol, fi_pnl = pnl\<rparr>]\<rparr>)"

definition closed_of :: "timestamp \<Rightarrow> 't held \<Rightarrow> 't closed" where
  "closed_of ts p = \<lparr>cl_ticket = hd_ticket p, cl_dir = hd_dir p, cl_entry = hd_open p, cl_open_ts = hd_opened p,
     cl_signal_ts = hd_placed p, cl_close_ts = ts, cl_pnl = hd_pnl p, cl_fills = hd_fills p, cl_tags = hd_tags p\<rparr>"

text \<open>The position objects are shared: an update shows in the list; tickets identify them.\<close>

definition put_held :: "'t held \<Rightarrow> 't held list \<Rightarrow> 't held list" where
  "put_held p ps = map (\<lambda>q. if hd_ticket q = hd_ticket p then p else q) ps"

definition drop_held :: "int \<Rightarrow> 't held list \<Rightarrow> 't held list" where
  "drop_held t ps = filter (\<lambda>q. hd_ticket q \<noteq> t) ps"

definition find_held :: "int \<Rightarrow> 't held list \<Rightarrow> 't held option" where
  "find_held t ps = find (\<lambda>q. hd_ticket q = t) ps"

definition close_part :: "sim_cfg \<Rightarrow> flt \<Rightarrow> flt \<Rightarrow> string \<Rightarrow> timestamp \<Rightarrow> 't held \<Rightarrow> 't sim \<Rightarrow> 't sim" where
  "close_part k px vol reason ts p s =
    (let q = filled k px vol reason p; s1 = s\<lparr>sm_equity := sm_equity s + fill_pnl k px vol p\<rparr> in
     if hd_volume q \<le> 1 / 10 ^ 9
     then s1\<lparr>sm_closed := sm_closed s @ [closed_of ts q], sm_positions := drop_held (hd_ticket p) (sm_positions s)\<rparr>
     else s1\<lparr>sm_positions := put_held q (sm_positions s)\<rparr>)"

definition expired :: "candle \<Rightarrow> bool \<Rightarrow> 't pending \<Rightarrow> bool" where
  "expired c spike p = (let age = secs_between (c_ts c) (pe_placed p) in
     age \<ge> 30 * 60 \<or> spike \<and> age \<ge> 120)"

definition expire :: "candle \<Rightarrow> bool \<Rightarrow> 't sim \<Rightarrow> 't sim" where
  "expire c spike s = s\<lparr>sm_pendings := filter (\<lambda>p. \<not> expired c spike p) (sm_pendings s)\<rparr>"

definition touched :: "candle \<Rightarrow> 't pending \<Rightarrow> bool" where
  "touched c p = (if pe_dir p = LONG then c_low c \<le> pe_px p else c_high c \<ge> pe_px p)"

definition held_of :: "sim_cfg \<Rightarrow> candle \<Rightarrow> 't pending \<Rightarrow> 't held" where
  "held_of k c p = \<lparr>hd_ticket = pe_ticket p, hd_dir = pe_dir p, hd_volume = pe_volume p,
     hd_open = (if pe_dir p = LONG then pe_px p + si_half k else pe_px p - si_half k), hd_sl = pe_sl p,
     hd_opened = c_ts c, hd_tags = pe_tags p, hd_placed = Some (pe_placed p), hd_fills = [], hd_pnl = 0\<rparr>"

definition fill_limits :: "sim_cfg \<Rightarrow> candle \<Rightarrow> 't sim \<Rightarrow> 't sim" where
  "fill_limits k c s = s\<lparr>sm_positions := sm_positions s @ map (held_of k c) (filter (touched c) (sm_pendings s)),
     sm_pendings := filter (\<lambda>p. \<not> touched c p) (sm_pendings s)\<rparr>"

definition stop_hit :: "candle \<Rightarrow> 't held \<Rightarrow> bool" where
  "stop_hit c p = (if hd_dir p = LONG then c_low c \<le> hd_sl p else c_high c \<ge> hd_sl p)"

definition stop_out :: "sim_cfg \<Rightarrow> candle \<Rightarrow> 't sim \<Rightarrow> 't sim" where
  "stop_out k c s = fold (\<lambda>p s. if stop_hit c p then close_part k (hd_sl p) (hd_volume p) ''sl'' (c_ts c) p s else s)
     (sm_positions s) s"

definition exit_px :: "sim_cfg \<Rightarrow> candle \<Rightarrow> 't held \<Rightarrow> flt" where
  "exit_px k c p = (if hd_dir p = LONG then c_close c - si_half k else c_close c + si_half k)"

definition tightens :: "flt \<Rightarrow> 't held \<Rightarrow> bool" where
  "tightens sl p \<longleftrightarrow> hd_sl p = 0 \<or> (if hd_dir p = LONG then sl > hd_sl p else sl < hd_sl p)"

definition run_act :: "sim_cfg \<Rightarrow> candle \<Rightarrow> action \<Rightarrow> 't sim \<Rightarrow> 't sim" where
  "run_act k c a s = (case a of
       PartialClose t vol \<Rightarrow> (case find_held t (sm_positions s) of None \<Rightarrow> s
         | Some p \<Rightarrow> close_part k (exit_px k c p) (min vol (hd_volume p)) ''partial_2r'' (c_ts c) p s)
     | UpdateSl t sl \<Rightarrow> (case find_held t (sm_positions s) of None \<Rightarrow> s
         | Some p \<Rightarrow> if tightens sl p then s\<lparr>sm_positions := put_held (p\<lparr>hd_sl := sl\<rparr>) (sm_positions s)\<rparr> else s))"

definition halt_all :: "sim_cfg \<Rightarrow> candle \<Rightarrow> 't sim \<Rightarrow> 't sim" where
  "halt_all k c s = (fold (\<lambda>p s. close_part k (exit_px k c p) (hd_volume p) ''daily_halt'' (c_ts c) p s)
     (sm_positions s) s)\<lparr>sm_pendings := []\<rparr>"

text \<open>\<open>Sim.on_bar\<close>; \<open>sit\<close> is the exit manager applied to the bar.\<close>

definition sim_bar :: "sim_cfg \<Rightarrow> (broker_pos list \<Rightarrow> 'm \<Rightarrow> action list \<times> 'm) \<Rightarrow> candle \<Rightarrow> bool \<Rightarrow> bool
    \<Rightarrow> 't sim \<times> 'm \<Rightarrow> 't sim \<times> 'm" where
  "sim_bar k sit c spike halted sm =
    (let s1 = stop_out k c (fill_limits k c (expire c spike (fst sm))) in
     case sit (map as_broker (sm_positions s1)) (snd sm) of
       (acts, m') \<Rightarrow>
         (let s2 = fold (run_act k c) acts s1; s3 = (if halted then halt_all k c s2 else s2)
          in (s3\<lparr>sm_curve := sm_curve s3 @ [(c_ts c, sm_equity s3)]\<rparr>, m')))"

section \<open>Candles\<close>

text \<open>Parsed rows of the files; a missing or empty volume is zero, a naive time UTC.\<close>

record csv_row =
  cr_ts :: stamp
  cr_open :: flt
  cr_high :: flt
  cr_low :: flt
  cr_close :: flt
  cr_volume :: "flt option"

definition row_candle :: "csv_row \<Rightarrow> candle" where
  "row_candle r = \<lparr>c_ts = \<lparr>local_us = fst (cr_ts r), tz_off = (case snd (cr_ts r) of None \<Rightarrow> 0 | Some off \<Rightarrow> off)\<rparr>,
     c_open = cr_open r, c_high = cr_high r, c_low = cr_low r, c_close = cr_close r,
     c_volume = (case cr_volume r of None \<Rightarrow> 0 | Some v \<Rightarrow> v)\<rparr>"

text \<open>A dictionary by instant, later rows replacing earlier ones, read in order of time.\<close>

definition load_rows :: "csv_row list \<Rightarrow> candle list" where
  "load_rows rows = map snd (sort_key fst
     (fold (\<lambda>r m. AList.update (utc_us (cr_ts r)) (row_candle r) m) rows []))"

definition floor_ts :: "int \<Rightarrow> timestamp \<Rightarrow> timestamp" where
  "floor_ts m t = (let mins = minute_of_day t; start = mins - mins mod m in
     t\<lparr>local_us := date_of t * us_day + start * us_min\<rparr>)"

definition join_bar :: "candle \<Rightarrow> candle \<Rightarrow> candle" where
  "join_bar b c = b\<lparr>c_high := max (c_high b) (c_high c), c_low := min (c_low b) (c_low c), c_close := c_close c,
     c_volume := c_volume b + c_volume c\<rparr>"

definition agg_step :: "int \<Rightarrow> candle \<Rightarrow> candle list \<times> candle option \<Rightarrow> candle list \<times> candle option" where
  "agg_step m c acc = (let key = floor_ts m (c_ts c) in case snd acc of
       None \<Rightarrow> (fst acc, Some (c\<lparr>c_ts := key\<rparr>))
     | Some b \<Rightarrow> if utc key = utc (c_ts b) then (fst acc, Some (join_bar b c))
         else if utc key > utc (c_ts b) then (fst acc @ [b], Some (c\<lparr>c_ts := key\<rparr>))
         else acc)"

definition aggregate_candles :: "int \<Rightarrow> candle list \<Rightarrow> candle list" where
  "aggregate_candles m cs = (if m \<le> 1 then cs
     else case fold (agg_step m) cs ([], None) of (out, cur) \<Rightarrow>
       out @ (case cur of None \<Rightarrow> [] | Some b \<Rightarrow> [b]))"

section \<open>Runs\<close>

datatype run_fault = IndexError | ZeroDivisionError | Fault error

fun bars_run :: "('s \<Rightarrow> candle \<Rightarrow> error + 's) \<Rightarrow> candle list \<Rightarrow> 's \<Rightarrow> run_fault + 's" where
  "bars_run f [] s = Inr s"
| "bars_run f (c # cs) s = (case f s c of Inl e \<Rightarrow> Inl (Fault e) | Inr s1 \<Rightarrow> bars_run f cs s1)"

definition or_fault :: "error + 'a \<Rightarrow> ('a \<Rightarrow> run_fault + 'b) \<Rightarrow> run_fault + 'b" where
  "or_fault r f = (case r of Inl e \<Rightarrow> Inl (Fault e) | Inr x \<Rightarrow> f x)"

text \<open>An entry signal that carries a stop.\<close>

definition tradable :: "signal option \<Rightarrow> signal option" where
  "tradable r = (case r of None \<Rightarrow> None
     | Some sig \<Rightarrow> if s_kind sig = ENTRY \<and> truthy (s_stop sig) then Some sig else None)"

subsection \<open>The opening-range run\<close>

record orb_args =
  oa_qty :: flt
  oa_spread :: flt
  oa_comm :: flt
  oa_max_loss :: flt
  oa_stop_min :: flt
  oa_stop_max :: flt
  oa_value :: flt
  oa_roc_min :: flt
  oa_rrr :: flt
  oa_frac :: flt
  oa_partial_frac :: flt
  oa_partial_r :: flt
  oa_spike :: flt

record orb_tags =
  ot_zone :: "string option"
  ot_bias :: "string option"
  ot_day :: quarter
  ot_m90 :: quarter
  ot_fair :: "string option"
  ot_fair90 :: "string option"

text \<open>\<open>candles[0].ts.time()\<close> down to the minute, in microseconds.\<close>

definition open_time :: "candle \<Rightarrow> int" where
  "open_time c = minute_of_day (c_ts c) * us_min"

definition orb_cfg :: "candle \<Rightarrow> orb_args \<Rightarrow> orb_config" where
  "orb_cfg c0 a = orb_defaults\<lparr>oc_session_open := open_time c0, oc_session_len := 1440, oc_roc_min := oa_roc_min a,
     oc_stop_max := Some (oa_stop_max a), oc_stop_min := Some (oa_stop_min a), oc_tp_rrr := Some (oa_rrr a),
     oc_tp_frac := oa_frac a, oc_qty := oa_qty a, oc_one_trade := False, oc_rearm := True,
     oc_rearm_range := ''rebuild''\<rparr>"

record orb_bench =
  ob_engine :: orb_engine
  ob_sim :: "orb_tags sim"
  ob_sitter :: "int \<rightharpoonup> trade_state"
  ob_spike :: spike
  ob_breaker :: breaker
  ob_topen :: true_opens
  ob_qtr :: quarter_tracker

definition orb_tags_of :: "(int \<Rightarrow> int) \<Rightarrow> candle \<Rightarrow> flt \<Rightarrow> true_opens \<Rightarrow> quarter_tracker \<Rightarrow> orb_tags" where
  "orb_tags_of ny c px l q = \<lparr>ot_zone = to_zone px l, ot_bias = to_bias px l, ot_day = fst (quarters ny (c_ts c)),
     ot_m90 = snd (quarters ny (c_ts c)), ot_fair = value_zone px ''day'' q, ot_fair90 = value_zone px ''m90'' q\<rparr>"

definition orb_bench_bar :: "(int \<Rightarrow> int) \<Rightarrow> orb_args \<Rightarrow> orb_config \<Rightarrow> orb_bench \<Rightarrow> candle \<Rightarrow> error + orb_bench" where
  "orb_bench_bar ny a g b c =
    (let k = sim_cfg_of (oa_qty a) (oa_spread a) (oa_comm a) (oa_value a);
         l = trueopen_update ny c (ob_topen b); q = quarter_update ny c (ob_qtr b) in
     case on_candle g (raw_of c) (ob_engine b) of
       (Inl e, _) \<Rightarrow> Inl e
     | (Inr r, e1) \<Rightarrow>
       let s1 = (case tradable r of None \<Rightarrow> ob_sim b
             | Some sig \<Rightarrow> if db_halted (ob_breaker b) then ob_sim b
                 else place_limit_set k sig (c_ts c) (orb_tags_of ny c (s_price sig) l q) (ob_sim b));
           (halted, br) = breaker_update (date_of (c_ts c)) (1000 + sm_equity s1) (ob_breaker b);
           (spike, sk) = spike_update (c_high c) (c_low c) (ob_spike b);
           sitter = sitter_defaults\<lparr>bs_partial_frac := oa_partial_frac a, bs_partial_at_r := oa_partial_r a\<rparr>;
           (s2, m) = sim_bar k (\<lambda>ps. babysit sitter ps (c_close c)) c spike halted (s1, ob_sitter b)
       in Inr \<lparr>ob_engine = e1, ob_sim = s2, ob_sitter = m, ob_spike = sk, ob_breaker = br, ob_topen = l, ob_qtr = q\<rparr>)"

definition run :: "(int \<Rightarrow> int) \<Rightarrow> orb_args \<Rightarrow> candle list \<Rightarrow> run_fault + orb_bench" where
  "run ny a cs = (case cs of [] \<Rightarrow> Inl IndexError | c0 # _ \<Rightarrow>
     or_fault (orb_config_init (orb_cfg c0 a)) (\<lambda>g.
     or_fault (spike_init (oa_spike a) 20 5) (\<lambda>sk.
     or_fault (breaker_init (Some (oa_max_loss a)) None) (\<lambda>br.
       bars_run (orb_bench_bar ny a g) cs \<lparr>ob_engine = orb_new g, ob_sim = sim_new, ob_sitter = Map.empty,
         ob_spike = sk, ob_breaker = br, ob_topen = trueopen_new, ob_qtr = quarter_new\<rparr>))))"

subsection \<open>The profile and Smart Money runs\<close>

record study =
  sy_risk :: flt
  sy_spread :: flt
  sy_comm :: flt
  sy_daily_pct :: flt
  sy_value :: flt
  sy_start :: flt
  sy_vol_min :: flt
  sy_vol_step :: flt
  sy_vol_max :: flt

record trade_tag =
  tt_dir :: direction
  tt_reason :: string

definition study_cfg :: "study \<Rightarrow> sim_cfg" where
  "study_cfg a = sim_cfg_of 0 (sy_spread a) (sy_comm a) (sy_value a)"

text \<open>Market entry after the bar: sized on the balance before the bar, within what the day has left.\<close>

definition market_entry :: "study \<Rightarrow> flt \<Rightarrow> flt \<Rightarrow> breaker \<Rightarrow> candle \<Rightarrow> signal \<Rightarrow> trade_tag sim \<Rightarrow> trade_tag sim" where
  "market_entry a bal risk br c sig s =
    (let remaining = max 0 (db_cap br + day_pnl br);
         lot = compute_lot bal risk (s_price sig) (signal_stop sig) (sy_value a) (sy_vol_min a) (sy_vol_step a)
           (sy_vol_max a) (Some remaining)
     in if lot > 0 then place_market (study_cfg a) sig (c_ts c) lot \<lparr>tt_dir = s_dir sig, tt_reason = s_reason sig\<rparr> s
        else s)"

definition tf_min_bars :: "(string \<times> int) list" where
  "tf_min_bars = [(''1m'', 20), (''2m'', 20), (''3m'', 16), (''5m'', 12), (''15m'', 6)]"

definition svp_cfg :: "candle \<Rightarrow> study \<Rightarrow> string \<Rightarrow> int option \<Rightarrow> bool \<Rightarrow> svp_config \<Rightarrow> svp_config" where
  "svp_cfg c0 a timeframe min_bars tpo overrides = overrides\<lparr>sc_session_open := open_time c0, sc_session_len := 1440,
     sc_risk_pct := sy_risk a, sc_tpo := tpo, sc_min_bars := (case min_bars of Some n \<Rightarrow> n
       | None \<Rightarrow> (case map_of tf_min_bars timeframe of None \<Rightarrow> 20 | Some n \<Rightarrow> n))\<rparr>"

record svp_bench =
  vb_engine :: svp_engine
  vb_sim :: "trade_tag sim"
  vb_sitter :: "int \<rightharpoonup> trade_state"
  vb_spike :: spike
  vb_breaker :: breaker
  vb_losses :: loss_guard
  vb_seen :: nat

definition svp_bench_bar :: "study \<Rightarrow> svp_config \<Rightarrow> svp_bench \<Rightarrow> candle \<Rightarrow> error + svp_bench" where
  "svp_bench_bar a g b c =
    (case svp_on_candle g (raw_of c) (vb_engine b) of
       (Inl e, _) \<Rightarrow> Inl e
     | (Inr r, e1) \<Rightarrow>
       let day = date_of (c_ts c); lg1 = on_period day (vb_losses b); bal = sy_start a + sm_equity (vb_sim b);
           (halted, br) = breaker_update day bal (vb_breaker b);
           (spike, sk) = spike_update (c_high c) (c_low c) (vb_spike b);
           sitter = sitter_defaults\<lparr>bs_partial_frac := sc_partial_frac g, bs_partial_at_r := sc_partial_at_r g,
             bs_breakeven_at_r := sc_breakeven g\<rparr>;
           (s1, m) = sim_bar (study_cfg a) (\<lambda>ps. babysit sitter ps (c_close c)) c spike halted (vb_sim b, vb_sitter b);
           lg2 = fold (\<lambda>t. record_pnl (cl_pnl t)) (drop (vb_seen b) (sm_closed s1)) lg1;
           s2 = (case tradable r of None \<Rightarrow> s1
             | Some sig \<Rightarrow> if halted \<or> blocked lg2 then s1 else market_entry a bal (sc_risk_pct g) br c sig s1)
       in Inr \<lparr>vb_engine = e1, vb_sim = s2, vb_sitter = m, vb_spike = sk, vb_breaker = br, vb_losses = lg2,
            vb_seen = length (sm_closed s1)\<rparr>)"

definition run_svp :: "study \<Rightarrow> string \<Rightarrow> int option \<Rightarrow> bool \<Rightarrow> svp_config \<Rightarrow> candle list \<Rightarrow> run_fault + svp_bench" where
  "run_svp a timeframe min_bars tpo overrides cs = (case cs of [] \<Rightarrow> Inl IndexError | c0 # _ \<Rightarrow>
     or_fault (svp_config_init (svp_cfg c0 a timeframe min_bars tpo overrides)) (\<lambda>g.
     or_fault (spike_init (5/2) 20 5) (\<lambda>sk.
     or_fault (breaker_init None (Some (sy_daily_pct a))) (\<lambda>br.
       bars_run (svp_bench_bar a g) cs \<lparr>vb_engine = svp_new g, vb_sim = sim_new, vb_sitter = Map.empty,
         vb_spike = sk, vb_breaker = br, vb_losses = loss_guard_new (sc_max_losses g), vb_seen = 0\<rparr>))))"

definition smc_ladder :: "study \<Rightarrow> smc_config \<Rightarrow> ladder_config" where
  "smc_ladder a g = ladder_defaults\<lparr>lc_levels := mc_partials g, lc_final_r := mc_final_tp g,
     lc_stage1_r := mc_stage1 g, lc_stage2_r := mc_stage2 g, lc_min_lock_r := mc_min_lock g,
     lc_buffer := mc_stop_buffer g, lc_comm := mc_comm g, lc_value_per_move := sy_value a,
     lc_spread := sy_spread a, lc_vol_min := sy_vol_min a, lc_vol_step := sy_vol_step a\<rparr>"

record smc_bench =
  mb_engine :: smc_engine
  mb_sim :: "trade_tag sim"
  mb_sitter :: ladder
  mb_spike :: spike
  mb_breaker :: breaker

definition smc_bench_bar :: "study \<Rightarrow> smc_config \<Rightarrow> ladder_config \<Rightarrow> smc_bench \<Rightarrow> candle \<Rightarrow> error + smc_bench" where
  "smc_bench_bar a g lad b c =
    (let e0 = (if me_pos (mb_engine b) \<noteq> None \<and> sm_positions (mb_sim b) = []
               then snd (smc_force_flat (c_ts c) (mb_engine b)) else mb_engine b) in
     case smc_on_candle g (raw_of c) e0 of
       (Inl e, _) \<Rightarrow> Inl e
     | (Inr r, e1) \<Rightarrow>
       let bal = sy_start a + sm_equity (mb_sim b);
           (halted, br) = breaker_update (date_of (c_ts c)) bal (mb_breaker b);
           (spike, sk) = spike_update (c_high c) (c_low c) (mb_spike b);
           (s1, m) = sim_bar (study_cfg a) (\<lambda>ps. ladder_on_bar lad ps (c, \<lambda>_. sy_spread a)) c spike halted
             (mb_sim b, mb_sitter b);
           s2 = (case tradable r of None \<Rightarrow> s1
             | Some sig \<Rightarrow> if halted then s1 else market_entry a bal (mc_risk_pct g) br c sig s1)
       in Inr \<lparr>mb_engine = e1, mb_sim = s2, mb_sitter = m, mb_spike = sk, mb_breaker = br\<rparr>)"

definition run_smc :: "study \<Rightarrow> smc_config \<Rightarrow> candle list \<Rightarrow> run_fault + smc_bench" where
  "run_smc a overrides cs =
     or_fault (smc_config_init (overrides\<lparr>mc_risk_pct := sy_risk a\<rparr>)) (\<lambda>g.
     or_fault (smc_init g) (\<lambda>e.
     or_fault (ladder_init (smc_ladder a g)) (\<lambda>lad.
     or_fault (spike_init (5/2) 20 5) (\<lambda>sk.
     or_fault (breaker_init None (Some (sy_daily_pct a))) (\<lambda>br.
       bars_run (smc_bench_bar a g lad) cs \<lparr>mb_engine = e, mb_sim = sim_new, mb_sitter = ladder_new,
         mb_spike = sk, mb_breaker = br\<rparr>)))))"

section \<open>Results\<close>

record metrics_row =
  mt_n :: nat
  mt_pnl :: flt
  mt_win :: flt
  mt_avg :: flt
  mt_pf :: pyfloat
  mt_dd :: flt
  mt_dd_pct :: flt

definition dd_step :: "flt \<Rightarrow> flt \<times> flt \<times> flt \<Rightarrow> flt \<times> flt \<times> flt" where
  "dd_step pnl a = (case a of (eq, peak, dd) \<Rightarrow>
     let eq1 = eq + pnl; peak1 = max peak eq1 in (eq1, peak1, max dd (peak1 - eq1)))"

definition metrics :: "flt \<Rightarrow> 't closed list \<Rightarrow> metrics_row" where
  "metrics start ts =
    (if ts = [] then \<lparr>mt_n = 0, mt_pnl = 0, mt_win = 0, mt_avg = 0, mt_pf = Fin 0, mt_dd = 0, mt_dd_pct = 0\<rparr>
     else let pnls = map cl_pnl ts; n = length ts; wins = filter (\<lambda>p. p > 0) pnls;
              gw = sum_list wins; gl = sum_list (filter (\<lambda>p. p \<le> 0) pnls);
              dd = snd (snd (fold dd_step pnls (0, 0, 0)))
          in \<lparr>mt_n = n, mt_pnl = sum_list pnls, mt_win = 100 * of_nat (length wins) / of_nat n,
              mt_avg = sum_list pnls / of_nat n, mt_pf = (if gl < 0 then Fin (gw / - gl) else PosInf),
              mt_dd = dd, mt_dd_pct = (if start > 0 then dd / start * 100 else 0)\<rparr>)"

definition direction_name :: "direction \<Rightarrow> string" where
  "direction_name d = (case d of LONG \<Rightarrow> ''LONG'' | SHORT \<Rightarrow> ''SHORT'')"

definition trade_dict :: "string \<Rightarrow> 't closed \<Rightarrow> json" where
  "trade_dict symbol t = JObj [(''ts'', JStr (iso (case cl_signal_ts t of Some x \<Rightarrow> x | None \<Rightarrow> cl_open_ts t))),
     (''symbol'', JStr symbol), (''direction'', JStr (direction_name (cl_dir t))),
     (''pnl'', JFloat (Fin (round_dp 2 (cl_pnl t))))]"

definition trades_to_records :: "'t closed list \<Rightarrow> string \<Rightarrow> json list" where
  "trades_to_records ts symbol = map (trade_dict symbol) ts"

text \<open>The dictionary of a closed trade, its tags apart.\<close>

definition stamp_of :: "timestamp \<Rightarrow> stamp" where "stamp_of t = (local_us t, Some (tz_off t))"

definition sim_dict :: "'t closed \<Rightarrow> odict" where
  "sim_dict t = [(''ticket'', ONum (of_int (cl_ticket t))), (''dir'', OText (direction_name (cl_dir t))),
     (''entry'', ONum (cl_entry t)), (''open_ts'', OStamp (stamp_of (cl_open_ts t))),
     (''signal_ts'', case cl_signal_ts t of None \<Rightarrow> ONone | Some x \<Rightarrow> OStamp (stamp_of x)),
     (''close_ts'', OStamp (stamp_of (cl_close_ts t))), (''pnl'', ONum (cl_pnl t)),
     (''fills'', OSeq (map (\<lambda>f. OSeq [OText (fi_reason f), ONum (fi_px f), ONum (fi_vol f), ONum (fi_pnl f)]) (cl_fills t)))]"

end
