(* ===== verification/Simulator_Properties.thy ===== *)
theory Simulator_Properties
  imports Simulator Analytics_Properties Smc_Market_Properties
begin

text \<open>
  What the simulator promises: its books balance over every strategy run, a stop inside a bar comes
  before any profit of the bar and stops never loosen, offline aggregation gives the live
  aggregator's candles, and its summary agrees with the trade analytics.
\<close>

section \<open>The books\<close>

definition paid :: "sim_fill list \<Rightarrow> flt" where "paid fs = sum_list (map fi_pnl fs)"

definition tickets :: "'t sim \<Rightarrow> int list" where
  "tickets s = map pe_ticket (sm_pendings s) @ map hd_ticket (sm_positions s) @ map cl_ticket (sm_closed s)"

text \<open>An order is in one place only, profits are the sums of the fills, and the equity is what closed and
  open positions have made.\<close>

definition books :: "'t sim \<Rightarrow> bool" where
  "books s \<longleftrightarrow> distinct (tickets s) \<and> list_all (\<lambda>t. t \<le> sm_ticket s) (tickets s)
     \<and> list_all (\<lambda>p. hd_pnl p = paid (hd_fills p)) (sm_positions s)
     \<and> list_all (\<lambda>t. cl_pnl t = paid (cl_fills t)) (sm_closed s)
     \<and> sm_equity s = sum_list (map hd_pnl (sm_positions s)) + sum_list (map cl_pnl (sm_closed s))"

lemma paid_simps [simp]: "paid [] = 0" "paid (fs @ [f]) = paid fs + fi_pnl f"
  by (simp_all add: paid_def)

lemma books_new: "books sim_new"
  by (simp add: books_def sim_new_def tickets_def)

lemma books_positions: "books s \<Longrightarrow> distinct (map hd_ticket (sm_positions s))"
  by (simp add: books_def tickets_def)

lemma fresh_ticket: "list_all (\<lambda>t. t \<le> (n::int)) ts \<Longrightarrow> n + 1 \<notin> set ts \<and> list_all (\<lambda>t. t \<le> n + 1) ts"
  by (induction ts) auto

lemma books_pending: "books s \<Longrightarrow> books (new_pending k dir sl ts tags lp s)"
  using fresh_ticket [of "sm_ticket s" "tickets s"]
  by (auto simp: books_def new_pending_def tickets_def Let_def)

lemma books_limits: "books s \<Longrightarrow> books (place_limit_set k sig ts tags s)"
  by (simp add: place_limit_set_def Let_def books_pending)

lemma books_market: "books s \<Longrightarrow> books (place_market k sig ts lot tags s)"
  using fresh_ticket [of "sm_ticket s" "tickets s"]
  by (auto simp: books_def place_market_def tickets_def Let_def)

lemma books_expire: "books s \<Longrightarrow> books (expire c spike s)"
  by (auto simp: books_def expire_def tickets_def list_all_iff distinct_map_filter)

lemma books_fill: "books s \<Longrightarrow> books (fill_limits k c s)"
proof -
  assume b: "books s"
  define ps where "ps = sm_pendings s"
  have t: "map hd_ticket (map (held_of k c) qs) = map pe_ticket qs" for qs :: "'a pending list"
    by (simp add: held_of_def comp_def)
  have z: "map hd_pnl (map (held_of k c) qs) = map (\<lambda>_. 0) qs" for qs :: "'a pending list"
    by (simp add: held_of_def comp_def)
  have d: "distinct (map pe_ticket ps)" using b by (simp add: books_def tickets_def ps_def)
  then have s: "pe_ticket ` {p \<in> set ps. \<not> touched c p} \<inter> pe_ticket ` {p \<in> set ps. touched c p} = {}"
    by (auto simp: distinct_map inj_on_def)
  show ?thesis using b d s unfolding books_def tickets_def fill_limits_def
    by (auto simp: t z ps_def list_all_iff distinct_map_filter held_of_def comp_def)
qed

text \<open>Removing or replacing one of several positions with different tickets.\<close>

lemma sum_drop:
  fixes f :: "'t held \<Rightarrow> flt"
  shows "distinct (map hd_ticket ps) \<Longrightarrow> p \<in> set ps
    \<Longrightarrow> sum_list (map f (drop_held (hd_ticket p) ps)) = sum_list (map f ps) - f p"
proof (induction ps)
  case (Cons q ps)
  show ?case
  proof (cases "hd_ticket q = hd_ticket p")
    case True
    then have "q = p" using Cons.prems by (auto simp: image_iff)
    moreover have "drop_held (hd_ticket p) ps = ps" using Cons.prems True
      by (auto simp: drop_held_def filter_id_conv image_iff)
    ultimately show ?thesis by (simp add: drop_held_def)
  next
    case False
    then have "p \<in> set ps" using Cons.prems by auto
    then show ?thesis using Cons False by (simp add: drop_held_def)
  qed
qed simp

lemma sum_put:
  fixes f :: "'t held \<Rightarrow> flt"
  shows "distinct (map hd_ticket ps) \<Longrightarrow> p \<in> set ps \<Longrightarrow> hd_ticket q = hd_ticket p
    \<Longrightarrow> sum_list (map f (put_held q ps)) = sum_list (map f ps) - f p + f q"
proof (induction ps)
  case (Cons r ps)
  show ?case
  proof (cases "hd_ticket r = hd_ticket p")
    case True
    then have "r = p" using Cons.prems by (auto simp: image_iff)
    moreover have "put_held q ps = ps" using Cons.prems True
      by (auto simp: put_held_def intro!: map_idI) (metis image_eqI)
    ultimately show ?thesis using Cons.prems by (simp add: put_held_def)
  next
    case False
    then have "p \<in> set ps" using Cons.prems by auto
    then show ?thesis using Cons False by (simp add: put_held_def)
  qed
qed simp

lemma held_sets [simp]:
  "set (drop_held t ps) = {p \<in> set ps. hd_ticket p \<noteq> t}"
  "map hd_ticket (put_held q ps) = map hd_ticket ps"
  by (auto simp: drop_held_def put_held_def)

lemma put_held_set: "r \<in> set (put_held q ps) \<Longrightarrow> r = q \<or> r \<in> set ps \<and> hd_ticket r \<noteq> hd_ticket q"
  by (auto simp: put_held_def split: if_splits)

lemma put_held_other: "r \<in> set ps \<Longrightarrow> hd_ticket r \<noteq> hd_ticket q \<Longrightarrow> r \<in> set (put_held q ps)"
  by (force simp: put_held_def)

lemma filled_simps [simp]:
  "hd_ticket (filled k px v r p) = hd_ticket p" "hd_dir (filled k px v r p) = hd_dir p"
  "hd_open (filled k px v r p) = hd_open p" "hd_sl (filled k px v r p) = hd_sl p"
  "hd_pnl (filled k px v r p) = hd_pnl p + fill_pnl k px v p"
  "paid (hd_fills (filled k px v r p)) = paid (hd_fills p) + fill_pnl k px v p"
  by (simp_all add: filled_def Let_def)

lemma closed_of_simps [simp]:
  "cl_ticket (closed_of ts p) = hd_ticket p" "cl_pnl (closed_of ts p) = hd_pnl p" "cl_fills (closed_of ts p) = hd_fills p"
  by (simp_all add: closed_of_def)

lemma books_close:
  assumes "books s" "p \<in> set (sm_positions s)"
  shows "books (close_part k px v r ts p s)"
proof -
  define q where "q = filled k px v r p"
  have d: "distinct (map hd_ticket (sm_positions s))" using assms(1) by (rule books_positions)
  have pl: "hd_pnl p = paid (hd_fills p)" using assms by (simp add: books_def list_all_iff)
  have q: "hd_ticket q = hd_ticket p" "hd_pnl q = hd_pnl p + fill_pnl k px v p" "hd_pnl q = paid (hd_fills q)"
    using pl by (simp_all add: q_def)
  show ?thesis
  proof (cases "hd_volume q \<le> 1 / 10 ^ 9")
    case True
    have e: "close_part k px v r ts p s = s\<lparr>sm_equity := sm_equity s + fill_pnl k px v p,
        sm_closed := sm_closed s @ [closed_of ts q], sm_positions := drop_held (hd_ticket p) (sm_positions s)\<rparr>"
      using True by (simp add: close_part_def q_def Let_def)
    have "distinct (map hd_ticket (drop_held (hd_ticket p) (sm_positions s)))"
      using d by (simp add: drop_held_def distinct_map_filter)
    then show ?thesis using assms q sum_drop [OF d assms(2), of hd_pnl] unfolding e books_def tickets_def
      by (auto simp: list_all_iff)
  next
    case False
    have e: "close_part k px v r ts p s = s\<lparr>sm_equity := sm_equity s + fill_pnl k px v p,
        sm_positions := put_held q (sm_positions s)\<rparr>"
      using False by (simp add: close_part_def q_def Let_def)
    show ?thesis using assms q sum_put [OF d assms(2) q(1), of hd_pnl] unfolding e books_def tickets_def
      by (auto simp: list_all_iff dest!: put_held_set)
  qed
qed

lemma close_keeps_others:
  "r \<in> set (sm_positions s) \<Longrightarrow> hd_ticket r \<noteq> hd_ticket p \<Longrightarrow> r \<in> set (sm_positions (close_part k px v rs ts p s))"
  by (auto simp: close_part_def Let_def put_held_other)

lemma books_close_each:
  assumes "books s" "distinct (map hd_ticket ps)" "set ps \<subseteq> set (sm_positions s)"
  shows "books (fold (\<lambda>p s. if h p then close_part k (px p) (v p) r ts p s else s) ps s)"
  using assms
proof (induction ps arbitrary: s)
  case (Cons p ps)
  define s1 where "s1 = (if h p then close_part k (px p) (v p) r ts p s else s)"
  have "books s1" using Cons.prems by (simp add: s1_def books_close)
  moreover have "set ps \<subseteq> set (sm_positions s1)"
    using Cons.prems by (auto simp: s1_def image_iff intro!: close_keeps_others)
  ultimately show ?case using Cons by (simp add: s1_def)
qed simp

lemma books_stop_out: "books s \<Longrightarrow> books (stop_out k c s)"
  using books_close_each [of s "sm_positions s" "stop_hit c"] by (simp add: stop_out_def books_positions)

lemma books_halt: "books s \<Longrightarrow> books (halt_all k c s)"
proof -
  assume b: "books s"
  have "books (fold (\<lambda>p s. if True then close_part k (exit_px k c p) (hd_volume p) ''daily_halt'' (c_ts c) p s else s)
      (sm_positions s) s)"
    by (rule books_close_each) (simp_all add: b books_positions)
  then show ?thesis by (auto simp: halt_all_def books_def tickets_def list_all_iff)
qed

lemma find_held_Some: "find_held t ps = Some p \<Longrightarrow> p \<in> set ps \<and> hd_ticket p = t"
  by (auto simp: find_held_def find_Some_iff)

lemma books_sl:
  assumes "books s" "p \<in> set (sm_positions s)"
  shows "books (s\<lparr>sm_positions := put_held (p\<lparr>hd_sl := sl\<rparr>) (sm_positions s)\<rparr>)"
proof -
  have "hd_pnl p = paid (hd_fills p)" using assms by (simp add: books_def list_all_iff)
  then show ?thesis using assms sum_put [OF books_positions [OF assms(1)] assms(2), of "p\<lparr>hd_sl := sl\<rparr>" hd_pnl]
    by (auto simp: books_def tickets_def list_all_iff dest!: put_held_set)
qed

lemma books_act: "books s \<Longrightarrow> books (run_act k c a s)"
  by (auto simp: run_act_def books_close books_sl split: action.splits option.splits dest!: find_held_Some)

lemma books_acts: "books s \<Longrightarrow> books (fold (run_act k c) acts s)"
  by (induction acts arbitrary: s) (simp_all add: books_act)

lemma books_bar: "books s \<Longrightarrow> sim_bar k sit c spike halted (s, m) = (s', m') \<Longrightarrow> books s'"
proof -
  assume b: "books s" and r: "sim_bar k sit c spike halted (s, m) = (s', m')"
  define s1 where "s1 = stop_out k c (fill_limits k c (expire c spike s))"
  obtain acts m1 where a: "sit (map as_broker (sm_positions s1)) m = (acts, m1)" by (meson surj_pair)
  define s3 where "s3 = (if halted then halt_all k c (fold (run_act k c) acts s1) else fold (run_act k c) acts s1)"
  have "books s1" using b by (simp add: s1_def books_stop_out books_fill books_expire)
  then have "books s3" by (simp add: s3_def books_halt books_acts)
  moreover have "s' = s3\<lparr>sm_curve := sm_curve s3 @ [(c_ts c, sm_equity s3)]\<rparr>"
    using r by (simp add: sim_bar_def s1_def [symmetric] a s3_def [symmetric] Let_def)
  ultimately show ?thesis by (simp add: books_def tickets_def)
qed

lemma bars_run_inv:
  assumes "\<And>s c s'. P s \<Longrightarrow> f s c = Inr s' \<Longrightarrow> P s'"
  shows "P s \<Longrightarrow> bars_run f cs s = Inr s' \<Longrightarrow> P s'"
  by (induction cs arbitrary: s) (auto split: sum.splits dest: assms)

lemma or_fault_Inr: "or_fault r f = Inr y \<longleftrightarrow> (\<exists>x. r = Inr x \<and> f x = Inr y)"
  by (cases r) (simp_all add: or_fault_def)

lemma orb_bar_books:
  assumes "books (ob_sim b)" "orb_bench_bar ny a g b c = Inr b'"
  shows "books (ob_sim b')"
proof -
  define k where "k = sim_cfg_of (oa_qty a) (oa_spread a) (oa_comm a) (oa_value a)"
  define l q where "l = trueopen_update ny c (ob_topen b)" and "q = quarter_update ny c (ob_qtr b)"
  obtain r e1 where e: "on_candle g (raw_of c) (ob_engine b) = (Inr r, e1)"
    using assms(2) by (auto simp: orb_bench_bar_def Let_def split: prod.splits sum.splits)
  define s1 where "s1 = (case tradable r of None \<Rightarrow> ob_sim b
     | Some sig \<Rightarrow> if db_halted (ob_breaker b) then ob_sim b
         else place_limit_set k sig (c_ts c) (orb_tags_of ny c (s_price sig) l q) (ob_sim b))"
  have "books s1" using assms(1) by (auto simp: s1_def books_limits split: option.splits)
  then show ?thesis using assms(2)
    by (auto simp: orb_bench_bar_def e Let_def k_def [symmetric] l_def [symmetric] q_def [symmetric]
        s1_def [symmetric] split: prod.splits dest: books_bar [rotated])
qed

lemma market_entry_books: "books s \<Longrightarrow> books (market_entry a bal risk br c sig s)"
  by (simp add: market_entry_def Let_def books_market)

lemma enter_books: "books s \<Longrightarrow> books (case x of None \<Rightarrow> s | Some sig \<Rightarrow> if h then s else market_entry a bal risk br c sig s)"
  by (simp add: market_entry_books split: option.splits)

lemma svp_bar_books:
  assumes "books (vb_sim b)" "svp_bench_bar a g b c = Inr b'"
  shows "books (vb_sim b')"
  using assms(2) by (auto simp: svp_bench_bar_def Let_def simp del: option.case split: prod.splits sum.splits
      intro!: enter_books dest!: books_bar [OF assms(1)])

lemma smc_bar_books:
  assumes "books (mb_sim b)" "smc_bench_bar a g lad b c = Inr b'"
  shows "books (mb_sim b')"
  using assms(2) by (auto simp: smc_bench_bar_def Let_def split: prod.splits sum.splits
      intro!: enter_books dest!: books_bar [OF assms(1)])

text \<open>C35: the simulated books balance. Whichever strategy is studied on whatever candles, at the end of the
  run no order is in two places, every trade's profit is the sum of its fills, and the equity is the
  profit of the closed trades plus what the open positions have realised.\<close>

theorem sim_books_balance:
  "(case run ny oa cs of Inl e \<Rightarrow> True | Inr b \<Rightarrow> books (ob_sim b))
    \<and> (case run_svp a tf n tpo vg cs of Inl e \<Rightarrow> True | Inr b \<Rightarrow> books (vb_sim b))
    \<and> (case run_smc a mg cs of Inl e \<Rightarrow> True | Inr b \<Rightarrow> books (mb_sim b))"
proof (intro conjI)
  have "books (ob_sim b)" if r: "run ny oa cs = Inr b" for b
  proof -
    obtain g sk br where "bars_run (orb_bench_bar ny oa g) cs \<lparr>ob_engine = orb_new g, ob_sim = sim_new,
        ob_sitter = Map.empty, ob_spike = sk, ob_breaker = br, ob_topen = trueopen_new, ob_qtr = quarter_new\<rparr> = Inr b"
      using r by (cases cs) (auto simp: run_def or_fault_Inr simp del: bars_run.simps)
    moreover have "books (ob_sim \<lparr>ob_engine = orb_new g, ob_sim = sim_new,
        ob_sitter = Map.empty, ob_spike = sk, ob_breaker = br, ob_topen = trueopen_new, ob_qtr = quarter_new\<rparr>)"
      by (simp add: books_new)
    ultimately show ?thesis using bars_run_inv [of "\<lambda>b. books (ob_sim b)"] orb_bar_books by blast
  qed
  then show "case run ny oa cs of Inl e \<Rightarrow> True | Inr b \<Rightarrow> books (ob_sim b)" by (simp split: sum.splits)
  have "books (vb_sim b)" if r: "run_svp a tf n tpo vg cs = Inr b" for b
  proof -
    obtain g sk br where "bars_run (svp_bench_bar a g) cs \<lparr>vb_engine = svp_new g, vb_sim = sim_new,
        vb_sitter = Map.empty, vb_spike = sk, vb_breaker = br, vb_losses = loss_guard_new (sc_max_losses g),
        vb_seen = 0\<rparr> = Inr b"
      using r by (cases cs) (auto simp: run_svp_def or_fault_Inr simp del: bars_run.simps)
    moreover have "books (vb_sim \<lparr>vb_engine = svp_new g, vb_sim = sim_new, vb_sitter = Map.empty, vb_spike = sk,
        vb_breaker = br, vb_losses = loss_guard_new (sc_max_losses g), vb_seen = 0\<rparr>)"
      by (simp add: books_new)
    ultimately show ?thesis using bars_run_inv [of "\<lambda>b. books (vb_sim b)"] svp_bar_books by blast
  qed
  then show "case run_svp a tf n tpo vg cs of Inl e \<Rightarrow> True | Inr b \<Rightarrow> books (vb_sim b)" by (simp split: sum.splits)
  have "books (mb_sim b)" if r: "run_smc a mg cs = Inr b" for b
  proof -
    obtain g e lad sk br where "bars_run (smc_bench_bar a g lad) cs \<lparr>mb_engine = e, mb_sim = sim_new,
        mb_sitter = ladder_new, mb_spike = sk, mb_breaker = br\<rparr> = Inr b"
      using r by (auto simp: run_smc_def or_fault_Inr)
    moreover have "books (mb_sim \<lparr>mb_engine = e, mb_sim = sim_new, mb_sitter = ladder_new, mb_spike = sk,
        mb_breaker = br\<rparr>)" by (simp add: books_new)
    ultimately show ?thesis using bars_run_inv [of "\<lambda>b. books (mb_sim b)"] smc_bar_books by blast
  qed
  then show "case run_smc a mg cs of Inl e \<Rightarrow> True | Inr b \<Rightarrow> books (mb_sim b)" by (simp split: sum.splits)
qed

section \<open>Stops before profits\<close>

text \<open>An exit manager's request names a stop above zero (the simulator reads a stop of zero as none).\<close>

definition asks_price :: "action \<Rightarrow> bool" where
  "asks_price a = (case a of UpdateSl t sl \<Rightarrow> 0 < sl | PartialClose t v \<Rightarrow> True)"

text \<open>The same position later: its stop has only moved towards the price.\<close>

definition kept :: "'t held \<Rightarrow> 't held \<Rightarrow> bool" where
  "kept p q \<longleftrightarrow> hd_ticket q = hd_ticket p \<and> hd_dir q = hd_dir p \<and> hd_open q = hd_open p
     \<and> (0 < hd_sl p \<longrightarrow> 0 < hd_sl q \<and> (if hd_dir p = LONG then hd_sl p \<le> hd_sl q else hd_sl q \<le> hd_sl p))"

lemma kept_refl [simp]: "kept p p" by (simp add: kept_def)

lemma kept_trans: "kept p q \<Longrightarrow> kept q r \<Longrightarrow> kept p r"
  by (auto simp: kept_def split: if_splits)

lemma kept_filled: "kept p (filled k px v r p)" by (simp add: kept_def)

lemma close_keeps:
  "p \<in> set (sm_positions s) \<Longrightarrow> q \<in> set (sm_positions (close_part k px v r ts p s))
    \<Longrightarrow> \<exists>p'\<in>set (sm_positions s). kept p' q"
  by (auto simp: close_part_def Let_def split: if_splits dest!: put_held_set intro: kept_refl kept_filled)

lemma close_closed: "set (sm_closed s) \<subseteq> set (sm_closed (close_part k px v r ts p s))"
  by (auto simp: close_part_def Let_def)

lemma close_full:
  "sm_positions (close_part k px (hd_volume p) r ts p s) = drop_held (hd_ticket p) (sm_positions s)"
  "sm_closed (close_part k px (hd_volume p) r ts p s) = sm_closed s @ [closed_of ts (filled k px (hd_volume p) r p)]"
  by (simp_all add: close_part_def filled_def Let_def round_dp_def)

lemma kept_tighter: "asks_price (UpdateSl t sl) \<Longrightarrow> tightens sl p \<Longrightarrow> kept p (p\<lparr>hd_sl := sl\<rparr>)"
  by (auto simp: asks_price_def tightens_def kept_def)

lemma act_keeps:
  assumes "asks_price a" "q \<in> set (sm_positions (run_act k c a s))"
  shows "\<exists>p\<in>set (sm_positions s). kept p q"
proof (cases a)
  case (PartialClose t v)
  show ?thesis using assms(2) unfolding PartialClose run_act_def
    by (auto split: option.splits intro: kept_refl dest!: find_held_Some dest: close_keeps)
next
  case (UpdateSl t sl)
  show ?thesis using assms(2) kept_tighter assms(1) unfolding UpdateSl run_act_def
    by (auto split: option.splits if_splits intro: kept_refl dest!: find_held_Some put_held_set)
qed

lemma act_closed: "set (sm_closed s) \<subseteq> set (sm_closed (run_act k c a s))"
  using close_closed by (fastforce simp: run_act_def split: action.splits option.splits)

lemma acts_keep:
  "list_all asks_price acts \<Longrightarrow> q \<in> set (sm_positions (fold (run_act k c) acts s)) \<Longrightarrow> \<exists>p\<in>set (sm_positions s). kept p q"
proof (induction acts arbitrary: s)
  case (Cons a acts)
  then obtain r where "r \<in> set (sm_positions (run_act k c a s))" "kept r q" by auto
  moreover have "asks_price a" using Cons.prems(1) by simp
  ultimately show ?case using act_keeps [of a r] kept_trans by blast
next
  case Nil
  then have "q \<in> set (sm_positions s)" by simp
  then show ?case using kept_refl by blast
qed

lemma acts_closed: "set (sm_closed s) \<subseteq> set (sm_closed (fold (run_act k c) acts s))"
  using act_closed by (induction acts arbitrary: s) (auto, blast)

lemma halt_closed: "set (sm_closed s) \<subseteq> set (sm_closed (halt_all k c s))"
proof -
  have "set (sm_closed s) \<subseteq> set (sm_closed (fold (\<lambda>p. close_part k (f p) (hd_volume p) r ts p) ps s))" for f r ts ps
  proof (induction ps arbitrary: s)
    case (Cons p ps)
    have "set (sm_closed s) \<subseteq> set (sm_closed (close_part k (f p) (hd_volume p) r ts p s))"
      by (auto simp: close_full)
    also have "\<dots> \<subseteq> set (sm_closed (fold (\<lambda>p. close_part k (f p) (hd_volume p) r ts p) ps
        (close_part k (f p) (hd_volume p) r ts p s)))" by (rule Cons.IH)
    finally show ?case by simp
  qed simp
  then show ?thesis by (simp add: halt_all_def)
qed

lemma halt_positions: "set (sm_positions (halt_all k c s)) = {}"
proof -
  have "set (sm_positions (fold (\<lambda>p. close_part k (f p) (hd_volume p) r ts p) ps s))
      = {q \<in> set (sm_positions s). hd_ticket q \<notin> hd_ticket ` set ps}" for f r ts ps
    by (induction ps arbitrary: s) (auto simp: close_full)
  then show ?thesis by (auto simp: halt_all_def)
qed

lemma stop_each:
  "set (sm_positions (fold (\<lambda>p s. if stop_hit c p then close_part k (hd_sl p) (hd_volume p) ''sl'' (c_ts c) p s else s) ps s))
    = {q \<in> set (sm_positions s). hd_ticket q \<notin> hd_ticket ` {p \<in> set ps. stop_hit c p}}"
  "set (sm_closed (fold (\<lambda>p s. if stop_hit c p then close_part k (hd_sl p) (hd_volume p) ''sl'' (c_ts c) p s else s) ps s))
    = set (sm_closed s) \<union> {closed_of (c_ts c) (filled k (hd_sl p) (hd_volume p) ''sl'' p) | p. p \<in> set ps \<and> stop_hit c p}"
  by (induction ps arbitrary: s) (auto simp: close_full)

text \<open>C36: a stop inside a bar comes before any profit of the bar. Whatever the exit manager, of the positions
  held once the bar has filled the resting orders, one whose stop the bar reaches is closed whole, at the
  stop, and is gone; one that is still there after the bar was not reached, keeps its side and entry, and
  its stop is no looser, when the manager asks for positive stops.\<close>

theorem sim_stop_first:
  assumes "books s" "sim_bar k sit c spike halted (s, m) = (s', m')"
    and "list_all asks_price (fst (sit (map as_broker (sm_positions (stop_out k c (fill_limits k c (expire c spike s))))) m))"
    and "p \<in> set (sm_positions (fill_limits k c (expire c spike s)))"
  shows "(stop_hit c p \<longrightarrow> closed_of (c_ts c) (filled k (hd_sl p) (hd_volume p) ''sl'' p) \<in> set (sm_closed s'))
    \<and> (\<forall>q\<in>set (sm_positions s'). hd_ticket q = hd_ticket p \<longrightarrow> \<not> stop_hit c p \<and> kept p q)"
proof -
  define s0 where "s0 = fill_limits k c (expire c spike s)"
  define s1 where "s1 = stop_out k c s0"
  obtain acts m1 where a: "sit (map as_broker (sm_positions s1)) m = (acts, m1)" by (meson surj_pair)
  define s2 where "s2 = fold (run_act k c) acts s1"
  define s3 where "s3 = (if halted then halt_all k c (fold (run_act k c) acts s1) else fold (run_act k c) acts s1)"
  have s3: "s3 = (if halted then halt_all k c s2 else s2)" by (simp add: s3_def s2_def)
  have d: "distinct (map hd_ticket (sm_positions s0))"
    using assms(1) by (simp add: s0_def books_positions books_fill books_expire)
  have e: "s' = s3\<lparr>sm_curve := sm_curve s3 @ [(c_ts c, sm_equity s3)]\<rparr>"
    using assms(2) by (simp add: sim_bar_def s0_def [symmetric] s1_def [symmetric] a s3_def [symmetric] Let_def)
  have p: "p \<in> set (sm_positions s0)" using assms(4) by (simp add: s0_def)
  have ok: "list_all asks_price acts" using assms(3) by (simp add: s0_def [symmetric] s1_def [symmetric] a)
  have grows: "set (sm_closed s1) \<subseteq> set (sm_closed s3)"
    using acts_closed [of s1 k c acts] halt_closed [of s2 k c] by (auto simp: s3 s2_def [symmetric])
  have "stop_hit c p \<Longrightarrow> closed_of (c_ts c) (filled k (hd_sl p) (hd_volume p) ''sl'' p) \<in> set (sm_closed s1)"
    using p stop_each(2) [of c k "sm_positions s0" s0] by (auto simp: s1_def stop_out_def)
  moreover have "\<not> stop_hit c p \<and> kept p q" if q: "q \<in> set (sm_positions s3)" "hd_ticket q = hd_ticket p" for q
  proof -
    have "q \<in> set (sm_positions s2)" using q(1) by (auto simp: s3 halt_positions split: if_splits)
    then obtain r where r: "r \<in> set (sm_positions s1)" "kept r q" 
      using acts_keep [OF ok, of q k c s1] by (auto simp: s2_def)
    then have "r \<in> set (sm_positions s0)" and n: "hd_ticket r \<notin> hd_ticket ` {p \<in> set (sm_positions s0). stop_hit c p}"
      using stop_each(1) [of c k "sm_positions s0" s0] by (auto simp: s1_def stop_out_def)
    moreover have "hd_ticket r = hd_ticket p" using r(2) q(2) by (simp add: kept_def)
    ultimately have "r = p" using d p by (auto simp: distinct_map inj_on_def)
    then show ?thesis using n p r(2) by auto
  qed
  ultimately show ?thesis using grows by (auto simp: e)
qed

text \<open>A long with its stop at 95, a bar down to 94 that closes at 110, and a manager that would take profit.\<close>

definition held_long :: "unit held" where
  "held_long = \<lparr>hd_ticket = 1, hd_dir = LONG, hd_volume = 2, hd_open = 100, hd_sl = 95, hd_opened = utc_ts 0,
     hd_tags = (), hd_placed = None, hd_fills = [], hd_pnl = 0\<rparr>"

definition one_long :: "unit sim" where
  "one_long = sim_new\<lparr>sm_positions := [held_long], sm_ticket := 1\<rparr>"

definition spiky :: candle where
  "spiky = \<lparr>c_ts = utc_ts 60000000, c_open = 100, c_high = 111, c_low = 94, c_close = 110, c_volume = 1\<rparr>"

theorem sim_stop_first_witness:
  "sm_positions (fst (sim_bar (sim_cfg_of 1 0 0 100) (\<lambda>ps m. ([PartialClose 1 2, UpdateSl 1 99], m)) spiky False False
      (one_long, ()))) = []"
proof -
  let ?k = "sim_cfg_of 1 0 0 100" and ?sit = "\<lambda>ps m. ([PartialClose 1 2, UpdateSl 1 99], m)"
  obtain s' m' where r: "sim_bar ?k ?sit spiky False False (one_long, ()) = (s', m')" by (meson surj_pair)
  have b: "books one_long" by (simp add: books_def one_long_def sim_new_def tickets_def held_long_def)
  have p: "held_long \<in> set (sm_positions (fill_limits ?k spiky (expire spiky False one_long)))"
    by (simp add: fill_limits_def expire_def one_long_def)
  have h: "stop_hit spiky held_long" by (simp add: stop_hit_def spiky_def held_long_def)
  have "list_all (\<lambda>q. hd_ticket q \<noteq> 1) (sm_positions s')"
    using sim_stop_first [OF b r _ p] h by (auto simp: asks_price_def list_all_iff held_long_def)
  moreover have "list_all (\<lambda>q. hd_ticket q = 1) (sm_positions s')"
    using r by (auto simp: sim_bar_def fill_limits_def expire_def stop_out_def one_long_def sim_new_def h close_full run_act_def
        find_held_def drop_held_def Let_def)
  ultimately show ?thesis using r by (cases "sm_positions s'") (auto)
qed

section \<open>Two summaries\<close>

lemma utc_stamp [simp]: "utc_us (stamp_of t) = utc t" "\<not> naive (stamp_of t)"
  by (simp_all add: utc_us_def stamp_of_def utc_def naive_def)

lemma from_sim_dicts:
  "\<exists>rs. from_sim cv (map sim_dict ts) = Inr rs \<and> map ar_pnl rs = map cl_pnl ts
     \<and> map ar_close rs = map (\<lambda>t. stamp_of (cl_close_ts t)) ts"
proof (induction ts)
  case (Cons t ts)
  have "\<exists>r. record_of cv (sim_dict t) = Inr (Some r) \<and> ar_pnl r = cl_pnl t \<and> ar_close r = stamp_of (cl_close_ts t)"
    by (auto simp: record_of_def sim_dict_def oget_def iterate_fills_def to_float_def and_then_def split: prod.splits)
  then show ?case using Cons by auto
qed simp

lemma dd_shift:
  "fa_eq a = b + eq \<Longrightarrow> fa_peak a = b + peak \<Longrightarrow> fa_abs a = dd
     \<Longrightarrow> fa_abs (fold fall_step rs a) = snd (snd (fold dd_step (map ar_pnl rs) (eq, peak, dd)))"
proof (induction rs arbitrary: a eq peak dd)
  case (Cons r rs)
  define eq1 where "eq1 = eq + ar_pnl r"
  define peak1 where "peak1 = max peak eq1"
  have e: "fa_eq a + ar_pnl r = b + eq1" using Cons.prems by (simp add: eq1_def)
  have p: "max (fa_peak a) (b + eq1) = b + peak1" using Cons.prems by (simp add: peak1_def max_add_distrib_right)
  have st: "fall_step r a = (if peak1 - eq1 > dd
      then \<lparr>fa_eq = b + eq1, fa_peak = b + peak1, fa_abs = peak1 - eq1,
        fa_pct = (if b + peak1 > 0 then (peak1 - eq1) / (b + peak1) * 100 else 0)\<rparr>
      else a\<lparr>fa_eq := b + eq1, fa_peak := b + peak1\<rparr>)"
    by (simp add: fall_step_def Let_def e p Cons.prems(3))
  have "fa_eq (fall_step r a) = b + eq1" "fa_peak (fall_step r a) = b + peak1"
    "fa_abs (fall_step r a) = max dd (peak1 - eq1)"
    using Cons.prems(3) by (auto simp: st)
  then show ?case using Cons.IH by (simp add: dd_step_def Let_def eq1_def [symmetric] peak1_def [symmetric])
qed simp

lemma compute_stats_basic:
  assumes "by_close rs = Inr curve"
  shows "\<exists>p. compute_stats sqroot b rs = Inr p \<and> pf_n p = length rs \<and> pf_net p = total_pnl rs
    \<and> pf_trade_win_pct p = (if rs \<noteq> [] then 100 * of_nat (length (wins_of rs)) / of_nat (length rs) else 0)
    \<and> pf_expectancy p = (if rs \<noteq> [] then total_pnl rs / of_nat (length rs) else 0)
    \<and> pf_max_dd_abs p = fa_abs (drawdown b curve)"
  by (simp add: compute_stats_def assms and_then_def Let_def)

text \<open>The two summaries of a study agree. On trades in order of closing, which is how the simulator
  lists them, the script's own metrics and the analytics of the same trades, read back from their
  dictionaries, give the same count, profit, win rate, mean and drawdown, whatever balance either
  starts from.\<close>

theorem two_summaries_agree:
  assumes "sorted (map (\<lambda>t. utc (cl_close_ts t)) ts)"
  shows "case from_sim cv (map sim_dict ts) of Inl e \<Rightarrow> False
    | Inr rs \<Rightarrow> (case compute_stats sqroot balance rs of Inl e \<Rightarrow> False
        | Inr p \<Rightarrow> pf_n p = mt_n (metrics start ts) \<and> pf_net p = mt_pnl (metrics start ts)
            \<and> pf_trade_win_pct p = mt_win (metrics start ts) \<and> pf_expectancy p = mt_avg (metrics start ts)
            \<and> pf_max_dd_abs p = mt_dd (metrics start ts))"
proof -
  obtain rs where rs: "from_sim cv (map sim_dict ts) = Inr rs" and pnl: "map ar_pnl rs = map cl_pnl ts"
    and cl: "map ar_close rs = map (\<lambda>t. stamp_of (cl_close_ts t)) ts"
    using from_sim_dicts by blast
  have len: "length rs = length ts" using arg_cong [OF pnl, of length] by simp
  have "map (\<lambda>r. utc_us (ar_close r)) rs = map utc_us (map ar_close rs)" by simp
  also have "\<dots> = map (\<lambda>t. utc (cl_close_ts t)) ts" unfolding cl by simp
  finally have "sort_key (\<lambda>r. utc_us (ar_close r)) rs = rs" using assms by (simp add: sort_key_id_if_sorted)
  moreover have "list_ex (\<lambda>r. naive (ar_close r)) rs = list_ex naive (map ar_close rs)" by (simp add: list_ex_iff)
  then have "\<not> list_ex (\<lambda>r. naive (ar_close r)) rs" unfolding cl by (simp add: list_ex_iff)
  ultimately have c: "by_close rs = Inr rs" by (simp add: by_close_def)
  have dd: "fa_abs (drawdown balance rs) = snd (snd (fold dd_step (map cl_pnl ts) (0, 0, 0)))"
    unfolding drawdown_def pnl [symmetric] by (rule dd_shift [where b = balance]) simp_all
  have w: "wins_of rs = filter (\<lambda>p. p > 0) (map cl_pnl ts)" by (simp only: wins_of_def pnl)
  have n: "total_pnl rs = sum_list (map cl_pnl ts)" by (simp only: total_pnl_def pnl)
  obtain p where p: "compute_stats sqroot balance rs = Inr p" "pf_n p = length rs" "pf_net p = total_pnl rs"
    "pf_trade_win_pct p = (if rs \<noteq> [] then 100 * of_nat (length (wins_of rs)) / of_nat (length rs) else 0)"
    "pf_expectancy p = (if rs \<noteq> [] then total_pnl rs / of_nat (length rs) else 0)"
    "pf_max_dd_abs p = fa_abs (drawdown balance rs)"
    using compute_stats_basic [OF c] by blast
  have e: "rs = [] \<longleftrightarrow> ts = []" using len by auto
  show ?thesis by (simp add: rs p e len n w dd metrics_def Let_def)
qed

definition lost_and_won :: "unit closed list" where
  "lost_and_won = (let t = \<lparr>cl_ticket = 1, cl_dir = LONG, cl_entry = 100, cl_open_ts = utc_ts 0, cl_signal_ts = None,
     cl_close_ts = utc_ts 60, cl_pnl = -3, cl_fills = [], cl_tags = ()\<rparr>
   in [t, t\<lparr>cl_ticket := 2, cl_close_ts := utc_ts 120, cl_pnl := 5\<rparr>])"

definition no_texts :: convert where
  "no_texts = \<lparr>cv_float = (\<lambda>_. None), cv_str = (\<lambda>_. [])\<rparr>"

theorem two_summaries_agree_witness:
  "case from_sim no_texts (map sim_dict lost_and_won) of Inl e \<Rightarrow> False
    | Inr rs \<Rightarrow> (case compute_stats (\<lambda>x. x / 2) 1000 rs of Inl e \<Rightarrow> False
        | Inr p \<Rightarrow> pf_n p = 2 \<and> pf_net p = 2 \<and> pf_max_dd_abs p = 3)"
proof -
  have "sorted (map (\<lambda>t. utc (cl_close_ts t)) lost_and_won)" by (simp add: lost_and_won_def Let_def utc_def utc_ts_def)
  then show ?thesis using two_summaries_agree [where ts = lost_and_won and cv = no_texts and sqroot = "\<lambda>x. x / 2" and balance = 1000 and start = 1000]
    by (auto simp: metrics_def dd_step_def lost_and_won_def Let_def split: sum.splits)
qed

section \<open>Aggregation\<close>

lemma join_fold: "join_bar = bucket_fold"
  by (intro ext) (simp add: join_bar_def bucket_fold_def)

definition slot :: "int \<Rightarrow> timestamp \<Rightarrow> int" where
  "slot m t = 1440 * date_of t + (minute_of_day t - minute_of_day t mod m)"

lemma floor_bucket:
  assumes "tz_off t = 0" "0 < m" "m \<le> 1440"
  shows "floor_ts m t = bucket_open (bucket_key m t)" "utc (floor_ts m t) = us_min * slot m t"
proof -
  have "m = 1440 \<Longrightarrow> minute_of_day t mod m = minute_of_day t" using minute_of_day_bounds [of t] by simp
  then show "floor_ts m t = bucket_open (bucket_key m t)" using assms(1)
    by (auto simp: floor_ts_def bucket_open_def bucket_key_def utc_ts_def Let_def intro: timestamp.equality)
  show "utc (floor_ts m t) = us_min * slot m t" using assms(1)
    by (simp add: floor_ts_def utc_def Let_def slot_def us_day_def us_min_def algebra_simps)
qed

lemma slot_part: "0 < m \<Longrightarrow> 0 \<le> minute_of_day t - minute_of_day t mod m \<and> minute_of_day t - minute_of_day t mod m \<le> 1439"
proof -
  assume m: "0 < m"
  have "0 \<le> minute_of_day t mod m" "minute_of_day t mod m \<le> minute_of_day t"
    using m minute_of_day_bounds [of t] by (simp_all add: zmod_le_nonneg_dividend)
  then show ?thesis using minute_of_day_bounds [of t] by linarith
qed

lemma mixed_radix:
  fixes d d' a b :: int
  assumes "0 \<le> a" "a \<le> 1439" "0 \<le> b" "b \<le> 1439"
  shows "1440 * d + a = 1440 * d' + b \<longleftrightarrow> d = d' \<and> a = b"
  using assms by (cases d d' rule: linorder_cases) auto

lemma slot_key:
  assumes "0 < m" "m \<le> 1440"
  shows "slot m t = slot m t' \<longleftrightarrow> bucket_key m t = bucket_key m t'"
proof -
  define a b where "a = minute_of_day t - minute_of_day t mod m" and "b = minute_of_day t' - minute_of_day t' mod m"
  have r: "0 \<le> a" "a \<le> 1439" "0 \<le> b" "b \<le> 1439" using slot_part [OF assms(1)] by (simp_all add: a_def b_def)
  have z: "m = 1440 \<Longrightarrow> a = 0 \<and> b = 0"
    using minute_of_day_bounds [of t] minute_of_day_bounds [of t'] by (simp add: a_def b_def)
  note k = mixed_radix [OF r, of "date_of t" "date_of t'"]
  show ?thesis using z k by (auto simp: slot_def bucket_key_def a_def [symmetric] b_def [symmetric])
qed

lemma slot_mono:
  assumes "0 < m" "local_us t \<le> local_us t'"
  shows "slot m t \<le> slot m t'"
proof (cases "date_of t = date_of t'")
  case True
  have "local_us t mod us_day = local_us t - us_day * date_of t" "local_us t' mod us_day = local_us t' - us_day * date_of t'"
    by (simp_all add: date_of_def minus_mult_div_eq_mod)
  then have "minute_of_day t \<le> minute_of_day t'"
    using assms(2) True unfolding minute_of_day_def by (intro zdiv_mono1) (simp_all add: us_min_def)
  then have "m * (minute_of_day t div m) \<le> m * (minute_of_day t' div m)"
    using assms(1) by (intro mult_left_mono zdiv_mono1) simp_all
  then show ?thesis using True by (simp add: slot_def minus_mod_eq_mult_div)
next
  case False
  have "date_of t \<le> date_of t'" unfolding date_of_def by (rule zdiv_mono1 [OF assms(2)]) (simp add: us_day_def)
  then have "date_of t + 1 \<le> date_of t'" using False by simp
  then show ?thesis using slot_part [OF assms(1), of t] slot_part [OF assms(1), of t'] by (simp add: slot_def)
qed

definition utc_bars :: "candle list \<Rightarrow> bool" where
  "utc_bars cs \<longleftrightarrow> list_all (\<lambda>c. tz_off (c_ts c) = 0) cs \<and> sorted (map (\<lambda>c. local_us (c_ts c)) cs)"

lemma agg_steps:
  assumes m: "0 < m" "m \<le> 1440"
  shows "utc_bars (c0 # cs) \<Longrightarrow> c_ts b = floor_ts m (c_ts c0) \<Longrightarrow> k = bucket_key m (c_ts c0)
    \<Longrightarrow> fold (agg_step m) cs (out, Some b) = (out @ fst (agg_run cs \<lparr>ag_minutes = m, ag_dev = Some (k, b)\<rparr>),
          developing (snd (agg_run cs \<lparr>ag_minutes = m, ag_dev = Some (k, b)\<rparr>)))"
proof (induction cs arbitrary: c0 b k out)
  case Nil
  then show ?case by (simp add: developing_def)
next
  case (Cons c cs)
  have z: "tz_off (c_ts c) = 0" "tz_off (c_ts c0) = 0" "local_us (c_ts c0) \<le> local_us (c_ts c)" "utc_bars (c # cs)"
    using Cons.prems(1) by (simp_all add: utc_bars_def)
  have kc: "utc (floor_ts m (c_ts c)) = us_min * slot m (c_ts c)" "utc (c_ts b) = us_min * slot m (c_ts c0)"
    using floor_bucket(2) [OF z(1) m] floor_bucket(2) [OF z(2) m] Cons.prems(2) by simp_all
  have le: "slot m (c_ts c0) \<le> slot m (c_ts c)" by (rule slot_mono [OF m(1) z(3)])
  show ?case
  proof (cases "bucket_key m (c_ts c) = k")
    case True
    then have "slot m (c_ts c) = slot m (c_ts c0)" using slot_key [OF m] Cons.prems(3) by simp
    then have "agg_step m c (out, Some b) = (out, Some (bucket_fold b c))"
      by (simp add: agg_step_def Let_def kc join_fold)
    moreover have "c_ts (bucket_fold b c) = floor_ts m (c_ts c)"
      using Cons.prems(2,3) True floor_bucket(1) [OF z(1) m] floor_bucket(1) [OF z(2) m] by (simp add: bucket_fold_def)
    ultimately show ?thesis using Cons.IH [OF z(4), of "bucket_fold b c" k out] True
      by (simp add: agg_update_def Let_def)
  next
    case False
    then have "slot m (c_ts c0) < slot m (c_ts c)" using slot_key [OF m] Cons.prems(3) le by (metis order_less_le)
    then have "agg_step m c (out, Some b) = (out @ [b], Some (c\<lparr>c_ts := floor_ts m (c_ts c)\<rparr>))"
      by (simp add: agg_step_def Let_def kc us_min_def)
    moreover have "c\<lparr>c_ts := floor_ts m (c_ts c)\<rparr> = bucket_start (bucket_key m (c_ts c)) c"
      by (simp add: bucket_start_def floor_bucket(1) [OF z(1) m])
    ultimately have "agg_step m c (out, Some b) = (out @ [b], Some (bucket_start (bucket_key m (c_ts c)) c))" by simp
    moreover have "c_ts (bucket_start (bucket_key m (c_ts c)) c) = floor_ts m (c_ts c)"
      by (simp add: bucket_start_def floor_bucket(1) [OF z(1) m])
    ultimately show ?thesis
      using Cons.IH [OF z(4), of "bucket_start (bucket_key m (c_ts c)) c" "bucket_key m (c_ts c)" "out @ [b]"] False
      by (simp add: agg_update_def Let_def split: prod.splits)
  qed
qed

text \<open>C37: studies see the candles the live engine sees. On UTC bars in order of time, the script's
  aggregation to any timeframe of two minutes up to a day gives exactly the candles the streaming
  aggregator of the Smart Money engine closes, followed by the one it is still building.\<close>

theorem aggregations_agree:
  assumes "1 < m" "m \<le> 1440" "utc_bars cs"
  shows "aggregate_candles m cs = fst (agg_run cs (agg_new m))
     @ (case developing (snd (agg_run cs (agg_new m))) of None \<Rightarrow> [] | Some b \<Rightarrow> [b])"
proof (cases cs)
  case Nil
  then show ?thesis using assms(1) by (simp add: aggregate_candles_def agg_new_def developing_def)
next
  case (Cons c cs')
  have m: "0 < m" "m \<le> 1440" using assms by simp_all
  have z: "tz_off (c_ts c) = 0" using assms(3) by (simp add: utc_bars_def Cons)
  define b where "b = bucket_start (bucket_key m (c_ts c)) c"
  have b: "c_ts b = floor_ts m (c_ts c)" by (simp add: b_def bucket_start_def floor_bucket(1) [OF z m])
  have "agg_step m c ([], None) = ([], Some b)"
    by (simp add: agg_step_def Let_def b_def bucket_start_def floor_bucket(1) [OF z m])
  moreover have "agg_run cs (agg_new m) = agg_run cs' \<lparr>ag_minutes = m, ag_dev = Some (bucket_key m (c_ts c), b)\<rparr>"
    by (simp add: Cons agg_new_def agg_update_def Let_def b_def split: prod.splits)
  ultimately show ?thesis
    using agg_steps [OF m, of c cs' b "bucket_key m (c_ts c)" "[]"] assms(1,3) b by (simp add: aggregate_candles_def Cons)
qed

definition minute_bar :: "int \<Rightarrow> flt \<Rightarrow> candle" where
  "minute_bar n px = \<lparr>c_ts = utc_ts (n * us_min), c_open = px, c_high = px, c_low = px, c_close = px, c_volume = 1\<rparr>"

theorem aggregations_agree_witness:
  "length (aggregate_candles 5 [minute_bar 3 10, minute_bar 4 12, minute_bar 5 11]) = 2"
proof -
  have "utc_bars [minute_bar 3 10, minute_bar 4 12, minute_bar 5 11]"
    by (simp add: utc_bars_def minute_bar_def utc_ts_def us_min_def)
  then show ?thesis using aggregations_agree [of 5 "[minute_bar 3 10, minute_bar 4 12, minute_bar 5 11]"]
    by (simp add: agg_new_def agg_update_def developing_def Let_def minute_bar_def bucket_key_def utc_ts_def
        date_of_def minute_of_day_def us_min_def us_day_def)
qed

end
