(* ===== verification/Sweep_Study.thy ===== *)
theory Sweep_Study
  imports Simulator Smc_Market
begin

text \<open>
  \<open>scripts/backtest_sweep.py\<close>: the sweep-and-reclaim study. A tracker of the last completed
  higher-timeframe candle (\<open>HtfErl\<close>), a simulator of one position at a time (\<open>SweepSim\<close>) and the
  loop that finds sweeps, sizes them and rests or takes the entry. The grid over timeframes and
  ratios and its printed tables are left out.
\<close>

section \<open>The last completed candle's extremes\<close>

record erl =
  er_minutes :: int
  er_key :: "(int \<times> int) option"
  er_hi :: flt
  er_lo :: flt
  er_prev :: "(flt \<times> flt) option"

definition erl_new :: "int \<Rightarrow> erl" where
  "erl_new m = \<lparr>er_minutes = m, er_key = None, er_hi = 0, er_lo = 0, er_prev = None\<rparr>"

definition erl_key :: "int \<Rightarrow> timestamp \<Rightarrow> int \<times> int" where
  "erl_key m t = (let mins = minute_of_day t in (date_of t, mins - mins mod m))"

text \<open>The previous pair is set whole: high and low are missing together.\<close>

definition erl_update :: "candle \<Rightarrow> erl \<Rightarrow> erl" where
  "erl_update c e = (let key = erl_key (er_minutes e) (c_ts c) in
     if er_key e = None then e\<lparr>er_key := Some key, er_hi := c_high c, er_lo := c_low c\<rparr>
     else if Some key = er_key e then e\<lparr>er_hi := max (er_hi e) (c_high c), er_lo := min (er_lo e) (c_low c)\<rparr>
     else e\<lparr>er_prev := Some (er_hi e, er_lo e), er_key := Some key, er_hi := c_high c, er_lo := c_low c\<rparr>)"

section \<open>One position\<close>

record sweep_pos =
  sp_side :: direction
  sp_entry :: flt
  sp_sl :: flt
  sp_tp :: flt
  sp_risk0 :: flt
  sp_vol :: flt
  sp_opened :: timestamp
  sp_reason :: string
  sp_partialed :: bool
  sp_pnl :: flt

record sweep_pend =
  sd_side :: direction
  sd_px :: flt
  sd_sl :: flt
  sd_placed :: timestamp
  sd_reason :: string

record sweep_closed =
  sx_dir :: direction
  sx_entry :: flt
  sx_open :: timestamp
  sx_close :: timestamp
  sx_pnl :: flt
  sx_reason :: string

record sweep_cfg =
  sg_half :: flt
  sg_comm :: flt
  sg_vpm :: flt
  sg_partial :: bool

record sweep_sim =
  ss_equity :: flt
  ss_pos :: "sweep_pos option"
  ss_closed :: "sweep_closed list"

definition side_sign :: "direction \<Rightarrow> flt" where
  "side_sign d = (case d of LONG \<Rightarrow> 1 | SHORT \<Rightarrow> -1)"

definition sweep_close :: "sweep_cfg \<Rightarrow> flt \<Rightarrow> flt \<Rightarrow> timestamp \<Rightarrow> sweep_pos \<Rightarrow> sweep_sim \<Rightarrow> sweep_sim" where
  "sweep_close k px vol ts p s =
    (let pnl = side_sign (sp_side p) * (px - sp_entry p) * vol * sg_vpm k - sg_comm k * vol;
         q = p\<lparr>sp_pnl := sp_pnl p + pnl, sp_vol := round_dp 8 (sp_vol p - vol)\<rparr>;
         s1 = s\<lparr>ss_equity := ss_equity s + pnl\<rparr>
     in if sp_vol q \<le> 1 / 10 ^ 9
        then s1\<lparr>ss_closed := ss_closed s @ [\<lparr>sx_dir = sp_side q, sx_entry = sp_entry q, sx_open = sp_opened q,
               sx_close = ts, sx_pnl = sp_pnl q, sx_reason = sp_reason q\<rparr>], ss_pos := None\<rparr>
        else s1\<lparr>ss_pos := Some q\<rparr>)"

text \<open>\<open>SweepSim.manage_exits\<close>: the stop, then seven tenths at twice the risk, then the target.\<close>

definition take_partial :: "sweep_cfg \<Rightarrow> candle \<Rightarrow> sweep_pos \<Rightarrow> sweep_sim \<Rightarrow> sweep_sim" where
  "take_partial k c p s =
    (let long = (sp_side p = LONG);
         tp2r = (if long then sp_entry p + 2 * sp_risk0 p else sp_entry p - 2 * sp_risk0 p);
         reached = (if long then tp2r < sp_tp p \<and> c_high c \<ge> tp2r else tp2r > sp_tp p \<and> c_low c \<le> tp2r)
     in if sg_partial k \<and> \<not> sp_partialed p \<and> reached
        then let s1 = sweep_close k (if long then tp2r - sg_half k else tp2r + sg_half k)
                   (round_dp 8 (sp_vol p * (7 / 10))) (c_ts c) p s
             in s1\<lparr>ss_pos := map_option (\<lambda>q. q\<lparr>sp_partialed := True\<rparr>) (ss_pos s1)\<rparr>
        else s)"

definition take_target :: "sweep_cfg \<Rightarrow> candle \<Rightarrow> sweep_sim \<Rightarrow> sweep_sim" where
  "take_target k c s = (case ss_pos s of None \<Rightarrow> s
     | Some p \<Rightarrow> if sp_side p = LONG
         then (if c_high c \<ge> sp_tp p then sweep_close k (sp_tp p - sg_half k) (sp_vol p) (c_ts c) p s else s)
         else (if c_low c \<le> sp_tp p then sweep_close k (sp_tp p + sg_half k) (sp_vol p) (c_ts c) p s else s))"

definition sweep_stopped :: "candle \<Rightarrow> sweep_pos \<Rightarrow> bool" where
  "sweep_stopped c p = (if sp_side p = LONG then c_low c \<le> sp_sl p else c_high c \<ge> sp_sl p)"

definition manage_exits :: "sweep_cfg \<Rightarrow> candle \<Rightarrow> sweep_sim \<Rightarrow> sweep_sim" where
  "manage_exits k c s = (case ss_pos s of None \<Rightarrow> s
     | Some p \<Rightarrow> if sweep_stopped c p
         then sweep_close k (if sp_side p = LONG then sp_sl p - sg_half k else sp_sl p + sg_half k) (sp_vol p) (c_ts c) p s
         else take_target k c (take_partial k c p s))"

definition sweep_flatten :: "sweep_cfg \<Rightarrow> candle \<Rightarrow> sweep_sim \<Rightarrow> sweep_sim" where
  "sweep_flatten k c s = (case ss_pos s of None \<Rightarrow> s
     | Some p \<Rightarrow> sweep_close k (if sp_side p = LONG then c_close c - sg_half k else c_close c + sg_half k)
         (sp_vol p) (c_ts c) p s)"

section \<open>The study\<close>

record sweep_args =
  wa_htf :: int
  wa_rr :: flt
  wa_market :: bool
  wa_bias :: bool
  wa_spread :: flt
  wa_comm :: flt
  wa_risk :: flt
  wa_start :: flt
  wa_daily_pct :: flt
  wa_stop_buf :: flt
  wa_ttl :: flt
  wa_vpm :: flt
  wa_vol_min :: flt
  wa_vol_step :: flt
  wa_vol_max :: flt
  wa_partial :: bool

definition sweep_cfg_of :: "sweep_args \<Rightarrow> sweep_cfg" where
  "sweep_cfg_of a = \<lparr>sg_half = wa_spread a / 2, sg_comm = wa_comm a, sg_vpm = wa_vpm a, sg_partial = wa_partial a\<rparr>"

record sweep_bench =
  wb_erl :: erl
  wb_topen :: true_opens
  wb_breaker :: breaker
  wb_sim :: sweep_sim
  wb_pend :: "sweep_pend option"

text \<open>A fill at half a spread beyond the price: refused with the stop on the wrong side or no lot left.\<close>

definition sweep_open :: "sweep_args \<Rightarrow> flt \<Rightarrow> breaker \<Rightarrow> candle \<Rightarrow> direction \<Rightarrow> flt \<Rightarrow> flt \<Rightarrow> string
    \<Rightarrow> sweep_sim \<Rightarrow> sweep_sim" where
  "sweep_open a bal br c d px sl reason s =
    (let half = wa_spread a / 2; fill = (if d = LONG then px + half else px - half);
         risk = (if d = LONG then fill - sl else sl - fill)
     in if risk > 0
        then let remaining = max 0 (db_cap br + day_pnl br);
                 lot = compute_lot bal (wa_risk a) fill sl (wa_vpm a) (wa_vol_min a) (wa_vol_step a) (wa_vol_max a)
                   (Some remaining)
             in if lot > 0
                then s\<lparr>ss_pos := Some \<lparr>sp_side = d, sp_entry = fill, sp_sl = sl,
                   sp_tp = (if d = LONG then fill + wa_rr a * risk else fill - wa_rr a * risk), sp_risk0 = risk,
                   sp_vol = lot, sp_opened = c_ts c, sp_reason = reason, sp_partialed = False, sp_pnl = 0\<rparr>\<rparr>
                else s
        else s)"

definition fill_pend :: "sweep_args \<Rightarrow> flt \<Rightarrow> breaker \<Rightarrow> candle \<Rightarrow> sweep_pend option \<times> sweep_sim
    \<Rightarrow> sweep_pend option \<times> sweep_sim" where
  "fill_pend a bal br c ps = (case fst ps of None \<Rightarrow> ps
     | Some p \<Rightarrow> let age = secs_between (c_ts c) (sd_placed p) in
         if age \<ge> wa_ttl a then (None, snd ps)
         else if age > 0 \<and> ss_pos (snd ps) = None
              \<and> (if sd_side p = LONG then c_low c \<le> sd_px p else c_high c \<ge> sd_px p)
         then (None, sweep_open a bal br c (sd_side p) (sd_px p) (sd_sl p) (sd_reason p) (snd ps))
         else ps)"

text \<open>A sweep of the last candle's low that closes back above it, or of its high that closes below; a long
  comes first. The stop goes beyond the wick.\<close>

definition sweep_signal :: "sweep_args \<Rightarrow> (flt \<times> flt) option \<Rightarrow> true_opens \<Rightarrow> candle
    \<Rightarrow> (direction \<times> flt \<times> flt \<times> string) option" where
  "sweep_signal a prev l c = (case prev of None \<Rightarrow> None
     | Some (hi, lo) \<Rightarrow>
         if c_low c < lo \<and> c_close c > lo \<and> (\<not> wa_bias a \<or> to_bias (c_close c) l = Some ''bullish'')
         then Some (LONG, lo, c_low c - wa_stop_buf a, ''sweep_low_reclaim'')
         else if c_high c > hi \<and> c_close c < hi \<and> (\<not> wa_bias a \<or> to_bias (c_close c) l = Some ''bearish'')
         then Some (SHORT, hi, c_high c + wa_stop_buf a, ''sweep_high_reclaim'')
         else None)"

definition act_on_sweep :: "sweep_args \<Rightarrow> flt \<Rightarrow> breaker \<Rightarrow> candle \<Rightarrow> direction \<times> flt \<times> flt \<times> string
    \<Rightarrow> sweep_pend option \<times> sweep_sim \<Rightarrow> sweep_pend option \<times> sweep_sim" where
  "act_on_sweep a bal br c sig ps = (case sig of (d, level, sl, reason) \<Rightarrow>
     if wa_market a then (fst ps, sweep_open a bal br c d (c_close c) sl reason (snd ps))
     else (Some \<lparr>sd_side = d, sd_px = level, sd_sl = sl, sd_placed = c_ts c, sd_reason = reason\<rparr>, snd ps))"

definition sweep_bar :: "(int \<Rightarrow> int) \<Rightarrow> sweep_args \<Rightarrow> candle \<Rightarrow> sweep_bench \<Rightarrow> sweep_bench" where
  "sweep_bar ny a c b =
    (let k = sweep_cfg_of a; e = erl_update c (wb_erl b); l = trueopen_update ny c (wb_topen b);
         bal = wa_start a + ss_equity (wb_sim b);
         (halted, br) = breaker_update (date_of (c_ts c)) bal (wb_breaker b);
         s1 = manage_exits k c (wb_sim b);
         ps1 = (if halted then (None, sweep_flatten k c s1) else fill_pend a bal br c (wb_pend b, s1));
         ps2 = (case sweep_signal a (er_prev e) l c of None \<Rightarrow> ps1
           | Some sig \<Rightarrow> if \<not> halted \<and> ss_pos (snd ps1) = None \<and> fst ps1 = None
               then act_on_sweep a bal br c sig ps1 else ps1)
     in \<lparr>wb_erl = e, wb_topen = l, wb_breaker = br, wb_sim = snd ps2, wb_pend = fst ps2\<rparr>)"

definition sweep_start :: "sweep_args \<Rightarrow> breaker \<Rightarrow> sweep_bench" where
  "sweep_start a br = \<lparr>wb_erl = erl_new (wa_htf a), wb_topen = trueopen_new, wb_breaker = br,
     wb_sim = \<lparr>ss_equity = 0, ss_pos = None, ss_closed = []\<rparr>, wb_pend = None\<rparr>"

text \<open>The constructors first, then the bars; the bucket of a bar divides by the timeframe.\<close>

definition run_sweep :: "(int \<Rightarrow> int) \<Rightarrow> sweep_args \<Rightarrow> candle list \<Rightarrow> run_fault + sweep_bench" where
  "run_sweep ny a cs = or_fault (breaker_init None (Some (wa_daily_pct a))) (\<lambda>br.
     if cs \<noteq> [] \<and> wa_htf a = 0 then Inl ZeroDivisionError
     else Inr (fold (sweep_bar ny a) cs (sweep_start a br)))"

end
