(* ===== verification/Sweep_Properties.thy ===== *)
theory Sweep_Properties
  imports Sweep_Study Guard_Properties Smc_Market_Properties
begin

text \<open>
  What the sweep study promises: the liquidity level it trades is the last candle the live aggregator
  closes, and a trade loses no more than its sizing allowed plus the costs of trading.
\<close>

section \<open>The level\<close>

definition last_candle :: "candle list \<Rightarrow> (flt \<times> flt) option" where
  "last_candle xs = (if xs = [] then None else Some (c_high (List.last xs), c_low (List.last xs)))"

lemma erl_key_bucket: "0 < m \<Longrightarrow> m \<le> 1440 \<Longrightarrow> erl_key m t = bucket_key m t"
  using minute_of_day_bounds [of t] by (auto simp: erl_key_def bucket_key_def Let_def)

lemma erl_steps:
  assumes m: "0 < m" "m \<le> 1440"
  shows "er_minutes e = m \<Longrightarrow> er_key e = Some k \<Longrightarrow> er_hi e = c_high b \<Longrightarrow> er_lo e = c_low b
    \<Longrightarrow> er_prev (fold erl_update cs e) = (case last_candle (fst (agg_run cs \<lparr>ag_minutes = m, ag_dev = Some (k, b)\<rparr>)) of
          None \<Rightarrow> er_prev e | Some x \<Rightarrow> Some x)"
proof (induction cs arbitrary: e k b)
  case Nil
  then show ?case by (simp add: last_candle_def)
next
  case (Cons c cs)
  define key where "key = bucket_key m (c_ts c)"
  have key: "erl_key m (c_ts c) = key" unfolding key_def by (rule erl_key_bucket [OF m])
  show ?case
  proof (cases "key = k")
    case True
    then have st: "erl_update c e = e\<lparr>er_hi := max (c_high b) (c_high c), er_lo := min (c_low b) (c_low c)\<rparr>"
      using Cons.prems key by (simp add: erl_update_def)
    have "er_prev (fold erl_update cs (erl_update c e))
        = (case last_candle (fst (agg_run cs \<lparr>ag_minutes = m, ag_dev = Some (k, bucket_fold b c)\<rparr>)) of
            None \<Rightarrow> er_prev (erl_update c e) | Some x \<Rightarrow> Some x)"
      by (rule Cons.IH) (use Cons.prems True key in \<open>simp_all add: st bucket_fold_def\<close>)
    moreover have "er_prev (erl_update c e) = er_prev e" by (simp add: st)
    ultimately show ?thesis using Cons.prems True
      by (simp add: agg_update_def key_def [symmetric] Let_def split: option.splits)
  next
    case False
    then have st: "erl_update c e = e\<lparr>er_prev := Some (c_high b, c_low b), er_key := Some key, er_hi := c_high c,
        er_lo := c_low c\<rparr>" using Cons.prems key by (simp add: erl_update_def)
    have "er_prev (fold erl_update cs (erl_update c e))
        = (case last_candle (fst (agg_run cs \<lparr>ag_minutes = m, ag_dev = Some (key, bucket_start key c)\<rparr>)) of
            None \<Rightarrow> er_prev (erl_update c e) | Some x \<Rightarrow> Some x)"
      by (rule Cons.IH) (use Cons.prems False key in \<open>simp_all add: st bucket_start_def\<close>)
    then show ?thesis using Cons.prems False
      by (auto simp: agg_update_def key_def [symmetric] st last_candle_def Let_def split: prod.splits)
  qed
qed

text \<open>The study sweeps the level the live engine would see. On any bars, the tracked high and low are those
  of the last candle the streaming aggregator has closed, and there are none before it closes one.\<close>

theorem erl_is_last_candle:
  assumes "0 < m" "m \<le> 1440"
  shows "er_prev (fold erl_update cs (erl_new m)) = last_candle (fst (agg_run cs (agg_new m)))"
proof (cases cs)
  case Nil
  then show ?thesis by (simp add: erl_new_def agg_new_def last_candle_def)
next
  case (Cons c cs')
  define key where "key = bucket_key m (c_ts c)"
  have key: "erl_key m (c_ts c) = key" unfolding key_def by (rule erl_key_bucket [OF assms])
  define e where "e = erl_update c (erl_new m)"
  have e: "er_minutes e = m" "er_key e = Some key" "er_hi e = c_high (bucket_start key c)"
    "er_lo e = c_low (bucket_start key c)" "er_prev e = None"
    using key by (simp_all add: e_def erl_update_def erl_new_def bucket_start_def)
  have "agg_run cs (agg_new m) = agg_run cs' \<lparr>ag_minutes = m, ag_dev = Some (key, bucket_start key c)\<rparr>"
    by (simp add: Cons agg_new_def agg_update_def Let_def key_def split: prod.splits)
  then show ?thesis using erl_steps [OF assms e(1-4), of cs'] e(5)
    by (simp add: Cons e_def [symmetric] split: option.splits)
qed

definition hour_bar :: "int \<Rightarrow> flt \<Rightarrow> flt \<Rightarrow> candle" where
  "hour_bar h hi lo = \<lparr>c_ts = utc_ts (h * 60 * us_min), c_open = lo, c_high = hi, c_low = lo, c_close = hi, c_volume = 1\<rparr>"

theorem erl_is_last_candle_witness:
  "er_prev (fold erl_update [hour_bar 0 12 10, hour_bar 1 14 11, hour_bar 4 9 8] (erl_new 240)) = Some (14, 10)"
  using erl_is_last_candle [of 240 "[hour_bar 0 12 10, hour_bar 1 14 11, hour_bar 4 9 8]"]
  by (simp add: agg_new_def agg_update_def bucket_fold_def bucket_start_def Let_def hour_bar_def bucket_key_def utc_ts_def
      date_of_def minute_of_day_def us_min_def us_day_def last_candle_def)

section \<open>The loss\<close>

text \<open>What one lot of a position loses at its stop, half a spread and the commission included.\<close>

definition unit_loss :: "sweep_args \<Rightarrow> sweep_pos \<Rightarrow> flt" where
  "unit_loss a p = (sp_risk0 p + wa_spread a / 2) * wa_vpm a + wa_comm a"

definition costs_ok :: "sweep_args \<Rightarrow> bool" where
  "costs_ok a \<longleftrightarrow> 0 \<le> wa_spread a \<and> 0 \<le> wa_comm a \<and> 0 \<le> wa_vpm a \<and> 0 \<le> wa_rr a"

text \<open>The geometry of an opened position: the stop one risk behind the entry, the target beyond it.\<close>

definition shaped :: "sweep_args \<Rightarrow> sweep_pos \<Rightarrow> bool" where
  "shaped a p \<longleftrightarrow> 0 < sp_risk0 p \<and> sp_sl p = sp_entry p - side_sign (sp_side p) * sp_risk0 p
     \<and> sp_tp p = sp_entry p + side_sign (sp_side p) * (wa_rr a * sp_risk0 p)"

definition same_shape :: "sweep_pos \<Rightarrow> sweep_pos \<Rightarrow> bool" where
  "same_shape p q \<longleftrightarrow> sp_side q = sp_side p \<and> sp_entry q = sp_entry p \<and> sp_sl q = sp_sl p \<and> sp_tp q = sp_tp p
     \<and> sp_risk0 q = sp_risk0 p"

text \<open>The position \<open>p0\<close> opened when \<open>cl\<close> were closed: still held with what it has lost in step with what
  was closed of it, or the next trade after \<open>cl\<close>, with the bound.\<close>

definition holding :: "sweep_args \<Rightarrow> sweep_pos \<Rightarrow> sweep_closed list \<Rightarrow> sweep_pos \<Rightarrow> sweep_sim \<Rightarrow> bool" where
  "holding a p0 cl p s \<longleftrightarrow> ss_pos s = Some p \<and> ss_closed s = cl \<and> same_shape p0 p \<and> 0 \<le> sp_vol p
     \<and> - sp_pnl p \<le> unit_loss a p0 * (sp_vol p0 + 1 / 10 ^ 8 - sp_vol p)
     \<and> (\<not> sp_partialed p \<longrightarrow> sp_vol p = sp_vol p0 \<and> sp_pnl p = 0)"

definition settled :: "sweep_args \<Rightarrow> sweep_pos \<Rightarrow> sweep_closed list \<Rightarrow> sweep_sim \<Rightarrow> bool" where
  "settled a p0 cl s \<longleftrightarrow> (\<exists>t ts. ss_closed s = cl @ t # ts \<and> - sx_pnl t \<le> unit_loss a p0 * (sp_vol p0 + 1 / 10 ^ 8))"

lemma side_sign_cases: "side_sign d = (if d = LONG then 1 else -1)"
  by (cases d) (simp_all add: side_sign_def)

lemma unit_nonneg: "costs_ok a \<Longrightarrow> shaped a p \<Longrightarrow> 0 \<le> unit_loss a p"
  by (simp add: costs_ok_def shaped_def unit_loss_def)

lemma gain_bound:
  assumes "costs_ok a" "0 \<le> v" "- (sp_risk0 p + wa_spread a / 2) \<le> g"
  shows "- (g * v * wa_vpm a - wa_comm a * v) \<le> unit_loss a p * v"
proof -
  have "- g * (v * wa_vpm a) \<le> (sp_risk0 p + wa_spread a / 2) * (v * wa_vpm a)"
    using assms by (intro mult_right_mono) (simp_all add: costs_ok_def)
  then show ?thesis by (simp add: unit_loss_def algebra_simps)
qed

lemma close_whole:
  assumes a: "costs_ok a" "shaped a p0" and h: "holding a p0 cl p s"
    and px: "- (sp_risk0 p0 + wa_spread a / 2) \<le> side_sign (sp_side p0) * (px - sp_entry p0)"
  shows "settled a p0 cl (sweep_close (sweep_cfg_of a) px (sp_vol p) ts p s)"
proof -
  define pnl where "pnl = side_sign (sp_side p) * (px - sp_entry p) * sp_vol p * wa_vpm a - wa_comm a * sp_vol p"
  have "same_shape p0 p" "0 \<le> sp_vol p" using h by (simp_all add: holding_def)
  then have "- pnl \<le> unit_loss a p0 * sp_vol p"
    using gain_bound [OF a(1) _ px, of "sp_vol p"] by (simp add: pnl_def same_shape_def)
  then have "- (sp_pnl p + pnl) \<le> unit_loss a p0 * (sp_vol p0 + 1 / 10 ^ 8)"
    using h by (simp add: holding_def right_diff_distrib)
  then show ?thesis using h
    by (simp add: settled_def holding_def sweep_close_def Let_def sweep_cfg_of_def pnl_def)
qed

lemma round_up_bound: "round_dp 8 x \<le> x + 1 / (2 * 10 ^ 8)"
proof -
  have "round_dp 8 x - x \<le> 1 / (2 * 10 ^ 8)" using round_dp_near [of 8 x] abs_le_D1 by blast
  then show ?thesis by linarith
qed

lemma close_some:
  fixes ts :: timestamp and px :: flt and s :: sweep_sim and p :: sweep_pos and a :: sweep_args
  assumes a: "costs_ok a" "shaped a p0" and h: "holding a p0 cl p s" "\<not> sp_partialed p" "0 \<le> sp_vol p0"
    and px: "- (sp_risk0 p0 + wa_spread a / 2) \<le> side_sign (sp_side p0) * (px - sp_entry p0)"
  defines "s1 \<equiv> sweep_close (sweep_cfg_of a) px (round_dp 8 (sp_vol p * (7 / 10))) ts p s"
  shows "(\<exists>q. ss_pos s1 = Some q \<and> holding a p0 cl (q\<lparr>sp_partialed := True\<rparr>)
      (s1\<lparr>ss_pos := Some (q\<lparr>sp_partialed := True\<rparr>)\<rparr>)) \<or> settled a p0 cl s1"
proof -
  define v where "v = round_dp 8 (sp_vol p * (7 / 10))"
  define w where "w = round_dp 8 (sp_vol p - v)"
  define pnl where "pnl = side_sign (sp_side p) * (px - sp_entry p) * v * wa_vpm a - wa_comm a * v"
  have p: "same_shape p0 p" "sp_vol p = sp_vol p0" "sp_pnl p = 0" using h by (simp_all add: holding_def)
  have v0: "0 \<le> v" using h(3) p(2) unfolding v_def by (intro round_dp_nonneg) simp
  have vv: "v \<le> sp_vol p0 * (7 / 10) + 1 / (2 * 10 ^ 8)"
    using round_up_bound [of "sp_vol p0 * (7 / 10)"] by (simp only: v_def p(2))
  have ww: "w \<le> sp_vol p0 - v + 1 / (2 * 10 ^ 8)"
    using round_up_bound [of "sp_vol p0 - v"] by (simp only: w_def p(2))
  have "v \<le> sp_vol p0 + 1 / 10 ^ 8 - w" using ww by simp
  note mono = mult_left_mono [OF _ unit_nonneg [OF a]]
  have b: "- pnl \<le> unit_loss a p0 * v"
    using gain_bound [OF a(1) v0 px] p(1) by (simp add: pnl_def same_shape_def)
  have s1: "s1 = sweep_close (sweep_cfg_of a) px v ts p s" by (simp only: s1_def v_def)
  show ?thesis
  proof (cases "w \<le> 1 / 10 ^ 9")
    case True
    have e: "s1 = s\<lparr>ss_equity := ss_equity s + pnl, ss_closed := ss_closed s @ [\<lparr>sx_dir = sp_side p,
        sx_entry = sp_entry p, sx_open = sp_opened p, sx_close = ts, sx_pnl = pnl, sx_reason = sp_reason p\<rparr>], ss_pos := None\<rparr>"
      using True p(3) by (simp add: s1 sweep_close_def Let_def sweep_cfg_of_def w_def pnl_def)
    have "v \<le> sp_vol p0 + 1 / 10 ^ 8" using vv h(3) by simp
    then have "- pnl \<le> unit_loss a p0 * (sp_vol p0 + 1 / 10 ^ 8)" using b mono by (meson order_trans)
    then have "settled a p0 cl s1" using h(1) by (simp add: settled_def holding_def e)
    then show ?thesis by simp
  next
    case False
    have e: "s1 = s\<lparr>ss_equity := ss_equity s + pnl, ss_pos := Some (p\<lparr>sp_pnl := pnl, sp_vol := w\<rparr>)\<rparr>"
      using False p(3) by (simp add: s1 sweep_close_def Let_def sweep_cfg_of_def w_def pnl_def)
    have "- pnl \<le> unit_loss a p0 * (sp_vol p0 + 1 / 10 ^ 8 - w)"
      using b mono \<open>v \<le> sp_vol p0 + 1 / 10 ^ 8 - w\<close> by (meson order_trans)
    moreover have "0 \<le> w" using False by simp
    ultimately show ?thesis using h(1) p(1) by (simp add: holding_def e same_shape_def)
  qed
qed

lemma settled_grows: "settled a p0 cl s \<Longrightarrow> ss_closed s' = ss_closed s @ xs \<Longrightarrow> settled a p0 cl s'"
  by (auto simp: settled_def)

definition grows :: "sweep_sim \<Rightarrow> sweep_sim \<Rightarrow> bool" where
  "grows s s' \<longleftrightarrow> (\<exists>xs. ss_closed s' = ss_closed s @ xs)"

lemma grows_refl [simp]: "grows s s" by (simp add: grows_def)

lemma grows_trans: "grows s s' \<Longrightarrow> grows s' s'' \<Longrightarrow> grows s s''" by (auto simp: grows_def)

lemma grows_pos [simp]: "grows s (s'\<lparr>ss_pos := x\<rparr>) = grows s s'" by (simp add: grows_def)

lemma grows_close [simp]: "grows s (sweep_close k px v ts p s)"
  by (simp add: grows_def sweep_close_def Let_def)

lemma grows_partial [simp]: "grows s (take_partial k c p s)"
  by (simp add: take_partial_def Let_def)

lemma grows_target [simp]: "grows s (take_target k c s)"
  by (simp add: take_target_def split: option.splits)

lemma grows_exits [simp]: "grows s (manage_exits k c s)"
  using grows_trans [OF grows_partial grows_target] by (simp add: manage_exits_def split: option.splits)

lemma grows_flatten [simp]: "grows s (sweep_flatten k c s)"
  by (simp add: sweep_flatten_def split: option.splits)

lemma open_closed [simp]: "ss_closed (sweep_open a bal br c d px sl r s) = ss_closed s"
  by (simp add: sweep_open_def Let_def)

lemma settled_mono: "settled a p0 cl s \<Longrightarrow> grows s s' \<Longrightarrow> settled a p0 cl s'"
  by (auto simp: grows_def intro: settled_grows)

lemma settled_pos [simp]: "settled a p0 cl (s\<lparr>ss_pos := x\<rparr>) = settled a p0 cl s"
  by (simp add: settled_def)

lemma shaped_side: "holding a p0 cl p s \<Longrightarrow> sp_side p = sp_side p0 \<and> sp_sl p = sp_sl p0 \<and> sp_tp p = sp_tp p0
    \<and> sp_entry p = sp_entry p0 \<and> sp_risk0 p = sp_risk0 p0 \<and> ss_pos s = Some p"
  by (simp add: holding_def same_shape_def)

lemma partial_keeps:
  fixes c :: candle and s :: sweep_sim and p :: sweep_pos and a :: sweep_args
  assumes a: "costs_ok a" "shaped a p0" "0 \<le> sp_vol p0" and h: "holding a p0 cl p s"
  defines "s' \<equiv> take_partial (sweep_cfg_of a) c p s"
  shows "(\<exists>q. holding a p0 cl q s') \<or> settled a p0 cl s'"
proof -
  define px where "px = (if sp_side p = LONG then sp_entry p + 2 * sp_risk0 p - sg_half (sweep_cfg_of a)
     else sp_entry p - 2 * sp_risk0 p + sg_half (sweep_cfg_of a))"
  define s1 where "s1 = sweep_close (sweep_cfg_of a) px (round_dp 8 (sp_vol p * (7 / 10))) (c_ts c) p s"
  have b: "- (sp_risk0 p0 + wa_spread a / 2) \<le> side_sign (sp_side p0) * (px - sp_entry p0)"
    using a shaped_side [OF h] by (auto simp: px_def side_sign_cases sweep_cfg_of_def shaped_def costs_ok_def)
  have e: "s' = s \<or> \<not> sp_partialed p \<and> s' = s1\<lparr>ss_pos := map_option (\<lambda>q. q\<lparr>sp_partialed := True\<rparr>) (ss_pos s1)\<rparr>"
    unfolding s'_def s1_def px_def take_partial_def Let_def by (cases "sp_side p = LONG") simp_all
  show ?thesis
  proof (cases "s' = s")
    case True
    then show ?thesis using h by auto
  next
    case False
    then have e: "\<not> sp_partialed p" "s' = s1\<lparr>ss_pos := map_option (\<lambda>q. q\<lparr>sp_partialed := True\<rparr>) (ss_pos s1)\<rparr>"
      using e by simp_all
    from close_some [OF a(1,2) h e(1) a(3) b, of "c_ts c", folded s1_def] show ?thesis unfolding e(2) by auto
  qed
qed

lemma target_keeps:
  assumes a: "costs_ok a" "shaped a p0" and h: "holding a p0 cl p s"
  shows "take_target (sweep_cfg_of a) c s = s \<or> settled a p0 cl (take_target (sweep_cfg_of a) c s)"
proof -
  have b: "- (sp_risk0 p0 + wa_spread a / 2) \<le> side_sign (sp_side p0) * (px - sp_entry p0)"
    if "px = sp_tp p - side_sign (sp_side p0) * (wa_spread a / 2)" for px
  proof -
    have "0 \<le> wa_rr a * sp_risk0 p0" using a by (simp add: costs_ok_def shaped_def)
    moreover have "- sp_risk0 p0 \<le> 0" using a(2) by (simp add: shaped_def)
    ultimately have "- sp_risk0 p0 \<le> wa_rr a * sp_risk0 p0" by linarith
    then show ?thesis using a shaped_side [OF h] that by (auto simp: side_sign_cases shaped_def costs_ok_def)
  qed
  show ?thesis using close_whole [OF a h b] shaped_side [OF h]
    by (auto simp: take_target_def sweep_cfg_of_def side_sign_cases)
qed

lemma exits_keep:
  fixes c :: candle and s :: sweep_sim and p :: sweep_pos and a :: sweep_args
  assumes a: "costs_ok a" "shaped a p0" "0 \<le> sp_vol p0" and h: "holding a p0 cl p s"
  defines "s' \<equiv> manage_exits (sweep_cfg_of a) c s"
  shows "settled a p0 cl s' \<or> (\<exists>q. holding a p0 cl q s' \<and> \<not> sweep_stopped c q)"
proof (cases "sweep_stopped c p")
  case True
  have "- (sp_risk0 p0 + wa_spread a / 2) \<le> side_sign (sp_side p0)
      * ((if sp_side p = LONG then sp_sl p - wa_spread a / 2 else sp_sl p + wa_spread a / 2) - sp_entry p0)"
    using a shaped_side [OF h] by (auto simp: side_sign_cases shaped_def)
  from close_whole [OF a(1,2) h this, of "c_ts c"] have "settled a p0 cl s'" using True shaped_side [OF h]
    by (cases "sp_side p0 = LONG") (simp_all add: s'_def manage_exits_def sweep_cfg_of_def)
  then show ?thesis ..
next
  case False
  define s1 where "s1 = take_partial (sweep_cfg_of a) c p s"
  have e: "s' = take_target (sweep_cfg_of a) c s1" using False shaped_side [OF h] by (simp add: s'_def manage_exits_def s1_def)
  from partial_keeps [OF a h, of c, folded s1_def] show ?thesis
  proof
    assume "\<exists>q. holding a p0 cl q s1"
    then obtain q where q: "holding a p0 cl q s1" by blast
    have "\<not> sweep_stopped c q" using False shaped_side [OF h] shaped_side [OF q]
      by (cases "sp_side p0 = LONG") (simp_all add: sweep_stopped_def)
    then show ?thesis using target_keeps [OF a(1,2) q, of c] q by (auto simp: e)
  next
    assume "settled a p0 cl s1"
    then show ?thesis using settled_mono [of a p0 cl s1 s'] by (simp add: e)
  qed
qed

lemma flatten_settles:
  assumes a: "costs_ok a" "shaped a p0" and h: "holding a p0 cl p s" "\<not> sweep_stopped c p"
    and c: "c_low c \<le> c_close c" "c_close c \<le> c_high c"
  shows "settled a p0 cl (sweep_flatten (sweep_cfg_of a) c s)"
proof -
  have "- (sp_risk0 p0 + wa_spread a / 2) \<le> side_sign (sp_side p0)
      * ((if sp_side p = LONG then c_close c - wa_spread a / 2 else c_close c + wa_spread a / 2) - sp_entry p0)"
    using a shaped_side [OF h(1)] h(2) c by (auto simp: side_sign_cases shaped_def sweep_stopped_def)
  from close_whole [OF a h(1) this] show ?thesis using shaped_side [OF h(1)]
    by (cases "sp_side p0 = LONG") (simp_all add: sweep_flatten_def sweep_cfg_of_def)
qed

definition bar_ok :: "candle \<Rightarrow> bool" where
  "bar_ok c \<longleftrightarrow> c_low c \<le> c_close c \<and> c_close c \<le> c_high c"

definition underway :: "sweep_args \<Rightarrow> sweep_pos \<Rightarrow> sweep_closed list \<Rightarrow> sweep_sim \<Rightarrow> bool" where
  "underway a p0 cl s \<longleftrightarrow> settled a p0 cl s \<or> (\<exists>p. holding a p0 cl p s)"

lemma fill_grows [simp]: "grows s (snd (fill_pend a bal br c (pe, s)))"
  by (simp add: fill_pend_def Let_def grows_def split: option.splits)

lemma fill_held: "ss_pos s = Some p \<Longrightarrow> snd (fill_pend a bal br c (pe, s)) = s"
  by (simp add: fill_pend_def Let_def split: option.splits)

lemma act_grows [simp]: "grows (snd ps) (snd (act_on_sweep a bal br c sig ps))"
  by (simp add: act_on_sweep_def grows_def split: prod.splits)

lemma bar_underway:
  assumes a: "costs_ok a" "shaped a p0" "0 \<le> sp_vol p0" and c: "bar_ok c" and w: "underway a p0 cl (wb_sim b)"
  shows "underway a p0 cl (wb_sim (sweep_bar ny a c b))"
proof -
  define k where "k = sweep_cfg_of a"
  define s1 where "s1 = manage_exits k c (wb_sim b)"
  define bal where "bal = wa_start a + ss_equity (wb_sim b)"
  obtain halted br where br: "breaker_update (date_of (c_ts c)) bal (wb_breaker b) = (halted, br)" by (meson surj_pair)
  define ps1 where "ps1 = (if halted then (None, sweep_flatten k c s1) else fill_pend a bal br c (wb_pend b, s1))"
  define ps2 where "ps2 = (case sweep_signal a (er_prev (erl_update c (wb_erl b))) (trueopen_update ny c (wb_topen b)) c of
       None \<Rightarrow> ps1
     | Some sig \<Rightarrow> if \<not> halted \<and> ss_pos (snd ps1) = None \<and> fst ps1 = None then act_on_sweep a bal br c sig ps1 else ps1)"
  have e: "wb_sim (sweep_bar ny a c b) = snd ps2"
    unfolding sweep_bar_def Let_def k_def [symmetric] s1_def [symmetric] bal_def [symmetric] br prod.case
      ps1_def [symmetric] ps2_def [symmetric] by simp
  have 1: "settled a p0 cl s1 \<or> (\<exists>q. holding a p0 cl q s1 \<and> \<not> sweep_stopped c q)"
    using w exits_keep [OF a, of cl _ "wb_sim b" c] settled_mono [of a p0 cl "wb_sim b" s1]
    by (auto simp: underway_def s1_def k_def)
  have 2: "settled a p0 cl (snd ps1) \<or> (\<exists>q. holding a p0 cl q (snd ps1))"
  proof (cases "settled a p0 cl s1")
    case True
    have "grows s1 (snd ps1)" by (simp add: ps1_def)
    then show ?thesis using settled_mono [OF True] by blast
  next
    case False
    then obtain q where q: "holding a p0 cl q s1" "\<not> sweep_stopped c q" using 1 by blast
    show ?thesis
    proof (cases halted)
      case True
      then show ?thesis using flatten_settles [OF a(1,2) q] c by (simp add: ps1_def k_def bar_ok_def)
    next
      case False
      then have "snd ps1 = s1" using shaped_side [OF q(1)] by (simp add: ps1_def fill_held)
      then show ?thesis using q(1) by auto
    qed
  qed
  show ?thesis unfolding e underway_def
  proof (cases "settled a p0 cl (snd ps1)")
    case True
    have "grows (snd ps1) (snd ps2)" by (simp add: ps2_def split: option.splits)
    then show "settled a p0 cl (snd ps2) \<or> (\<exists>p. holding a p0 cl p (snd ps2))" using settled_mono [OF True] by blast
  next
    case False
    then obtain q where q: "holding a p0 cl q (snd ps1)" using 2 by blast
    then have "ps2 = ps1" using shaped_side [OF q] by (simp add: ps2_def split: option.splits)
    then show "settled a p0 cl (snd ps2) \<or> (\<exists>p. holding a p0 cl p (snd ps2))" using q by auto
  qed
qed

lemma run_underway:
  assumes "costs_ok a" "shaped a p0" "0 \<le> sp_vol p0" "list_all bar_ok cs" "underway a p0 cl (wb_sim b)"
  shows "underway a p0 cl (wb_sim (fold (sweep_bar ny a) cs b))"
  using assms(4,5) by (induction cs arbitrary: b) (simp_all add: bar_underway [OF assms(1-3)])

text \<open>What the sizing allowed: the risk percentage of the balance and what the day has left.\<close>

definition allowed :: "sweep_args \<Rightarrow> flt \<Rightarrow> breaker \<Rightarrow> flt" where
  "allowed a bal br = min (bal * (wa_risk a / 100)) (max 0 (db_cap br + day_pnl br))"

lemma opened:
  assumes a: "costs_ok a" "0 < wa_vol_step a" "0 \<le> wa_vol_max a"
    and o: "ss_pos s = None" "ss_pos (sweep_open a bal br c d px sl r s) = Some p"
  shows "shaped a p" "0 < sp_vol p" "sp_pnl p = 0" "\<not> sp_partialed p"
    "sp_vol p * (sp_risk0 p * wa_vpm a)
       \<le> allowed a bal br + (wa_vol_step a / 10 ^ 9 + 1 / (2 * 10 ^ 10)) * (sp_risk0 p * wa_vpm a)"
proof -
  define fill where "fill = (if d = LONG then px + wa_spread a / 2 else px - wa_spread a / 2)"
  define risk where "risk = (if d = LONG then fill - sl else sl - fill)"
  define lot where "lot = compute_lot bal (wa_risk a) fill sl (wa_vpm a) (wa_vol_min a) (wa_vol_step a) (wa_vol_max a)
     (Some (max 0 (db_cap br + day_pnl br)))"
  have p: "0 < risk" "0 < lot" "p = \<lparr>sp_side = d, sp_entry = fill, sp_sl = sl,
      sp_tp = (if d = LONG then fill + wa_rr a * risk else fill - wa_rr a * risk), sp_risk0 = risk, sp_vol = lot,
      sp_opened = c_ts c, sp_reason = r, sp_partialed = False, sp_pnl = 0\<rparr>"
    using o unfolding sweep_open_def Let_def fill_def [symmetric] risk_def [symmetric] lot_def [symmetric]
    by (simp_all split: if_splits)
  have ab: "\<bar>fill - sl\<bar> = risk" using p(1) by (auto simp: risk_def split: if_splits)
  show "0 < sp_vol p" "sp_pnl p = 0" "\<not> sp_partialed p" using p by simp_all
  show "shaped a p" using p(1) by (auto simp: p(3) shaped_def side_sign_cases risk_def)
  have "lot_risk lot fill sl (wa_vpm a) \<le> bal * (wa_risk a / 100) + (wa_vol_step a / 10 ^ 9 + 1 / (2 * 10 ^ 10)) * (\<bar>fill - sl\<bar> * wa_vpm a)
     \<and> (\<forall>m. Some (max 0 (db_cap br + day_pnl br)) = Some m \<longrightarrow> lot_risk lot fill sl (wa_vpm a)
         \<le> m + (wa_vol_step a / 10 ^ 9 + 1 / (2 * 10 ^ 10)) * (\<bar>fill - sl\<bar> * wa_vpm a))"
    using lot_budget [OF a(2,3)] p(2) unfolding lot_def by (metis less_irrefl)
  then show "sp_vol p * (sp_risk0 p * wa_vpm a)
       \<le> allowed a bal br + (wa_vol_step a / 10 ^ 9 + 1 / (2 * 10 ^ 10)) * (sp_risk0 p * wa_vpm a)"
    unfolding lot_risk_def ab allowed_def p(3) by (simp add: min_def)
qed

text \<open>C38: a trade of the study loses no more than it was sized for, costs apart. From the bar that opened it
  on, over any bars, the first trade to close has lost at most what the balance's percentage and the
  day's remaining budget allowed, plus half a spread and the commission on its lots and the rounding of
  the code. Stops are filled at their price even when a bar opens beyond them.\<close>

theorem sweep_loss_capped:
  assumes "costs_ok a" "0 < wa_vol_step a" "0 \<le> wa_vol_max a" "list_all bar_ok cs"
    and "ss_pos s = None" "ss_pos (sweep_open a bal br c d px sl r s) = Some p"
    and "wb_sim b = sweep_open a bal br c d px sl r s"
    and "ss_closed (wb_sim (fold (sweep_bar ny a) cs b)) = ss_closed s @ t # ts"
  shows "- sx_pnl t \<le> allowed a bal br + (wa_spread a / 2 * wa_vpm a + wa_comm a) * sp_vol p
     + (wa_vol_step a / 10 ^ 9 + 1 / (2 * 10 ^ 10)) * (sp_risk0 p * wa_vpm a) + unit_loss a p / 10 ^ 8"
proof -
  note o = opened [OF assms(1-3,5,6)]
  have v: "0 \<le> sp_vol p" using o(2) by simp
  have "holding a p (ss_closed s) p (wb_sim b)"
    using assms(6) o v unit_nonneg [OF assms(1) o(1)] by (simp add: holding_def assms(7) same_shape_def)
  then have "underway a p (ss_closed s) (wb_sim b)" by (auto simp: underway_def)
  from run_underway [OF assms(1) o(1) v assms(4) this, of ny] assms(8)
  have "- sx_pnl t \<le> unit_loss a p * (sp_vol p + 1 / 10 ^ 8)"
    by (auto simp: underway_def settled_def holding_def)
  also have "\<dots> = sp_vol p * (sp_risk0 p * wa_vpm a) + (wa_spread a / 2 * wa_vpm a + wa_comm a) * sp_vol p + unit_loss a p / 10 ^ 8"
    by (simp add: unit_loss_def algebra_simps add_divide_distrib)
  finally show ?thesis using o(5) by simp
qed

text \<open>A long of four hundredths of a lot, a hundred with its stop at 98, and a bar that reaches the stop.\<close>

definition tried_args :: sweep_args where
  "tried_args = \<lparr>wa_htf = 240, wa_rr = 3, wa_market = True, wa_bias = False, wa_spread = 1, wa_comm = 7, wa_risk = 1,
     wa_start = 1000, wa_daily_pct = 10, wa_stop_buf = 1 / 2, wa_ttl = 1800, wa_vpm = 100, wa_vol_min = 1 / 100,
     wa_vol_step = 1 / 100, wa_vol_max = 50, wa_partial = False\<rparr>"

definition tried_breaker :: breaker where
  "tried_breaker = \<lparr>db_max = None, db_pct = Some 10, db_day = Some 0, db_start = 1000, db_cap = 100, db_delta = 0,
     db_halted = False\<rparr>"

definition tried_sim :: sweep_sim where
  "tried_sim = sweep_open tried_args 1000 tried_breaker (hour_bar 0 101 100) LONG 100 98 ''sweep_low_reclaim''
     \<lparr>ss_equity = 0, ss_pos = None, ss_closed = []\<rparr>"

definition tried_bench :: sweep_bench where
  "tried_bench = (sweep_start tried_args tried_breaker)\<lparr>wb_sim := tried_sim\<rparr>"

definition falling_bar :: candle where
  "falling_bar = \<lparr>c_ts = utc_ts us_min, c_open = 100, c_high = 100, c_low = 97, c_close = 97, c_volume = 1\<rparr>"

lemma tried_opened: "ss_pos tried_sim = Some \<lparr>sp_side = LONG, sp_entry = 201 / 2, sp_sl = 98, sp_tp = 108,
    sp_risk0 = 5 / 2, sp_vol = 4 / 100, sp_opened = utc_ts 0, sp_reason = ''sweep_low_reclaim'', sp_partialed = False, sp_pnl = 0\<rparr>"
  by code_simp

lemma tried_closed: "ss_closed (wb_sim (sweep_bar (\<lambda>_. 0) tried_args falling_bar tried_bench)) =
    [\<lparr>sx_dir = LONG, sx_entry = 201 / 2, sx_open = utc_ts 0, sx_close = utc_ts us_min, sx_pnl = - 1228 / 100,
       sx_reason = ''sweep_low_reclaim''\<rparr>]"
  by code_simp

theorem sweep_loss_capped_witness:
  "1228 / 100 \<le> allowed tried_args 1000 tried_breaker + (1 / 2 * 100 + 7) * (4 / 100)
     + ((1 / 100) / 10 ^ 9 + 1 / (2 * 10 ^ 10)) * (5 / 2 * 100) + (3 * 100 + 7) / 10 ^ 8"
proof -
  have "costs_ok tried_args" "0 < wa_vol_step tried_args" "0 \<le> wa_vol_max tried_args" "list_all bar_ok [falling_bar]"
    by (simp_all add: costs_ok_def tried_args_def bar_ok_def falling_bar_def)
  moreover have "wb_sim tried_bench = tried_sim" by (simp add: tried_bench_def)
  ultimately show ?thesis
    using sweep_loss_capped [where a = tried_args and cs = "[falling_bar]" and s = "\<lparr>ss_equity = 0, ss_pos = None, ss_closed = []\<rparr>"
        and bal = 1000 and br = tried_breaker and c = "hour_bar 0 101 100" and d = LONG and px = 100 and sl = 98
        and r = "''sweep_low_reclaim''" and b = tried_bench and ny = "\<lambda>_. 0", OF _ _ _ _ _ tried_opened [unfolded tried_sim_def]]
      tried_closed
    by (simp add: tried_sim_def [symmetric] unit_loss_def) (simp add: tried_args_def)
qed

end
