(* ===== verification/Live_Report.thy ===== *)
theory Live_Report
  imports Analytics_Properties
begin

text \<open>
  \<open>scripts/live_report.py\<close>: closed trades of a live account. The terminal's deals of a time window
  are grouped by position and folded into trade records for the analytics of \<open>orb/analytics.py\<close>.
  A deal's money fields may be missing or \<open>None\<close>. Starting the terminal, arguments and printing are
  left out.
\<close>

section \<open>Deals\<close>

record deal =
  dl_magic :: "int option"
  dl_position :: int
  dl_time :: flt
  dl_entry :: int
  dl_type :: int
  dl_profit :: "flt option"
  dl_commission :: "flt option"
  dl_swap :: "flt option"
  dl_fee :: "flt option"
  dl_symbol :: "string option"
  dl_volume :: "flt option"

definition or_zero :: "flt option \<Rightarrow> flt" where
  "or_zero x = (case x of None \<Rightarrow> 0 | Some v \<Rightarrow> v)"

definition deal_money :: "deal \<Rightarrow> flt" where
  "deal_money d = or_zero (dl_profit d) + or_zero (dl_commission d) + or_zero (dl_swap d) + or_zero (dl_fee d)"

text \<open>Python's \<open>int\<close> cuts towards zero.\<close>

definition whole :: "flt \<Rightarrow> int" where
  "whole x = (if 0 \<le> x then \<lfloor>x\<rfloor> else \<lceil>x\<rceil>)"

definition deal_utc :: "flt \<Rightarrow> stamp" where
  "deal_utc t = (whole t * us_sec, Some 0)"

text \<open>One position: opened by its first in-deal; without one it is skipped. The other deals are told from
  the entry by identity, so only that one occurrence is left out.\<close>

definition position_record :: "int \<Rightarrow> int \<Rightarrow> deal list \<Rightarrow> trade_record option" where
  "position_record entry_in type_buy ds =
    (let sorted_ds = sort_key (\<lambda>d. whole (dl_time d)) ds in
     case find (\<lambda>d. dl_entry d = entry_in) sorted_ds of None \<Rightarrow> None
     | Some entry \<Rightarrow> let outs = remove1 entry sorted_ds; close_deal = (if outs = [] then entry else List.last outs) in
         Some \<lparr>ar_open = deal_utc (dl_time entry), ar_close = deal_utc (dl_time close_deal),
           ar_pnl = sum_list (map deal_money sorted_ds),
           ar_direction = (if dl_type entry = type_buy then ''LONG'' else ''SHORT''),
           ar_symbol = (case dl_symbol entry of None \<Rightarrow> [] | Some s \<Rightarrow> s), ar_volume = or_zero (dl_volume entry),
           ar_reason = []\<rparr>)"

definition keep_deal :: "deal \<Rightarrow> deal list \<Rightarrow> deal list" where
  "keep_deal d ds = ds @ [d]"

text \<open>The terminal answers with the deals of the window, or nothing.\<close>

definition fetch_deals :: "int \<Rightarrow> int \<Rightarrow> int \<Rightarrow> deal list option \<Rightarrow> trade_record list" where
  "fetch_deals entry_in type_buy magic answer =
    (let deals = (case answer of None \<Rightarrow> [] | Some ds \<Rightarrow> ds);
         groups = tally_by dl_position keep_deal [] (filter (\<lambda>d. dl_magic d = Some magic) deals)
     in sort_key (\<lambda>r. utc_us (ar_close r)) (List.map_filter (\<lambda>g. position_record entry_in type_buy (snd g)) groups))"

section \<open>Reports\<close>

definition known :: "(int \<times> string) list" where
  "known = [(20260610, ''XAUUSD ORB''), (20260611, ''US100 ORB''), (20260620, ''SVP''), (20260621, ''SMC'')]"

definition build_report :: "(flt \<Rightarrow> flt) \<Rightarrow> trade_record list \<Rightarrow> int \<Rightarrow> int \<Rightarrow> flt \<Rightarrow> error + string list" where
  "build_report sqroot trades magic days start =
    (let name = ''magic '' @ show_int magic @ (case map_of known magic of None \<Rightarrow> [] | Some l \<Rightarrow> '' ('' @ l @ '')'')
     in format_report sqroot start (''LIVE REPORT  '' @ name @ ''  last '' @ show_int days @ ''d'') trades)"

text \<open>The balance given, else the account's when it can be read, else a thousand.\<close>

definition resolve_start_balance :: "flt option \<Rightarrow> flt option \<Rightarrow> flt" where
  "resolve_start_balance given account = (case given of Some v \<Rightarrow> v
     | None \<Rightarrow> (case account of Some v \<Rightarrow> v | None \<Rightarrow> 1000))"

definition magics :: "bool \<Rightarrow> int list \<Rightarrow> int list" where
  "magics use_known given = fromkeys ((if use_known then map fst known else []) @ given)"

text \<open>The reports of the magics, in order; the first error ends them.\<close>

fun live_reports :: "(flt \<Rightarrow> flt) \<Rightarrow> int \<Rightarrow> int \<Rightarrow> (int \<Rightarrow> deal list option) \<Rightarrow> int \<Rightarrow> flt \<Rightarrow> int list
    \<Rightarrow> error + string list list" where
  "live_reports sqroot ein buy answer days start [] = Inr []"
| "live_reports sqroot ein buy answer days start (m # ms) =
     and_then (build_report sqroot (fetch_deals ein buy m (answer m)) m days start) (\<lambda>r.
     and_then (live_reports sqroot ein buy answer days start ms) (\<lambda>rs. Inr (r # rs)))"

section \<open>Properties\<close>

definition has_entry :: "int \<Rightarrow> deal list \<Rightarrow> deal \<Rightarrow> bool" where
  "has_entry ein ds d \<longleftrightarrow> list_ex (\<lambda>e. dl_position e = dl_position d \<and> dl_entry e = ein) ds"

lemma fold_keep: "fold keep_deal xs ys = ys @ xs"
  by (induction xs arbitrary: ys) (simp_all add: keep_deal_def)

lemma position_record_Some:
  "position_record ein buy ds = None \<longleftrightarrow> \<not> list_ex (\<lambda>d. dl_entry d = ein) ds"
proof -
  have "position_record ein buy ds = None \<longleftrightarrow> find (\<lambda>d. dl_entry d = ein) (sort_key (\<lambda>d. whole (dl_time d)) ds) = None"
    by (simp add: position_record_def Let_def split: option.split)
  then show ?thesis by (auto simp: find_None_iff list_ex_iff)
qed

lemma map_filter_tagged:
  "List.map_filter (\<lambda>g. f (snd g)) (map (\<lambda>k. (k, h k)) ks) = List.map_filter f (map h ks)"
  by (induction ks) (simp_all add: List.map_filter_simps split: option.split)

lemma position_record_pnl: "position_record ein buy ds = Some r \<Longrightarrow> ar_pnl r = sum_list (map deal_money ds)"
  by (auto simp: position_record_def Let_def sum_sorted split: option.splits)

lemma records_pnl:
  "sum_list (map ar_pnl (List.map_filter (position_record ein buy) gs))
    = sum_list (map (\<lambda>g. if list_ex (\<lambda>d. dl_entry d = ein) g then sum_list (map deal_money g) else 0) gs)"
proof (induction gs)
  case (Cons g gs)
  then show ?case using position_record_Some [of ein buy g] position_record_pnl [of ein buy g]
    by (cases "position_record ein buy g") (simp_all add: List.map_filter_simps)
qed (simp add: List.map_filter_simps)

lemma records_count:
  "length (List.map_filter (position_record ein buy) gs) = length (filter (list_ex (\<lambda>d. dl_entry d = ein)) gs)"
proof (induction gs)
  case (Cons g gs)
  then show ?case using position_record_Some [of ein buy g]
    by (cases "position_record ein buy g") (simp_all add: List.map_filter_simps)
qed (simp add: List.map_filter_simps)

text \<open>C39: the report loses no money and invents none. Over any answer of the terminal, the records' profits add
  up to the profit, commission, swap and fee of the magic's deals whose position has its entry in the
  window; there is one record for each such position; and the records are in order of closing.\<close>

theorem fetch_conserves:
  fixes ein buy magic :: int and deals :: "deal list"
  defines "own \<equiv> filter (\<lambda>d. dl_magic d = Some magic) deals"
  defines "trades \<equiv> fetch_deals ein buy magic (Some deals)"
  shows "total_pnl trades = sum_list (map deal_money (filter (has_entry ein own) own))
    \<and> length trades = card (dl_position ` {d \<in> set own. dl_entry d = ein})
    \<and> sorted (map (\<lambda>r. utc_us (ar_close r)) trades)"
proof -
  define ks where "ks = fromkeys (map dl_position own)"
  define grp where "grp = (\<lambda>k. filter (\<lambda>d. dl_position d = k) own)"
  have ks: "distinct ks" "set ks = dl_position ` set own" by (simp_all add: ks_def)
  have gs: "tally_by dl_position keep_deal [] own = map (\<lambda>k. (k, grp k)) ks"
    by (simp add: tally_by_groups fold_keep ks_def grp_def)
  have "trades = sort_key (\<lambda>r. utc_us (ar_close r)) (List.map_filter (\<lambda>g. position_record ein buy (snd g))
      (tally_by dl_position keep_deal [] own))" by (simp add: trades_def fetch_deals_def own_def)
  then have t: "trades = sort_key (\<lambda>r. utc_us (ar_close r)) (List.map_filter (position_record ein buy) (map grp ks))"
    unfolding gs map_filter_tagged [of "position_record ein buy"] .
  have h: "list_ex (\<lambda>d. dl_entry d = ein) (grp k) \<longleftrightarrow> k \<in> dl_position ` {d \<in> set own. dl_entry d = ein}" for k
    by (auto simp: grp_def list_ex_iff)
  have g: "(if list_ex (\<lambda>d. dl_entry d = ein) (grp k) then sum_list (map deal_money (grp k)) else 0)
      = sum_list (map deal_money (filter (\<lambda>d. dl_position d = k) (filter (has_entry ein own) own)))" for k
  proof -
    have "filter (\<lambda>d. dl_position d = k) (filter (has_entry ein own) own)
        = (if list_ex (\<lambda>d. dl_entry d = ein) (grp k) then grp k else [])"
      by (auto simp: grp_def has_entry_def list_ex_iff filter_empty_conv intro!: filter_cong)
    then show ?thesis by simp
  qed
  have "total_pnl trades = sum_list (map (\<lambda>k. sum_list (map deal_money
      (filter (\<lambda>d. dl_position d = k) (filter (has_entry ein own) own)))) ks)"
    by (simp add: total_pnl_def t sum_sorted records_pnl comp_def g)
  also have "\<dots> = sum_list (map deal_money (filter (has_entry ein own) own))"
    using ks by (intro sum_over_keys) auto
  finally have 1: "total_pnl trades = sum_list (map deal_money (filter (has_entry ein own) own))" .
  have "length trades = length (filter (\<lambda>k. k \<in> dl_position ` {d \<in> set own. dl_entry d = ein}) ks)"
    by (simp add: t records_count filter_map comp_def h)
  also have "\<dots> = card (set (filter (\<lambda>k. k \<in> dl_position ` {d \<in> set own. dl_entry d = ein}) ks))"
    by (rule distinct_card [symmetric]) (simp add: ks(1))
  also have "set (filter (\<lambda>k. k \<in> dl_position ` {d \<in> set own. dl_entry d = ein}) ks)
      = dl_position ` {d \<in> set own. dl_entry d = ein}" using ks(2) by auto
  finally show ?thesis using 1 by (simp add: t)
qed

text \<open>The script reports closed trades, closing at the last out-deal. A position still open has only its
  entry: it is reported as a trade that closed when it opened, with the commission as its result.\<close>

theorem open_position_reported:
  "fetch_deals 0 0 7 (Some [\<lparr>dl_magic = Some 7, dl_position = 1, dl_time = 60, dl_entry = 0, dl_type = 0,
      dl_profit = Some 0, dl_commission = Some (-3), dl_swap = None, dl_fee = None, dl_symbol = Some ''XAUUSD'',
      dl_volume = Some 1\<rparr>])
    = [\<lparr>ar_open = (60 * us_sec, Some 0), ar_close = (60 * us_sec, Some 0), ar_pnl = -3, ar_direction = ''LONG'',
        ar_symbol = ''XAUUSD'', ar_volume = 1, ar_reason = []\<rparr>]"
  by code_simp

end
