(* ===== verification/Command_Line.thy ===== *)
theory Command_Line
  imports Live Text_Time
begin

text \<open>
  The rest of \<open>orb/cli.py\<close>: reading the candles of a CSV file, building the three configurations from
  the flags, the replay command, the set-up of the guards of \<open>orb live\<close>, and the \<open>.env\<close> file. Flags
  are typed as the argument parser leaves them; Python's reading of numbers and dates is \<open>pytext\<close>.
  The decoding of a JSON configuration file's fields, the printed layouts, the help texts and the
  fetch command's download are left out.
\<close>

section \<open>Candles of a file\<close>

text \<open>A non-blank line of the file, cell by cell; a line that is too short has no text there.\<close>

record csv_line =
  ln_ts :: "string option"
  ln_open :: "string option"
  ln_high :: "string option"
  ln_low :: "string option"
  ln_close :: "string option"
  ln_volume :: "string option"

text \<open>The two candle errors of the reader, and what it lets through.\<close>

datatype load_fault = MissingColumns "string list" | BadRow nat | Raised error

definition required :: "string list" where
  "required = [''ts'', ''open'', ''high'', ''low'', ''close'']"

text \<open>Digits are seconds since 1970; those past the year 9999 are no datetime, those past the C library's
  calendar raise its own errors.\<close>

definition from_epoch :: "int \<Rightarrow> error + int" where
  "from_epoch n = (if n \<le> 253402300799 then Inr (n * us_sec)
     else if n \<le> 67768036191676799 then Inl (ValueError ''year is out of range'')
     else Inl OverflowError)"

definition parse_ts :: "pytext \<Rightarrow> string \<Rightarrow> error + int \<times> int" where
  "parse_ts tx raw = (let s = strip raw in
     if s \<noteq> [] \<and> list_all is_digit s
     then (case from_epoch (int (num s)) of Inl e \<Rightarrow> Inl e | Inr us \<Rightarrow> Inr (us, 0))
     else (case tx_iso tx (replace_z s) of
         None \<Rightarrow> Inl (ValueError ''Invalid isoformat string'')
       | Some (us, off) \<Rightarrow> Inr (us, case off of None \<Rightarrow> 0 | Some z \<Rightarrow> z)))"

definition cell_ts :: "pytext \<Rightarrow> string option \<Rightarrow> error + int \<times> int" where
  "cell_ts tx x = (case x of None \<Rightarrow> Inl AttributeError | Some s \<Rightarrow> parse_ts tx s)"

definition cell_float :: "pytext \<Rightarrow> string option \<Rightarrow> error + pyfloat" where
  "cell_float tx x = (case x of None \<Rightarrow> Inl TypeError
     | Some s \<Rightarrow> (case tx_float tx s of None \<Rightarrow> Inl (ValueError ''could not convert string to float'')
         | Some v \<Rightarrow> Inr v))"

definition cell_volume :: "pytext \<Rightarrow> string option \<Rightarrow> error + pyfloat" where
  "cell_volume tx x = (case x of None \<Rightarrow> Inr (Fin 0) | Some s \<Rightarrow> if s = [] then Inr (Fin 0) else cell_float tx x)"

definition candle_of_line :: "pytext \<Rightarrow> csv_line \<Rightarrow> error + raw_candle" where
  "candle_of_line tx l =
     and_then (cell_ts tx (ln_ts l)) (\<lambda>t.
     and_then (cell_float tx (ln_open l)) (\<lambda>op.
     and_then (cell_float tx (ln_high l)) (\<lambda>hi.
     and_then (cell_float tx (ln_low l)) (\<lambda>lo.
     and_then (cell_float tx (ln_close l)) (\<lambda>cl.
     and_then (cell_volume tx (ln_volume l)) (\<lambda>vol.
       Inr \<lparr>r_local = fst t, r_tz = Some (snd t), r_open = op, r_high = hi, r_low = lo, r_close = cl,
         r_volume = vol\<rparr>))))))"

text \<open>Value errors and key errors become candle errors with the line's number.\<close>

definition read_line :: "pytext \<Rightarrow> nat \<times> csv_line \<Rightarrow> load_fault + raw_candle" where
  "read_line tx nl = (case candle_of_line tx (snd nl) of
       Inr r \<Rightarrow> Inr r
     | Inl e \<Rightarrow> (case e of ValueError _ \<Rightarrow> Inl (BadRow (fst nl)) | KeyError \<Rightarrow> Inl (BadRow (fst nl)) | _ \<Rightarrow> Inl (Raised e)))"

text \<open>A generator: its user stops at the first fault.\<close>

definition load_csv :: "pytext \<Rightarrow> string list \<Rightarrow> csv_line list \<Rightarrow> (load_fault + raw_candle) list" where
  "load_csv tx header lines = (let missing = filter (\<lambda>c. c \<notin> set header) required in
     if missing \<noteq> [] then [Inl (MissingColumns missing)] else map (read_line tx) (List.enumerate 2 lines))"

section \<open>Configurations from flags\<close>

definition set_if :: "'a option \<Rightarrow> ('a \<Rightarrow> 'c \<Rightarrow> 'c) \<Rightarrow> 'c \<Rightarrow> 'c" where
  "set_if x put g = (case x of None \<Rightarrow> g | Some v \<Rightarrow> put v g)"

definition set_when :: "bool \<Rightarrow> ('c \<Rightarrow> 'c) \<Rightarrow> 'c \<Rightarrow> 'c" where
  "set_when b put g = (if b then put g else g)"

text \<open>The steps of an assembly, in order.\<close>

definition assemble :: "('c \<Rightarrow> 'c) list \<Rightarrow> 'c \<Rightarrow> 'c" where
  "assemble steps g = fold (\<lambda>f. f) steps g"

fun split_on :: "char \<Rightarrow> string \<Rightarrow> string list" where
  "split_on d [] = [[]]"
| "split_on d (c # cs) = (if c = d then [] # split_on d cs
     else (case split_on d cs of [] \<Rightarrow> [[c]] | w # ws \<Rightarrow> (c # w) # ws))"

text \<open>\<open>HH:MM\<close> to microseconds of the day.\<close>

definition parse_hhmm :: "pytext \<Rightarrow> string \<Rightarrow> error + int" where
  "parse_hhmm tx s = (case split_on CHR '':'' s of
       [h, m] \<Rightarrow> (case (tx_int tx h, tx_int tx m) of
           (Some a, Some b) \<Rightarrow> if 0 \<le> a \<and> a < 24 \<and> 0 \<le> b \<and> b < 60 then Inr ((a * 60 + b) * us_min)
             else Inl (ValueError ''hour or minute out of range'')
         | _ \<Rightarrow> Inl (ValueError ''invalid literal for int''))
     | _ \<Rightarrow> Inl (ValueError ''wrong number of values to unpack''))"

record common_flags =
  cf_session_open :: "string option"
  cf_session_len :: "int option"
  cf_long_only :: bool
  cf_short_only :: bool

text \<open>\<open>args.session_open\<close> when it is given and not empty.\<close>

definition open_flag :: "pytext \<Rightarrow> common_flags \<Rightarrow> error + int option" where
  "open_flag tx c = (case cf_session_open c of None \<Rightarrow> Inr None
     | Some s \<Rightarrow> if s = [] then Inr None else and_then (parse_hhmm tx s) (\<lambda>t. Inr (Some t)))"

subsection \<open>Opening range\<close>

text \<open>A configuration file gives its fields over the defaults, and the session's opening as a text.\<close>

record config_file =
  fl_fields :: orb_config
  fl_session :: "string option"

record orb_flags =
  fo_file :: "config_file option"
  fo_range :: "int option"
  fo_atr_period :: "int option"
  fo_atr_mult :: "flt option"
  fo_roc_period :: "int option"
  fo_roc_min :: "flt option"
  fo_rvol_period :: "int option"
  fo_rvol_min :: "flt option"
  fo_qty :: "flt option"
  fo_tp_rrr :: "flt option"
  fo_tp_close :: "flt option"
  fo_stop_max :: "flt option"
  fo_stop_min :: "flt option"
  fo_use_rvol :: bool
  fo_reentry :: "string option"
  fo_rearm :: bool
  fo_rearm_range :: "string option"

definition file_base :: "pytext \<Rightarrow> config_file option \<Rightarrow> error + orb_config" where
  "file_base tx file = (case file of None \<Rightarrow> Inr orb_defaults
     | Some f \<Rightarrow> (case fl_session f of None \<Rightarrow> Inr ((fl_fields f)\<lparr>oc_session_open := oc_session_open orb_defaults\<rparr>)
         | Some s \<Rightarrow> and_then (parse_hhmm tx s) (\<lambda>t. Inr ((fl_fields f)\<lparr>oc_session_open := t\<rparr>))))"

definition orb_steps :: "common_flags \<Rightarrow> orb_flags \<Rightarrow> (orb_config \<Rightarrow> orb_config) list" where
  "orb_steps c a =
    [set_if (fo_range a) (\<lambda>v g. g\<lparr>oc_range_minutes := v\<rparr>),
     set_if (fo_atr_period a) (\<lambda>v g. g\<lparr>oc_atr_period := v\<rparr>),
     set_if (fo_atr_mult a) (\<lambda>v g. g\<lparr>oc_atr_mult := v\<rparr>),
     set_if (fo_roc_period a) (\<lambda>v g. g\<lparr>oc_roc_period := v\<rparr>),
     set_if (fo_roc_min a) (\<lambda>v g. g\<lparr>oc_roc_min := v\<rparr>),
     set_if (fo_rvol_period a) (\<lambda>v g. g\<lparr>oc_rvol_period := v\<rparr>),
     set_if (fo_rvol_min a) (\<lambda>v g. g\<lparr>oc_rvol_min := v\<rparr>),
     set_if (cf_session_len c) (\<lambda>v g. g\<lparr>oc_session_len := v\<rparr>),
     set_if (fo_qty a) (\<lambda>v g. g\<lparr>oc_qty := v\<rparr>),
     set_if (fo_tp_rrr a) (\<lambda>v g. g\<lparr>oc_tp_rrr := Some v\<rparr>),
     set_if (fo_tp_close a) (\<lambda>v g. g\<lparr>oc_tp_frac := v\<rparr>),
     set_if (fo_stop_max a) (\<lambda>v g. g\<lparr>oc_stop_max := Some v\<rparr>),
     set_if (fo_stop_min a) (\<lambda>v g. g\<lparr>oc_stop_min := Some v\<rparr>),
     set_when (fo_use_rvol a) (\<lambda>g. g\<lparr>oc_use_rvol := True\<rparr>),
     set_if (fo_reentry a) (\<lambda>v g. g\<lparr>oc_reentry_on := v\<rparr>),
     set_when (cf_long_only c) (\<lambda>g. g\<lparr>oc_allow_short := False\<rparr>),
     set_when (cf_short_only c) (\<lambda>g. g\<lparr>oc_allow_long := False\<rparr>),
     set_when (fo_rearm a) (\<lambda>g. g\<lparr>oc_one_trade := False, oc_rearm := True\<rparr>),
     set_if (fo_rearm_range a) (\<lambda>v g. g\<lparr>oc_rearm_range := v\<rparr>)]"

definition build_config :: "pytext \<Rightarrow> common_flags \<Rightarrow> orb_flags \<Rightarrow> error + orb_config" where
  "build_config tx c a =
     and_then (file_base tx (fo_file a)) (\<lambda>base.
     and_then (open_flag tx c) (\<lambda>t.
       orb_config_init (set_if t (\<lambda>v g. g\<lparr>oc_session_open := v\<rparr>) (assemble (orb_steps c a) base))))"

subsection \<open>Volume profile\<close>

record svp_flags =
  fv_ticks_per_row :: "int option"
  fv_tick_size :: "flt option"
  fv_va_pct :: "flt option"
  fv_hvn_frac :: "flt option"
  fv_lvn_frac :: "flt option"
  fv_risk_pct :: "flt option"
  fv_min_bars :: "int option"
  fv_buffer_ticks :: "flt option"
  fv_enable_lvn :: bool
  fv_enable_absorption :: bool
  fv_tpo_fallback :: bool

definition svp_steps :: "common_flags \<Rightarrow> svp_flags \<Rightarrow> (svp_config \<Rightarrow> svp_config) list" where
  "svp_steps c a =
    [set_if (cf_session_len c) (\<lambda>v g. g\<lparr>sc_session_len := v\<rparr>),
     set_if (fv_ticks_per_row a) (\<lambda>v g. g\<lparr>sc_ticks_per_row := v\<rparr>),
     set_if (fv_tick_size a) (\<lambda>v g. g\<lparr>sc_tick_size := v\<rparr>),
     set_if (fv_va_pct a) (\<lambda>v g. g\<lparr>sc_va_pct := v\<rparr>),
     set_if (fv_hvn_frac a) (\<lambda>v g. g\<lparr>sc_hvn_frac := v\<rparr>),
     set_if (fv_lvn_frac a) (\<lambda>v g. g\<lparr>sc_lvn_frac := v\<rparr>),
     set_if (fv_risk_pct a) (\<lambda>v g. g\<lparr>sc_risk_pct := v\<rparr>),
     set_if (fv_min_bars a) (\<lambda>v g. g\<lparr>sc_min_bars := v\<rparr>),
     set_if (fv_buffer_ticks a) (\<lambda>v g. g\<lparr>sc_buffer_ticks := v\<rparr>),
     set_when (fv_enable_lvn a) (\<lambda>g. g\<lparr>sc_lvn := True\<rparr>),
     set_when (fv_enable_absorption a) (\<lambda>g. g\<lparr>sc_absorb := True\<rparr>),
     set_when (fv_tpo_fallback a) (\<lambda>g. g\<lparr>sc_tpo := True\<rparr>),
     set_when (cf_long_only c) (\<lambda>g. g\<lparr>sc_allow_short := False\<rparr>),
     set_when (cf_short_only c) (\<lambda>g. g\<lparr>sc_allow_long := False\<rparr>)]"

definition build_svp_config :: "pytext \<Rightarrow> common_flags \<Rightarrow> svp_flags \<Rightarrow> error + svp_config" where
  "build_svp_config tx c a =
     and_then (open_flag tx c) (\<lambda>t.
       svp_config_init (set_if t (\<lambda>v g. g\<lparr>sc_session_open := v\<rparr>) (assemble (svp_steps c a) svp_defaults)))"

subsection \<open>Smart Money\<close>

record smc_flags =
  fm_min_conf :: "int option"
  fm_risk_pct :: "flt option"
  fm_atr_mult :: "flt option"
  fm_poc_tol :: "flt option"
  fm_stop_max :: "flt option"
  fm_max_trades :: "int option"
  fm_final_tp :: "flt option"
  fm_stage1 :: "flt option"
  fm_stage2 :: "flt option"
  fm_min_lock :: "flt option"
  fm_comm :: "flt option"
  fm_stop_buffer :: "flt option"
  fm_ticks_per_row :: "int option"
  fm_trigger :: "int option"

definition smc_steps :: "smc_flags \<Rightarrow> (smc_config \<Rightarrow> smc_config) list" where
  "smc_steps a =
    [set_if (fm_min_conf a) (\<lambda>v g. g\<lparr>mc_min_conf := v\<rparr>),
     set_if (fm_risk_pct a) (\<lambda>v g. g\<lparr>mc_risk_pct := v\<rparr>),
     set_if (fm_atr_mult a) (\<lambda>v g. g\<lparr>mc_atr_mult := v\<rparr>),
     set_if (fm_poc_tol a) (\<lambda>v g. g\<lparr>mc_poc_tol := v\<rparr>),
     set_if (fm_stop_max a) (\<lambda>v g. g\<lparr>mc_stop_max := v\<rparr>),
     set_if (fm_max_trades a) (\<lambda>v g. g\<lparr>mc_max_trades := v\<rparr>),
     set_if (fm_final_tp a) (\<lambda>v g. g\<lparr>mc_final_tp := v\<rparr>),
     set_if (fm_stage1 a) (\<lambda>v g. g\<lparr>mc_stage1 := v\<rparr>),
     set_if (fm_stage2 a) (\<lambda>v g. g\<lparr>mc_stage2 := v\<rparr>),
     set_if (fm_min_lock a) (\<lambda>v g. g\<lparr>mc_min_lock := v\<rparr>),
     set_if (fm_comm a) (\<lambda>v g. g\<lparr>mc_comm := v\<rparr>),
     set_if (fm_stop_buffer a) (\<lambda>v g. g\<lparr>mc_stop_buffer := v\<rparr>),
     set_if (fm_ticks_per_row a) (\<lambda>v g. g\<lparr>mc_ticks_per_row := v\<rparr>),
     set_if (fm_trigger a) (\<lambda>v g. g\<lparr>mc_trigger := v\<rparr>)]"

definition build_smc_config :: "smc_flags \<Rightarrow> error + smc_config" where
  "build_smc_config a = smc_config_init (assemble (smc_steps a) smc_defaults)"

datatype strategy = StratOrb | StratSvp | StratSmc

record engine_flags =
  fe_strategy :: strategy
  fe_common :: common_flags
  fe_orb :: orb_flags
  fe_svp :: svp_flags
  fe_smc :: smc_flags

definition smc_engine_of :: "smc_flags \<Rightarrow> error + engine" where
  "smc_engine_of a = and_then (build_smc_config a) (\<lambda>g. and_then (smc_init g) (\<lambda>e. Inr (ESmc g e)))"

definition svp_engine_of :: "pytext \<Rightarrow> common_flags \<Rightarrow> svp_flags \<Rightarrow> error + engine" where
  "svp_engine_of tx c a = and_then (build_svp_config tx c a) (\<lambda>g. Inr (ESvp g (svp_new g)))"

definition build_engine :: "pytext \<Rightarrow> engine_flags \<Rightarrow> error + engine" where
  "build_engine tx f = (case fe_strategy f of
       StratSvp \<Rightarrow> svp_engine_of tx (fe_common f) (fe_svp f)
     | StratSmc \<Rightarrow> smc_engine_of (fe_smc f)
     | StratOrb \<Rightarrow> and_then (build_config tx (fe_common f) (fe_orb f)) (\<lambda>g. Inr (EOrb g (orb_new g))))"

section \<open>The replay command\<close>

text \<open>How a command ends: normally, with a fatal message and exit code 2, or with an exception that
  neither the command nor \<open>main\<close> catches.\<close>

datatype ending = Finished | Fatal | Crashed error

definition end_of :: "error \<Rightarrow> ending" where
  "end_of e = (if orb_error e then Fatal else Crashed e)"

definition fault_end :: "load_fault \<Rightarrow> ending" where
  "fault_end f = (case f of Raised e \<Rightarrow> end_of e | _ \<Rightarrow> Fatal)"

record replay_run =
  rp_printed :: "signal list"
  rp_sessions :: "int list"
  rp_engine :: engine
  rp_end :: ending

text \<open>The session or date a snapshot names.\<close>

definition eng_session :: "engine \<Rightarrow> int option" where
  "eng_session x = (case x of EOrb _ e \<Rightarrow> e_session_id e | ESvp _ e \<Rightarrow> sv_session_id e | ESmc _ e \<Rightarrow> me_date e)"

fun replay_rows :: "(load_fault + raw_candle) list \<Rightarrow> engine \<Rightarrow> replay_run" where
  "replay_rows [] x = \<lparr>rp_printed = [], rp_sessions = [], rp_engine = x, rp_end = Finished\<rparr>"
| "replay_rows (Inl f # rows) x = \<lparr>rp_printed = [], rp_sessions = [], rp_engine = x, rp_end = fault_end f\<rparr>"
| "replay_rows (Inr r # rows) x = (case eng_candle r x of
       (Inl e, x1) \<Rightarrow> \<lparr>rp_printed = [], rp_sessions = [], rp_engine = x1, rp_end = end_of e\<rparr>
     | (Inr s, x1) \<Rightarrow> let q = replay_rows rows x1 in
         q\<lparr>rp_printed := (case s of None \<Rightarrow> [] | Some sig \<Rightarrow> [sig]) @ rp_printed q,
           rp_sessions := (case eng_session x1 of None \<Rightarrow> [] | Some i \<Rightarrow> [i]) @ rp_sessions q\<rparr>)"

text \<open>\<open>strftime("%H:%M")\<close> of the first candle, for \<open>--session-open auto\<close>.\<close>

definition first_time :: "raw_candle \<Rightarrow> string" where
  "first_time r = (let m = (r_local r mod us_day) div us_min in
     padded 2 (nat (m div 60)) @ '':'' @ padded 2 (nat (m mod 60)))"

definition with_auto :: "(load_fault + raw_candle) list \<Rightarrow> engine_flags \<Rightarrow> ending + engine_flags" where
  "with_auto rows f = (if cf_session_open (fe_common f) \<noteq> Some ''auto'' then Inr f
     else (case rows of [] \<Rightarrow> Inl Fatal
       | Inl fault # _ \<Rightarrow> Inl (fault_end fault)
       | Inr r # _ \<Rightarrow> Inr (f\<lparr>fe_common := (fe_common f)\<lparr>cf_session_open := Some (first_time r)\<rparr>\<rparr>)))"

definition cmd_replay :: "pytext \<Rightarrow> engine_flags \<Rightarrow> string list \<Rightarrow> csv_line list \<Rightarrow> ending + replay_run" where
  "cmd_replay tx f header lines = (let rows = load_csv tx header lines in
     case with_auto rows f of Inl e \<Rightarrow> Inl e
     | Inr f1 \<Rightarrow> (case build_engine tx f1 of Inl e \<Rightarrow> Inl (end_of e) | Inr x \<Rightarrow> Inr (replay_rows rows x)))"

text \<open>The counters of the summary are kept by the signal callback.\<close>

definition summary_count :: "signal_kind \<Rightarrow> replay_run \<Rightarrow> nat" where
  "summary_count k q = length (filter (\<lambda>s. s_kind s = k) (sigs_in (eng_out (rp_engine q))))"

definition summary_sessions :: "replay_run \<Rightarrow> nat" where
  "summary_sessions q = length (remdups (rp_sessions q))"

section \<open>Starting the live command\<close>

record guard_flags =
  fg_max_daily_loss :: "flt option"
  fg_max_consec :: int
  fg_spike :: "flt option"
  fg_trueopen :: bool
  fg_quarters :: string
  fg_killzones :: "string option"
  fg_max_spread :: "flt option"
  fg_macro_mode :: string
  fg_symbol :: string
  fg_macro_stale :: string
  fg_macro_conf :: flt
  fg_trade_log :: bool
  fg_broadcast :: bool

record guards =
  gd_breaker :: "breaker option"
  gd_consec :: "loss_guard option"
  gd_spike :: "spike option"
  gd_trueopen :: bool
  gd_quarters :: "quarter list option"
  gd_killzones :: "(int \<times> int) list option"
  gd_spread :: "flt option"
  gd_macro :: "(macro_cfg \<times> macro_guard) option"
  gd_hub :: bool

definition or_end :: "error + 'a \<Rightarrow> ('a \<Rightarrow> ending + 'b) \<Rightarrow> ending + 'b" where
  "or_end r f = (case r of Inl e \<Rightarrow> Inl (end_of e) | Inr x \<Rightarrow> f x)"

text \<open>A value error with a handler of its own is a fatal message.\<close>

definition or_fatal :: "error + 'a \<Rightarrow> ('a \<Rightarrow> ending + 'b) \<Rightarrow> ending + 'b" where
  "or_fatal r f = (case r of
       Inl e \<Rightarrow> Inl (case e of ValueError _ \<Rightarrow> Fatal | _ \<Rightarrow> end_of e) | Inr x \<Rightarrow> f x)"

definition when_flag :: "bool \<Rightarrow> error + 'a \<Rightarrow> error + 'a option" where
  "when_flag b r = (if b then (case r of Inl e \<Rightarrow> Inl e | Inr x \<Rightarrow> Inr (Some x)) else Inr None)"

definition allowed_quarters :: "(string \<times> quarter list) list" where
  "allowed_quarters = [(''q2q3'', [Q2, Q3]), (''q3'', [Q3]), (''q3q4'', [Q3, Q4])]"

definition flt_flag :: "flt option \<Rightarrow> flt" where
  "flt_flag x = (case x of None \<Rightarrow> 0 | Some v \<Rightarrow> v)"

definition text_flag :: "string option \<Rightarrow> string" where
  "text_flag x = (case x of None \<Rightarrow> [] | Some v \<Rightarrow> v)"

text \<open>The guards in the order the command builds them. A loss limit or spike ratio of zero means none;
  the hub exists when something consumes its events; broadcasting needs the secret in the environment.\<close>

definition build_guards :: "guard_flags \<Rightarrow> string option \<Rightarrow> ending + guards" where
  "build_guards f secret =
     or_end (when_flag (truthy (fg_max_daily_loss f)) (breaker_init (fg_max_daily_loss f) None)) (\<lambda>br.
     let consec = (if fg_max_consec f \<noteq> 0 then Some (loss_guard_new (fg_max_consec f)) else None) in
     or_end (when_flag (truthy (fg_spike f)) (spike_init (flt_flag (fg_spike f)) 20 5)) (\<lambda>sk.
     or_end (when_flag (fg_quarters f \<noteq> ''off'') (case map_of allowed_quarters (fg_quarters f) of
         None \<Rightarrow> Inl KeyError | Some qs \<Rightarrow> Inr qs)) (\<lambda>qs.
     or_fatal (when_flag (text_flag (fg_killzones f) \<noteq> []) (parse_killzones (text_flag (fg_killzones f)))) (\<lambda>kz.
     or_fatal (when_flag (fg_max_spread f \<noteq> None) (spread_gate_init (flt_flag (fg_max_spread f)))) (\<lambda>sg.
     or_end (when_flag (fg_macro_mode f \<noteq> ''off'') (macro_init (fg_symbol f) (fg_macro_stale f) (fg_macro_conf f))) (\<lambda>mg.
     if fg_broadcast f \<and> text_flag secret = [] then Inl Fatal
     else Inr \<lparr>gd_breaker = br, gd_consec = consec, gd_spike = sk, gd_trueopen = fg_trueopen f, gd_quarters = qs,
       gd_killzones = kz, gd_spread = sg, gd_macro = mg,
       gd_hub = (fg_trade_log f \<or> fg_broadcast f \<or> consec \<noteq> None)\<rparr>))))))"

text \<open>The opening-range configuration is always built, also for the other two strategies.\<close>

definition start_live :: "pytext \<Rightarrow> engine_flags \<Rightarrow> bool \<Rightarrow> guard_flags \<Rightarrow> string option \<Rightarrow> ending + engine \<times> guards" where
  "start_live tx f source_ok gf secret =
     or_end (build_config tx (fe_common f) (fe_orb f)) (\<lambda>_.
     or_end (case fe_strategy f of StratSvp \<Rightarrow> and_then (build_svp_config tx (fe_common f) (fe_svp f)) (\<lambda>_. Inr ())
        | StratSmc \<Rightarrow> and_then (build_smc_config (fe_smc f)) (\<lambda>_. Inr ()) | StratOrb \<Rightarrow> Inr ()) (\<lambda>_.
     if \<not> source_ok then Inl Fatal
     else (case build_guards gf secret of Inl e \<Rightarrow> Inl e
       | Inr gd \<Rightarrow> or_end (build_engine tx f) (\<lambda>x. Inr (x, gd)))))"

section \<open>The \<open>.env\<close> file\<close>

definition quote_char :: "char \<Rightarrow> bool" where
  "quote_char c \<longleftrightarrow> c = CHR 0x27 \<or> c = CHR 0x22"

definition strip_quotes :: "string \<Rightarrow> string" where
  "strip_quotes s = rev (dropWhile quote_char (rev (dropWhile quote_char s)))"

text \<open>One line: blank lines, comments and lines without an equals sign are passed over; a name already set
  keeps its value.\<close>

definition env_line :: "string \<Rightarrow> (string \<rightharpoonup> string) \<Rightarrow> (string \<rightharpoonup> string)" where
  "env_line raw env = (let line = strip raw in
     if line = [] \<or> hd line = CHR ''#'' \<or> CHR ''='' \<notin> set line then env
     else let key = strip (takeWhile (\<lambda>c. c \<noteq> CHR ''='') line);
              val = strip_quotes (strip (List.tl (dropWhile (\<lambda>c. c \<noteq> CHR ''='') line)))
          in if key \<noteq> [] \<and> env key = None then env(key \<mapsto> val) else env)"

definition load_dotenv :: "string list option \<Rightarrow> (string \<rightharpoonup> string) \<Rightarrow> (string \<rightharpoonup> string)" where
  "load_dotenv file env = (case file of None \<Rightarrow> env | Some lines \<Rightarrow> fold env_line lines env)"

end
