(* ===== verification/Command_Properties.thy ===== *)
theory Command_Properties
  imports Command_Line Live_Properties
begin

text \<open>
  What the command line promises: every engine it starts is in its invariant, a replay prints exactly
  what the engine signals and its summary counts it, and the environment wins over the \<open>.env\<close> file.
\<close>

definition digits_only :: pytext where
  "digits_only = \<lparr>tx_float = (\<lambda>s. if s \<noteq> [] \<and> list_all is_digit s then Some (Fin (of_nat (num s))) else None),
     tx_int = (\<lambda>s. if s \<noteq> [] \<and> list_all is_digit s then Some (int (num s)) else None),
     tx_iso = read_iso, tx_str = (\<lambda>_. [])\<rparr>"

section \<open>Engines it starts\<close>

lemma parse_hhmm_range: "parse_hhmm tx s = Inr t \<Longrightarrow> 0 \<le> t \<and> t < us_day"
  by (auto simp: parse_hhmm_def us_min_def us_day_def split: list.splits option.splits if_splits)

lemma open_flag_range: "open_flag tx c = Inr (Some t) \<Longrightarrow> 0 \<le> t \<and> t < us_day"
  by (auto simp: open_flag_def and_then_def split: option.splits if_splits sum.splits dest: parse_hhmm_range)

lemma set_if_keeps: "(\<And>v. f (put v g) = f g) \<Longrightarrow> f (set_if x put g) = f g"
  by (simp add: set_if_def split: option.splits)

lemma set_when_keeps: "f (put g) = f g \<Longrightarrow> f (set_when b put g) = f g"
  by (simp add: set_when_def)

lemma assemble_keeps: "(\<And>h g. h \<in> set steps \<Longrightarrow> f (h g) = f g) \<Longrightarrow> f (assemble steps g) = f g"
  unfolding assemble_def by (induction steps arbitrary: g) simp_all

lemma orb_steps_session: "oc_session_open (assemble (orb_steps c a) g) = oc_session_open g"
  by (rule assemble_keeps) (auto simp: orb_steps_def set_if_def set_when_def split: option.splits)

lemma svp_steps_session: "sc_session_open (assemble (svp_steps c a) g) = sc_session_open g"
  by (rule assemble_keeps) (auto simp: svp_steps_def set_if_def set_when_def split: option.splits)

lemma file_base_range: "file_base tx f = Inr g \<Longrightarrow> 0 \<le> oc_session_open g \<and> oc_session_open g < us_day"
  by (auto simp: file_base_def and_then_def orb_defaults_def us_day_def split: option.splits sum.splits dest: parse_hhmm_range)

lemma init_same:
  "orb_config_init g = Inr g' \<Longrightarrow> g' = g" "svp_config_init h = Inr h' \<Longrightarrow> h' = h" "smc_config_init k = Inr k' \<Longrightarrow> k' = k"
  by (auto simp: orb_config_init_def svp_config_init_def smc_config_init_def Let_def
      split: if_splits option.splits sum.splits prod.splits)

lemma build_config_ok: "build_config tx c a = Inr g \<Longrightarrow> orb_config_ok g"
proof -
  assume b: "build_config tx c a = Inr g"
  then obtain base t where base: "file_base tx (fo_file a) = Inr base" and t: "open_flag tx c = Inr t"
    and i: "orb_config_init (set_if t (\<lambda>v g. g\<lparr>oc_session_open := v\<rparr>) (assemble (orb_steps c a) base)) = Inr g"
    by (auto simp: build_config_def and_then_def split: sum.splits)
  have "0 \<le> oc_session_open g \<and> oc_session_open g < us_day"
    using init_same(1) [OF i] t file_base_range [OF base] open_flag_range [of tx c]
    by (auto simp: set_if_def orb_steps_session split: option.splits)
  then show ?thesis using i init_same(1) [OF i] by (simp add: orb_config_ok_def)
qed

lemma build_svp_ok: "build_svp_config tx c a = Inr g \<Longrightarrow> svp_config_ok g"
proof -
  assume b: "build_svp_config tx c a = Inr g"
  then obtain t where t: "open_flag tx c = Inr t"
    and i: "svp_config_init (set_if t (\<lambda>v g. g\<lparr>sc_session_open := v\<rparr>) (assemble (svp_steps c a) svp_defaults)) = Inr g"
    by (auto simp: build_svp_config_def and_then_def split: sum.splits)
  have "0 \<le> sc_session_open g \<and> sc_session_open g < us_day"
    using init_same(2) [OF i] t open_flag_range [of tx c]
    by (auto simp: set_if_def svp_steps_session svp_defaults_def us_day_def split: option.splits)
  then show ?thesis using i init_same(2) [OF i] by (simp add: svp_config_ok_def)
qed

lemma build_smc_ok: "build_smc_config a = Inr g \<Longrightarrow> smc_config_ok g"
  using init_same(3) [of "assemble (smc_steps a) smc_defaults" g] by (auto simp: build_smc_config_def smc_config_ok_def)

lemma smc_init_new: "smc_init g = Inr e \<Longrightarrow> e = smc_new g"
  by (auto simp: smc_init_def split: sum.splits)

definition fresh_engine :: "engine \<Rightarrow> bool" where
  "fresh_engine x \<longleftrightarrow> eng_inv x \<and> eng_pos x = None \<and> eng_out x = [] \<and> eng_state x = IDLE"

lemma fresh_engines:
  "orb_config_ok g \<Longrightarrow> fresh_engine (EOrb g (orb_new g))"
  "svp_config_ok h \<Longrightarrow> fresh_engine (ESvp h (svp_new h))"
  "smc_config_ok k \<Longrightarrow> fresh_engine (ESmc k (smc_new k))"
proof -
  have "e_pos (orb_new g) = None \<and> e_out (orb_new g) = [] \<and> e_state (orb_new g) = IDLE"
    "sv_pos (svp_new h) = None \<and> sv_out (svp_new h) = [] \<and> sv_state (svp_new h) = IDLE"
    "me_pos (smc_new k) = None \<and> me_out (smc_new k) = [] \<and> me_state (smc_new k) = IDLE"
    by (simp_all add: orb_new_def svp_new_def smc_new_def)
  then show "orb_config_ok g \<Longrightarrow> fresh_engine (EOrb g (orb_new g))"
    "svp_config_ok h \<Longrightarrow> fresh_engine (ESvp h (svp_new h))" "smc_config_ok k \<Longrightarrow> fresh_engine (ESmc k (smc_new k))"
    by (simp_all add: fresh_engine_def eng_defs new_inv svp_new_inv smc_new_inv)
qed

lemma build_engine_fresh: "build_engine tx f = Inr x \<Longrightarrow> fresh_engine x"
  by (auto simp: build_engine_def svp_engine_of_def smc_engine_of_def and_then_def
      intro!: fresh_engines dest!: build_config_ok build_svp_ok build_smc_ok smc_init_new
      split: strategy.splits sum.splits)

section \<open>What the flags ask for\<close>

text \<open>A configuration field by field: a flag that is given, else the base's value.\<close>

definition given :: "'a option \<Rightarrow> 'a \<Rightarrow> 'a" where
  "given x d = (case x of None \<Rightarrow> d | Some v \<Rightarrow> v)"

definition given_some :: "'a option \<Rightarrow> 'a option \<Rightarrow> 'a option" where
  "given_some x d = (case x of None \<Rightarrow> d | Some v \<Rightarrow> Some v)"

definition orb_flagged :: "common_flags \<Rightarrow> orb_flags \<Rightarrow> int option \<Rightarrow> orb_config \<Rightarrow> orb_config" where
  "orb_flagged c a t base = base\<lparr>oc_range_minutes := given (fo_range a) (oc_range_minutes base),
     oc_atr_period := given (fo_atr_period a) (oc_atr_period base),
     oc_atr_mult := given (fo_atr_mult a) (oc_atr_mult base),
     oc_roc_period := given (fo_roc_period a) (oc_roc_period base),
     oc_roc_min := given (fo_roc_min a) (oc_roc_min base),
     oc_rvol_period := given (fo_rvol_period a) (oc_rvol_period base),
     oc_rvol_min := given (fo_rvol_min a) (oc_rvol_min base),
     oc_session_len := given (cf_session_len c) (oc_session_len base),
     oc_qty := given (fo_qty a) (oc_qty base),
     oc_tp_rrr := given_some (fo_tp_rrr a) (oc_tp_rrr base),
     oc_tp_frac := given (fo_tp_close a) (oc_tp_frac base),
     oc_stop_max := given_some (fo_stop_max a) (oc_stop_max base),
     oc_stop_min := given_some (fo_stop_min a) (oc_stop_min base),
     oc_use_rvol := (fo_use_rvol a \<or> oc_use_rvol base),
     oc_reentry_on := given (fo_reentry a) (oc_reentry_on base),
     oc_allow_short := (\<not> cf_long_only c \<and> oc_allow_short base),
     oc_allow_long := (\<not> cf_short_only c \<and> oc_allow_long base),
     oc_one_trade := (\<not> fo_rearm a \<and> oc_one_trade base),
     oc_rearm := (fo_rearm a \<or> oc_rearm base),
     oc_rearm_range := given (fo_rearm_range a) (oc_rearm_range base),
     oc_session_open := given t (oc_session_open base)\<rparr>"

lemma orb_given:
  fixes g :: orb_config
  shows "set_if x1 (\<lambda>v g. g\<lparr>oc_range_minutes := v\<rparr>) g = g\<lparr>oc_range_minutes := given x1 (oc_range_minutes g)\<rparr>"
    "set_if x2 (\<lambda>v g. g\<lparr>oc_atr_period := v\<rparr>) g = g\<lparr>oc_atr_period := given x2 (oc_atr_period g)\<rparr>"
    "set_if x3 (\<lambda>v g. g\<lparr>oc_atr_mult := v\<rparr>) g = g\<lparr>oc_atr_mult := given x3 (oc_atr_mult g)\<rparr>"
    "set_if x4 (\<lambda>v g. g\<lparr>oc_roc_period := v\<rparr>) g = g\<lparr>oc_roc_period := given x4 (oc_roc_period g)\<rparr>"
    "set_if x5 (\<lambda>v g. g\<lparr>oc_roc_min := v\<rparr>) g = g\<lparr>oc_roc_min := given x5 (oc_roc_min g)\<rparr>"
    "set_if x6 (\<lambda>v g. g\<lparr>oc_rvol_period := v\<rparr>) g = g\<lparr>oc_rvol_period := given x6 (oc_rvol_period g)\<rparr>"
    "set_if x7 (\<lambda>v g. g\<lparr>oc_rvol_min := v\<rparr>) g = g\<lparr>oc_rvol_min := given x7 (oc_rvol_min g)\<rparr>"
    "set_if x8 (\<lambda>v g. g\<lparr>oc_session_len := v\<rparr>) g = g\<lparr>oc_session_len := given x8 (oc_session_len g)\<rparr>"
    "set_if x9 (\<lambda>v g. g\<lparr>oc_qty := v\<rparr>) g = g\<lparr>oc_qty := given x9 (oc_qty g)\<rparr>"
    "set_if x10 (\<lambda>v g. g\<lparr>oc_tp_rrr := Some v\<rparr>) g = g\<lparr>oc_tp_rrr := given_some x10 (oc_tp_rrr g)\<rparr>"
    "set_if x11 (\<lambda>v g. g\<lparr>oc_tp_frac := v\<rparr>) g = g\<lparr>oc_tp_frac := given x11 (oc_tp_frac g)\<rparr>"
    "set_if x12 (\<lambda>v g. g\<lparr>oc_stop_max := Some v\<rparr>) g = g\<lparr>oc_stop_max := given_some x12 (oc_stop_max g)\<rparr>"
    "set_if x13 (\<lambda>v g. g\<lparr>oc_stop_min := Some v\<rparr>) g = g\<lparr>oc_stop_min := given_some x13 (oc_stop_min g)\<rparr>"
    "set_when b (\<lambda>g. g\<lparr>oc_use_rvol := True\<rparr>) g = g\<lparr>oc_use_rvol := (b \<or> oc_use_rvol g)\<rparr>"
    "set_if x14 (\<lambda>v g. g\<lparr>oc_reentry_on := v\<rparr>) g = g\<lparr>oc_reentry_on := given x14 (oc_reentry_on g)\<rparr>"
    "set_when b (\<lambda>g. g\<lparr>oc_allow_short := False\<rparr>) g = g\<lparr>oc_allow_short := (\<not> b \<and> oc_allow_short g)\<rparr>"
    "set_when b (\<lambda>g. g\<lparr>oc_allow_long := False\<rparr>) g = g\<lparr>oc_allow_long := (\<not> b \<and> oc_allow_long g)\<rparr>"
    "set_when b (\<lambda>g. g\<lparr>oc_one_trade := False, oc_rearm := True\<rparr>) g = g\<lparr>oc_one_trade := (\<not> b \<and> oc_one_trade g), oc_rearm := (b \<or> oc_rearm g)\<rparr>"
    "set_if x15 (\<lambda>v g. g\<lparr>oc_rearm_range := v\<rparr>) g = g\<lparr>oc_rearm_range := given x15 (oc_rearm_range g)\<rparr>"
    "set_if x16 (\<lambda>v g. g\<lparr>oc_session_open := v\<rparr>) g = g\<lparr>oc_session_open := given x16 (oc_session_open g)\<rparr>"
  by (simp_all add: set_if_def set_when_def given_def given_some_def split: option.split)

lemma orb_assembled:
  "set_if t (\<lambda>v g. g\<lparr>oc_session_open := v\<rparr>) (assemble (orb_steps c a) base) = orb_flagged c a t base"
  by (simp add: assemble_def orb_steps_def orb_given orb_flagged_def)

definition svp_flagged :: "common_flags \<Rightarrow> svp_flags \<Rightarrow> int option \<Rightarrow> svp_config \<Rightarrow> svp_config" where
  "svp_flagged c a t base = base\<lparr>sc_session_len := given (cf_session_len c) (sc_session_len base),
     sc_ticks_per_row := given (fv_ticks_per_row a) (sc_ticks_per_row base),
     sc_tick_size := given (fv_tick_size a) (sc_tick_size base),
     sc_va_pct := given (fv_va_pct a) (sc_va_pct base),
     sc_hvn_frac := given (fv_hvn_frac a) (sc_hvn_frac base),
     sc_lvn_frac := given (fv_lvn_frac a) (sc_lvn_frac base),
     sc_risk_pct := given (fv_risk_pct a) (sc_risk_pct base),
     sc_min_bars := given (fv_min_bars a) (sc_min_bars base),
     sc_buffer_ticks := given (fv_buffer_ticks a) (sc_buffer_ticks base),
     sc_lvn := (fv_enable_lvn a \<or> sc_lvn base),
     sc_absorb := (fv_enable_absorption a \<or> sc_absorb base),
     sc_tpo := (fv_tpo_fallback a \<or> sc_tpo base),
     sc_allow_short := (\<not> cf_long_only c \<and> sc_allow_short base),
     sc_allow_long := (\<not> cf_short_only c \<and> sc_allow_long base),
     sc_session_open := given t (sc_session_open base)\<rparr>"

lemma svp_given:
  fixes g :: svp_config
  shows "set_if x1 (\<lambda>v g. g\<lparr>sc_session_len := v\<rparr>) g = g\<lparr>sc_session_len := given x1 (sc_session_len g)\<rparr>"
    "set_if x2 (\<lambda>v g. g\<lparr>sc_ticks_per_row := v\<rparr>) g = g\<lparr>sc_ticks_per_row := given x2 (sc_ticks_per_row g)\<rparr>"
    "set_if x3 (\<lambda>v g. g\<lparr>sc_tick_size := v\<rparr>) g = g\<lparr>sc_tick_size := given x3 (sc_tick_size g)\<rparr>"
    "set_if x4 (\<lambda>v g. g\<lparr>sc_va_pct := v\<rparr>) g = g\<lparr>sc_va_pct := given x4 (sc_va_pct g)\<rparr>"
    "set_if x5 (\<lambda>v g. g\<lparr>sc_hvn_frac := v\<rparr>) g = g\<lparr>sc_hvn_frac := given x5 (sc_hvn_frac g)\<rparr>"
    "set_if x6 (\<lambda>v g. g\<lparr>sc_lvn_frac := v\<rparr>) g = g\<lparr>sc_lvn_frac := given x6 (sc_lvn_frac g)\<rparr>"
    "set_if x7 (\<lambda>v g. g\<lparr>sc_risk_pct := v\<rparr>) g = g\<lparr>sc_risk_pct := given x7 (sc_risk_pct g)\<rparr>"
    "set_if x8 (\<lambda>v g. g\<lparr>sc_min_bars := v\<rparr>) g = g\<lparr>sc_min_bars := given x8 (sc_min_bars g)\<rparr>"
    "set_if x9 (\<lambda>v g. g\<lparr>sc_buffer_ticks := v\<rparr>) g = g\<lparr>sc_buffer_ticks := given x9 (sc_buffer_ticks g)\<rparr>"
    "set_when b (\<lambda>g. g\<lparr>sc_lvn := True\<rparr>) g = g\<lparr>sc_lvn := (b \<or> sc_lvn g)\<rparr>"
    "set_when b (\<lambda>g. g\<lparr>sc_absorb := True\<rparr>) g = g\<lparr>sc_absorb := (b \<or> sc_absorb g)\<rparr>"
    "set_when b (\<lambda>g. g\<lparr>sc_tpo := True\<rparr>) g = g\<lparr>sc_tpo := (b \<or> sc_tpo g)\<rparr>"
    "set_when b (\<lambda>g. g\<lparr>sc_allow_short := False\<rparr>) g = g\<lparr>sc_allow_short := (\<not> b \<and> sc_allow_short g)\<rparr>"
    "set_when b (\<lambda>g. g\<lparr>sc_allow_long := False\<rparr>) g = g\<lparr>sc_allow_long := (\<not> b \<and> sc_allow_long g)\<rparr>"
    "set_if x10 (\<lambda>v g. g\<lparr>sc_session_open := v\<rparr>) g = g\<lparr>sc_session_open := given x10 (sc_session_open g)\<rparr>"
  by (simp_all add: set_if_def set_when_def given_def given_some_def split: option.split)

lemma svp_assembled:
  "set_if t (\<lambda>v g. g\<lparr>sc_session_open := v\<rparr>) (assemble (svp_steps c a) base) = svp_flagged c a t base"
  by (simp add: assemble_def svp_steps_def svp_given svp_flagged_def)

definition smc_flagged :: "smc_flags \<Rightarrow> smc_config \<Rightarrow> smc_config" where
  "smc_flagged a base = base\<lparr>mc_min_conf := given (fm_min_conf a) (mc_min_conf base),
     mc_risk_pct := given (fm_risk_pct a) (mc_risk_pct base),
     mc_atr_mult := given (fm_atr_mult a) (mc_atr_mult base),
     mc_poc_tol := given (fm_poc_tol a) (mc_poc_tol base),
     mc_stop_max := given (fm_stop_max a) (mc_stop_max base),
     mc_max_trades := given (fm_max_trades a) (mc_max_trades base),
     mc_final_tp := given (fm_final_tp a) (mc_final_tp base),
     mc_stage1 := given (fm_stage1 a) (mc_stage1 base),
     mc_stage2 := given (fm_stage2 a) (mc_stage2 base),
     mc_min_lock := given (fm_min_lock a) (mc_min_lock base),
     mc_comm := given (fm_comm a) (mc_comm base),
     mc_stop_buffer := given (fm_stop_buffer a) (mc_stop_buffer base),
     mc_ticks_per_row := given (fm_ticks_per_row a) (mc_ticks_per_row base),
     mc_trigger := given (fm_trigger a) (mc_trigger base)\<rparr>"

lemma smc_given:
  fixes g :: smc_config
  shows "set_if x1 (\<lambda>v g. g\<lparr>mc_min_conf := v\<rparr>) g = g\<lparr>mc_min_conf := given x1 (mc_min_conf g)\<rparr>"
    "set_if x2 (\<lambda>v g. g\<lparr>mc_risk_pct := v\<rparr>) g = g\<lparr>mc_risk_pct := given x2 (mc_risk_pct g)\<rparr>"
    "set_if x3 (\<lambda>v g. g\<lparr>mc_atr_mult := v\<rparr>) g = g\<lparr>mc_atr_mult := given x3 (mc_atr_mult g)\<rparr>"
    "set_if x4 (\<lambda>v g. g\<lparr>mc_poc_tol := v\<rparr>) g = g\<lparr>mc_poc_tol := given x4 (mc_poc_tol g)\<rparr>"
    "set_if x5 (\<lambda>v g. g\<lparr>mc_stop_max := v\<rparr>) g = g\<lparr>mc_stop_max := given x5 (mc_stop_max g)\<rparr>"
    "set_if x6 (\<lambda>v g. g\<lparr>mc_max_trades := v\<rparr>) g = g\<lparr>mc_max_trades := given x6 (mc_max_trades g)\<rparr>"
    "set_if x7 (\<lambda>v g. g\<lparr>mc_final_tp := v\<rparr>) g = g\<lparr>mc_final_tp := given x7 (mc_final_tp g)\<rparr>"
    "set_if x8 (\<lambda>v g. g\<lparr>mc_stage1 := v\<rparr>) g = g\<lparr>mc_stage1 := given x8 (mc_stage1 g)\<rparr>"
    "set_if x9 (\<lambda>v g. g\<lparr>mc_stage2 := v\<rparr>) g = g\<lparr>mc_stage2 := given x9 (mc_stage2 g)\<rparr>"
    "set_if x10 (\<lambda>v g. g\<lparr>mc_min_lock := v\<rparr>) g = g\<lparr>mc_min_lock := given x10 (mc_min_lock g)\<rparr>"
    "set_if x11 (\<lambda>v g. g\<lparr>mc_comm := v\<rparr>) g = g\<lparr>mc_comm := given x11 (mc_comm g)\<rparr>"
    "set_if x12 (\<lambda>v g. g\<lparr>mc_stop_buffer := v\<rparr>) g = g\<lparr>mc_stop_buffer := given x12 (mc_stop_buffer g)\<rparr>"
    "set_if x13 (\<lambda>v g. g\<lparr>mc_ticks_per_row := v\<rparr>) g = g\<lparr>mc_ticks_per_row := given x13 (mc_ticks_per_row g)\<rparr>"
    "set_if x14 (\<lambda>v g. g\<lparr>mc_trigger := v\<rparr>) g = g\<lparr>mc_trigger := given x14 (mc_trigger g)\<rparr>"
  by (simp_all add: set_if_def set_when_def given_def given_some_def split: option.split)

lemma smc_assembled: "assemble (smc_steps a) base = smc_flagged a base"
  by (simp add: assemble_def smc_steps_def smc_given smc_flagged_def)

text \<open>The engine the flags ask for: the strategy named, new, under the configuration the flags spell out,
  which the strategy's own checks accept.\<close>

definition engine_of_flags :: "pytext \<Rightarrow> engine_flags \<Rightarrow> engine \<Rightarrow> bool" where
  "engine_of_flags tx f x \<longleftrightarrow> (case fe_strategy f of
       StratOrb \<Rightarrow> \<exists>base t g. file_base tx (fo_file (fe_orb f)) = Inr base \<and> open_flag tx (fe_common f) = Inr t
         \<and> g = orb_flagged (fe_common f) (fe_orb f) t base \<and> orb_config_ok g \<and> x = EOrb g (orb_new g)
     | StratSvp \<Rightarrow> \<exists>t g. open_flag tx (fe_common f) = Inr t
         \<and> g = svp_flagged (fe_common f) (fe_svp f) t svp_defaults \<and> svp_config_ok g \<and> x = ESvp g (svp_new g)
     | StratSmc \<Rightarrow> \<exists>g. g = smc_flagged (fe_smc f) smc_defaults \<and> smc_config_ok g \<and> x = ESmc g (smc_new g))"

lemma build_engine_flags:
  assumes "build_engine tx f = Inr x"
  shows "engine_of_flags tx f x"
proof (cases "fe_strategy f")
  case StratOrb
  then obtain g where g: "build_config tx (fe_common f) (fe_orb f) = Inr g" "x = EOrb g (orb_new g)"
    using assms by (auto simp: build_engine_def and_then_def split: sum.splits)
  then obtain base t where b: "file_base tx (fo_file (fe_orb f)) = Inr base" "open_flag tx (fe_common f) = Inr t"
    "orb_config_init (orb_flagged (fe_common f) (fe_orb f) t base) = Inr g"
    by (auto simp: build_config_def and_then_def orb_assembled split: sum.splits)
  show ?thesis using StratOrb g b init_same(1) [OF b(3)] build_config_ok [OF g(1)]
    by (auto simp: engine_of_flags_def)
next
  case StratSvp
  then obtain g where g: "build_svp_config tx (fe_common f) (fe_svp f) = Inr g" "x = ESvp g (svp_new g)"
    using assms by (auto simp: build_engine_def svp_engine_of_def and_then_def split: sum.splits)
  then obtain t where b: "open_flag tx (fe_common f) = Inr t"
    "svp_config_init (svp_flagged (fe_common f) (fe_svp f) t svp_defaults) = Inr g"
    by (auto simp: build_svp_config_def and_then_def svp_assembled split: sum.splits)
  show ?thesis using StratSvp g b init_same(2) [OF b(2)] build_svp_ok [OF g(1)]
    by (auto simp: engine_of_flags_def)
next
  case StratSmc
  then obtain g e where g: "build_smc_config (fe_smc f) = Inr g" "smc_init g = Inr e" "x = ESmc g e"
    using assms by (auto simp: build_engine_def smc_engine_of_def and_then_def split: sum.splits)
  have b: "smc_config_init (smc_flagged (fe_smc f) smc_defaults) = Inr g"
    using g(1) by (simp add: build_smc_config_def smc_assembled)
  show ?thesis using StratSmc g init_same(3) [OF b] build_smc_ok [OF g(1)] smc_init_new [OF g(2)]
    by (auto simp: engine_of_flags_def)
qed

text \<open>The guards the flags ask for, one by one, each new: a flag left off (or zero, for the two limits and
  the spike ratio) gives no guard, any other gives that guard with the flag's own value.\<close>

definition guards_of_flags :: "guard_flags \<Rightarrow> guards \<Rightarrow> bool" where
  "guards_of_flags gf gd \<longleftrightarrow>
     gd_breaker gd = (if truthy (fg_max_daily_loss gf)
       then Some \<lparr>db_max = fg_max_daily_loss gf, db_pct = None, db_day = None, db_start = 0,
         db_cap = flt_flag (fg_max_daily_loss gf), db_delta = 0, db_halted = False\<rparr> else None)
   \<and> (gd_breaker gd \<noteq> None \<longrightarrow> 0 < flt_flag (fg_max_daily_loss gf))
   \<and> gd_consec gd = (if fg_max_consec gf = 0 then None
       else Some \<lparr>lg_max = fg_max_consec gf, lg_period = None, lg_streak = 0\<rparr>)
   \<and> gd_spike gd = (if truthy (fg_spike gf)
       then Some \<lparr>sk_ratio = flt_flag (fg_spike gf), sk_lookback = 20, sk_min_bars = 5, sk_ranges = []\<rparr> else None)
   \<and> (gd_spike gd \<noteq> None \<longrightarrow> 1 < flt_flag (fg_spike gf))
   \<and> gd_trueopen gd = fg_trueopen gf
   \<and> (fg_quarters gf, gd_quarters gd) \<in> {(''off'', None), (''q2q3'', Some [Q2, Q3]), (''q3'', Some [Q3]),
        (''q3q4'', Some [Q3, Q4])}
   \<and> (case gd_killzones gd of None \<Rightarrow> text_flag (fg_killzones gf) = []
        | Some ws \<Rightarrow> text_flag (fg_killzones gf) \<noteq> [] \<and> parse_killzones (text_flag (fg_killzones gf)) = Inr ws)
   \<and> gd_spread gd = fg_max_spread gf \<and> (gd_spread gd \<noteq> None \<longrightarrow> 0 < flt_flag (fg_max_spread gf))
   \<and> gd_macro gd = (if fg_macro_mode gf = ''off'' then None
       else Some (\<lparr>gk_key = bare_key (fg_symbol gf), gk_policy = fg_macro_stale gf, gk_conf_min = fg_macro_conf gf\<rparr>,
         \<lparr>mg_mtime = None, mg_state = None\<rparr>))
   \<and> (gd_macro gd \<noteq> None \<longrightarrow> fg_macro_stale gf \<in> {''allow'', ''block''})
   \<and> gd_hub gd = (fg_trade_log gf \<or> fg_broadcast gf \<or> fg_max_consec gf \<noteq> 0)"

lemma or_end_Inr: "or_end r f = Inr y \<Longrightarrow> \<exists>v. r = Inr v \<and> f v = Inr y"
  "or_fatal r f = Inr y \<Longrightarrow> \<exists>v. r = Inr v \<and> f v = Inr y"
  by (auto simp: or_end_def or_fatal_def split: sum.splits)

lemma when_flag_Inr: "when_flag b r = Inr v \<Longrightarrow> if b then \<exists>w. r = Inr w \<and> v = Some w else v = None"
  by (auto simp: when_flag_def split: if_splits sum.splits)

lemma build_guards_flags:
  assumes "build_guards gf secret = Inr gd"
  shows "guards_of_flags gf gd \<and> (fg_broadcast gf \<longrightarrow> text_flag secret \<noteq> [])"
proof -
  obtain br sk qs kz sg mg where
    br: "when_flag (truthy (fg_max_daily_loss gf)) (breaker_init (fg_max_daily_loss gf) None) = Inr br"
    and sk: "when_flag (truthy (fg_spike gf)) (spike_init (flt_flag (fg_spike gf)) 20 5) = Inr sk"
    and qs: "when_flag (fg_quarters gf \<noteq> ''off'') (case map_of allowed_quarters (fg_quarters gf) of
         None \<Rightarrow> Inl KeyError | Some qs \<Rightarrow> Inr qs) = Inr qs"
    and kz: "when_flag (text_flag (fg_killzones gf) \<noteq> []) (parse_killzones (text_flag (fg_killzones gf))) = Inr kz"
    and sg: "when_flag (fg_max_spread gf \<noteq> None) (spread_gate_init (flt_flag (fg_max_spread gf))) = Inr sg"
    and mg: "when_flag (fg_macro_mode gf \<noteq> ''off'') (macro_init (fg_symbol gf) (fg_macro_stale gf) (fg_macro_conf gf))
        = Inr mg"
    and sec: "fg_broadcast gf \<longrightarrow> text_flag secret \<noteq> []"
    and gd: "gd = \<lparr>gd_breaker = br,
       gd_consec = (if fg_max_consec gf \<noteq> 0 then Some (loss_guard_new (fg_max_consec gf)) else None),
       gd_spike = sk, gd_trueopen = fg_trueopen gf, gd_quarters = qs, gd_killzones = kz, gd_spread = sg,
       gd_macro = mg, gd_hub = (fg_trade_log gf \<or> fg_broadcast gf
         \<or> (if fg_max_consec gf \<noteq> 0 then Some (loss_guard_new (fg_max_consec gf)) else None) \<noteq> None)\<rparr>"
    using assms unfolding build_guards_def Let_def
    by (auto dest!: or_end_Inr simp del: split_paired_Ex split: if_split_asm)
  note facts = br [THEN when_flag_Inr] sk [THEN when_flag_Inr] qs [THEN when_flag_Inr]
    kz [THEN when_flag_Inr] sg [THEN when_flag_Inr] mg [THEN when_flag_Inr]
  have 1: "br = (if truthy (fg_max_daily_loss gf)
       then Some \<lparr>db_max = fg_max_daily_loss gf, db_pct = None, db_day = None, db_start = 0,
         db_cap = flt_flag (fg_max_daily_loss gf), db_delta = 0, db_halted = False\<rparr> else None)"
    "br \<noteq> None \<longrightarrow> 0 < flt_flag (fg_max_daily_loss gf)"
    using facts(1) by (auto simp: breaker_init_def opt_nonpos_def flt_flag_def truthy_def split: if_splits option.splits)
  have 2: "sk = (if truthy (fg_spike gf)
       then Some \<lparr>sk_ratio = flt_flag (fg_spike gf), sk_lookback = 20, sk_min_bars = 5, sk_ranges = []\<rparr> else None)"
    "sk \<noteq> None \<longrightarrow> 1 < flt_flag (fg_spike gf)"
    using facts(2) by (auto simp: spike_init_def split: if_splits)
  have 3: "(fg_quarters gf, qs) \<in> {(''off'', None), (''q2q3'', Some [Q2, Q3]), (''q3'', Some [Q3]),
        (''q3q4'', Some [Q3, Q4])}"
    using facts(3) by (auto simp: allowed_quarters_def split: if_splits option.splits)
  have 4: "case kz of None \<Rightarrow> text_flag (fg_killzones gf) = []
        | Some ws \<Rightarrow> text_flag (fg_killzones gf) \<noteq> [] \<and> parse_killzones (text_flag (fg_killzones gf)) = Inr ws"
    using facts(4) by (auto split: if_splits)
  have 5: "sg = fg_max_spread gf" "sg \<noteq> None \<longrightarrow> 0 < flt_flag (fg_max_spread gf)"
    using facts(5) by (auto simp: spread_gate_init_def flt_flag_def split: if_splits option.splits)
  have 6: "mg = (if fg_macro_mode gf = ''off'' then None
       else Some (\<lparr>gk_key = bare_key (fg_symbol gf), gk_policy = fg_macro_stale gf, gk_conf_min = fg_macro_conf gf\<rparr>,
         \<lparr>mg_mtime = None, mg_state = None\<rparr>))"
    "mg \<noteq> None \<longrightarrow> fg_macro_stale gf \<in> {''allow'', ''block''}"
    using facts(6) by (auto simp: macro_init_def split: if_splits)
  show ?thesis
    unfolding guards_of_flags_def gd using 1 2 3 4 5 6 sec by (simp add: loss_guard_new_def)
qed

section \<open>Replay\<close>

text \<open>The bars of a file up to its first fault.\<close>

fun good_rows :: "(load_fault + raw_candle) list \<Rightarrow> raw_candle list" where
  "good_rows [] = []"
| "good_rows (Inl f # rows) = []"
| "good_rows (Inr r # rows) = r # good_rows rows"

lemma replay_stream:
  defines "run \<equiv> (\<lambda>rows. stream_run eng_candle eng_flat True (map (\<lambda>r. (r, False)) (good_rows rows)))"
  shows "rp_printed (replay_rows rows x) = rr_signals (run rows x)
   \<and> rp_engine (replay_rows rows x) = rr_state (run rows x)
   \<and> rp_end (replay_rows rows x) = (case rr_error (run rows x) of Some e \<Rightarrow> end_of e
      | None \<Rightarrow> (case dropWhile (\<lambda>r. \<not> isl r) rows of [] \<Rightarrow> Finished | r # _ \<Rightarrow> fault_end (projl r)))"
  unfolding run_def
  by (induction rows x rule: replay_rows.induct)
    (auto simp: hook_flat_def Let_def split: prod.splits sum.splits option.splits)

text \<open>The same, said of the file: the candles of its lines up to the first that cannot be read, and none
  when a required column is missing.\<close>

definition readable :: "pytext \<Rightarrow> string list \<Rightarrow> csv_line list \<Rightarrow> raw_candle list" where
  "readable tx header lines = (if set required \<subseteq> set header
     then map projr (takeWhile (\<lambda>r. \<not> isl r) (map (candle_of_line tx) lines)) else [])"

definition all_readable :: "pytext \<Rightarrow> string list \<Rightarrow> csv_line list \<Rightarrow> bool" where
  "all_readable tx header lines \<longleftrightarrow> set required \<subseteq> set header
     \<and> (\<forall>l \<in> set lines. \<not> isl (candle_of_line tx l))"

lemma read_line_isl: "isl (read_line tx (n, l)) = isl (candle_of_line tx l)"
  "candle_of_line tx l = Inr r \<Longrightarrow> read_line tx (n, l) = Inr r"
  by (auto simp: read_line_def split: sum.splits error.splits)

lemma good_rows_lines:
  "good_rows (map (read_line tx) (List.enumerate n lines))
     = map projr (takeWhile (\<lambda>r. \<not> isl r) (map (candle_of_line tx) lines))"
proof (induction lines arbitrary: n)
  case Nil
  then show ?case by simp
next
  case (Cons l lines)
  show ?case
  proof (cases "candle_of_line tx l")
    case (Inl e)
    then have "isl (read_line tx (n, l))" by (simp add: read_line_isl)
    then show ?thesis using Inl by (cases "read_line tx (n, l)") simp_all
  next
    case (Inr r)
    then show ?thesis using Cons by (simp add: read_line_isl(2))
  qed
qed

lemma missing_columns: "filter (\<lambda>c. c \<notin> set header) required = [] \<longleftrightarrow> set required \<subseteq> set header"
  by (auto simp: filter_empty_conv)

lemma good_rows_readable: "good_rows (load_csv tx header lines) = readable tx header lines"
  by (simp add: load_csv_def readable_def Let_def missing_columns good_rows_lines)

lemma rows_readable:
  "(\<forall>r \<in> set (map (read_line tx) (List.enumerate n lines)). \<not> isl r)
     \<longleftrightarrow> (\<forall>l \<in> set lines. \<not> isl (candle_of_line tx l))"
  by (induction lines arbitrary: n) (simp_all add: read_line_isl(1))

lemma faultless: "dropWhile (\<lambda>r. \<not> isl r) (load_csv tx header lines) = [] \<longleftrightarrow> all_readable tx header lines"
  unfolding dropWhile_eq_Nil_conv not_not
  using rows_readable [of tx 2 lines]
  by (auto simp: load_csv_def all_readable_def Let_def missing_columns simp del: set_map)

lemma unfinished: "fault_end f \<noteq> Finished" "end_of e \<noteq> Finished"
  by (auto simp: fault_end_def end_of_def split: load_fault.splits)

text \<open>The flags a replay goes by: with \<open>--session-open auto\<close>, the session opens at the time printed for the
  file's first candle.\<close>

definition replay_flags :: "engine_flags \<Rightarrow> raw_candle list \<Rightarrow> engine_flags \<Rightarrow> bool" where
  "replay_flags f bars f1 \<longleftrightarrow> (if cf_session_open (fe_common f) = Some ''auto''
     then bars \<noteq> [] \<and> f1 = f\<lparr>fe_common := (fe_common f)\<lparr>cf_session_open := Some (first_time (hd bars))\<rparr>\<rparr>
     else f1 = f)"

lemma with_auto_flags:
  assumes "with_auto (load_csv tx header lines) f = Inr f1"
  shows "replay_flags f (readable tx header lines) f1"
proof (cases "load_csv tx header lines")
  case Nil
  then show ?thesis using assms by (auto simp: with_auto_def replay_flags_def split: if_splits)
next
  case (Cons r rest)
  then show ?thesis using assms good_rows_readable [of tx header lines, symmetric]
    by (cases r) (auto simp: with_auto_def replay_flags_def split: if_splits)
qed

text \<open>C7: a replay says what the engine does. With \<open>bars\<close> the candles of the file up to its first
  unreadable line, the engine is the one the flags ask for, every one of \<open>bars\<close> goes through it in order
  until it refuses one, exactly the signals it gives are printed, and the engine reported is the one left.
  No signal is lost between the callback, which keeps the summary's counters, and the printed lines;
  printed entries and full exits differ by exactly the open position; and the command finishes normally
  exactly when the engine refused nothing and the whole file could be read.\<close>

theorem replay_summary_true:
  "case cmd_replay tx f header lines of Inl e \<Rightarrow> e \<noteq> Finished
    | Inr q \<Rightarrow> \<exists>bars f1 x run. bars = readable tx header lines
        \<and> replay_flags f bars f1 \<and> engine_of_flags tx f1 x
        \<and> run = stream_run eng_candle eng_flat True (map (\<lambda>r. (r, False)) bars) x
        \<and> rp_printed q = rr_signals run \<and> rp_engine q = rr_state run
        \<and> (rp_end q = Finished \<longleftrightarrow> rr_error run = None \<and> all_readable tx header lines)
        \<and> (\<forall>k. summary_count k q = length (filter (\<lambda>s. s_kind s = k) (rp_printed q)))
        \<and> entries (rp_printed q) = closings (rp_printed q) + (if eng_pos (rp_engine q) = None then 0 else 1)"
proof (cases "cmd_replay tx f header lines")
  case (Inl e)
  then show ?thesis
    by (auto simp: cmd_replay_def with_auto_def Let_def unfinished split: sum.splits if_splits list.splits)
next
  case (Inr q)
  then obtain f1 x where f1: "with_auto (load_csv tx header lines) f = Inr f1"
    and x: "build_engine tx f1 = Inr x" and q: "q = replay_rows (load_csv tx header lines) x"
    by (auto simp: cmd_replay_def Let_def split: sum.splits)
  define bars where "bars = readable tx header lines"
  define run where "run = stream_run eng_candle eng_flat True (map (\<lambda>r. (r, False)) bars) x"
  have fresh: "fresh_engine x" by (rule build_engine_fresh [OF x])
  then have inv: "eng_inv x" "eng_pos x = None" "eng_out x = []" by (simp_all add: fresh_engine_def)
  have r: "rp_printed q = rr_signals run" "rp_engine q = rr_state run"
    "rp_end q = (case rr_error run of Some e \<Rightarrow> end_of e
      | None \<Rightarrow> (case dropWhile (\<lambda>r. \<not> isl r) (load_csv tx header lines) of [] \<Rightarrow> Finished
          | r # _ \<Rightarrow> fault_end (projl r)))"
    using replay_stream [of "load_csv tx header lines" x]
    by (simp_all add: q bars_def run_def good_rows_readable)
  have fin: "rp_end q = Finished \<longleftrightarrow> rr_error run = None \<and> all_readable tx header lines"
    unfolding r(3) faultless [symmetric]
    by (auto simp: unfinished simp del: dropWhile_eq_Nil_conv split: option.splits list.splits)
  have "sigs_in (eng_out (rp_engine q)) = rp_printed q"
    using eng.stream_logged [OF inv(1), of True "map (\<lambda>r. (r, False)) bars"] inv(3)
    by (auto simp: logged_def r run_def)
  moreover have "linked False (rp_printed q)" "open_after False (rp_printed q) = (eng_pos (rp_engine q) \<noteq> None)"
    using eng.stream_linked [OF inv(1), of True "map (\<lambda>r. (r, False)) bars"] inv(2)
    by (simp_all add: r run_def)
  then have "entries (rp_printed q) = closings (rp_printed q) + (if eng_pos (rp_engine q) = None then 0 else 1)"
    using linked_balance [of False "rp_printed q"] by simp
  ultimately show ?thesis
    using r(1,2) fin with_auto_flags [OF f1] build_engine_flags [OF x]
    by (simp add: Inr bars_def summary_count_def run_def) blast
qed

section \<open>The live start\<close>

text \<open>C6: the live command starts what its flags ask for. When it gets as far as the loop, the engine is
  the named strategy's, new, under the configuration the flags spell out field by field: in its
  invariant, idle, holding nothing, nothing announced. The guards are exactly those switched on, new and
  with the flags' own values; broadcasting goes on only with a secret. From there on, over any run of the
  loop, entries announced exceed full exits by exactly the open position and the announced transitions
  lead from idle to the engine's state.\<close>

theorem live_start_sound:
  assumes "start_live tx f src gf secret = Inr (x, gd)" "ls_engine l = x" "live_run a m k fs l = (r, l')"
  shows "eng_inv x \<and> eng_pos x = None \<and> eng_out x = [] \<and> eng_state x = IDLE
    \<and> engine_of_flags tx f x
    \<and> guards_of_flags gf gd \<and> (fg_broadcast gf \<longrightarrow> text_flag secret \<noteq> []) \<and> src
    \<and> entries (sigs_in (eng_out (ls_engine l'))) = closings (sigs_in (eng_out (ls_engine l')))
      + (if eng_pos (ls_engine l') = None then 0 else 1)
    \<and> path_end IDLE (eng_out (ls_engine l')) = Some (eng_state (ls_engine l'))"
proof -
  have be: "build_engine tx f = Inr x" "build_guards gf secret = Inr gd" "src"
    using assms(1) by (auto simp: start_live_def or_end_def split: sum.splits if_splits)
  then have x: "eng_inv x" "eng_pos x = None" "eng_out x = []" "eng_state x = IDLE"
    using build_engine_fresh [of tx f x] by (simp_all add: fresh_engine_def)
  obtain bars where b: "ls_engine l' = rr_state (stream_run eng_candle eng_flat False bars x)"
    using live_run_stream [of fs a m k l] assms(2,3) by auto
  define sigs where "sigs = rr_signals (stream_run eng_candle eng_flat False bars x)"
  have new: "sigs_in (eng_out (ls_engine l')) = sigs" "path_end IDLE (eng_out (ls_engine l')) = Some (eng_state (ls_engine l'))"
    using eng.stream_logged [OF x(1), of False bars] x(3,4) by (auto simp: logged_def b sigs_def)
  have "linked False sigs" "open_after False sigs = (eng_pos (ls_engine l') \<noteq> None)"
    using eng.stream_linked [OF x(1), of False bars] x(2) by (simp_all add: b sigs_def)
  then show ?thesis
    using linked_balance [of False sigs] new x build_engine_flags [OF be(1)] build_guards_flags [OF be(2)] be(3)
    by simp
qed

definition plain_flags :: engine_flags where
  "plain_flags = \<lparr>fe_strategy = StratOrb, fe_common = \<lparr>cf_session_open = Some ''07:30'', cf_session_len = None,
       cf_long_only = False, cf_short_only = False\<rparr>,
     fe_orb = \<lparr>fo_file = None, fo_range = Some 15, fo_atr_period = None, fo_atr_mult = None, fo_roc_period = None,
       fo_roc_min = None, fo_rvol_period = None, fo_rvol_min = None, fo_qty = None, fo_tp_rrr = None, fo_tp_close = None,
       fo_stop_max = None, fo_stop_min = None, fo_use_rvol = False, fo_reentry = None, fo_rearm = False,
       fo_rearm_range = None\<rparr>,
     fe_svp = \<lparr>fv_ticks_per_row = None, fv_tick_size = None, fv_va_pct = None, fv_hvn_frac = None, fv_lvn_frac = None,
       fv_risk_pct = None, fv_min_bars = None, fv_buffer_ticks = None, fv_enable_lvn = False,
       fv_enable_absorption = False, fv_tpo_fallback = False\<rparr>,
     fe_smc = \<lparr>fm_min_conf = None, fm_risk_pct = None, fm_atr_mult = None, fm_poc_tol = None, fm_stop_max = None,
       fm_max_trades = None, fm_final_tp = None, fm_stage1 = None, fm_stage2 = None, fm_min_lock = None, fm_comm = None,
       fm_stop_buffer = None, fm_ticks_per_row = None, fm_trigger = None\<rparr>\<rparr>"

definition plain_guards :: guard_flags where
  "plain_guards = \<lparr>fg_max_daily_loss = Some 110, fg_max_consec = 0, fg_spike = None, fg_trueopen = False,
     fg_quarters = ''q3'', fg_killzones = Some ''12:00-16:00'', fg_max_spread = None, fg_macro_mode = ''off'',
     fg_symbol = ''XAUUSD.ecn'', fg_macro_stale = ''allow'', fg_macro_conf = 6 / 10, fg_trade_log = False,
     fg_broadcast = False\<rparr>"

definition plain_config :: orb_config where
  "plain_config = orb_defaults\<lparr>oc_range_minutes := 15, oc_session_open := 450 * us_min\<rparr>"

lemma plain_start: "map_sum id fst (start_live digits_only plain_flags True plain_guards None)
    = Inr (EOrb plain_config (orb_new plain_config))"
  by code_simp

theorem live_start_sound_witness:
  "\<exists>gd r l'. start_live digits_only plain_flags True plain_guards None = Inr (EOrb plain_config (orb_new plain_config), gd)
     \<and> live_run live_demo_args (timeout_terminal True) (broker_of live_demo_args (EOrb plain_config (orb_new plain_config)))
         [feed_of (bar 0 10 12 9 11)] (live_start ([] :: int list) (EOrb plain_config (orb_new plain_config))) = (r, l')
     \<and> path_end IDLE (eng_out (ls_engine l')) \<noteq> None
     \<and> gd_consec gd = None \<and> gd_quarters gd = Some [Q3] \<and> map_option db_max (gd_breaker gd) = Some (Some 110)"
proof -
  obtain gd where g: "start_live digits_only plain_flags True plain_guards None = Inr (EOrb plain_config (orb_new plain_config), gd)"
    using plain_start by (cases "start_live digits_only plain_flags True plain_guards None") auto
  obtain r l' where r: "live_run live_demo_args (timeout_terminal True)
      (broker_of live_demo_args (EOrb plain_config (orb_new plain_config))) [feed_of (bar 0 10 12 9 11)]
      (live_start ([] :: int list) (EOrb plain_config (orb_new plain_config))) = (r, l')" by (meson surj_pair)
  have s: "ls_engine (live_start ([] :: int list) (EOrb plain_config (orb_new plain_config))) = EOrb plain_config (orb_new plain_config)"
    by (simp add: live_start_def)
  have "guards_of_flags plain_guards gd" "path_end IDLE (eng_out (ls_engine l')) \<noteq> None"
    using live_start_sound [OF g s r] by auto
  then show ?thesis using g r by (auto simp: guards_of_flags_def plain_guards_def truthy_def)
qed

section \<open>The environment\<close>

lemma env_line_mono: "env k = Some v \<Longrightarrow> env_line l env k = Some v"
  by (auto simp: env_line_def Let_def)

text \<open>The environment wins: no line of the \<open>.env\<close> file changes a variable that is already set.\<close>

lemma dotenv_no_override: "env k = Some v \<Longrightarrow> load_dotenv file env k = Some v"
proof -
  have "env k = Some v \<Longrightarrow> fold env_line ls env k = Some v" for ls env
    by (induction ls arbitrary: env) (simp_all add: env_line_mono)
  then show "env k = Some v \<Longrightarrow> load_dotenv file env k = Some v"
    by (simp add: load_dotenv_def split: option.split)
qed

section \<open>Where the reader falls short\<close>

text \<open>A bad row is said to be a candle error naming the line. A row cut short has no text in its last cells:
  the conversion raises TypeError, which the handler does not catch and nothing turns into a message.\<close>

theorem short_row_escapes:
  "cmd_replay digits_only \<lparr>fe_strategy = StratSvp, fe_common = \<lparr>cf_session_open = Some ''auto'', cf_session_len = None,
        cf_long_only = False, cf_short_only = False\<rparr>, fe_orb = fo, fe_svp = fv, fe_smc = fm\<rparr> required
      [\<lparr>ln_ts = Some ''60'', ln_open = Some ''1'', ln_high = Some ''2'', ln_low = Some ''1'', ln_close = None,
        ln_volume = None\<rparr>] = Inl (Crashed TypeError)"
  by code_simp

text \<open>The session is to open at the first candle, in UTC. The time is printed in the file's own zone: with
  bars stamped two hours east, the session opens two hours after the first bar.\<close>

definition eastern_bar :: raw_candle where
  "eastern_bar = \<lparr>r_local = 9 * 60 * us_min, r_tz = Some (120 * us_min), r_open = Fin 1, r_high = Fin 1, r_low = Fin 1,
     r_close = Fin 1, r_volume = Fin 1\<rparr>"

theorem auto_open_ignores_offset:
  "parse_hhmm digits_only (first_time eastern_bar) = Inr (9 * 60 * us_min)"
  "utc \<lparr>local_us = r_local eastern_bar, tz_off = 120 * us_min\<rparr> mod us_day = 7 * 60 * us_min"
  by code_simp+

end
