(* ===== verification/Spec2Isabelle.thy ===== *)
theory Spec2Isabelle
  imports Orb_Properties Exit_Properties Guard_Properties Broker_Properties Svp_Properties
    Smc_Market_Properties Smc_Properties Market_Clock Macro_Properties Live_Properties Live_Sizing
    Macro_Sidecar_Properties Trade_Properties Event_Schema Feed_Properties Analytics_Properties Simulator_Properties
    Sweep_Properties Live_Report Command_Properties
begin

text \<open>
  FreqTrading: a live trading program in Python. One-minute candles drive one of three strategy
  engines; the signals an engine returns pass a chain of guards, are sized, and become orders
  through a MetaTrader 5 adapter; after each bar an exit manager and a synchronisation step keep
  the broker's positions and the engine's state together. Around that path stand the feeds that
  deliver candles, a separate process that scores macro news into a state document the trading
  process reads, the events it sends to a leader node that followers poll, and offline statistics.
  This library models all of these and proves what makes each part and the whole correct.

  THE PARTS. Each group of definitions follows the order of its source file, a class as a record of
  its fields, a method as a function of the state it reads and writes, an exception as the left
  value of a sum (\<open>error\<close> in Models).

  Models: \<open>orb/models.py\<close>: candles and their validation, the ORB configuration, signals, transitions,
  positions. Prelude: exact numbers, Python's rounding, timestamps, bounded lists.
  Session: \<open>orb/session.py\<close>: zones and session ids. Indicators: \<open>orb/indicators.py\<close>: Wilder ATR, ROC,
  volume average, each behind the locale \<open>stream_indicator\<close>.
  Engine_Interface: \<open>orb/stream.py\<close>: the run over candles, and the contract of an engine as the
  locales \<open>candle_engine\<close> and \<open>observed_engine\<close>: an invariant, signals that tell the position truly,
  callbacks that see everything. What follows for whole streams is proved once from the contract.
  Orb_Engine, Orb_Correct, Orb_Properties: \<open>orb/engine.py\<close>, the opening-range breakout engine.
  Svp_Profile, Svp_Profile_Properties: \<open>orb/svp/\<close> without the strategy: the volume histogram, point of
  control, value area, nodes, shape, swings. Svp_Engine, Svp_Correct, Svp_Properties:
  \<open>orb/svp/strategy.py\<close>, the profile engine.
  Smc_Market, Smc_Market_Properties: \<open>orb/smc/\<close> without the strategy: timeframe aggregation, structure,
  order blocks. Smc_Engine, Smc_Correct, Smc_Properties: \<open>orb/smc/strategy.py\<close>.
  Each engine is an interpretation of \<open>observed_engine\<close>.
  Exits, Exit_Properties: \<open>orb/babysitter.py\<close> and \<open>orb/smc/exits.py\<close>, two interpretations of the
  locale \<open>exit_sitter\<close>.
  Guards, Guard_Properties: \<open>orb/riskguard.py\<close>, \<open>orb/execguard.py\<close>, \<open>orb/svp/sizing.py\<close>.
  Retcodes: \<open>orb/broker/retcodes.py\<close>. Broker, Broker_Properties: \<open>orb/broker/mt5.py\<close>.
  Market_Clock: \<open>orb/quarters.py\<close> and \<open>orb/trueopen.py\<close>.
  Macro_Guard, Macro_Properties: \<open>orb/macroguard.py\<close>.
  Live_Engine: the union of the three engines, itself an interpretation of \<open>observed_engine\<close>, and
  \<open>orb/brokerstate.py\<close>. Live, Live_Correct, Live_Properties, Live_Sizing: \<open>cmd_live\<close> of \<open>orb/cli.py\<close>.
  Text_Time: the texts and calendar of Python's library these parts use. Json_Shape: JSON documents
  of a given shape. Window_Reader: the locale \<open>window_reader\<close> of the three pollers.
  Feeds, Feed_Properties: \<open>orb/feeds/\<close> and \<open>orb/symbols.py\<close>.
  Macro_Sidecar: the scoring of \<open>macro/\<close>; Macro_Daemon: its loop, series reductions, atomic write and
  backtest overlay; Macro_Sidecar_Properties: what the documents promise the guard.
  Trade_Events: \<open>orb/tradeevents.py\<close>. Copy_Trade: \<open>orb/broadcast.py\<close> as a step relation of two threads,
  \<open>leader/store.py\<close>, \<open>leader/server.py\<close> and the follower. Trade_Properties: what delivery promises.
  Event_Schema: the fields and the action matrix of \<open>docs/copytrade_schema.md\<close> as data, and the adapter's
  events measured by them.
  Analytics, Analytics_Properties: \<open>orb/analytics.py\<close>. Simulator, Simulator_Properties:
  \<open>scripts/sim_realistic.py\<close>, the backtest that drives the same engines, exits and guards against a
  simulated broker (\<open>sim_bar\<close> is \<open>Sim.on_bar\<close>; \<open>run\<close>, \<open>run_svp\<close>, \<open>run_smc\<close> are its three studies). Sweep_Study, Sweep_Properties: \<open>scripts/backtest_sweep.py\<close>.
  Live_Report: \<open>scripts/live_report.py\<close>. Command_Line, Command_Properties: the rest of \<open>orb/cli.py\<close>, from
  flags and files to the engines and guards that the replay and live commands start.

  HOW THEY MEET. \<open>live_bar\<close> is one turn of the program: the engine's \<open>eng_candle\<close>; if it returned a
  signal, \<open>on_signal\<close> (filters, macro guard, sizing, spread, \<open>execute\<close>, fill check); then \<open>on_bar\<close>
  (spike cancel, daily breaker, macro risk-off, limit expiry, exit manager, synchronisation with
  \<open>force_flat\<close>). \<open>live_run\<close> is the loop. The shared variables of the two closures are the record
  \<open>live\<close>. \<open>live_refines_stream\<close> shows that all this moves the engine only as \<open>stream_run\<close> does, so
  everything proved of streams holds of the live program. The two processes meet in the state
  document: \<open>doc_json\<close> of what \<open>build_state\<close> makes is what \<open>from_dict\<close> of the guard reads. The adapter's
  events become payloads (\<open>adapter_event\<close>), the sender signs them (\<open>send_request\<close>) and the leader's
  \<open>do_post\<close> checks and stores them.

  WHAT THE LEMMAS SHOW. Engines: entries and exits alternate over any stream, callbacks are complete,
  every entry satisfies the strategy's conditions with its stop on the protective side, stops only
  tighten, errors come from named sources only. Indicators, profile, aggregator, true opens, macro
  cache: equality with a reference definition over the whole history. Exits: stops never loosen,
  closes never exceed the position. Guards: halts exactly when the limit is reached, sizes within
  budget, windows that parse back. Broker: resending that ends and is bounded, with a retry policy at
  most one fill per entry (without one only if no answer is lost), risk distance kept, no order on a
  real account without permission. Macro: vetoes rest on fresh states. Live: no trade
  opens past a guard, a halted day stays shut, no ghost position survives a bar, sizes stay within
  budget down to the terminal. Feeds: candles in strict order, complete while batches overlap.
  Sidecar: typed documents that read back, windows that stop trading, sentiment that never vetoes.
  Delivery: on every interleaving nothing is lost uncounted but by a failing disk, and order is kept
  unless the spool's size cannot be read; only signed objects are stored, with increasing numbers as long
  as no write is cut short and the file can be read; payloads that follow the schema but for the cells
  named; followers that see each event once. Backtest: books that balance over every study, stops taken before
  profits, the live aggregator's candles, a summary that agrees with the analytics, whose drawdown is
  the greatest fall of the equity curve; sweep trades that lose no more than they were sized for.
  Command line: the engine and guards it starts are the ones the flags ask for, the engine in its
  invariant; a replay prints what the stream over the file's candles signals.
  Theorems named after a shortfall are concrete runs or exact
  statements where the code does not do what it, or its comments, mean to.

  ABSTRACTIONS. Floats are exact rationals (\<open>flt\<close>): rounding of single operations and overflow are
  not modelled, explicit \<open>round\<close> calls and epsilons are; raw market values and JSON numbers may be
  NaN or infinite (\<open>pyfloat\<close>). Timestamps are microseconds with a fixed offset. Log and console text
  is left out; a transition's detail and a macro reason are structured data, and the digits of a
  price inside a reason text are left out. Snapshots for display are left out.
  Parameters, because they are not in the repository: the MetaTrader terminal (\<open>terminal\<close>, functions
  on an unknown world), New York's offset (\<open>ny\<close>), Python's parsing of number and date texts
  (\<open>pytext\<close>), the powers of one half that weigh old news (\<open>half\<close>), square roots (\<open>sqroot\<close>), the keyed
  hash and JSON text (\<open>wire\<close>). Answers of network and disk are inputs of each step. Inputs of each bar: clocks, the observed macro file, whether the snapshot was
  refreshed, the spreads the ladder exit reads on demand. In \<open>stream_run\<close> the hook's decision to
  flatten is an input, and \<open>rr_signals\<close> holds the signals returned by bars and by the hook.

  TERMINATION AND BOUNDS. All recursions but one are structural or on a number that the code also
  bounds: the value-area loop on the rows outside the area. The broker's resend loop is \<open>while True\<close> and
  is modelled as such, by \<open>partial_function\<close>: not ending would be the value \<open>None\<close>, which \<open>send_bounded\<close>
  excludes. No fuel is used; the one branch a bound makes unreachable is shown dead.

  NOT MODELLED. The parser's declarations and the download of \<open>orb fetch\<close> in \<open>orb/cli.py\<close>; the asyncio
  plumbing; HTTP and the text formats of FRED, GDELT, RSS and CSV sources; the leader's HTTP framing
  and its ZMQ socket; the other studies and tools under \<open>scripts/\<close>; the MQL5 and Pine sources. What is left is I/O,
  console wiring or another language.
\<close>

end
